(* ===== verification/Prelude.thy ===== *)
theory Prelude
  imports Main "HOL-Library.Word"
begin

text \<open>
  Shared vocabulary of the development: the widths of the firmware's integers,
  the little-endian byte codecs that the C code writes out inline, the memory
  copy at an offset, and generic lemmas on lists and words that several
  components use.  The collection le_simps rewrites the byte codecs.
\<close>

unbundle bit_operations_syntax

named_theorems le_simps \<open>little-endian encoders and decoders\<close>

type_synonym u8 = "8 word"
type_synonym u16 = "16 word"
type_synonym u32 = "32 word"
type_synonym u64 = "64 word"
type_synonym bytes = "8 word list"

text \<open>An external allocator: the k-th request, for n bytes, yields the (uninitialised)
  contents of the block, or nothing when the heap is exhausted.\<close>

type_synonym heap = "nat \<Rightarrow> nat \<Rightarrow> bytes option"

definition heap_sized :: "heap \<Rightarrow> bool" where
  "heap_sized mal \<longleftrightarrow> (\<forall>k n b. mal k n = Some b \<longrightarrow> length b = n)"

section \<open>Byte codecs\<close>

definition le16 :: "u8 \<Rightarrow> u8 \<Rightarrow> u16" where
  "le16 a b = (ucast a OR push_bit 8 (ucast b))"

definition le24 :: "u8 \<Rightarrow> u8 \<Rightarrow> u8 \<Rightarrow> u32" where
  "le24 a b c = (ucast a OR push_bit 8 (ucast b) OR push_bit 16 (ucast c))"

definition le32 :: "u8 \<Rightarrow> u8 \<Rightarrow> u8 \<Rightarrow> u8 \<Rightarrow> u32" where
  "le32 a b c d = (ucast a OR push_bit 8 (ucast b) OR push_bit 16 (ucast c) OR push_bit 24 (ucast d))"

definition put16 :: "u16 \<Rightarrow> bytes" where
  "put16 x = [ucast (x AND 0xFF), ucast (drop_bit 8 x)]"

definition put24 :: "u32 \<Rightarrow> bytes" where
  "put24 x = [ucast (x AND 0xFF), ucast (drop_bit 8 x AND 0xFF), ucast (drop_bit 16 x AND 0xFF)]"

definition put32 :: "u32 \<Rightarrow> bytes" where
  "put32 x = [ucast (x AND 0xFF), ucast (drop_bit 8 x AND 0xFF),
              ucast (drop_bit 16 x AND 0xFF), ucast (drop_bit 24 x AND 0xFF)]"

lemma length_put16 [simp]: "length (put16 x) = 2"
  by (simp add: put16_def)

lemma length_put24 [simp]: "length (put24 x) = 3"
  by (simp add: put24_def)

lemma length_put32 [simp]: "length (put32 x) = 4"
  by (simp add: put32_def)

lemma and_0xFF: "x AND 0xFF = take_bit 8 (x :: 'a::len word)"
proof -
  have "(mask 8 :: 'a word) = 0xFF" by (simp add: mask_eq_exp_minus_1)
  then show ?thesis by (metis take_bit_eq_mask)
qed

lemma bit_ucast8: "bit (ucast (x :: 'a::len word) :: u8) n \<longleftrightarrow> n < 8 \<and> bit x n"
  by (auto simp: bit_simps)

lemma ucast_and_0xFF [simp]: "(ucast (x AND 0xFF) :: u8) = ucast (x :: 'a::len word)"
  by (rule bit_word_eqI) (auto simp: and_0xFF bit_ucast8 bit_take_bit_iff)

lemma unat_of_nat_small:
  "n < 2 ^ LENGTH('a::len) \<Longrightarrow> unat (of_nat n :: 'a word) = n"
  by (simp add: unat_of_nat take_bit_nat_eq_self)

lemma unat_power_two: "k < LENGTH('a::len) \<Longrightarrow> unat (2 ^ k :: 'a word) = 2 ^ k"
  using unat_of_nat_small[of "2 ^ k", where 'a = 'a] by simp

lemma xor_left_cancel: "c XOR x = c XOR y \<longleftrightarrow> x = (y :: 'a::len word)"
  by (auto simp: bit_eq_iff bit_xor_iff)

lemma xor_right_cancel: "x XOR c = y XOR c \<longleftrightarrow> x = (y :: 'a::len word)"
  by (auto simp: bit_eq_iff bit_xor_iff)

lemma ucast_inj_up: "LENGTH('a) \<le> LENGTH('b) \<Longrightarrow>
    (ucast x :: 'b::len word) = ucast y \<longleftrightarrow> x = (y :: 'a::len word)"
  by (auto simp: bit_eq_iff bit_unsigned_iff dest: bit_imp_le_length)

lemma push_bit_inj_up: "push_bit n (ucast x :: 'b::len word) = push_bit n (ucast y) \<Longrightarrow>
    LENGTH('a) + n \<le> LENGTH('b) \<Longrightarrow> x = (y :: 'a::len word)"
proof (rule bit_word_eqI)
  fix m assume eq: "push_bit n (ucast x :: 'b word) = push_bit n (ucast y)"
    and le: "LENGTH('a) + n \<le> LENGTH('b)" and m: "m < LENGTH('a)"
  have "bit (push_bit n (ucast x :: 'b word)) (m + n) = bit (push_bit n (ucast y :: 'b word)) (m + n)"
    using eq by simp
  then show "bit x m = bit y m"
    using le m by (simp add: bit_push_bit_iff bit_unsigned_iff)
qed

lemma word_high_bits_zero:
  fixes x :: "'a::len word"
  assumes "x < 2 ^ k" "k \<le> n" "k < LENGTH('a)"
  shows "\<not> bit x n"
proof -
  have "unat x < 2 ^ k"
    using assms by (simp add: word_less_nat_alt unat_power_two)
  then have "take_bit k (unat x) = unat x" by (rule take_bit_nat_eq_self)
  then have "take_bit k x = x" by (metis unsigned_take_bit_eq word_unat_eq_iff)
  then show ?thesis using assms(2) by (metis bit_take_bit_iff not_less)
qed

lemma le16_put16 [le_simps]: "le16 (ucast x) (ucast (drop_bit 8 x)) = x"
  by (rule bit_word_eqI) (auto simp: le16_def bit_or_iff bit_push_bit_iff bit_unsigned_iff bit_drop_bit_eq)

lemma le24_put24 [le_simps]:
  assumes "x < 2 ^ 24"
  shows "le24 (ucast x) (ucast (drop_bit 8 x)) (ucast (drop_bit 16 x)) = x"
proof (rule bit_word_eqI)
  fix n
  have "\<not> bit x n" if "24 \<le> n" using word_high_bits_zero[OF assms that] by simp
  then show "bit (le24 (ucast x) (ucast (drop_bit 8 x)) (ucast (drop_bit 16 x))) n = bit x n"
    by (cases "n < 8"; cases "n < 16"; cases "n < 24")
      (auto simp: le24_def bit_or_iff bit_push_bit_iff bit_unsigned_iff bit_drop_bit_eq)
qed

lemma le32_put32 [le_simps]:
  "le32 (ucast x) (ucast (drop_bit 8 x)) (ucast (drop_bit 16 x)) (ucast (drop_bit 24 x)) = x"
proof (rule bit_word_eqI)
  fix n assume "n < LENGTH(32)"
  then show "bit (le32 (ucast x) (ucast (drop_bit 8 x)) (ucast (drop_bit 16 x)) (ucast (drop_bit 24 x))) n = bit x n"
    by (cases "n < 8"; cases "n < 16"; cases "n < 24")
      (auto simp: le32_def bit_or_iff bit_push_bit_iff bit_unsigned_iff bit_drop_bit_eq)
qed

section \<open>Copying into a buffer\<close>

text \<open>The C call memcpy(dst + off, src, n) on a destination that is long enough.\<close>

definition memcpy_at :: "'a list \<Rightarrow> nat \<Rightarrow> 'a list \<Rightarrow> 'a list" where
  "memcpy_at dst off src = take off dst @ src @ drop (off + length src) dst"

lemma length_memcpy_at [simp]:
  "off + length src \<le> length dst \<Longrightarrow> length (memcpy_at dst off src) = length dst"
  by (simp add: memcpy_at_def)

lemma take_memcpy_at [simp]:
  "off + length src \<le> length dst \<Longrightarrow> take (off + length src) (memcpy_at dst off src) = take off dst @ src"
  by (simp add: memcpy_at_def)

section \<open>Words as bounded counters\<close>

lemma unat_add_no_wrap:
  fixes x y :: "'a::len word"
  assumes "unat x + unat y < 2 ^ LENGTH('a)"
  shows "unat (x + y) = unat x + unat y"
  using assms by (simp add: unat_add_lem)

section \<open>Stream consumers\<close>

text \<open>
  Everything in the firmware that eats a byte stream in pieces of arbitrary size
  is specified by an automaton that takes one byte: it yields the next state,
  the outputs made, and whether the rest of the piece is thrown away.
\<close>

primrec run_bytes :: "('v \<Rightarrow> 'a \<Rightarrow> 'v \<times> 'b list \<times> bool) \<Rightarrow> 'v \<Rightarrow> 'a list \<Rightarrow> 'v \<times> 'b list \<times> bool" where
  "run_bytes byte d [] = (d, [], False)"
| "run_bytes byte d (b # bs) =
     (let (d1, o1, stop) = byte d b in
      if stop then (d1, o1, True)
      else let (d2, o2, stop2) = run_bytes byte d1 bs in (d2, o1 @ o2, stop2))"

lemma run_bytes_append:
  "run_bytes byte d (xs @ ys) =
    (let (d1, o1, stop) = run_bytes byte d xs in
     if stop then (d1, o1, True)
     else let (d2, o2, stop2) = run_bytes byte d1 ys in (d2, o1 @ o2, stop2))"
  by (induction xs arbitrary: d) (auto simp: Let_def split: prod.splits)

text \<open>Feeding the pieces one after another.\<close>

primrec feed_all :: "('s \<Rightarrow> 'a list \<Rightarrow> 's \<times> 'b list) \<Rightarrow> 's \<Rightarrow> 'a list list \<Rightarrow> 's \<times> 'b list" where
  "feed_all feed s [] = (s, [])"
| "feed_all feed s (c # cs) =
     (let (s1, o1) = feed s c; (s2, o2) = feed_all feed s1 cs in (s2, o1 @ o2))"

text \<open>The interface: the code's feed function keeps an invariant and implements the automaton
  under a view of its state.  The client's result is that, unless a piece is abandoned, the way
  the stream is cut does not matter.\<close>

locale stream_consumer =
  fixes feed :: "'s \<Rightarrow> 'a list \<Rightarrow> 's \<times> 'b list"
    and inv :: "'s \<Rightarrow> bool"
    and view :: "'s \<Rightarrow> 'v"
    and byte :: "'v \<Rightarrow> 'a \<Rightarrow> 'v \<times> 'b list \<times> bool"
  assumes feed_inv: "inv s \<Longrightarrow> inv (fst (feed s xs))"
    and feed_run: "inv s \<Longrightarrow>
      \<exists>stop. run_bytes byte (view s) xs = (view (fst (feed s xs)), snd (feed s xs), stop)"
begin

lemma feed_all_inv: "inv s \<Longrightarrow> inv (fst (feed_all feed s cs))"
  by (induction cs arbitrary: s) (auto simp: Let_def case_prod_beta feed_inv)

lemma feed_all_run:
  "inv s \<Longrightarrow> run_bytes byte (view s) (concat cs) = (d, out, False) \<Longrightarrow>
    view (fst (feed_all feed s cs)) = d \<and> snd (feed_all feed s cs) = out"
proof (induction cs arbitrary: s d out)
  case (Cons c cs)
  obtain stop where c: "run_bytes byte (view s) c = (view (fst (feed s c)), snd (feed s c), stop)"
    using feed_run Cons.prems(1) by blast
  obtain o2 where o2: "run_bytes byte (view (fst (feed s c))) (concat cs) = (d, o2, False)" "out = snd (feed s c) @ o2"
    using Cons.prems(2) c by (auto simp: run_bytes_append Let_def split: if_splits prod.splits)
  then show ?case
    using Cons.IH[of "fst (feed s c)"] Cons.prems(1) by (auto simp: Let_def case_prod_beta feed_inv)
qed auto

lemma rechunk:
  assumes "inv s" "\<not> snd (snd (run_bytes byte (view s) (concat cs)))" "concat cs = concat ds"
  shows "snd (feed_all feed s cs) = snd (feed_all feed s ds)" "view (fst (feed_all feed s cs)) = view (fst (feed_all feed s ds))"
  using feed_all_run[OF assms(1), of cs] feed_all_run[OF assms(1), of ds] assms(2,3) by (metis prod.collapse)+

end

section \<open>Event machines\<close>

text \<open>
  The actors of the firmware are tasks that wait for an event, change their static variables and send
  messages.  One event is a step on the record of those variables with the list of what was sent.
\<close>

primrec run_events :: "('s \<Rightarrow> 'e \<Rightarrow> 's \<times> 'o list) \<Rightarrow> 's \<Rightarrow> 'e list \<Rightarrow> 's \<times> 'o list" where
  "run_events step s [] = (s, [])"
| "run_events step s (e # es) =
     (let (s1, o1) = step s e; (s2, o2) = run_events step s1 es in (s2, o1 @ o2))"

lemma run_events_append:
  "run_events step s (xs @ ys) =
    (let (s1, o1) = run_events step s xs; (s2, o2) = run_events step s1 ys in (s2, o1 @ o2))"
  by (induction xs arbitrary: s) (auto simp: Let_def split: prod.splits)

lemma run_events_split:
  "run_events f s (es @ es') = (fst (run_events f (fst (run_events f s es)) es'),
     snd (run_events f s es) @ snd (run_events f (fst (run_events f s es)) es'))"
  by (induction es arbitrary: s) (auto simp: Let_def case_prod_beta)

text \<open>The contract of such a machine: an invariant that every admissible event keeps.\<close>

locale event_machine =
  fixes step :: "'s \<Rightarrow> 'e \<Rightarrow> 's \<times> 'o list"
    and inv :: "'s \<Rightarrow> bool"
    and ok :: "'e \<Rightarrow> bool"
  assumes step_inv: "inv s \<Longrightarrow> ok e \<Longrightarrow> inv (fst (step s e))"
begin

lemma run_inv: "inv s \<Longrightarrow> list_all ok es \<Longrightarrow> inv (fst (run_events step s es))"
  by (induction es arbitrary: s) (auto simp: Let_def case_prod_beta step_inv)

end

text \<open>A machine that implements an abstract one: its view makes the abstract step and what the observer sees of
  its outputs is what the abstract machine emits.\<close>

locale refined_machine = event_machine step inv ok
  for step :: "'s \<Rightarrow> 'e \<Rightarrow> 's \<times> 'o list" and inv :: "'s \<Rightarrow> bool" and ok :: "'e \<Rightarrow> bool" +
  fixes view :: "'s \<Rightarrow> 'v"
    and seen :: "'o list \<Rightarrow> 'p list"
    and astep :: "'v \<Rightarrow> 'e \<Rightarrow> 'v \<times> 'p list"
  assumes simulates: "inv s \<Longrightarrow> ok e \<Longrightarrow> astep (view s) e = (view (fst (step s e)), seen (snd (step s e)))"
    and seen_nil: "seen [] = []"
    and seen_append: "seen (xs @ ys) = seen xs @ seen ys"
begin

lemma run_simulates:
  "inv s \<Longrightarrow> list_all ok es \<Longrightarrow>
    run_events astep (view s) es = (view (fst (run_events step s es)), seen (snd (run_events step s es)))"
  by (induction es arbitrary: s) (auto simp: Let_def case_prod_beta step_inv simulates seen_nil seen_append)

end

end
