(* ===== verification/BSP_Crc.thy ===== *)
theory BSP_Crc
  imports Prelude
begin

text \<open>
  The two checksums of the BLE serial protocol: the CRC-CCITT of the frames
  (bsp_crc16 in main/ble/bsp.c) and the CRC-32 of file transfers (crc32_byte in
  main/ble/bsp_file.c).  The lemmas show that both are computed piecewise, and
  that the register update is injective in the register and in the byte, so
  that a corrupted byte always changes the checksum.
\<close>

section \<open>CRC-CCITT\<close>

text \<open>One turn of the inner loop, one byte of the outer loop, the whole function.\<close>

definition crc16_bit :: "u16 \<Rightarrow> u16" where
  "crc16_bit crc = (if crc AND 0x8000 \<noteq> 0 then push_bit 1 crc XOR 0x1021 else push_bit 1 crc)"

definition crc16_byte :: "u16 \<Rightarrow> u8 \<Rightarrow> u16" where
  "crc16_byte crc d = (crc16_bit ^^ 8) (crc XOR push_bit 8 (ucast d))"

definition bsp_crc16 :: "bytes \<Rightarrow> u16 \<Rightarrow> u16" where
  "bsp_crc16 data len = foldl crc16_byte 0xFFFF (take (unat len) data)"

lemma msb_test: "crc AND 0x8000 \<noteq> 0 \<longleftrightarrow> bit (crc :: u16) 15"
  using and_exp_eq_0_iff_not_bit[of crc 15] by simp

lemma bit_shl16: "bit (push_bit 1 z :: u16) n \<longleftrightarrow> 1 \<le> n \<and> n < 16 \<and> bit z (n - 1)"
  by (subst bit_push_bit_iff) auto

lemma crc16_bit_lsb: "bit (crc16_bit z) 0 \<longleftrightarrow> bit z 15"
  unfolding crc16_bit_def msb_test by (simp only: bit_shl16 bit_xor_iff if_distrib split: if_split) simp

lemma crc16_bit_inj:
  assumes "crc16_bit x = crc16_bit y"
  shows "x = y"
proof (rule bit_word_eqI)
  have msb: "bit x 15 \<longleftrightarrow> bit y 15" using assms crc16_bit_lsb by metis
  then have sh: "push_bit 1 x = push_bit 1 y"
    using assms unfolding crc16_bit_def msb_test by (cases "bit x 15") (simp_all only: xor_right_cancel simp_thms if_True if_False)
  fix n assume "n < LENGTH(16)"
  then consider "n = 15" | "n < 15" by fastforce
  then show "bit x n \<longleftrightarrow> bit y n"
  proof cases
    case 2
    then show ?thesis using arg_cong[OF sh, of "\<lambda>z. bit z (Suc n)"] unfolding bit_shl16 by simp
  qed (use msb in simp)
qed

lemma crc16_bits_inj: "(crc16_bit ^^ n) x = (crc16_bit ^^ n) y \<Longrightarrow> x = y"
  by (induction n) (auto dest: crc16_bit_inj)

lemma crc16_byte_inj_reg: "crc16_byte c b = crc16_byte c' b \<Longrightarrow> c = c'"
  unfolding crc16_byte_def by (drule crc16_bits_inj) (simp only: xor_right_cancel)

lemma crc16_byte_inj_data: "crc16_byte c b = crc16_byte c b' \<Longrightarrow> b = b'"
  unfolding crc16_byte_def by (drule crc16_bits_inj) (drule iffD1[OF xor_left_cancel], erule push_bit_inj_up, simp)

lemma crc16_foldl_inj: "foldl crc16_byte c xs = foldl crc16_byte c' xs \<Longrightarrow> c = c'"
  by (induction xs arbitrary: c c') (auto dest: crc16_byte_inj_reg)

lemma crc16_one_byte_off:
  assumes "b \<noteq> b'"
  shows "foldl crc16_byte c (xs @ b # ys) \<noteq> foldl crc16_byte c (xs @ b' # ys)"
  using assms by (auto dest!: crc16_foldl_inj crc16_byte_inj_data)

lemma bsp_crc16_all: "length data < 2 ^ 16 \<Longrightarrow> bsp_crc16 data (of_nat (length data)) = foldl crc16_byte 0xFFFF data"
  by (simp add: bsp_crc16_def unat_of_nat_small)

section \<open>CRC-32\<close>

definition crc32_bit :: "u32 \<Rightarrow> u32" where
  "crc32_bit crc = drop_bit 1 crc XOR (0xEDB88320 AND (- (crc AND 1)))"

definition crc32_byte :: "u32 \<Rightarrow> u8 \<Rightarrow> u32" where
  "crc32_byte crc b = (crc32_bit ^^ 8) (crc XOR ucast b)"

text \<open>The loop that both the GET and the PUT side run over a buffer.\<close>

definition crc32_buf :: "u32 \<Rightarrow> bytes \<Rightarrow> u32" where
  "crc32_buf crc xs = foldl crc32_byte crc xs"

lemma crc32_buf_nil [simp]: "crc32_buf c [] = c"
  by (simp add: crc32_buf_def)

lemma crc32_buf_append: "crc32_buf c (xs @ ys) = crc32_buf (crc32_buf c xs) ys"
  by (simp add: crc32_buf_def)

lemma crc32_mask: "- (z AND 1) = (if bit z 0 then - 1 else (0 :: u32))"
  by (simp add: and_one_eq bit_0 odd_iff_mod_2_eq_one)

lemma bit_shr32: "bit (drop_bit 1 z :: u32) n \<longleftrightarrow> bit z (Suc n)"
  by (simp only: bit_drop_bit_eq o_apply plus_1_eq_Suc)

lemma crc32_bit_msb: "bit (crc32_bit z) 31 \<longleftrightarrow> bit z 0"
proof -
  have "bit (0xEDB88320 :: u32) 31" by simp
  moreover have "\<not> bit z 32" using bit_imp_le_length[of z 32] by auto
  ultimately show ?thesis unfolding crc32_bit_def crc32_mask by (simp only: bit_shr32 bit_xor_iff split: if_split) simp
qed

lemma crc32_bit_inj:
  assumes "crc32_bit x = crc32_bit y"
  shows "x = y"
proof (rule bit_word_eqI)
  have low: "bit x 0 \<longleftrightarrow> bit y 0" using assms crc32_bit_msb by metis
  then have sh: "drop_bit 1 x = drop_bit 1 y"
    using assms unfolding crc32_bit_def crc32_mask by (simp only: xor_right_cancel split: if_splits)
  fix n
  show "bit x n \<longleftrightarrow> bit y n"
  proof (cases n)
    case (Suc m)
    then show ?thesis using arg_cong[OF sh, of "\<lambda>z. bit z m"] unfolding bit_shr32 by simp
  qed (use low in simp)
qed

lemma crc32_bits_inj: "(crc32_bit ^^ n) x = (crc32_bit ^^ n) y \<Longrightarrow> x = y"
  by (induction n) (auto dest: crc32_bit_inj)

lemma crc32_byte_inj_reg: "crc32_byte c b = crc32_byte c' b \<Longrightarrow> c = c'"
  unfolding crc32_byte_def by (drule crc32_bits_inj) (simp only: xor_right_cancel)

lemma crc32_byte_inj_data: "crc32_byte c b = crc32_byte c b' \<Longrightarrow> b = b'"
  unfolding crc32_byte_def by (drule crc32_bits_inj) (simp add: xor_left_cancel ucast_inj_up)

lemma crc32_foldl_inj: "crc32_buf c xs = crc32_buf c' xs \<Longrightarrow> c = c'"
  unfolding crc32_buf_def by (induction xs arbitrary: c c') (auto dest: crc32_byte_inj_reg)

lemma crc32_one_byte_off:
  "b \<noteq> b' \<Longrightarrow> crc32_buf c (xs @ b # ys) \<noteq> crc32_buf c (xs @ b' # ys)"
  unfolding crc32_buf_append
  by (auto simp: crc32_buf_def dest!: crc32_foldl_inj[unfolded crc32_buf_def] crc32_byte_inj_data)

text \<open>Both registers are stream consumers without outputs.\<close>

lemma run_bytes_foldl: "run_bytes (\<lambda>c b. (f c b, [], False)) c xs = (foldl f c xs, [], False)"
  by (induction xs arbitrary: c) auto

interpretation crc16: stream_consumer "\<lambda>c xs. (foldl crc16_byte c xs, [] :: unit list)" "\<lambda>c. True"
  "\<lambda>c. c" "\<lambda>c b. (crc16_byte c b, [], False)"
  by unfold_locales (auto simp: run_bytes_foldl)

interpretation crc32: stream_consumer "\<lambda>c xs. (crc32_buf c xs, [] :: unit list)" "\<lambda>c. True"
  "\<lambda>c. c" "\<lambda>c b. (crc32_byte c b, [], False)"
  by unfold_locales (auto simp: run_bytes_foldl crc32_buf_def)

end
