(* ===== verification/BSP_Record.thy ===== *)
theory BSP_Record
  imports Prelude
begin

text \<open>
  The BSP record reassembler (g_rec, bsp_record_reset and bsp_record_feed in
  main/ble/bsp.c): a record is a channel byte, a 24-bit little-endian length and
  that many payload bytes, cut arbitrarily into DATA frames.  The model keeps the
  struct and the two phases of the loop; bsp_on_record is an output.  The heap is
  a parameter.  An abstract automaton that eats one byte at a time is the
  specification; the lemmas show that the code implements it, that the cutting
  into frames does not matter, and that every record whose buffer could be
  allocated is delivered exactly.
\<close>

section \<open>The code\<close>

record rec_st =
  hdr :: bytes
  hdr_fill :: u8
  channel :: u8
  rec_len :: u32
  rec_fill :: u32
  rbuf :: "bytes option"

definition rec_zero :: rec_st where
  "rec_zero = \<lparr>hdr = [0, 0, 0, 0], hdr_fill = 0, channel = 0, rec_len = 0, rec_fill = 0, rbuf = None\<rparr>"

definition bsp_record_reset :: "rec_st \<Rightarrow> rec_st" where
  "bsp_record_reset g = rec_zero"

definition BSP_REC_MAX :: u32 where
  "BSP_REC_MAX = 4 * 1024 * 1024"

type_synonym rec_out = "u8 \<times> bytes"
type_synonym rec_world = "rec_st \<times> nat"

text \<open>Phase A: return from the function, continue the loop (with the outputs made), or
  fall through to phase B.  The second component of the world counts heap requests.\<close>

datatype phase_a_result =
    A_return rec_world
  | A_continue rec_world bytes "rec_out list"
  | A_body rec_world bytes

definition rec_phase_a :: "heap \<Rightarrow> rec_world \<Rightarrow> bytes \<Rightarrow> phase_a_result" where
  "rec_phase_a mal s data = (let (g, k) = s in
     if hdr_fill g < 4 then
       let need = unat (4 - hdr_fill g);
           tk = (if length data < need then length data else need);
           g1 = g\<lparr>hdr := memcpy_at (hdr g) (unat (hdr_fill g)) (take tk data),
                  hdr_fill := hdr_fill g + of_nat tk\<rparr>;
           rest = drop tk data in
       if hdr_fill g1 < 4 then A_return (g1, k)
       else
         let g2 = g1\<lparr>channel := hdr g1 ! 0,
                    rec_len := le24 (hdr g1 ! 1) (hdr g1 ! 2) (hdr g1 ! 3),
                    rec_fill := 0, rbuf := None\<rparr> in
         if rec_len g2 > BSP_REC_MAX then A_return (rec_zero, k)
         else if rec_len g2 = 0 then A_continue (g2\<lparr>hdr_fill := 0\<rparr>, k) rest [(channel g2, [])]
         else A_body (g2\<lparr>rbuf := mal k (unat (rec_len g2))\<rparr>, Suc k) rest
     else A_body s data)"

definition rec_phase_b :: "rec_st \<Rightarrow> bytes \<Rightarrow> rec_st \<times> bytes \<times> rec_out list" where
  "rec_phase_b g data = (
     let need = unat (rec_len g - rec_fill g);
         avail = length data;
         tk = (if avail < need then avail else need);
         g1 = g\<lparr>rbuf := map_option (\<lambda>b. memcpy_at b (unat (rec_fill g)) (take tk data)) (rbuf g),
                rec_fill := rec_fill g + of_nat tk\<rparr>;
         rest = drop tk data in
     if rec_fill g1 \<ge> rec_len g1 then
       (g1\<lparr>rbuf := None, hdr_fill := 0, rec_len := 0\<rparr>, rest,
        (case rbuf g1 of None \<Rightarrow> [] | Some b \<Rightarrow> [(channel g1, b)]))
     else (g1, rest, []))"

lemma rec_phase_a_shrinks:
  assumes "data \<noteq> []"
  shows "rec_phase_a mal s data = A_continue s' rest out \<Longrightarrow> length rest < length data"
    and "rec_phase_a mal s data = A_body s' rest \<Longrightarrow>
      length rest < length data \<or> (rest = data \<and> s' = s \<and> \<not> hdr_fill (fst s) < 4)"
  using assms
  by (auto simp: rec_phase_a_def Let_def word_less_nat_alt unat_sub_if_size unat_eq_0
      split: prod.splits if_splits)

lemma rec_phase_b_progress:
  assumes "rec_phase_b g data = (g', rest, out)"
  shows "length rest \<le> length data \<and> (hdr_fill g' = 0 \<or> (rest = [] \<and> hdr_fill g' = hdr_fill g))"
proof -
  have "rec_fill g + of_nat (unat (rec_len g - rec_fill g)) = rec_len g" by simp
  then show ?thesis
    using assms by (auto simp: rec_phase_b_def Let_def split: if_splits)
qed

function bsp_record_feed :: "heap \<Rightarrow> rec_world \<Rightarrow> bytes \<Rightarrow> rec_world \<times> rec_out list" where
  "bsp_record_feed mal s data = (
     if data = [] then (s, [])
     else case rec_phase_a mal s data of
       A_return s1 \<Rightarrow> (s1, [])
     | A_continue s1 rest out \<Rightarrow> (let (s2, o2) = bsp_record_feed mal s1 rest in (s2, out @ o2))
     | A_body s1 rest \<Rightarrow>
         (let (g2, rest2, out) = rec_phase_b (fst s1) rest;
              (s3, o3) = bsp_record_feed mal (g2, snd s1) rest2 in (s3, out @ o3)))"
  by pat_completeness auto
termination
proof (relation "measure (\<lambda>(mal, s, data). 2 * length data + (if hdr_fill (fst s) < 4 then 0 else 1))",
    goal_cases)
  case (2 mal s data s1 rest out)
  then show ?case using rec_phase_a_shrinks(1)[of data mal s s1 rest out] by simp
next
  case prems: (3 mal s data s1 rest r g2 r2 rest2 out)
  then show ?case
    using rec_phase_a_shrinks(2)[of data mal s s1 rest] rec_phase_b_progress[of "fst s1" rest g2 rest2 out]
    by (auto split: if_splits)
qed simp

declare bsp_record_feed.simps [simp del]

lemma bsp_record_feed_nil [simp]: "bsp_record_feed mal s [] = (s, [])"
  by (simp add: bsp_record_feed.simps)

section \<open>The abstract automaton\<close>

text \<open>Either part of a header has been read, or a body is under way: its channel, the number
  of bytes still to come and, unless its buffer could not be allocated, those read so far.\<close>

datatype demux = Head bytes | Body u8 nat "bytes option"

type_synonym demux_world = "demux \<times> nat"

text \<open>A byte; the last component says that the rest of the frame is to be dropped.\<close>

fun demux_byte :: "heap \<Rightarrow> demux_world \<Rightarrow> u8 \<Rightarrow> demux_world \<times> rec_out list \<times> bool" where
  "demux_byte mal (Head h, k) b =
     (if length h < 3 then ((Head (h @ [b]), k), [], False)
      else let n = le24 (h ! 1) (h ! 2) b in
        if n > BSP_REC_MAX then ((Head [], k), [], True)
        else if n = 0 then ((Head [], k), [(h ! 0, [])], False)
        else ((Body (h ! 0) (unat n) (map_option (\<lambda>_. []) (mal k (unat n))), Suc k), [], False))"
| "demux_byte mal (Body c r g, k) b =
     (let g' = map_option (\<lambda>xs. xs @ [b]) g in
      if r \<le> 1 then ((Head [], k), (case g' of None \<Rightarrow> [] | Some xs \<Rightarrow> [(c, xs)]), False)
      else ((Body c (r - 1) g', k), [], False))"

abbreviation demux_frame :: "heap \<Rightarrow> demux_world \<Rightarrow> bytes \<Rightarrow> demux_world \<times> rec_out list \<times> bool" where
  "demux_frame mal \<equiv> run_bytes (demux_byte mal)"

text \<open>The abstraction of the struct, and the invariant of the struct between frames.\<close>

definition demux_abs :: "rec_world \<Rightarrow> demux_world" where
  "demux_abs s = (let (g, k) = s in
     (if hdr_fill g < 4 then Head (take (unat (hdr_fill g)) (hdr g))
      else Body (channel g) (unat (rec_len g - rec_fill g))
             (map_option (take (unat (rec_fill g))) (rbuf g)), k))"

definition rec_inv :: "rec_st \<Rightarrow> bool" where
  "rec_inv g \<longleftrightarrow> length (hdr g) = 4 \<and>
     (if hdr_fill g < 4 then rbuf g = None
      else hdr_fill g = 4 \<and> rec_fill g < rec_len g \<and> rec_len g \<le> BSP_REC_MAX \<and>
           (\<forall>b. rbuf g = Some b \<longrightarrow> length b = unat (rec_len g)))"

lemma rec_inv_zero [simp]: "rec_inv rec_zero"
  by (simp add: rec_inv_def rec_zero_def)

lemma demux_abs_zero [simp]: "demux_abs (rec_zero, k) = (Head [], k)"
  by (simp add: demux_abs_def rec_zero_def)

lemmas demux_frame_append = run_bytes_append[of "demux_byte mal" for mal]

lemma demux_frame_head:
  "length h + length xs \<le> 3 \<Longrightarrow> demux_frame mal (Head h, k) xs = ((Head (h @ xs), k), [], False)"
  by (induction xs arbitrary: h) auto

lemma demux_frame_body:
  "length xs < r \<Longrightarrow> demux_frame mal (Body c r g, k) xs =
     ((Body c (r - length xs) (map_option (\<lambda>ys. ys @ xs) g), k), [], False)"
  by (induction xs arbitrary: r g) (auto simp: option.map_comp o_def option.map_ident)

lemma demux_frame_body_end:
  assumes "length xs = r" "0 < r"
  shows "demux_frame mal (Body c r g, k) xs =
     ((Head [], k), (case g of None \<Rightarrow> [] | Some ys \<Rightarrow> [(c, ys @ xs)]), False)"
proof -
  obtain ys b where xs: "xs = ys @ [b]" using assms by (cases xs rule: rev_cases) auto
  then have "length ys < r" "r - length ys = 1" using assms by auto
  then show ?thesis
    by (auto simp: xs demux_frame_append demux_frame_body split: option.splits)
qed

lemma demux_frame_head_end:
  assumes "length h + length xs = 4" "length h < 4"
  shows "demux_frame mal (Head h, k) (xs @ ys) =
    (let w = h @ xs; n = le24 (w ! 1) (w ! 2) (w ! 3) in
     if n > BSP_REC_MAX then ((Head [], k), [], True)
     else if n = 0 then (let (d, o2, stop) = demux_frame mal (Head [], k) ys in (d, (w ! 0, []) # o2, stop))
     else demux_frame mal (Body (w ! 0) (unat n) (map_option (\<lambda>_. []) (mal k (unat n))), Suc k) ys)"
proof -
  obtain zs b where xs: "xs = zs @ [b]" using assms by (cases xs rule: rev_cases) auto
  then have h: "length (h @ zs) = 3" using assms by auto
  have w: "(h @ xs) ! 0 = (h @ zs) ! 0" "(h @ xs) ! 1 = (h @ zs) ! 1"
      "(h @ xs) ! 2 = (h @ zs) ! 2" "(h @ xs) ! 3 = b"
    using h by (auto simp: xs nth_append)
  show ?thesis
    unfolding Let_def w
    using h by (simp add: xs demux_frame_append demux_frame_head Let_def split: prod.splits)
qed

section \<open>The code implements the automaton\<close>

lemma rec_phase_b_refines:
  assumes inv: "rec_inv g" and full: "\<not> hdr_fill g < 4"
    and step: "rec_phase_b g data = (g', rest, out)"
  shows "rec_inv g'"
    and "demux_frame mal (demux_abs (g, k)) data =
      (let (d, o2, stop) = demux_frame mal (demux_abs (g', k)) rest in (d, out @ o2, stop))"
proof -
  define r where "r = unat (rec_len g - rec_fill g)"
  have lt: "rec_fill g < rec_len g" using inv full by (simp add: rec_inv_def)
  have len: "unat (rec_len g) = unat (rec_fill g) + r"
    using lt by (simp add: r_def unat_sub_if_size word_less_nat_alt)
  have bound: "unat (rec_len g) < 2 ^ 32" using unsigned_less[of "rec_len g"] by simp
  have r0: "0 < r" using lt len by (simp add: word_less_nat_alt)
  have abs: "demux_abs (g, k) = (Body (channel g) r (map_option (take (unat (rec_fill g))) (rbuf g)), k)"
    using full by (simp add: demux_abs_def r_def)
  have "rec_inv g' \<and> demux_frame mal (demux_abs (g, k)) data =
      (let (d, o2, stop) = demux_frame mal (demux_abs (g', k)) rest in (d, out @ o2, stop))"
  proof (cases "length data < r")
    case True
    define f where "f = rec_fill g + of_nat (length data)"
    have f: "unat f = unat (rec_fill g) + length data"
      unfolding f_def using True len bound by (subst unat_add_no_wrap) (auto simp: unat_of_nat_small)
    have flt: "f < rec_len g" using f len True by (simp add: word_less_nat_alt)
    have fr: "unat (rec_len g - f) = r - length data"
      using f len True flt by (simp add: unat_sub word_le_nat_alt)
    have g': "g' = g\<lparr>rbuf := map_option (\<lambda>b. memcpy_at b (unat (rec_fill g)) data) (rbuf g), rec_fill := f\<rparr>"
        "rest = []" "out = []"
      using step True flt by (auto simp: rec_phase_b_def Let_def r_def[symmetric] f_def[symmetric] split: if_splits)
    have buf: "length b = unat (rec_len g)" if "rbuf g = Some b" for b
      using inv full that by (simp add: rec_inv_def)
    have "rec_inv g'"
      using inv full flt len f True buf by (auto simp: rec_inv_def g')
    moreover have "demux_abs (g', k) = (Body (channel g) (r - length data)
        (map_option (\<lambda>ys. ys @ data) (map_option (take (unat (rec_fill g))) (rbuf g))), k)"
    proof (cases "rbuf g")
      case (Some b)
      have "take (unat f) (memcpy_at b (unat (rec_fill g)) data) = take (unat (rec_fill g)) b @ data"
        unfolding f using buf[OF Some] len True by (intro take_memcpy_at) simp
      then show ?thesis using Some full fr by (simp add: demux_abs_def g')
    qed (use full fr in \<open>simp add: demux_abs_def g'\<close>)
    ultimately show ?thesis
      using True by (simp add: abs demux_frame_body g')
  next
    case False
    have g': "g' = g\<lparr>rbuf := None, rec_fill := rec_len g, hdr_fill := 0, rec_len := 0\<rparr>" "rest = drop r data"
        "out = (case rbuf g of None \<Rightarrow> []
                | Some b \<Rightarrow> [(channel g, memcpy_at b (unat (rec_fill g)) (take r data))])"
      using step False
      by (auto simp: rec_phase_b_def Let_def r_def[symmetric] split: if_splits option.splits)
        (simp_all add: r_def)
    have out: "out = (case map_option (take (unat (rec_fill g))) (rbuf g) of None \<Rightarrow> []
        | Some ys \<Rightarrow> [(channel g, ys @ take r data)])"
    proof (cases "rbuf g")
      case (Some b)
      have "length b = unat (rec_fill g) + r" using inv full Some len by (simp add: rec_inv_def)
      then show ?thesis using Some False by (simp add: g' memcpy_at_def)
    qed (simp add: g')
    have "rec_inv g'" using inv by (simp add: rec_inv_def g')
    moreover have "demux_abs (g', k) = (Head [], k)" by (simp add: demux_abs_def g')
    moreover have "demux_frame mal (demux_abs (g, k)) (take r data @ drop r data) =
        (let (d, o2, stop) = demux_frame mal (Head [], k) (drop r data) in (d, out @ o2, stop))"
      unfolding abs demux_frame_append using False r0
      by (subst demux_frame_body_end) (auto simp: out Let_def split: option.splits prod.splits)
    ultimately show ?thesis by (simp add: g')
  qed
  then show "rec_inv g'" and "demux_frame mal (demux_abs (g, k)) data =
      (let (d, o2, stop) = demux_frame mal (demux_abs (g', k)) rest in (d, out @ o2, stop))"
    by simp_all
qed

lemma rec_phase_a_short:
  assumes inv: "rec_inv g" and part: "hdr_fill g < 4"
    and short: "length data < unat (4 - hdr_fill g)"
  shows "\<exists>g1. rec_phase_a mal (g, k) data = A_return (g1, k) \<and> rec_inv g1 \<and>
      demux_frame mal (demux_abs (g, k)) data = (demux_abs (g1, k), [], False)"
proof -
  define f where "f = hdr_fill g + of_nat (length data)"
  have need: "unat (4 - hdr_fill g) = 4 - unat (hdr_fill g)" "unat (hdr_fill g) < 4"
    using part by (auto simp: word_less_nat_alt unat_sub_if_size)
  have f: "unat f = unat (hdr_fill g) + length data"
    unfolding f_def using short need by (subst unat_add_no_wrap) (auto simp: unat_of_nat_small)
  have flt: "f < 4" using f short need by (simp add: word_less_nat_alt)
  define g1 where "g1 = g\<lparr>hdr := memcpy_at (hdr g) (unat (hdr_fill g)) data, hdr_fill := f\<rparr>"
  have len: "length (hdr g) = 4" using inv by (simp add: rec_inv_def)
  have "rec_phase_a mal (g, k) data = A_return (g1, k)"
    using part short flt by (simp add: rec_phase_a_def Let_def f_def[symmetric] g1_def)
  moreover have "rec_inv g1"
    using inv part flt short need len by (simp add: rec_inv_def g1_def)
  moreover have "take (unat f) (hdr g1) = take (unat (hdr_fill g)) (hdr g) @ data"
    unfolding f g1_def using short need len by simp
  then have "demux_frame mal (demux_abs (g, k)) data = (demux_abs (g1, k), [], False)"
    using part flt need short len by (simp add: demux_abs_def g1_def demux_frame_head)
  ultimately show ?thesis by blast
qed

lemma rec_phase_a_full:
  assumes inv: "rec_inv g" and part: "hdr_fill g < 4"
    and long: "unat (4 - hdr_fill g) \<le> length data"
    and sized: "heap_sized mal"
    and rest: "rest = drop (unat (4 - hdr_fill g)) data"
  obtains (too_long) "rec_phase_a mal (g, k) data = A_return (rec_zero, k)"
      "demux_frame mal (demux_abs (g, k)) data = ((Head [], k), [], True)"
  | (empty) g2 where "rec_phase_a mal (g, k) data = A_continue (g2, k) rest [(channel g2, [])]" "rec_inv g2"
      "demux_frame mal (demux_abs (g, k)) data =
        (let (d, o2, stop) = demux_frame mal (demux_abs (g2, k)) rest in (d, [(channel g2, [])] @ o2, stop))"
  | (body) g2 where "rec_phase_a mal (g, k) data = A_body (g2, Suc k) rest" "rec_inv g2" "\<not> hdr_fill g2 < 4"
      "demux_frame mal (demux_abs (g, k)) data = demux_frame mal (demux_abs (g2, Suc k)) rest"
proof -
  define need where "need = unat (4 - hdr_fill g)"
  define h where "h = take (unat (hdr_fill g)) (hdr g)"
  define w where "w = h @ take need data"
  define n where "n = le24 (w ! 1) (w ! 2) (w ! 3)"
  have nd: "need = 4 - unat (hdr_fill g)" "unat (hdr_fill g) < 4" "0 < need"
    using part by (auto simp: need_def word_less_nat_alt unat_sub_if_size)
  have len: "length (hdr g) = 4" using inv by (simp add: rec_inv_def)
  have hl: "length h = unat (hdr_fill g)" using nd len by (simp add: h_def)
  have wl: "length w = 4" using hl nd long by (simp add: w_def need_def[symmetric])
  have cpy: "memcpy_at (hdr g) (unat (hdr_fill g)) (take need data) = w"
    using nd len long by (simp add: memcpy_at_def w_def h_def need_def[symmetric])
  have fill: "hdr_fill g + of_nat need = 4" by (simp add: need_def)
  have dat: "data = take need data @ rest" by (simp add: rest need_def)
  define g2 where "g2 = g\<lparr>hdr := w, hdr_fill := 4, channel := w ! 0, rec_len := n, rec_fill := 0, rbuf := None\<rparr>"
  have code: "rec_phase_a mal (g, k) data =
      (if n > BSP_REC_MAX then A_return (rec_zero, k)
       else if n = 0 then A_continue (g2\<lparr>hdr_fill := 0\<rparr>, k) rest [(channel g2, [])]
       else A_body (g2\<lparr>rbuf := mal k (unat n)\<rparr>, Suc k) rest)"
    using part long
    by (auto simp add: rec_phase_a_def Let_def need_def[symmetric] cpy fill rest g2_def n_def not_less)
  have spec: "demux_frame mal (demux_abs (g, k)) data =
      (if n > BSP_REC_MAX then ((Head [], k), [], True)
       else if n = 0 then (let (d, o2, stop) = demux_frame mal (Head [], k) rest in (d, (w ! 0, []) # o2, stop))
       else demux_frame mal (Body (w ! 0) (unat n) (map_option (\<lambda>_. []) (mal k (unat n))), Suc k) rest)"
  proof -
    have abs: "demux_abs (g, k) = (Head h, k)" using part by (simp add: demux_abs_def h_def)
    have "length h + length (take need data) = 4" "length h < 4" using hl nd long by (auto simp: need_def[symmetric])
    note step = demux_frame_head_end[OF this, of mal k rest, unfolded Let_def, folded w_def, folded n_def]
    show ?thesis by (subst dat) (simp only: abs step Let_def)
  qed
  consider "n > BSP_REC_MAX" | "n = 0" | "\<not> n > BSP_REC_MAX" "n \<noteq> 0" by blast
  then show thesis
  proof cases
    case 1 then show ?thesis using too_long code spec by simp
  next
    case 2
    have "rec_inv (g2\<lparr>hdr_fill := 0\<rparr>)" using wl by (simp add: rec_inv_def g2_def)
    moreover have "demux_abs (g2\<lparr>hdr_fill := 0\<rparr>, k) = (Head [], k)" by (simp add: demux_abs_def)
    ultimately show ?thesis
      using 2 empty[of "g2\<lparr>hdr_fill := 0\<rparr>"] code spec by (simp add: BSP_REC_MAX_def g2_def)
  next
    case 3
    let ?g = "g2\<lparr>rbuf := mal k (unat n)\<rparr>"
    have "rec_inv ?g" using wl 3 sized by (auto simp: rec_inv_def g2_def heap_sized_def word_neq_0_conv)
    moreover have "demux_abs (?g, Suc k) = (Body (w ! 0) (unat n) (map_option (\<lambda>_. []) (mal k (unat n))), Suc k)"
      by (simp add: demux_abs_def g2_def)
    ultimately show ?thesis using 3 body[of ?g] code spec by (simp add: g2_def)
  qed
qed

lemma bsp_record_feed_refines:
  assumes "rec_inv (fst s)" "heap_sized mal"
  shows "rec_inv (fst (fst (bsp_record_feed mal s data))) \<and>
    (\<exists>stop. demux_frame mal (demux_abs s) data =
       (demux_abs (fst (bsp_record_feed mal s data)), snd (bsp_record_feed mal s data), stop))"
  using assms
proof (induction mal s data rule: bsp_record_feed.induct)
  case step: (1 mal s data)
  obtain g k where s: "s = (g, k)" by (cases s)
  note inv = step(3)[unfolded s fst_conv] and sized = step(4)
  have body: ?case
    if a: "rec_phase_a mal s data = A_body s1 rest" and ne: "data \<noteq> []"
      and inv1: "rec_inv (fst s1)" and full: "\<not> hdr_fill (fst s1) < 4"
      and spec: "demux_frame mal (demux_abs s) data = demux_frame mal (demux_abs s1) rest" for s1 rest
  proof -
    obtain g2 rest2 out where b: "rec_phase_b (fst s1) rest = (g2, rest2, out)" by (cases "rec_phase_b (fst s1) rest")
    note ref = rec_phase_b_refines[OF inv1 full b]
    have "rec_inv (fst (fst (bsp_record_feed mal (g2, snd s1) rest2))) \<and>
        (\<exists>stop. demux_frame mal (demux_abs (g2, snd s1)) rest2 =
          (demux_abs (fst (bsp_record_feed mal (g2, snd s1) rest2)), snd (bsp_record_feed mal (g2, snd s1) rest2), stop))"
      by (rule step(2)[OF ne a b[symmetric] refl refl]) (use ref(1) sized in auto)
    then show ?thesis
      using ref(2)[of mal "snd s1"] by (auto simp: bsp_record_feed.simps[of mal s data] ne a b spec Let_def split: prod.splits)
  qed
  show ?case
  proof (cases "data = []")
    case True then show ?thesis using inv s by (auto intro!: exI[of _ False])
  next
    case ne: False
    show ?thesis
    proof (cases "hdr_fill g < 4")
      case False
      have "rec_phase_a mal s data = A_body s data" using False by (simp add: rec_phase_a_def s)
      then show ?thesis using body[of s data] ne inv False by (simp add: s)
    next
      case part: True
      show ?thesis
      proof (cases "length data < unat (4 - hdr_fill g)")
        case True
        then show ?thesis
          using rec_phase_a_short[OF inv part True, of mal k]
          by (auto simp: bsp_record_feed.simps[of mal "(g, k)" data] ne s intro!: exI[of _ False])
      next
        case False
        then have long: "unat (4 - hdr_fill g) \<le> length data" by simp
        show ?thesis
        proof (cases rule: rec_phase_a_full[OF inv part long sized refl, of k])
          case 1
          then show ?thesis by (auto simp: bsp_record_feed.simps[of mal "(g, k)" data] ne s intro!: exI[of _ True])
        next
          case (2 g2)
          then show ?thesis
            using step(1)[OF ne, of "(g2, k)" "drop (unat (4 - hdr_fill g)) data" "[(channel g2, [])]"] sized
            by (auto simp: bsp_record_feed.simps[of mal "(g, k)" data] ne s Let_def split: prod.splits)
        next
          case (3 g2)
          then show ?thesis using body[of "(g2, Suc k)"] ne by (simp add: s)
        qed
      qed
    qed
  qed
qed

section \<open>Delivery\<close>

text \<open>The wire form of a record, as in bsp_record.dart and bsp_send_record.\<close>

definition rec_wire :: "rec_out \<Rightarrow> bytes" where
  "rec_wire r = fst r # put24 (of_nat (length (snd r))) @ snd r"

text \<open>The records that are delivered: those without payload, and those whose buffer was allocated.\<close>

primrec rec_survivors :: "heap \<Rightarrow> nat \<Rightarrow> rec_out list \<Rightarrow> rec_out list" where
  "rec_survivors mal k [] = []"
| "rec_survivors mal k (r # rs) =
     (if snd r = [] then r # rec_survivors mal k rs
      else if mal k (length (snd r)) = None then rec_survivors mal (Suc k) rs
      else r # rec_survivors mal (Suc k) rs)"

definition rec_fits :: "rec_out \<Rightarrow> bool" where
  "rec_fits r \<longleftrightarrow> length (snd r) \<le> unat BSP_REC_MAX"

lemma demux_frame_record:
  assumes "rec_fits r"
  shows "demux_frame mal (Head [], k) (rec_wire r @ ys) =
    (let keep = (snd r = [] \<or> mal k (length (snd r)) \<noteq> None);
         (d, o2, stop) = demux_frame mal (Head [], if snd r = [] then k else Suc k) ys
     in (d, (if keep then r # o2 else o2), stop))"
proof -
  obtain c p where r: "r = (c, p)" by (cases r)
  define n :: u32 where "n = of_nat (length p)"
  have le: "length p \<le> 4194304" using assms by (simp add: rec_fits_def r BSP_REC_MAX_def)
  then have n: "unat n = length p" by (simp add: n_def unat_of_nat_small)
  have small: "n < 2 ^ 24" "\<not> n > BSP_REC_MAX" "n = 0 \<longleftrightarrow> p = []"
    using le n by (auto simp: word_less_nat_alt BSP_REC_MAX_def unat_eq_0[symmetric])
  have hd: "le24 (ucast n) (ucast (drop_bit 8 n)) (ucast (drop_bit 16 n)) = n"
    using small(1) by (rule le24_put24)
  have split: "rec_wire r @ ys = (c # put24 n) @ (p @ ys)" by (simp add: rec_wire_def r n_def)
  show ?thesis
    unfolding split
    by (subst demux_frame_head_end)
      (use small in \<open>auto simp: put24_def hd n r Let_def demux_frame_append demux_frame_body_end
         split: prod.splits option.splits\<close>)
qed

lemma demux_frame_records:
  "\<forall>r\<in>set rs. rec_fits r \<Longrightarrow>
    \<exists>k'. demux_frame mal (Head [], k) (concat (map rec_wire rs)) = ((Head [], k'), rec_survivors mal k rs, False)"
proof (induction rs arbitrary: k)
  case (Cons r rs)
  then obtain k1 k2 where
    "demux_frame mal (Head [], k) (concat (map rec_wire rs)) = ((Head [], k1), rec_survivors mal k rs, False)"
    "demux_frame mal (Head [], Suc k) (concat (map rec_wire rs)) = ((Head [], k2), rec_survivors mal (Suc k) rs, False)"
    using Cons.IH Cons.prems by (meson list.set_intros(2))
  then show ?case using Cons.prems by (auto simp: demux_frame_record Let_def)
qed simp

interpretation demux: stream_consumer "bsp_record_feed mal" "\<lambda>s. rec_inv (fst s) \<and> heap_sized mal"
  demux_abs "demux_byte mal" for mal
  by unfold_locales (use bsp_record_feed_refines in auto)

section \<open>Properties\<close>

text \<open>C13: bsp_record_feed implements the byte automaton: from any state that satisfies the struct's
  invariant (no buffer is held outside a body, a body's buffer has the record's length and is not yet
  full) and on any frame, it restores the invariant, ends in the state of the automaton and
  hands on exactly the automaton's records.\<close>

theorem record_feed_refines_automaton:
  assumes "rec_inv (fst s)" and "heap_sized mal"
  shows "rec_inv (fst (fst (bsp_record_feed mal s data))) \<and>
    demux_abs (fst (bsp_record_feed mal s data)) = fst (run_bytes (demux_byte mal) (demux_abs s) data) \<and>
    snd (bsp_record_feed mal s data) = fst (snd (run_bytes (demux_byte mal) (demux_abs s) data))"
  using demux.feed_inv[of s mal data] demux.feed_run[of s mal data] assms by auto

definition good_heap :: heap where
  "good_heap k n = Some (replicate n 0xA5)"

lemma good_heap_sized [simp]: "heap_sized good_heap"
  by (simp add: heap_sized_def good_heap_def)

theorem record_feed_refines_automaton_witness:
  "demux_abs (fst (bsp_record_feed good_heap (rec_zero, 0) [1, 3, 0, 0, 7])) = (Body 1 2 (Some [7]), 1)"
  using record_feed_refines_automaton[of "(rec_zero, 0)" good_heap "[1, 3, 0, 0, 7]"]
  by (simp add: le24_def BSP_REC_MAX_def good_heap_def)

lemma idle_stream_delivered:
  assumes "rec_inv (fst s)" and "hdr_fill (fst s) = 0" and "heap_sized mal"
    and "\<forall>r\<in>set rs. rec_fits r"
    and "concat frames = concat (map rec_wire rs)"
  shows "snd (feed_all (bsp_record_feed mal) s frames) = rec_survivors mal (snd s) rs \<and>
    hdr_fill (fst (fst (feed_all (bsp_record_feed mal) s frames))) = 0"
proof -
  let ?t = "fst (feed_all (bsp_record_feed mal) s frames)"
  have "demux_abs s = (Head [], snd s)"
    using assms(2) by (cases s) (simp add: demux_abs_def)
  then obtain k' where run: "demux_frame mal (demux_abs s) (concat frames) = ((Head [], k'), rec_survivors mal (snd s) rs, False)"
    using demux_frame_records[OF assms(4), of mal "snd s"] assms(5) by auto
  have "demux_abs ?t = (Head [], k')" "snd (feed_all (bsp_record_feed mal) s frames) = rec_survivors mal (snd s) rs"
    using demux.feed_all_run[OF _ run] assms(1,3) by auto
  moreover have "rec_inv (fst ?t)" using demux.feed_all_inv assms(1,3) by blast
  ultimately show ?thesis
    by (auto simp: demux_abs_def rec_inv_def unat_eq_0 split: prod.splits if_splits)
qed

text \<open>however the wire form of a list of records is cut into frames, a reassembler that is between
  records delivers exactly those records, in order, except those for which the heap had no
  buffer; it never delivers stale buffer contents and ends between records again.\<close>

theorem record_stream_delivered:
  assumes "rec_inv (fst s)" and "hdr_fill (fst s) = 0" and "heap_sized mal"
    and "\<forall>r\<in>set rs. rec_fits r"
    and "concat frames = concat (map rec_wire rs)"
  shows "snd (feed_all (bsp_record_feed mal) s frames) = rec_survivors mal (snd s) rs \<and>
    hdr_fill (fst (fst (feed_all (bsp_record_feed mal) s frames))) = 0"
  using assms by (rule idle_stream_delivered)

definition two_records :: "rec_out list" where
  "two_records = [(1, [0x7B, 0x7D]), (4, []), (2, [9])]"

theorem record_stream_delivered_witness:
  "snd (feed_all (bsp_record_feed good_heap) (rec_zero, 0)
     [[1, 2], [0, 0, 0x7B], [0x7D, 4, 0], [0, 0, 2, 1, 0, 0], [9]]) = two_records"
proof -
  have "snd (feed_all (bsp_record_feed good_heap) (rec_zero, 0)
     [[1, 2], [0, 0, 0x7B], [0x7D, 4, 0], [0, 0, 2, 1, 0, 0], [9]]) = rec_survivors good_heap 0 two_records"
    using record_stream_delivered[of "(rec_zero, 0)" good_heap two_records
        "[[1, 2], [0, 0, 0x7B], [0x7D, 4, 0], [0, 0, 2, 1, 0, 0], [9]]"]
    by (simp add: two_records_def rec_fits_def BSP_REC_MAX_def rec_wire_def put24_def rec_zero_def rec_inv_def)
  then show ?thesis by (simp add: two_records_def good_heap_def)
qed

end
