(* ===== verification/BSP_Link.thy ===== *)
theory BSP_Link
  imports BSP_Crc BSP_Record
begin

text \<open>
  The link layer of the BLE serial protocol (main/ble/bsp.c and the receiving half
  of main/ble/gatt_service.c): the per-connection state, one function per frame
  handler, the deferred cumulative acknowledgement, the packet queue between the
  GATT callback and the processing task, and the connection life cycle.  Frames
  handed to the BLE stack and records handed to the channel handlers are outputs.
\<close>

section \<open>State and outputs\<close>

definition BSP_TYPE_DATA :: u8 where "BSP_TYPE_DATA = 0x01"
definition BSP_TYPE_ACK :: u8 where "BSP_TYPE_ACK = 0x02"
definition BSP_TYPE_RST :: u8 where "BSP_TYPE_RST = 0x03"
definition BSP_TYPE_PAUSE :: u8 where "BSP_TYPE_PAUSE = 0x04"
definition BSP_TYPE_RESUME :: u8 where "BSP_TYPE_RESUME = 0x05"
definition BSP_WINDOW :: u8 where "BSP_WINDOW = 16"

lemmas bsp_types = BSP_TYPE_DATA_def BSP_TYPE_ACK_def BSP_TYPE_RST_def BSP_TYPE_PAUSE_def BSP_TYPE_RESUME_def

record bsp_state =
  rx_expected :: u8
  rx_window :: u8
  conn_handle :: u16
  active :: bool
  ack_pending :: bool

text \<open>The globals of gatt_service.c beside the state; grec is the reassembler with the heap's
  request counter.  The pool of packet buffers of the BLE stack is not this program's: om_ok says which
  of the requests to it succeed, om_count counts them.\<close>

record link =
  bsp :: bsp_state
  grec :: rec_world
  bsp_tx_paused :: bool
  bsp_notify_enabled :: bool
  bsp_tx_val_handle :: u16
  g_bsp_conn_handle :: u16
  s_tx_seq :: u8
  om_ok :: "nat \<Rightarrow> bool"
  om_count :: nat

datatype link_out = Notify u16 bytes | RecordIn u8 bytes

section \<open>Operations\<close>

definition bsp_notify :: "link \<Rightarrow> u16 \<Rightarrow> bytes \<Rightarrow> link \<times> link_out list" where
  "bsp_notify l conn data =
     (if \<not> bsp_notify_enabled l \<or> bsp_tx_val_handle l = 0 then (l, [])
      else (l\<lparr>om_count := Suc (om_count l)\<rparr>, if om_ok l (om_count l) then [Notify conn data] else []))"

definition bsp_reset :: "bsp_state \<Rightarrow> u16 \<Rightarrow> bsp_state" where
  "bsp_reset s conn = s\<lparr>rx_expected := 0, rx_window := BSP_WINDOW, conn_handle := conn,
     active := True, ack_pending := False\<rparr>"

definition ack_buf :: "u8 \<Rightarrow> u8 \<Rightarrow> bytes" where
  "ack_buf seq window = (let buf = [BSP_TYPE_ACK, seq, window]; crc = bsp_crc16 buf 3 in
     buf @ [ucast (crc AND 0xFF), ucast (drop_bit 8 crc)])"

definition bsp_send_ack :: "link \<Rightarrow> u8 \<Rightarrow> u8 \<Rightarrow> link \<times> link_out list" where
  "bsp_send_ack l seq window = bsp_notify l (conn_handle (bsp l)) (ack_buf seq window)"

definition bsp_feed :: "heap \<Rightarrow> link \<Rightarrow> bytes \<Rightarrow> link \<times> link_out list" where
  "bsp_feed mal l pkt = (let s = bsp l in
     if \<not> active s \<or> length pkt < 1 then (l, [])
     else let ptype = pkt ! 0 in
     if ptype = BSP_TYPE_RST then
       (if length pkt < 3 then (l, [])
        else if bsp_crc16 pkt 1 \<noteq> le16 (pkt ! 1) (pkt ! 2) then (l, [])
        else (l\<lparr>bsp := s\<lparr>rx_expected := 0, rx_window := BSP_WINDOW, ack_pending := False\<rparr>,
                grec := (bsp_record_reset (fst (grec l)), snd (grec l))\<rparr>, []))
     else if ptype = BSP_TYPE_PAUSE \<or> ptype = BSP_TYPE_RESUME then
       (if length pkt < 3 then (l, [])
        else if bsp_crc16 pkt 1 \<noteq> le16 (pkt ! 1) (pkt ! 2) then (l, [])
        else (l\<lparr>bsp_tx_paused := (ptype = BSP_TYPE_PAUSE)\<rparr>, []))
     else if ptype \<noteq> BSP_TYPE_DATA then (l, [])
     else if length pkt < 7 then (l, [])
     else let seq = pkt ! 1; plen = le16 (pkt ! 2) (pkt ! 3) in
     if 4 + unat plen + 2 > length pkt then (l, [])
     else if bsp_crc16 pkt (4 + plen) \<noteq> le16 (pkt ! (4 + unat plen)) (pkt ! (5 + unat plen)) then (l, [])
     else if seq \<noteq> rx_expected s then
       (let (l1, out) = bsp_send_ack l (rx_expected s - 1) (rx_window s) in
         (l1\<lparr>bsp := (bsp l1)\<lparr>ack_pending := False\<rparr>\<rparr>, out))
     else
       (let l1 = l\<lparr>bsp := s\<lparr>rx_expected := rx_expected s + 1, ack_pending := True\<rparr>\<rparr>;
            (g, recs) = bsp_record_feed mal (grec l1) (take (unat plen) (drop 4 pkt)) in
        (l1\<lparr>grec := g\<rparr>, map (\<lambda>(ch, p). RecordIn ch p) recs)))"

definition bsp_flush_ack :: "link \<Rightarrow> link \<times> link_out list" where
  "bsp_flush_ack l = (if \<not> ack_pending (bsp l) then (l, [])
     else (let (l1, out) = bsp_send_ack l (rx_expected (bsp l) - 1) BSP_WINDOW in
       (l1\<lparr>bsp := (bsp l1)\<lparr>ack_pending := False\<rparr>\<rparr>, out)))"

lemma bsp_notify_frame [simp]:
  "bsp (fst (bsp_notify l c d)) = bsp l" "grec (fst (bsp_notify l c d)) = grec l" "s_tx_seq (fst (bsp_notify l c d)) = s_tx_seq l"
  "bsp_notify_enabled (fst (bsp_notify l c d)) = bsp_notify_enabled l" "bsp_tx_val_handle (fst (bsp_notify l c d)) = bsp_tx_val_handle l"
  "om_ok (fst (bsp_notify l c d)) = om_ok l" "g_bsp_conn_handle (fst (bsp_notify l c d)) = g_bsp_conn_handle l"
  by (simp_all add: bsp_notify_def)

lemma bsp_send_ack_frame [simp]: "bsp (fst (bsp_send_ack l a w)) = bsp l" "grec (fst (bsp_send_ack l a w)) = grec l"
  by (simp_all add: bsp_send_ack_def)

text \<open>One turn of the endless loop of bsp_proc_task: the packet it blocked on and the packets it
  drained during the batching window, then the acknowledgement.\<close>

definition bsp_proc_batch :: "heap \<Rightarrow> link \<Rightarrow> bytes list \<Rightarrow> link \<times> link_out list" where
  "bsp_proc_batch mal l pkts = (let (l1, o1) = feed_all (bsp_feed mal) l pkts; (l2, o2) = bsp_flush_ack l1 in
     (l2, o1 @ o2))"

text \<open>The GATT write callback posts a copy of the packet; the allocation, the flattening of the
  buffer chain and the free slot are reported by the environment.\<close>

definition BSP_QUEUE_DEPTH :: nat where "BSP_QUEUE_DEPTH = 64"

definition bsp_rx_chr_access :: "bool \<Rightarrow> bool \<Rightarrow> bool \<Rightarrow> bytes \<Rightarrow> bytes list \<Rightarrow> bytes list" where
  "bsp_rx_chr_access is_write alloc_ok flat_ok pkt q =
     (if \<not> is_write then q
      else if length pkt = 0 then q
      else if \<not> alloc_ok then q
      else if \<not> flat_ok then q
      else if length q \<ge> BSP_QUEUE_DEPTH then q
      else q @ [pkt])"

definition bsp_on_connect :: "u16 \<Rightarrow> link \<Rightarrow> link" where
  "bsp_on_connect conn l = l\<lparr>g_bsp_conn_handle := conn, bsp_notify_enabled := False, bsp_tx_paused := False,
     s_tx_seq := 0, bsp := bsp_reset (bsp l) conn,
     grec := (bsp_record_reset (fst (grec l)), snd (grec l))\<rparr>"

definition bsp_on_disconnect :: "link \<Rightarrow> link" where
  "bsp_on_disconnect l = l\<lparr>bsp_notify_enabled := False, bsp_tx_paused := False, g_bsp_conn_handle := 0,
     bsp := (bsp l)\<lparr>active := False\<rparr>, grec := (bsp_record_reset (fst (grec l)), snd (grec l))\<rparr>"

section \<open>Data frames\<close>

text \<open>The wire form of a DATA frame, and of the single-byte control frames.\<close>

definition data_frame :: "u8 \<Rightarrow> bytes \<Rightarrow> bytes" where
  "data_frame seq p = (let body = [BSP_TYPE_DATA, seq] @ put16 (of_nat (length p)) @ p in
     body @ put16 (bsp_crc16 body (of_nat (length body))))"

lemma take_unat_all: "length xs < 2 ^ LENGTH('a::len) \<Longrightarrow> n = of_nat (length xs) \<Longrightarrow>
    take (unat (n :: 'a word)) (xs @ ys) = xs"
  by (simp add: unat_of_nat_small)

lemma bsp_feed_frame_shape:
  assumes act: "active (bsp l)" and len: "length p < 65530" "length crc = 2" "0 < length p"
  shows "bsp_feed mal l ([BSP_TYPE_DATA, seq] @ put16 (of_nat (length p)) @ p @ crc) =
    (if foldl crc16_byte 0xFFFF ([BSP_TYPE_DATA, seq] @ put16 (of_nat (length p)) @ p) \<noteq> le16 (crc ! 0) (crc ! 1) then (l, [])
     else if seq \<noteq> rx_expected (bsp l) then
       (let (l1, out) = bsp_send_ack l (rx_expected (bsp l) - 1) (rx_window (bsp l)) in
         (l1\<lparr>bsp := (bsp l1)\<lparr>ack_pending := False\<rparr>\<rparr>, out))
     else (l\<lparr>bsp := (bsp l)\<lparr>rx_expected := rx_expected (bsp l) + 1, ack_pending := True\<rparr>,
             grec := fst (bsp_record_feed mal (grec l) p)\<rparr>,
           map (\<lambda>(ch, p). RecordIn ch p) (snd (bsp_record_feed mal (grec l) p))))"
proof -
  define n :: u16 where "n = of_nat (length p)"
  have n: "unat n = length p" using len by (simp add: n_def unat_of_nat_small)
  have n4: "unat (4 + n) = 4 + length p"
    using len n by (subst unat_add_no_wrap) auto
  have le: "le16 (ucast n) (ucast (drop_bit 8 n)) = n" by (rule le16_put16)
  obtain c0 c1 where crc: "crc = [c0, c1]" using len(2) by (auto simp: length_Suc_conv numeral_2_eq_2)
  have tk: "take (4 + length p) (a # b # c # d # p @ e) = a # b # c # d # p" for a b c d :: u8 and e
    by (simp add: numeral_eq_Suc)
  show ?thesis
    using act len(3)
    by (simp add: bsp_feed_def bsp_types put16_def n_def[symmetric] le n n4 bsp_crc16_def crc Let_def
        case_prod_beta nth_append tk)
qed

lemma data_frame_shape:
  assumes "length p < 65530"
  shows "data_frame seq p = [BSP_TYPE_DATA, seq] @ put16 (of_nat (length p)) @ p @
    put16 (foldl crc16_byte 0xFFFF ([BSP_TYPE_DATA, seq] @ put16 (of_nat (length p)) @ p))"
  using assms bsp_crc16_all[of "[BSP_TYPE_DATA, seq] @ put16 (of_nat (length p)) @ p"]
  by (simp add: data_frame_def Let_def)

lemma bsp_feed_data_frame:
  assumes "active (bsp l)" "length p < 65530" "0 < length p"
  shows "bsp_feed mal l (data_frame seq p) =
    (if seq \<noteq> rx_expected (bsp l) then
       (let (l1, out) = bsp_send_ack l (rx_expected (bsp l) - 1) (rx_window (bsp l)) in
         (l1\<lparr>bsp := (bsp l1)\<lparr>ack_pending := False\<rparr>\<rparr>, out))
     else (l\<lparr>bsp := (bsp l)\<lparr>rx_expected := rx_expected (bsp l) + 1, ack_pending := True\<rparr>,
             grec := fst (bsp_record_feed mal (grec l) p)\<rparr>,
           map (\<lambda>(ch, p). RecordIn ch p) (snd (bsp_record_feed mal (grec l) p))))"
  unfolding data_frame_shape[OF assms(2)]
  by (subst bsp_feed_frame_shape) (use assms in \<open>simp_all add: put16_def le_simps\<close>)

section \<open>Bad packets\<close>

text \<open>A link left over from an old session, used by the witnesses.\<close>

definition old_link :: link where
  "old_link = \<lparr>bsp = \<lparr>rx_expected = 9, rx_window = 0, conn_handle = 0, active = False, ack_pending = True\<rparr>,
    grec = (rec_zero\<lparr>hdr := [1, 9, 0, 0], hdr_fill := 2\<rparr>, 0), bsp_tx_paused = True, bsp_notify_enabled = True,
    bsp_tx_val_handle = 3, g_bsp_conn_handle = 0, s_tx_seq = 5, om_ok = (\<lambda>k. True), om_count = 0\<rparr>"

definition bad_packet :: "bytes \<Rightarrow> bool" where
  "bad_packet pkt \<longleftrightarrow> pkt = [] \<or>
     (if pkt ! 0 = BSP_TYPE_RST \<or> pkt ! 0 = BSP_TYPE_PAUSE \<or> pkt ! 0 = BSP_TYPE_RESUME
      then length pkt < 3 \<or> bsp_crc16 pkt 1 \<noteq> le16 (pkt ! 1) (pkt ! 2)
      else pkt ! 0 \<noteq> BSP_TYPE_DATA \<or> length pkt < 7 \<or>
        (let plen = le16 (pkt ! 2) (pkt ! 3) in 4 + unat plen + 2 > length pkt \<or>
          bsp_crc16 pkt (4 + plen) \<noteq> le16 (pkt ! (4 + unat plen)) (pkt ! (5 + unat plen))))"

lemma bsp_feed_bad: "bad_packet pkt \<Longrightarrow> bsp_feed mal l pkt = (l, [])"
  by (auto simp: bad_packet_def bsp_feed_def Let_def bsp_types)

text \<open>A frame of a payload p in which the byte i was changed may pass for another packet by chance: its new type is that of a control
  frame, whose checksum covers only the type, and its second and third bytes happen to be that checksum; or its new length is
  smaller and the two bytes of the payload behind it happen to be the checksum of what is before them.\<close>

definition chance_hit :: "bytes \<Rightarrow> bytes \<Rightarrow> nat \<Rightarrow> bool" where
  "chance_hit p pkt i \<longleftrightarrow>
     i = 0 \<and> pkt ! 0 \<in> {BSP_TYPE_RST, BSP_TYPE_PAUSE, BSP_TYPE_RESUME} \<and> bsp_crc16 pkt 1 = le16 (pkt ! 1) (pkt ! 2) \<or>
     i \<in> {2, 3} \<and> (let plen = le16 (pkt ! 2) (pkt ! 3) in unat plen < length p \<and>
       bsp_crc16 pkt (4 + plen) = le16 (pkt ! (4 + unat plen)) (pkt ! (5 + unat plen)))"

lemma le16_inj: "le16 a b = le16 c d \<longleftrightarrow> a = c \<and> b = d"
proof -
  have "ucast (le16 x y) = x" "ucast (drop_bit 8 (le16 x y)) = y" for x y :: u8
    by (rule bit_word_eqI; auto simp: le16_def bit_or_iff bit_push_bit_iff bit_unsigned_iff bit_drop_bit_eq dest: bit_imp_le_length)+
  then show ?thesis by metis
qed

text \<open>The cases of a changed byte: sequence number, payload, checksum, type and length.\<close>

lemma changed_body:
  assumes "active (bsp l)" "length p < 65530" "0 < length p" "i = 1 \<or> (4 \<le> i \<and> i < 4 + length p)" "b \<noteq> data_frame seq p ! i"
  shows "bsp_feed mal l ((data_frame seq p)[i := b]) = (l, [])"
proof -
  let ?hd = "put16 (of_nat (length p))"
  let ?crc = "put16 (foldl crc16_byte 0xFFFF ([BSP_TYPE_DATA, seq] @ ?hd @ p))"
  note fr = data_frame_shape[OF assms(2), of seq]
  have le: "le16 (?crc ! 0) (?crc ! 1) = foldl crc16_byte 0xFFFF ([BSP_TYPE_DATA, seq] @ ?hd @ p)"
    by (simp add: put16_def le_simps)
  show ?thesis
  proof (cases "i = 1")
    case True
    then have ne: "b \<noteq> seq" using assms(5) fr by simp
    have "(data_frame seq p)[i := b] = [BSP_TYPE_DATA, b] @ put16 (of_nat (length p)) @ p @ ?crc"
      using True fr by simp
    then show ?thesis
      using bsp_feed_frame_shape[of l p ?crc mal b] assms(1,2,3) le
        crc16_one_byte_off[OF ne, of "0xFFFF" "[BSP_TYPE_DATA]" "?hd @ p"] by simp
  next
    case False
    then obtain j where j: "i = 4 + j" "j < length p"
      using assms(4) by (metis add_less_cancel_left le_add_diff_inverse)
    have put: "?hd = [?hd ! 0, ?hd ! 1]" by (simp add: put16_def)
    have ne: "b \<noteq> p ! j" using assms(5) fr j by (simp add: nth_append)
    have p: "p = take j p @ p ! j # drop (Suc j) p" using j(2) by (simp add: id_take_nth_drop)
    define q where "q = p[j := b]"
    have q: "q = take j p @ b # drop (Suc j) p" "length q = length p"
      using j(2) by (simp_all add: q_def upd_conv_take_nth_drop)
    have "(data_frame seq p)[i := b] = [BSP_TYPE_DATA, seq] @ put16 (of_nat (length q)) @ q @ ?crc"
      using j fr by (simp add: q_def list_update_append)
    then show ?thesis
      using bsp_feed_frame_shape[of l q ?crc mal seq] assms(1,2,3) le q(2)
        crc16_one_byte_off[OF ne, of "0xFFFF" "[BSP_TYPE_DATA, seq] @ ?hd @ take j p" "drop (Suc j) p"]
      by (simp flip: p q(1))
  qed
qed

lemma changed_crc:
  assumes "active (bsp l)" "length p < 65530" "0 < length p" "i = 4 + length p + j" "j < 2" "b \<noteq> data_frame seq p ! i"
  shows "bsp_feed mal l ((data_frame seq p)[i := b]) = (l, [])"
proof -
  define A where "A = [BSP_TYPE_DATA, seq] @ put16 (of_nat (length p)) @ p"
  define c where "c = foldl crc16_byte 0xFFFF A"
  have A: "length A = 4 + length p" by (simp add: A_def put16_def)
  have fr: "data_frame seq p = A @ put16 c" using data_frame_shape[OF assms(2), of seq] by (simp add: A_def c_def)
  have ne: "b \<noteq> put16 c ! j" using assms(4,6) A by (simp add: fr nth_append)
  have eq: "(data_frame seq p)[i := b] = [BSP_TYPE_DATA, seq] @ put16 (of_nat (length p)) @ p @ (put16 c)[j := b]"
    using assms(4) A by (simp add: fr list_update_append) (simp add: A_def)
  have "le16 ((put16 c)[j := b] ! 0) ((put16 c)[j := b] ! 1) \<noteq> le16 (put16 c ! 0) (put16 c ! 1)"
    using ne assms(5) by (auto simp: le16_inj put16_def less_2_cases_iff)
  moreover have "le16 (put16 c ! 0) (put16 c ! 1) = c" by (simp add: put16_def le_simps)
  ultimately have "foldl crc16_byte 0xFFFF ([BSP_TYPE_DATA, seq] @ put16 (of_nat (length p)) @ p) \<noteq>
      le16 ((put16 c)[j := b] ! 0) ((put16 c)[j := b] ! 1)"
    unfolding A_def[symmetric] c_def[symmetric] by simp
  moreover have l2: "length ((put16 c)[j := b]) = 2" by (simp only: length_list_update) (simp add: put16_def)
  ultimately show ?thesis unfolding eq bsp_feed_frame_shape[OF assms(1,2) l2 assms(3)] by (simp only: simp_thms if_True)
qed

lemma data_frame_head:
  assumes "length p < 65530"
  shows "length (data_frame seq p) = 6 + length p" "data_frame seq p ! 0 = BSP_TYPE_DATA"
    "data_frame seq p ! 2 = ucast (of_nat (length p) :: u16)" "data_frame seq p ! 3 = ucast (drop_bit 8 (of_nat (length p) :: u16))"
  unfolding data_frame_shape[OF assms] by (simp_all add: put16_def le_simps)

lemma changed_head:
  assumes "length p < 65530" "0 < length p" "i \<in> {0, 2, 3}" "b \<noteq> data_frame seq p ! i" "\<not> chance_hit p ((data_frame seq p)[i := b]) i"
  shows "bad_packet ((data_frame seq p)[i := b])"
proof -
  define fr where "fr = data_frame seq p"
  define n :: u16 where "n = of_nat (length p)"
  have n: "unat n = length p" using assms(1) by (simp add: n_def unat_of_nat_small)
  note h = data_frame_head[OF assms(1), of seq, folded fr_def n_def]
  note a = assms(4,5)[folded fr_def]
  have len: "length (fr[i := b]) = 6 + length p" "fr[i := b] \<noteq> []" using h(1) by auto
  have at: "fr[i := b] ! k = (if k = i then b else fr ! k)" if "k < 4" for k using that h(1) by (simp add: nth_list_update)
  show ?thesis unfolding fr_def[symmetric]
  proof (cases "i = 0")
    case True
    then have "fr[i := b] ! 0 = b" "b \<noteq> BSP_TYPE_DATA" using at[of 0] a(1) h(2) by auto
    then show "bad_packet (fr[i := b])" using a(2) True len(2) by (auto simp: bad_packet_def chance_hit_def)
  next
    case False
    then have i: "i = 2 \<or> i = 3" using assms(3) by auto
    have t: "fr[i := b] ! 0 = BSP_TYPE_DATA" using at[of 0] False h(2) by simp
    define m where "m = le16 (fr[i := b] ! 2) (fr[i := b] ! 3)"
    have "m \<noteq> n"
    proof
      assume "m = n"
      then have "le16 (fr[i := b] ! 2) (fr[i := b] ! 3) = le16 (ucast n) (ucast (drop_bit 8 n))" by (simp add: m_def le_simps)
      then show False using i a(1) h(3,4) at[of 2] at[of 3] by (auto simp: le16_inj)
    qed
    then have "unat m \<noteq> length p" using n by (simp add: word_unat_eq_iff)
    then consider "length p < unat m" | "unat m < length p" by linarith
    then show "bad_packet (fr[i := b])"
    proof cases
      case 1
      then show ?thesis using t len by (simp add: bad_packet_def bsp_types flip: m_def)
    next
      case 2
      then have "bsp_crc16 (fr[i := b]) (4 + m) \<noteq> le16 (fr[i := b] ! (4 + unat m)) (fr[i := b] ! (5 + unat m))"
        using a(2) i unfolding chance_hit_def m_def[symmetric] Let_def by blast
      then show ?thesis using t len by (simp add: bad_packet_def bsp_types flip: m_def)
    qed
  qed
qed

text \<open>C32: a DATA frame in which any one byte was changed on the way, of its type, its sequence number, its length, its
  payload or its checksum, leaves the receiver's whole state as it is, delivers nothing and is not acknowledged, so that the
  sender's timeout repairs it.  No change of the sequence number, the payload or the checksum escapes; a changed type or length
  does only by a chance hit: the type becomes that of a control frame and the two bytes after it happen to be the checksum of that
  one byte, or the length becomes smaller and the two bytes of the payload behind it happen to be the checksum of the part before.\<close>

theorem corrupted_frame_ignored:
  assumes "active (bsp l)" and "length p < 65530" and "0 < length p"
    and "i < length (data_frame seq p)" and "b \<noteq> data_frame seq p ! i"
    and "\<not> chance_hit p ((data_frame seq p)[i := b]) i"
  shows "bsp_feed mal l ((data_frame seq p)[i := b]) = (l, [])"
proof -
  consider "i = 1 \<or> (4 \<le> i \<and> i < 4 + length p)" | j where "i = 4 + length p + j" "j < 2" | "i \<in> {0, 2, 3}"
  proof -
    have "i = 1 \<or> (4 \<le> i \<and> i < 4 + length p) \<or> (4 + length p \<le> i \<and> i < 6 + length p) \<or> i = 0 \<or> i = 2 \<or> i = 3"
      using assms(4) data_frame_head(1)[OF assms(2), of seq] by linarith
    then show ?thesis using that(1,3) that(2)[of "i - (4 + length p)"] by auto
  qed
  then show ?thesis
  proof cases
    case 1 then show ?thesis by (rule changed_body[OF assms(1-3) _ assms(5)])
  next
    case 2 then show ?thesis by (rule changed_crc[OF assms(1-3) _ _ assms(5)])
  next
    case 3 show ?thesis by (rule bsp_feed_bad[OF changed_head[OF assms(2,3) 3 assms(5,6)]])
  qed
qed

theorem corrupted_frame_ignored_witness:
  "bsp_feed good_heap (bsp_on_connect 7 old_link) ((data_frame 0 [1, 2])[2 := 9]) = (bsp_on_connect 7 old_link, [])"
  by (rule corrupted_frame_ignored)
    (auto simp: old_link_def bsp_on_connect_def bsp_reset_def data_frame_def Let_def put16_def chance_hit_def le16_def)

section \<open>Ordering\<close>

text \<open>What arrives: a copy of the i-th DATA frame of the sender's stream (its sequence number is i
  modulo 256), or a packet that fails validation.\<close>

datatype arrival = Frame nat | Junk bytes

fun packet_of :: "bytes list \<Rightarrow> arrival \<Rightarrow> bytes" where
  "packet_of ps (Frame i) = data_frame (of_nat i) (ps ! i)"
| "packet_of ps (Junk b) = b"

text \<open>The frames that may arrive when n have been accepted: less than 256 away, as the sender's
  window of 16 guarantees; and the number accepted after a list of arrivals.\<close>

fun in_reach :: "bytes list \<Rightarrow> nat \<Rightarrow> arrival list \<Rightarrow> bool" where
  "in_reach ps n [] \<longleftrightarrow> True"
| "in_reach ps n (Frame i # ws) \<longleftrightarrow> i < length ps \<and> i < n + 256 \<and> n < i + 256 \<and>
     in_reach ps (if i = n then Suc n else n) ws"
| "in_reach ps n (Junk b # ws) \<longleftrightarrow> bad_packet b \<and> in_reach ps n ws"

fun accepted :: "nat \<Rightarrow> arrival list \<Rightarrow> nat" where
  "accepted n [] = n"
| "accepted n (Frame i # ws) = accepted (if i = n then Suc n else n) ws"
| "accepted n (Junk b # ws) = accepted n ws"

definition payload_ok :: "bytes \<Rightarrow> bool" where
  "payload_ok p \<longleftrightarrow> 0 < length p \<and> length p < 65530"

definition records_of :: "link_out list \<Rightarrow> rec_out list" where
  "records_of out = concat (map (\<lambda>x. case x of RecordIn c p \<Rightarrow> [(c, p)] | _ \<Rightarrow> []) out)"

lemma records_of_simps [simp]:
  "records_of [] = []" "records_of (xs @ ys) = records_of xs @ records_of ys"
  "records_of (map (\<lambda>(ch, p). RecordIn ch p) rs) = rs"
  "records_of (snd (bsp_notify l c d)) = []" "records_of (snd (bsp_send_ack l a w)) = []"
  by (auto simp: records_of_def bsp_notify_def bsp_send_ack_def o_def case_prod_beta)

lemma mod_close:
  assumes "i mod m = n mod m" "i < n + m" "n < i + (m :: nat)"
  shows "i = n"
proof (cases "i \<le> n")
  case True
  have "m dvd n - i" using assms(1) mod_eq_dvd_iff_nat[OF True, of m] by simp
  then show ?thesis using assms(3) True by (auto dest: dvd_imp_le)
next
  case False
  then have "m dvd i - n" using assms(1) mod_eq_dvd_iff_nat[of n i m] by simp
  then show ?thesis using assms(2) False by (auto dest: dvd_imp_le)
qed

lemma seq_close: "(of_nat i :: u8) = of_nat n \<Longrightarrow> i < n + 256 \<Longrightarrow> n < i + 256 \<Longrightarrow> i = n"
  by (rule mod_close[of i 256 n]) (simp_all add: word_of_nat_eq_iff take_bit_eq_mod)

lemma accepted_ge: "n \<le> accepted n ws"
  by (induction n ws rule: accepted.induct) (auto intro: Suc_leD)

lemma feed_arrivals:
  assumes "\<forall>p\<in>set ps. payload_ok p" "active (bsp l)" "rx_expected (bsp l) = of_nat n" "in_reach ps n ws"
  shows "let r = feed_all (bsp_feed mal) l (map (packet_of ps) ws); l' = fst r; n' = accepted n ws;
      d = feed_all (bsp_record_feed mal) (grec l) (map (\<lambda>i. ps ! i) [n..<n'])
    in active (bsp l') \<and> rx_expected (bsp l') = of_nat n' \<and> grec l' = fst d \<and> records_of (snd r) = snd d"
  using assms
proof (induction ps n ws arbitrary: l rule: in_reach.induct)
  case (2 ps n i ws)
  have p: "length (ps ! i) < 65530" "0 < length (ps ! i)"
    using 2(2,5) by (auto simp: payload_ok_def)
  note feed = bsp_feed_data_frame[OF 2(3) p]
  show ?case
  proof (cases "i = n")
    case True
    let ?l1 = "fst (bsp_feed mal l (data_frame (of_nat i) (ps ! i)))"
    have l1: "active (bsp ?l1)" "rx_expected (bsp ?l1) = of_nat (Suc n)"
        "grec ?l1 = fst (bsp_record_feed mal (grec l) (ps ! n))"
        "records_of (snd (bsp_feed mal l (data_frame (of_nat i) (ps ! i)))) = snd (bsp_record_feed mal (grec l) (ps ! n))"
      using 2(3,4) unfolding True by (simp_all add: feed[unfolded True])
    have "[n..<accepted (Suc n) ws] = n # [Suc n..<accepted (Suc n) ws]"
      using accepted_ge[of "Suc n" ws] by (intro upt_conv_Cons) simp
    then show ?thesis
      using 2(1)[of ?l1] 2(2,5) l1 True by (auto simp: Let_def case_prod_beta)
  next
    case False
    have "of_nat i \<noteq> rx_expected (bsp l)" using seq_close[of i n] False 2(4,5) by auto
    then show ?thesis
      using 2(1)[of "(fst (bsp_send_ack l (rx_expected (bsp l) - 1) (rx_window (bsp l))))\<lparr>bsp := (bsp l)\<lparr>ack_pending := False\<rparr>\<rparr>"] 2(2-5) False
      by (auto simp: Let_def case_prod_beta feed)
  qed
next
  case (3 ps n b ws)
  then show ?case by (auto simp: Let_def bsp_feed_bad case_prod_beta)
qed simp

text \<open>whatever the air loses, repeats, delays or corrupts, as long as a frame arrives less than 256
  frames away from the one expected, the payload bytes that reach the reassembler are exactly those of
  the first n' frames of the sender's stream, each once and in order, where n' counts the
  frames accepted; rx_expected is n' modulo 256.\<close>

theorem in_order_exactly_once:
  assumes "\<forall>p\<in>set ps. payload_ok p" and "active (bsp l)" and "rx_expected (bsp l) = of_nat n"
    and "in_reach ps n ws"
  shows "let (l', out) = feed_all (bsp_feed mal) l (map (packet_of ps) ws);
             (g, recs) = feed_all (bsp_record_feed mal) (grec l) (map (\<lambda>i. ps ! i) [n..<accepted n ws])
    in rx_expected (bsp l') = of_nat (accepted n ws) \<and> grec l' = g \<and> records_of out = recs"
  using feed_arrivals[OF assms] by (simp add: Let_def case_prod_beta)

text \<open>C1: end to end over a lossy link: after a connect, whatever was in the old session's state, once every frame
  of a stream that carries the records rs has been accepted, the channel handlers have received exactly the
  records of rs whose buffer could be allocated, in order.\<close>

theorem session_delivers_records:
  assumes "\<forall>p\<in>set ps. payload_ok p" and "in_reach ps 0 ws" and "accepted 0 ws = length ps"
    and "heap_sized mal" and "\<forall>r\<in>set rs. rec_fits r"
    and "concat ps = concat (map rec_wire rs)"
  shows "records_of (snd (feed_all (bsp_feed mal) (bsp_on_connect conn l) (map (packet_of ps) ws))) =
    rec_survivors mal (snd (grec l)) rs"
proof -
  let ?l = "bsp_on_connect conn l"
  have l: "active (bsp ?l)" "rx_expected (bsp ?l) = of_nat 0"
      "grec ?l = (rec_zero, snd (grec l))"
    by (simp_all add: bsp_on_connect_def bsp_reset_def bsp_record_reset_def)
  have "map (\<lambda>i. ps ! i) [0..<accepted 0 ws] = ps" by (simp add: assms(3) map_nth)
  then have "records_of (snd (feed_all (bsp_feed mal) ?l (map (packet_of ps) ws))) =
      snd (feed_all (bsp_record_feed mal) (rec_zero, snd (grec l)) ps)"
    using feed_arrivals[OF assms(1) l(1,2) assms(2), of mal] l(3) by (simp add: Let_def)
  moreover have "demux_abs (rec_zero, k) = (Head [], k)" for k by simp
  then obtain k' where "demux_frame mal (demux_abs (rec_zero, snd (grec l))) (concat ps) =
      ((Head [], k'), rec_survivors mal (snd (grec l)) rs, False)"
    using demux_frame_records[OF assms(5), of mal "snd (grec l)"] assms(6) by auto
  ultimately show ?thesis
    using demux.feed_all_run[of "(rec_zero, snd (grec l))" mal ps] assms(4) by simp
qed

definition demo_stream :: "bytes list" where
  "demo_stream = [[1, 2, 0], [0, 0x7B], [0x7D]]"

definition demo_arrivals :: "arrival list" where
  "demo_arrivals = [Frame 0, Frame 0, Junk [9, 9], Frame 2, Frame 1, Frame 1, Frame 2]"

theorem in_order_exactly_once_witness:
  "rx_expected (bsp (fst (feed_all (bsp_feed good_heap) (bsp_on_connect 7 old_link)
     (map (packet_of demo_stream) demo_arrivals)))) = 3"
  using in_order_exactly_once[of demo_stream "bsp_on_connect 7 old_link" 0 demo_arrivals good_heap]
  by (simp add: demo_stream_def demo_arrivals_def payload_ok_def bsp_on_connect_def bsp_reset_def
      bad_packet_def bsp_types Let_def case_prod_beta)

theorem session_delivers_records_witness:
  "records_of (snd (feed_all (bsp_feed good_heap) (bsp_on_connect 7 old_link)
     (map (packet_of demo_stream) demo_arrivals))) = [(1, [0x7B, 0x7D])]"
  using session_delivers_records[of demo_stream demo_arrivals good_heap "[(1, [0x7B, 0x7D])]" 7 old_link]
  by (simp add: demo_stream_def demo_arrivals_def payload_ok_def bad_packet_def bsp_types
      rec_fits_def BSP_REC_MAX_def rec_wire_def put24_def old_link_def good_heap_def)

section \<open>Acknowledgements\<close>

text \<open>The client has subscribed and the stack does not run out of buffers.\<close>

definition notify_ready :: "link \<Rightarrow> bool" where
  "notify_ready l \<longleftrightarrow> active (bsp l) \<and> bsp_notify_enabled l \<and> bsp_tx_val_handle l \<noteq> 0 \<and> (\<forall>k. om_ok l k)"

lemma feed_in_order:
  assumes "\<forall>p\<in>set ps. payload_ok p" "active (bsp l)" "rx_expected (bsp l) = of_nat n" "n + k \<le> length ps"
  shows "feed_all (bsp_feed mal) l (map (\<lambda>i. data_frame (of_nat i) (ps ! i)) [n..<n + k]) =
    (let d = feed_all (bsp_record_feed mal) (grec l) (map (\<lambda>i. ps ! i) [n..<n + k]) in
     (l\<lparr>bsp := (bsp l)\<lparr>rx_expected := of_nat (n + k), ack_pending := (0 < k \<or> ack_pending (bsp l))\<rparr>, grec := fst d\<rparr>,
      map (\<lambda>(ch, p). RecordIn ch p) (snd d)))"
  using assms(2-)
proof (induction k arbitrary: l n)
  case (Suc k)
  have p: "length (ps ! n) < 65530" "0 < length (ps ! n)"
    using assms(1) Suc(4) by (auto simp: payload_ok_def)
  have upt: "[n..<n + Suc k] = n # [Suc n..<Suc n + k]" by (simp add: upt_conv_Cons)
  let ?l1 = "l\<lparr>bsp := (bsp l)\<lparr>rx_expected := rx_expected (bsp l) + 1, ack_pending := True\<rparr>,
             grec := fst (bsp_record_feed mal (grec l) (ps ! n))\<rparr>"
  have "feed_all (bsp_feed mal) ?l1 (map (\<lambda>i. data_frame (of_nat i) (ps ! i)) [Suc n..<Suc n + k]) =
    (let d = feed_all (bsp_record_feed mal) (grec ?l1) (map (\<lambda>i. ps ! i) [Suc n..<Suc n + k]) in
     (?l1\<lparr>bsp := (bsp ?l1)\<lparr>rx_expected := of_nat (Suc n + k), ack_pending := (0 < k \<or> ack_pending (bsp ?l1))\<rparr>, grec := fst d\<rparr>,
      map (\<lambda>(ch, p). RecordIn ch p) (snd d)))"
    by (rule Suc.IH) (use Suc.prems in \<open>auto simp: add.commute\<close>)
  then show ?case
    unfolding upt by (simp add: bsp_feed_data_frame[OF Suc(2) p] Suc(3) Let_def case_prod_beta add.commute)
qed simp

text \<open>a burst of k in-order DATA frames that the processing task drains in one batch is answered by
  exactly one acknowledgement, sent last: it carries the sequence number of the burst's last frame and
  the full window, on the connection's handle.\<close>

theorem batch_single_ack:
  assumes "\<forall>p\<in>set ps. payload_ok p" and "notify_ready l" and "rx_expected (bsp l) = of_nat n"
    and "n + k \<le> length ps" and "0 < k"
  shows "snd (bsp_proc_batch mal l (map (\<lambda>i. data_frame (of_nat i) (ps ! i)) [n..<n + k])) =
    map (\<lambda>(ch, p). RecordIn ch p) (snd (feed_all (bsp_record_feed mal) (grec l) (map (\<lambda>i. ps ! i) [n..<n + k]))) @
    [Notify (conn_handle (bsp l)) (ack_buf (of_nat (n + k - 1)) BSP_WINDOW)]"
proof -
  have "(of_nat (n + k) :: u8) - 1 = of_nat (n + k - 1)" using assms(5) by (simp add: of_nat_diff)
  then show ?thesis
    using assms feed_in_order[OF assms(1) _ assms(3,4), of mal]
    by (simp add: bsp_proc_batch_def notify_ready_def Let_def bsp_flush_ack_def bsp_send_ack_def bsp_notify_def)
qed

theorem batch_single_ack_witness:
  "snd (bsp_proc_batch good_heap (old_link\<lparr>bsp := bsp_reset (bsp old_link) 7, grec := (rec_zero, 0)\<rparr>)
     (map (\<lambda>i. data_frame (of_nat i) (demo_stream ! i)) [0..<3])) =
   [RecordIn 1 [0x7B, 0x7D], Notify 7 (ack_buf 2 16)]"
proof -
  have "snd (feed_all (bsp_record_feed good_heap) (rec_zero, 0) demo_stream) = [(1, [0x7B, 0x7D])]"
    using idle_stream_delivered[of "(rec_zero, 0)" good_heap "[(1, [0x7B, 0x7D])]" demo_stream]
    by (simp add: demo_stream_def rec_fits_def BSP_REC_MAX_def rec_wire_def put24_def rec_zero_def
        rec_inv_def good_heap_def)
  moreover have "map (\<lambda>i. demo_stream ! i) [0..<3] = demo_stream" by (simp add: demo_stream_def upt_rec)
  ultimately show ?thesis
    using batch_single_ack[of demo_stream "old_link\<lparr>bsp := bsp_reset (bsp old_link) 7, grec := (rec_zero, 0)\<rparr>" 0 3 good_heap]
    by (simp add: notify_ready_def old_link_def bsp_reset_def BSP_WINDOW_def)
      (simp add: demo_stream_def payload_ok_def)
qed

lemma bsp_feed_data_acks:
  assumes "active (bsp l)" "payload_ok p" "Notify c b \<in> set (snd (bsp_feed mal l (data_frame seq p)))"
  shows "c = conn_handle (bsp l) \<and> b = ack_buf (rx_expected (bsp l) - 1) (rx_window (bsp l))"
  using assms by (auto simp: bsp_feed_data_frame payload_ok_def bsp_send_ack_def bsp_notify_def split: if_splits)

lemma bsp_feed_data_keeps:
  assumes "active (bsp l)" "payload_ok p"
  shows "conn_handle (bsp (fst (bsp_feed mal l (data_frame seq p)))) = conn_handle (bsp l)"
    and "active (bsp (fst (bsp_feed mal l (data_frame seq p))))"
    and "rx_expected (bsp (fst (bsp_feed mal l (data_frame seq p)))) =
      (if seq = rx_expected (bsp l) then rx_expected (bsp l) + 1 else rx_expected (bsp l))"
  using assms by (auto simp: bsp_feed_data_frame payload_ok_def case_prod_beta)

lemma accepted_acks:
  assumes "\<forall>p\<in>set ps. payload_ok p" "active (bsp l)" "rx_expected (bsp l) = of_nat n" "in_reach ps n ws"
    "Notify c b \<in> set (snd (feed_all (bsp_feed mal) l (map (packet_of ps) ws)))"
  shows "c = conn_handle (bsp l) \<and> (\<exists>m w. n \<le> m \<and> m \<le> accepted n ws \<and> b = ack_buf (of_nat m - 1) w)"
  using assms
proof (induction ps n ws arbitrary: l rule: in_reach.induct)
  case (2 ps n i ws)
  let ?fr = "data_frame (of_nat i) (ps ! i)"
  let ?l1 = "fst (bsp_feed mal l ?fr)"
  let ?n1 = "if i = n then Suc n else n"
  have p: "payload_ok (ps ! i)" using 2(2,5) by simp
  have ex: "rx_expected (bsp ?l1) = of_nat ?n1"
    using bsp_feed_data_keeps(3)[OF 2(3) p, of mal "of_nat i"] 2(4,5) seq_close[of i n] by auto
  have reach: "in_reach ps ?n1 ws" using 2(5) by simp
  note keep = bsp_feed_data_keeps(1,2)[OF 2(3) p, of mal "of_nat i"]
  have mono: "n \<le> ?n1" "?n1 \<le> accepted ?n1 ws" using accepted_ge by auto
  consider "Notify c b \<in> set (snd (bsp_feed mal l ?fr))"
    | "Notify c b \<in> set (snd (feed_all (bsp_feed mal) ?l1 (map (packet_of ps) ws)))"
    using 2(6) by (auto simp: Let_def case_prod_beta)
  then show ?case
  proof cases
    case 1
    have "n \<le> accepted n (Frame i # ws)" using mono by simp
    then show ?thesis using bsp_feed_data_acks[OF 2(3) p 1] 2(4) by auto
  next
    case 2
    show ?thesis
      using "2.IH"[OF "2.prems"(1) keep(2) ex reach 2] keep(1) mono(1) by (auto intro: le_trans)
  qed
next
  case (3 ps n b ws)
  then show ?case by (auto simp: Let_def bsp_feed_bad case_prod_beta)
qed simp

text \<open>an acknowledgement never runs ahead of what was accepted: whatever arrives in a batch, every frame the
  receiver sends while draining it, and the cumulative one at its end, acknowledges the m-th frame of the stream
  for some m that does not exceed the number accepted by the end of the batch (nor falls below the number
  accepted before it).\<close>

theorem acks_never_ahead:
  assumes "\<forall>p\<in>set ps. payload_ok p" and "active (bsp l)" and "rx_expected (bsp l) = of_nat n"
    and "in_reach ps n ws"
    and "Notify c b \<in> set (snd (bsp_proc_batch mal l (map (packet_of ps) ws)))"
  shows "\<exists>m w. n \<le> m \<and> m \<le> accepted n ws \<and> b = ack_buf (of_nat m - 1) w"
proof -
  let ?r = "feed_all (bsp_feed mal) l (map (packet_of ps) ws)"
  have ex: "rx_expected (bsp (fst ?r)) = of_nat (accepted n ws)"
    using feed_arrivals[OF assms(1-4), of mal] by (simp add: Let_def)
  consider "Notify c b \<in> set (snd ?r)" | "Notify c b \<in> set (snd (bsp_flush_ack (fst ?r)))"
    using assms(5) by (auto simp: bsp_proc_batch_def Let_def case_prod_beta)
  then show ?thesis
  proof cases
    case 1 then show ?thesis using accepted_acks[OF assms(1-4)] by blast
  next
    case 2
    then have "b = ack_buf (of_nat (accepted n ws) - 1) BSP_WINDOW"
      using ex by (auto simp: bsp_flush_ack_def bsp_send_ack_def bsp_notify_def split: if_splits)
    then show ?thesis using accepted_ge[of n ws] by blast
  qed
qed

text \<open>The negative acknowledgement of the out-of-order frame 2 of a stream whose frame 0 is expected.\<close>

theorem acks_never_ahead_witness:
  "\<exists>m w. 0 \<le> m \<and> m \<le> accepted 0 [Frame 2] \<and> ack_buf (0 - 1) 16 = ack_buf (of_nat m - 1) w"
proof (rule acks_never_ahead[where ps = demo_stream and mal = good_heap and c = 7
      and l = "old_link\<lparr>bsp := bsp_reset (bsp old_link) 7\<rparr>"])
  show "Notify 7 (ack_buf (0 - 1) 16) \<in> set (snd (bsp_proc_batch good_heap
      (old_link\<lparr>bsp := bsp_reset (bsp old_link) 7\<rparr>) (map (packet_of demo_stream) [Frame 2])))"
    by (simp add: bsp_proc_batch_def Let_def case_prod_beta bsp_feed_data_frame old_link_def bsp_reset_def
        demo_stream_def bsp_send_ack_def bsp_notify_def BSP_WINDOW_def)
qed (auto simp: demo_stream_def payload_ok_def old_link_def bsp_reset_def)

text \<open>after a disconnect the receiver is dead until the next connect: no packet still in the queue changes any
  state, delivers a record or makes the device send anything, not even the acknowledgement that was pending;
  and the connect that follows resets the sequence numbers, the flow control and the partial record.\<close>

theorem disconnected_is_silent:
  "snd (bsp_proc_batch mal (bsp_on_disconnect l) pkts) = [] \<and>
   fst (feed_all (bsp_feed mal) (bsp_on_disconnect l) pkts) = bsp_on_disconnect l \<and>
   (let l' = bsp_on_connect c (fst (bsp_proc_batch mal (bsp_on_disconnect l) pkts)) in
     rx_expected (bsp l') = 0 \<and> s_tx_seq l' = 0 \<and> \<not> bsp_tx_paused l' \<and> \<not> bsp_notify_enabled l' \<and>
     \<not> ack_pending (bsp l') \<and> fst (grec l') = rec_zero)"
proof -
  have "bsp_feed mal (bsp_on_disconnect l) p = (bsp_on_disconnect l, [])" for p
    by (simp add: bsp_feed_def bsp_on_disconnect_def)
  then have dead: "feed_all (bsp_feed mal) (bsp_on_disconnect l) pkts = (bsp_on_disconnect l, [])"
    by (induction pkts) simp_all
  then show ?thesis
    by (simp add: bsp_proc_batch_def bsp_flush_ack_def bsp_send_ack_def bsp_notify_def Let_def
        bsp_on_disconnect_def bsp_on_connect_def bsp_reset_def bsp_record_reset_def)
qed

lemma rx_queue_bounded:
  "length q \<le> BSP_QUEUE_DEPTH \<Longrightarrow> length (bsp_rx_chr_access w a f pkt q) \<le> BSP_QUEUE_DEPTH"
  by (simp add: bsp_rx_chr_access_def)

end
