(* ===== verification/BSP_Send.thy ===== *)
theory BSP_Send
  imports BSP_Link
begin

text \<open>
  The sending half of the BLE serial protocol (bsp_send_record in
  main/ble/gatt_service.c): a record is laid out flat, cut into DATA frames that fit
  the negotiated MTU and numbered with s_tx_seq.  The MTU and the outcomes of the
  allocations are parameters.  The lemmas show the frames are well formed and fit, and
  that a receiver running this firmware's own bsp_feed gets the record back.
\<close>

section \<open>The code\<close>

text \<open>Max record bytes per frame: the ATT MTU (at least 23) less 3 + 4 + 2 bytes of headers.\<close>

definition max_chunk :: "u16 \<Rightarrow> nat" where
  "max_chunk att_mtu = unat (if att_mtu < 23 then 23 else att_mtu) - 9"

definition build_frame :: "u8 \<Rightarrow> bytes \<Rightarrow> bytes" where
  "build_frame seq part = (let chunk = (of_nat (length part) :: u32);
     frame = [BSP_TYPE_DATA, seq, ucast (chunk AND 0xFF), ucast (drop_bit 8 chunk AND 0xFF)] @ part;
     crc = bsp_crc16 frame (of_nat (length frame)) in
     frame @ [ucast (crc AND 0xFF), ucast (drop_bit 8 crc)])"

text \<open>The loop over the chunks; the heap's request counter is the one beside the reassembler.\<close>

definition heap_request :: "heap \<Rightarrow> link \<Rightarrow> nat \<Rightarrow> bool \<times> link" where
  "heap_request mal l n = (mal (snd (grec l)) n \<noteq> None, l\<lparr>grec := (fst (grec l), Suc (snd (grec l)))\<rparr>)"

lemma max_chunk_ge: "14 \<le> max_chunk mtu"
  by (auto simp: max_chunk_def word_less_nat_alt)

function send_frames :: "heap \<Rightarrow> u16 \<Rightarrow> link \<Rightarrow> bytes \<Rightarrow> link \<times> link_out list" where
  "send_frames mal mtu l rec =
     (if rec = [] then (l, [])
      else let chunk = (if length rec > max_chunk mtu then max_chunk mtu else length rec);
               (ok, l1) = heap_request mal l (4 + chunk + 2) in
        if \<not> ok then (l1, [])
        else let frame = build_frame (s_tx_seq l1) (take chunk rec);
                 l2 = l1\<lparr>s_tx_seq := s_tx_seq l1 + 1\<rparr>;
                 (l3, sent) = bsp_notify l2 (g_bsp_conn_handle l2) frame;
                 (l4, out) = send_frames mal mtu l3 (drop chunk rec) in
          (l4, sent @ out))"
  by pat_completeness auto
termination
proof (relation "measure (\<lambda>(mal, mtu, l, rec). length rec)", goal_cases)
  case (2 mal mtu l rec)
  then show ?case using max_chunk_ge[of mtu] by (auto split: if_splits)
qed simp

declare send_frames.simps [simp del]

text \<open>The mutex is taken by the environment's scheduler or not created at all.\<close>

definition bsp_send_record :: "heap \<Rightarrow> u16 \<Rightarrow> bool \<Rightarrow> link \<Rightarrow> u8 \<Rightarrow> bytes \<Rightarrow> link \<times> link_out list" where
  "bsp_send_record mal mtu mutex_taken l ch payload =
     (if \<not> mutex_taken then (l, [])
      else let len = (of_nat (length payload) :: u32);
               (ok, l1) = heap_request mal l (4 + length payload) in
        if \<not> ok then (l1, [])
        else send_frames mal mtu l1
          ([ch, ucast (len AND 0xFF), ucast (drop_bit 8 len AND 0xFF), ucast (drop_bit 16 len AND 0xFF)] @ payload))"

section \<open>The frames\<close>

lemma bit_of_nat_word: "bit (of_nat n :: 'a::len word) m \<longleftrightarrow> m < LENGTH('a) \<and> bit n m"
proof -
  have "bit (unat (of_nat n :: 'a word)) m \<longleftrightarrow> bit (of_nat n :: 'a word) m"
    by (simp only: bit_unsigned_iff) simp
  then show ?thesis by (simp only: unsigned_of_nat of_nat_id bit_take_bit_iff)
qed

lemma ucast_chunk_low: "(ucast (of_nat n :: u32) :: u8) = ucast (of_nat n :: u16)"
  by (rule bit_word_eqI) (auto simp: bit_unsigned_iff bit_of_nat_word)

lemma ucast_chunk_high: "(ucast (drop_bit 8 (of_nat n :: u32)) :: u8) = ucast (drop_bit 8 (of_nat n :: u16))"
  by (rule bit_word_eqI) (auto simp: bit_unsigned_iff bit_drop_bit_eq bit_of_nat_word)

lemma build_frame_wire: "build_frame seq part = data_frame seq part"
  by (simp add: build_frame_def data_frame_def Let_def put16_def ucast_chunk_low ucast_chunk_high)

text \<open>The cutting as a function on its own.\<close>

fun chop :: "nat \<Rightarrow> 'a list \<Rightarrow> 'a list list" where
  "chop m xs = (if xs = [] \<or> m = 0 then [] else take m xs # chop m (drop m xs))"

declare chop.simps [simp del]

lemma chop_nil [simp]: "chop m [] = []"
  by (simp add: chop.simps)

lemma concat_chop: "0 < m \<Longrightarrow> concat (chop m xs) = xs"
  by (induction m xs rule: chop.induct) (simp add: chop.simps[of _ "_ :: 'a list"])

lemma chop_lengths: "p \<in> set (chop m xs) \<Longrightarrow> 0 < length p \<and> length p \<le> m"
  by (induction m xs rule: chop.induct) (subst (asm) (2) chop.simps, auto split: if_splits)

definition heap_never_fails :: "heap \<Rightarrow> bool" where
  "heap_never_fails mal \<longleftrightarrow> (\<forall>k n. mal k n \<noteq> None)"

lemma good_heap_never_fails [simp]: "heap_never_fails good_heap"
  by (simp add: heap_never_fails_def good_heap_def)

definition sent_bytes :: "link_out list \<Rightarrow> bytes list" where
  "sent_bytes out = concat (map (\<lambda>x. case x of Notify c b \<Rightarrow> [b] | _ \<Rightarrow> []) out)"

lemma sent_bytes_simps [simp]:
  "sent_bytes [] = []" "sent_bytes (Notify c b # out) = b # sent_bytes out"
  by (simp_all add: sent_bytes_def)

lemma send_frames_chop:
  assumes "heap_never_fails mal" "notify_ready l"
  shows "s_tx_seq (fst (send_frames mal mtu l rec)) = s_tx_seq l + of_nat (length (chop (max_chunk mtu) rec)) \<and>
    sent_bytes (snd (send_frames mal mtu l rec)) =
      map (\<lambda>i. data_frame (s_tx_seq l + of_nat i) (chop (max_chunk mtu) rec ! i)) [0..<length (chop (max_chunk mtu) rec)]"
  using assms(2)
proof (induction "length rec" arbitrary: l rec rule: less_induct)
  case step: (less rec l)
  show ?case
  proof (cases "rec = []")
    case True then show ?thesis by (simp add: send_frames.simps)
  next
    case False
    define m where "m = max_chunk mtu"
    define c where "c = (if length rec > m then m else length rec)"
    define l1 where "l1 = l\<lparr>grec := (fst (grec l), Suc (snd (grec l)))\<rparr>"
    define l2 where "l2 = l1\<lparr>s_tx_seq := s_tx_seq l1 + 1\<rparr>"
    define l3 where "l3 = l2\<lparr>om_count := Suc (om_count l2)\<rparr>"
    have m: "0 < m" using max_chunk_ge[of mtu] by (simp add: m_def)
    have req: "heap_request mal l (4 + c + 2) = (True, l1)"
      using assms(1) by (simp add: heap_request_def heap_never_fails_def l1_def del: not_None_eq)
    have cut: "chop m rec = take c rec # chop m (drop c rec)"
      using False m by (subst chop.simps) (auto simp: c_def)
    have rdy: "notify_ready l2" "notify_ready l3" using step(2) by (simp_all add: notify_ready_def l3_def l2_def l1_def)
    then have sent: "bsp_notify l2 h d = (l3, [Notify h d])" for h d by (simp add: bsp_notify_def notify_ready_def l3_def)
    have code: "send_frames mal mtu l rec = (let (l4, out) = send_frames mal mtu l3 (drop c rec) in
        (l4, Notify (g_bsp_conn_handle l2) (data_frame (s_tx_seq l) (take c rec)) # out))"
      using False
      unfolding send_frames.simps[of mal mtu l rec] Let_def m_def[symmetric] c_def[symmetric] req prod.case
      unfolding build_frame_wire l2_def[symmetric] sent prod.case
      by (simp add: case_prod_beta) (simp add: l1_def)
    have "length (drop c rec) < length rec" using False m by (auto simp: c_def)
    note IH = step(1)[OF this rdy(2), folded m_def]
    have seq: "s_tx_seq l3 = s_tx_seq l + 1" by (simp add: l3_def l2_def l1_def)
    show ?thesis
      using IH by (simp add: code cut seq Let_def case_prod_beta m_def[symmetric] map_upt_Suc add.assoc
          del: upt_Suc)
  qed
qed

section \<open>Properties of the sender\<close>

lemma max_chunk_lt: "max_chunk mtu < 65530"
proof -
  have "unat mtu < 65536" using unsigned_less[of mtu, where 'a = nat] by simp
  then show ?thesis by (auto simp: max_chunk_def)
qed

lemma sent_bytes_append [simp]: "sent_bytes (xs @ out) = sent_bytes xs @ sent_bytes out"
  by (simp add: sent_bytes_def)

lemma send_frames_shape:
  "f \<in> set (sent_bytes (snd (send_frames mal mtu l rec))) \<Longrightarrow>
    \<exists>seq p. f = data_frame seq p \<and> 0 < length p \<and> length p \<le> max_chunk mtu"
proof (induction "length rec" arbitrary: l rec rule: less_induct)
  case step: (less rec l)
  show ?case
  proof (cases "rec = []")
    case False
    define c where "c = (if length rec > max_chunk mtu then max_chunk mtu else length rec)"
    have c: "0 < c" "c \<le> max_chunk mtu" "c \<le> length rec"
      using False max_chunk_ge[of mtu] by (auto simp: c_def)
    obtain ok l1 where req: "heap_request mal l (4 + c + 2) = (ok, l1)"
      by (cases "heap_request mal l (4 + c + 2)")
    let ?l2 = "l1\<lparr>s_tx_seq := s_tx_seq l1 + 1\<rparr>"
    let ?sent = "bsp_notify ?l2 (g_bsp_conn_handle ?l2) (data_frame (s_tx_seq l1) (take c rec))"
    have code: "snd (send_frames mal mtu l rec) = (if \<not> ok then [] else
        snd ?sent @ snd (send_frames mal mtu (fst ?sent) (drop c rec)))"
      using False
      unfolding send_frames.simps[of mal mtu l rec] Let_def c_def[symmetric] req prod.case build_frame_wire
      by (simp add: case_prod_beta)
    have "length (drop c rec) < length rec" using c by simp
    note IH = step(1)[OF this]
    have "f = data_frame (s_tx_seq l1) (take c rec) \<or> f \<in> set (sent_bytes (snd (send_frames mal mtu (fst ?sent) (drop c rec))))"
      using step(2) unfolding code by (auto simp: bsp_notify_def split: if_splits)
    then show ?thesis
    proof
      assume "f = data_frame (s_tx_seq l1) (take c rec)"
      then show ?thesis using c by (intro exI[of _ "s_tx_seq l1"] exI[of _ "take c rec"]) simp
    qed (rule IH)
  qed (use step(2) in \<open>simp add: send_frames.simps\<close>)
qed

text \<open>every packet that bsp_send_record hands to the BLE stack is a well-formed DATA frame with at least one payload byte
  that fits the negotiated MTU: at most the MTU less the three ATT bytes, taking the BLE minimum of 23
  when the stack reports less; this holds whichever allocations fail.\<close>

theorem sent_frames_fit_mtu:
  assumes "f \<in> set (sent_bytes (snd (bsp_send_record mal mtu taken l ch payload)))"
  shows "\<exists>seq p. f = data_frame seq p \<and> 0 < length p \<and> length f \<le> max 23 (unat mtu) - 3"
proof -
  obtain l1 rec where "f \<in> set (sent_bytes (snd (send_frames mal mtu l1 rec)))"
    using assms by (auto simp: bsp_send_record_def Let_def case_prod_beta split: if_splits)
  then obtain seq p where f: "f = data_frame seq p" "0 < length p" "length p \<le> max_chunk mtu"
    using send_frames_shape by blast
  have "max_chunk mtu = max 23 (unat mtu) - 9" by (auto simp: max_chunk_def word_less_nat_alt)
  moreover have "length f = length p + 6" by (simp add: f data_frame_def Let_def)
  ultimately have "length f \<le> max 23 (unat mtu) - 3" using f(3) max_chunk_ge[of mtu] by linarith
  then show ?thesis using f(1,2) by blast
qed

text \<open>C10: sending and receiving are inverse: when the heap and the stack's packet buffers serve the sender, the frames of a record of up to 4 MB, whatever the
  MTU, taken in by a receiver whose expected sequence number is the sender's next one, deliver exactly
  that channel and payload; the sequence numbers agree again afterwards (also across the wrap at
  256) and no partial record is left.\<close>

theorem send_receive_roundtrip:
  assumes "heap_never_fails mal" and "notify_ready l"
    and "active (bsp r)" and "rx_expected (bsp r) = s_tx_seq l"
    and "rec_inv (fst (grec r))" and "hdr_fill (fst (grec r)) = 0"
    and "heap_sized mal'" and "payload = [] \<or> mal' (snd (grec r)) (length payload) \<noteq> None"
    and "rec_fits (ch, payload)"
  shows "let (l', out) = bsp_send_record mal mtu True l ch payload;
             (r', got) = feed_all (bsp_feed mal') r (sent_bytes out)
    in records_of got = [(ch, payload)] \<and> rx_expected (bsp r') = s_tx_seq l' \<and> hdr_fill (fst (grec r')) = 0"
proof -
  define rec where "rec = rec_wire (ch, payload)"
  define cs where "cs = chop (max_chunk mtu) rec"
  define n where "n = unat (s_tx_seq l)"
  define ps where "ps = replicate n [0] @ cs"
  define l1 where "l1 = l\<lparr>grec := (fst (grec l), Suc (snd (grec l)))\<rparr>"
  have len: "length payload \<le> 4194304" using assms(9) by (simp add: rec_fits_def BSP_REC_MAX_def)
  have mc: "0 < max_chunk mtu" using max_chunk_ge[of mtu] by simp
  have code: "bsp_send_record mal mtu True l ch payload = send_frames mal mtu l1 rec"
    using assms(1) by (simp add: bsp_send_record_def heap_request_def heap_never_fails_def l1_def
        rec_def rec_wire_def put24_def Let_def del: not_None_eq)
  have rdy: "notify_ready l1" "s_tx_seq l1 = s_tx_seq l" using assms(2) by (auto simp: notify_ready_def l1_def)
  note sent = send_frames_chop[OF assms(1) rdy(1), of mtu rec, folded cs_def, unfolded rdy(2)]
  have shift: "map f [n..<n + length cs] = map (\<lambda>i. f (n + i)) [0..<length cs]" for f :: "nat \<Rightarrow> bytes"
    by (rule nth_equalityI) simp_all
  have frames: "sent_bytes (snd (send_frames mal mtu l1 rec)) =
      map (\<lambda>i. data_frame (of_nat i) (ps ! i)) [n..<n + length cs]"
    unfolding shift conjunct2[OF sent] by (simp add: ps_def nth_append) (simp add: n_def)
  have ok: "\<forall>p\<in>set ps. payload_ok p"
  proof
    fix p assume "p \<in> set ps"
    then consider "p = [0]" | "p \<in> set cs" by (auto simp: ps_def split: if_splits)
    then show "payload_ok p"
    proof cases
      case 2
      then have "0 < length p \<and> length p \<le> max_chunk mtu" unfolding cs_def by (rule chop_lengths)
      then show ?thesis using max_chunk_lt[of mtu] by (simp add: payload_ok_def)
    qed (simp add: payload_ok_def)
  qed
  have pay: "map (\<lambda>i. ps ! i) [n..<n + length cs] = cs"
    by (rule nth_equalityI) (auto simp: ps_def nth_append)
  have seq: "rx_expected (bsp r) = of_nat n" using assms(4) by (simp add: n_def)
  have feed: "feed_all (bsp_feed mal') r (sent_bytes (snd (send_frames mal mtu l1 rec))) =
    (let d = feed_all (bsp_record_feed mal') (grec r) cs in
     (r\<lparr>bsp := (bsp r)\<lparr>rx_expected := of_nat (n + length cs), ack_pending := (0 < length cs \<or> ack_pending (bsp r))\<rparr>, grec := fst d\<rparr>,
      map (\<lambda>(ch, p). RecordIn ch p) (snd d)))"
    unfolding frames using feed_in_order[OF ok assms(3) seq, of "length cs" mal'] by (simp add: pay) (simp add: ps_def)
  have "concat cs = concat (map rec_wire [(ch, payload)])" using mc by (simp add: cs_def concat_chop rec_def)
  then have "snd (feed_all (bsp_record_feed mal') (grec r) cs) = rec_survivors mal' (snd (grec r)) [(ch, payload)] \<and>
      hdr_fill (fst (fst (feed_all (bsp_record_feed mal') (grec r) cs))) = 0"
    using assms(5-7,9) by (intro idle_stream_delivered) auto
  then show ?thesis
    using assms(8) conjunct1[OF sent]
    unfolding code case_prod_beta Let_def feed[unfolded Let_def] fst_conv snd_conv
    by (auto simp: n_def records_of_def)
qed

definition app_link :: link where
  "app_link = old_link\<lparr>bsp := bsp_reset (bsp old_link) 7, grec := (rec_zero, 0), s_tx_seq := 255\<rparr>"

theorem sent_frames_fit_mtu_witness:
  "\<exists>seq p. data_frame 255 [1, 1, 0, 0, 9] = data_frame seq p \<and> 0 < length p \<and>
     length (data_frame 255 [1, 1, 0, 0, 9]) \<le> max 23 (unat (20 :: u16)) - 3"
proof (rule sent_frames_fit_mtu[where mal = good_heap and taken = True and l = app_link and ch = 1 and payload = "[9]"])
  have "sent_bytes (snd (send_frames good_heap 20 (app_link\<lparr>grec := (rec_zero, 1)\<rparr>) [1, 1, 0, 0, 9])) =
      [data_frame 255 [1, 1, 0, 0, 9]]"
    by (simp add: send_frames.simps max_chunk_def heap_request_def good_heap_def build_frame_wire
        bsp_notify_def app_link_def old_link_def)
  then show "data_frame 255 [1, 1, 0, 0, 9] \<in> set (sent_bytes (snd (bsp_send_record good_heap 20 True app_link 1 [9])))"
    by (simp add: bsp_send_record_def heap_request_def good_heap_def Let_def app_link_def)
qed

theorem send_receive_roundtrip_witness:
  "records_of (snd (feed_all (bsp_feed good_heap) (app_link\<lparr>bsp := (bsp app_link)\<lparr>rx_expected := 255\<rparr>\<rparr>)
     (sent_bytes (snd (bsp_send_record good_heap 23 True app_link 2 (replicate 600 0x41)))))) = [(2, replicate 600 0x41)]"
  using send_receive_roundtrip[of good_heap app_link "app_link\<lparr>bsp := (bsp app_link)\<lparr>rx_expected := 255\<rparr>\<rparr>"
      good_heap "replicate 600 0x41" 2 23]
  by (simp add: app_link_def old_link_def bsp_reset_def notify_ready_def rec_fits_def BSP_REC_MAX_def
      good_heap_def rec_zero_def rec_inv_def case_prod_beta Let_def)

end
