(* ===== verification/BSP_File.thy ===== *)
theory BSP_File
  imports BSP_Crc
begin

text \<open>
  The FILE channel of the BLE serial protocol (main/ble/bsp_file.c): path
  resolution, the upload (PUT) state machine with its CRC-32 and the download (GET)
  task.  The two file systems and the heap are parameters: their verdicts are inputs
  and the calls made on them are outputs, in order.
\<close>

section \<open>Strings\<close>

definition str :: "string \<Rightarrow> bytes" where
  "str s = map of_char s"

definition cstr :: "bytes \<Rightarrow> bytes" where
  "cstr xs = takeWhile (\<lambda>b. b \<noteq> 0) xs"

fun has_dotdot :: "bytes \<Rightarrow> bool" where
  "has_dotdot (a # b # xs) \<longleftrightarrow> (a = 0x2E \<and> b = 0x2E) \<or> has_dotdot (b # xs)"
| "has_dotdot _ \<longleftrightarrow> False"

definition JFS_ROOT :: bytes where "JFS_ROOT = str ''Root/''"
definition SD_MOUNT :: bytes where "SD_MOUNT = str ''/sdcard''"
definition BSP_FILE_MAX :: u32 where "BSP_FILE_MAX = 4 * 1024 * 1024"
definition MAGIC_GET :: bytes where "MAGIC_GET = str ''BFGE''"
definition MAGIC_CANCEL :: bytes where "MAGIC_CANCEL = str ''BFCA''"
definition MAGIC_PUT :: bytes where "MAGIC_PUT = str ''BFPS''"
definition MAGIC_PUTEOF :: bytes where "MAGIC_PUTEOF = str ''BFPE''"
definition MAGIC_HDR :: bytes where "MAGIC_HDR = str ''BFHD''"
definition MAGIC_EOF :: bytes where "MAGIC_EOF = str ''BFEF''"
definition MAGIC_OK :: bytes where "MAGIC_OK = str ''BFOK''"
definition MAGIC_ERR :: bytes where "MAGIC_ERR = str ''BFER''"

lemmas magic_defs = MAGIC_GET_def MAGIC_CANCEL_def MAGIC_PUT_def MAGIC_PUTEOF_def MAGIC_HDR_def
  MAGIC_EOF_def MAGIC_OK_def MAGIC_ERR_def

section \<open>State, environment and outputs\<close>

record bsp_put_ctx =
  put_active :: bool
  is_jfs :: bool
  put_path :: bytes
  jfs_w :: bool
  sd_w :: bool
  put_rx :: u32
  put_crc :: u32

datatype file_out =
    FileSend bytes
  | JfsOpenW bytes | JfsWrite bytes | JfsClose
  | SdOpenW bytes | SdWrite bytes | SdClose
  | SpawnGet bytes bool

record file_env =
  jfs_can_create :: "bytes \<Rightarrow> bool"
  sd_can_create :: "bytes \<Rightarrow> bool"
  calloc_ok :: bool

definition put_zero :: bsp_put_ctx where
  "put_zero = \<lparr>put_active = False, is_jfs = False, put_path = [], jfs_w = False, sd_w = False,
     put_rx = 0, put_crc = 0\<rparr>"

section \<open>Operations\<close>

definition bsp_file_send_err :: "string \<Rightarrow> file_out list" where
  "bsp_file_send_err msg = (let mlen = (if length msg > 512 then 512 else length msg) in
     [FileSend (MAGIC_ERR @ put16 (of_nat mlen) @ str (take mlen msg))])"

definition bsp_put_reset :: "bsp_put_ctx \<Rightarrow> bsp_put_ctx \<times> file_out list" where
  "bsp_put_reset s = (put_zero, (if jfs_w s then [JfsClose] else []) @ (if sd_w s then [SdClose] else []))"

text \<open>The resolved path as snprintf leaves it in a buffer of out_sz characters.\<close>

definition bsp_resolve_path :: "bytes \<Rightarrow> nat \<Rightarrow> (bytes \<times> bool) option" where
  "bsp_resolve_path inp out_sz =
     (if out_sz < 8 then None
      else if take 3 inp = str ''A:/'' \<or> take 3 inp = str ''a:/'' then
        Some (take (out_sz - 1) (JFS_ROOT @ drop 3 inp), True)
      else if take 3 inp = str ''B:/'' \<or> take 3 inp = str ''b:/'' then
        Some (take (out_sz - 1) (SD_MOUNT @ [0x2F] @ drop 3 inp), False)
      else if take 1 inp = [0x2F] then Some (take (out_sz - 1) (JFS_ROOT @ drop 1 inp), True)
      else Some (take (out_sz - 1) (JFS_ROOT @ inp), True))"

definition bsp_handle_get :: "file_env \<Rightarrow> bytes \<Rightarrow> file_out list" where
  "bsp_handle_get env payload =
     (if length payload < 6 then bsp_file_send_err ''BFGE too short''
      else let plen = le16 (payload ! 4) (payload ! 5) in
        if length payload < 6 + unat plen \<or> plen = 0 \<or> plen > 192 then bsp_file_send_err ''invalid path length''
        else let path = cstr (take (unat plen) (drop 6 payload)) in
          if has_dotdot path then bsp_file_send_err ''path traversal denied''
          else if \<not> calloc_ok env then bsp_file_send_err ''out of memory''
          else case bsp_resolve_path path 256 of
              None \<Rightarrow> bsp_file_send_err ''invalid path''
            | Some (host, jfs) \<Rightarrow> [SpawnGet host jfs])"

definition bsp_handle_put_start :: "file_env \<Rightarrow> bsp_put_ctx \<Rightarrow> bytes \<Rightarrow> bsp_put_ctx \<times> file_out list" where
  "bsp_handle_put_start env s0 payload = (let (s, o1) = bsp_put_reset s0 in
     if length payload < 6 then (s, o1 @ bsp_file_send_err ''BFPS too short'')
     else let plen = le16 (payload ! 4) (payload ! 5) in
       if length payload < 6 + unat plen \<or> plen = 0 \<or> plen > 192 then
         (s, o1 @ bsp_file_send_err ''invalid filename length'')
       else let name = cstr (take (unat plen) (drop 6 payload)) in
         if 0x2F \<in> set name \<or> 0x5C \<in> set name \<or> has_dotdot name then
           (s, o1 @ bsp_file_send_err ''invalid filename'')
         else case bsp_resolve_path name 256 of
             None \<Rightarrow> (s, o1 @ bsp_file_send_err ''path resolve failed'')
           | Some (path, jfs) \<Rightarrow>
               (let s1 = s\<lparr>put_path := path, is_jfs := jfs, put_active := True, put_rx := 0, put_crc := 0\<rparr> in
                if jfs then
                  (if jfs_can_create env path then (s1\<lparr>jfs_w := True\<rparr>, o1 @ [JfsOpenW path])
                   else (let (s2, o2) = bsp_put_reset s1 in
                     (s2, o1 @ [JfsOpenW path] @ o2 @ bsp_file_send_err ''cannot create file'')))
                else
                  (if sd_can_create env path then (s1\<lparr>sd_w := True\<rparr>, o1 @ [SdOpenW path])
                   else (let (s2, o2) = bsp_put_reset s1 in
                     (s2, o1 @ [SdOpenW path] @ o2 @ bsp_file_send_err ''cannot create file'')))))"

definition bsp_handle_put_data :: "bsp_put_ctx \<Rightarrow> bytes \<Rightarrow> bsp_put_ctx \<times> file_out list" where
  "bsp_handle_put_data s payload =
     (if \<not> put_active s \<or> length payload = 0 then (s, [])
      else (s\<lparr>put_crc := crc32_buf (put_crc s) payload, put_rx := put_rx s + of_nat (length payload)\<rparr>,
            if is_jfs s \<and> jfs_w s then [JfsWrite payload]
            else if sd_w s then [SdWrite payload] else []))"

definition bsp_handle_put_end :: "bsp_put_ctx \<Rightarrow> bytes \<Rightarrow> bsp_put_ctx \<times> file_out list" where
  "bsp_handle_put_end s payload =
     (if \<not> put_active s then (s, bsp_file_send_err ''no active PUT'')
      else if length payload < 12 then
        (let (s1, o1) = bsp_put_reset s in (s1, o1 @ bsp_file_send_err ''BFPE too short''))
      else
        let expected_size = le32 (payload ! 4) (payload ! 5) (payload ! 6) (payload ! 7);
            expected_crc = le32 (payload ! 8) (payload ! 9) (payload ! 10) (payload ! 11);
            closes = (if jfs_w s then [JfsClose] else []) @ (if sd_w s then [SdClose] else []);
            s1 = s\<lparr>jfs_w := False, sd_w := False, put_crc := put_crc s AND 0xFFFFFFFF\<rparr> in
        if put_rx s1 \<noteq> expected_size \<or> put_crc s1 \<noteq> expected_crc then
          (let (s2, o2) = bsp_put_reset s1 in (s2, closes @ o2 @ bsp_file_send_err ''CRC or size mismatch''))
        else (let (s2, o2) = bsp_put_reset s1 in (s2, closes @ o2 @ [FileSend MAGIC_OK])))"

text \<open>A payload of length 0 arrives as a null pointer; both are refused by the length test.\<close>

definition bsp_handle_file :: "file_env \<Rightarrow> bsp_put_ctx \<Rightarrow> bytes \<Rightarrow> bsp_put_ctx \<times> file_out list" where
  "bsp_handle_file env s payload =
     (if length payload < 4 then (s, [])
      else if take 4 payload = MAGIC_GET then (s, bsp_handle_get env payload)
      else if take 4 payload = MAGIC_CANCEL then bsp_put_reset s
      else if take 4 payload = MAGIC_PUT then bsp_handle_put_start env s payload
      else if take 4 payload = MAGIC_PUTEOF then bsp_handle_put_end s payload
      else if put_active s then bsp_handle_put_data s payload
      else (s, []))"

section \<open>The download task\<close>

text \<open>
  What the file system answers: for the JFS branch, the size and the successive
  results of FS_Read after the first open, and those after the second (an exhausted
  list, or an empty result, is a read of zero bytes); for the SD branch, the size
  given by stat for a regular file, whether fopen succeeds, and the results of fread
  before and after the rewind.
\<close>

record get_env =
  g_jfs_open :: "(u32 \<times> bytes list) option"
  g_jfs_reopen :: "bytes list option"
  g_sd_stat :: "u32 option"
  g_sd_open :: "(bytes list \<times> bytes list) option"
  g_malloc :: bool

fun read_loop :: "u32 \<Rightarrow> u32 \<Rightarrow> bytes list \<Rightarrow> bytes list" where
  "read_loop fsize acc [] = []"
| "read_loop fsize acc (r # rs) =
     (if \<not> acc < fsize then [] else if r = [] then []
      else r # read_loop fsize (acc + of_nat (length r)) rs)"

definition get_crc :: "u32 \<Rightarrow> bytes list \<Rightarrow> u32" where
  "get_crc fsize reads = foldl crc32_buf 0 (read_loop fsize 0 reads) AND 0xFFFFFFFF"

definition get_hdr :: "u32 \<Rightarrow> u32 \<Rightarrow> file_out" where
  "get_hdr fsize fcrc = FileSend (MAGIC_HDR @ put32 fsize @ put32 fcrc)"

definition get_eof :: "u32 \<Rightarrow> file_out" where
  "get_eof fsize = FileSend (MAGIC_EOF @ put32 fsize)"

definition bsp_get_task :: "get_env \<Rightarrow> bool \<Rightarrow> file_out list" where
  "bsp_get_task env jfs =
     (if jfs then
        (case g_jfs_open env of None \<Rightarrow> bsp_file_send_err ''file not found''
         | Some (fsize, reads) \<Rightarrow>
             if fsize > BSP_FILE_MAX then bsp_file_send_err ''file too large''
             else if \<not> g_malloc env then bsp_file_send_err ''out of memory''
             else let fcrc = get_crc fsize reads in
               (case g_jfs_reopen env of None \<Rightarrow> bsp_file_send_err ''file reopen failed''
                | Some reads2 \<Rightarrow>
                    get_hdr fsize fcrc # map FileSend (read_loop fsize 0 reads2) @ [get_eof fsize]))
      else
        (case g_sd_stat env of None \<Rightarrow> bsp_file_send_err ''file not found''
         | Some fsize \<Rightarrow>
             if fsize > BSP_FILE_MAX then bsp_file_send_err ''file too large''
             else (case g_sd_open env of None \<Rightarrow> bsp_file_send_err ''file open failed''
                   | Some (reads, reads2) \<Rightarrow>
                       if \<not> g_malloc env then bsp_file_send_err ''out of memory''
                       else let fcrc = get_crc fsize reads in
                         get_hdr fsize fcrc # map FileSend (read_loop fsize 0 reads2) @ [get_eof fsize])))"

section \<open>Path safety\<close>

lemma has_dotdot_append_slash:
  "\<not> has_dotdot (xs @ [0x2F]) \<Longrightarrow> \<not> has_dotdot ys \<Longrightarrow> \<not> has_dotdot (xs @ [0x2F] @ ys)"
proof (induction xs rule: has_dotdot.induct)
  case (1 a b xs) then show ?case by simp
qed (cases ys; simp)+

lemma has_dotdot_drop: "has_dotdot (drop n xs) \<Longrightarrow> has_dotdot xs"
proof (induction n arbitrary: xs)
  case (Suc n)
  then have "has_dotdot (drop n (tl xs))" by (simp add: drop_Suc)
  then have "has_dotdot (tl xs)" by (rule Suc.IH)
  then show ?case by (cases xs rule: has_dotdot.cases) auto
qed simp

lemma has_dotdot_take: "has_dotdot (take n xs) \<Longrightarrow> has_dotdot xs"
proof (induction xs arbitrary: n rule: has_dotdot.induct)
  case (1 a b xs)
  show ?case
  proof (cases "n < 2")
    case True
    then consider "n = 0" | "n = Suc 0" by linarith
    then show ?thesis using 1 by cases simp_all
  next
    case False
    then obtain m where "n = Suc (Suc m)" by (metis add_2_eq_Suc le_Suc_ex not_less)
    then show ?thesis using 1(1)[of "Suc m"] 1(2) by auto
  qed
qed (auto simp: take_Cons split: nat.splits)

lemma root_slash: "JFS_ROOT = str ''Root'' @ [0x2F]" "SD_MOUNT @ [0x2F] = str ''/sdcard'' @ [0x2F]"
  by (simp_all add: JFS_ROOT_def SD_MOUNT_def str_def)

lemma resolve_no_dotdot:
  assumes "bsp_resolve_path p n = Some (host, jfs)" "\<not> has_dotdot p"
  shows "\<not> has_dotdot host"
proof -
  have ok: "\<not> has_dotdot (str ''Root'' @ [0x2F])" "\<not> has_dotdot (str ''/sdcard'' @ [0x2F])"
    by (simp_all add: str_def)
  have d: "\<not> has_dotdot (drop k p)" for k using assms(2) has_dotdot_drop by blast
  have cat: "\<not> has_dotdot (JFS_ROOT @ drop k p)" "\<not> has_dotdot (SD_MOUNT @ [0x2F] @ drop k p)" for k
    using has_dotdot_append_slash[OF ok(1) d] has_dotdot_append_slash[OF ok(2) d]
    by (simp_all add: JFS_ROOT_def SD_MOUNT_def str_def)
  have "\<not> has_dotdot (JFS_ROOT @ p)" using cat(1)[of 0] by simp
  then show ?thesis
    using assms(1) cat by (auto simp: bsp_resolve_path_def simp del: take_append split: if_splits dest: has_dotdot_take)
qed

lemma err_not_open [simp]:
  "JfsOpenW p \<notin> set (bsp_file_send_err m)" "SdOpenW p \<notin> set (bsp_file_send_err m)"
  "SpawnGet h j \<notin> set (bsp_file_send_err m)" "JfsWrite d \<notin> set (bsp_file_send_err m)"
  "SdWrite d \<notin> set (bsp_file_send_err m)"
  by (auto simp: bsp_file_send_err_def Let_def)

lemma reset_not_open [simp]:
  "JfsOpenW p \<notin> set (snd (bsp_put_reset s))" "SdOpenW p \<notin> set (snd (bsp_put_reset s))"
  "SpawnGet h j \<notin> set (snd (bsp_put_reset s))"
  by (auto simp: bsp_put_reset_def)

lemma fst_reset [simp]: "fst (bsp_put_reset s) = put_zero"
  by (simp add: bsp_put_reset_def)

text \<open>A plain name resolves below the JFS root.\<close>

lemma resolve_name:
  assumes "0x2F \<notin> set name" "length name \<le> 192"
  shows "bsp_resolve_path name 256 = Some (JFS_ROOT @ name, True)"
proof -
  have no: "take 3 name \<noteq> xs @ [0x2F]" "take 1 name \<noteq> [0x2F]" for xs
    using assms(1) by (metis in_set_takeD in_set_conv_decomp, metis in_set_takeD list.set_intros(1))
  have "str ''A:/'' = str ''A:'' @ [0x2F]" "str ''a:/'' = str ''a:'' @ [0x2F]"
      "str ''B:/'' = str ''B:'' @ [0x2F]" "str ''b:/'' = str ''b:'' @ [0x2F]"
    by (simp_all add: str_def)
  moreover have "length JFS_ROOT = 5" by (simp add: JFS_ROOT_def str_def)
  ultimately show ?thesis
    using no assms(2) by (simp add: bsp_resolve_path_def)
qed

lemma cstr_short: "length (cstr (take n xs)) \<le> n"
  unfolding cstr_def by (rule le_trans[OF length_takeWhile_le]) simp

lemma put_start_opens:
  assumes "x \<in> set (snd (bsp_handle_put_start env s payload))" "x = JfsOpenW path \<or> x = SdOpenW path"
  shows "x = JfsOpenW path \<and> (\<exists>name. path = JFS_ROOT @ name \<and> 0x2F \<notin> set name \<and> 0x5C \<notin> set name \<and>
    \<not> has_dotdot name \<and> length name \<le> 192)"
proof -
  define name where "name = cstr (take (unat (le16 (payload ! 4) (payload ! 5))) (drop 6 payload))"
  have len: "length name \<le> 192" if "\<not> le16 (payload ! 4) (payload ! 5) > 192"
    using that cstr_short[of "unat (le16 (payload ! 4) (payload ! 5))" "drop 6 payload"]
    by (simp add: name_def word_less_nat_alt)
  show ?thesis
    using assms len resolve_name[of name]
    by (auto simp: bsp_handle_put_start_def Let_def case_prod_beta name_def[symmetric] split: if_splits option.splits)
qed

text \<open>C26: an upload cannot leave the JFS root: whatever bytes arrive on the FILE channel in whatever state, every file the
  firmware opens for writing is the root directory followed by a plain name without slash, backslash or
  two adjacent dots, of at most 192 bytes (so the 256-byte path buffer is never truncated); no file of the
  SD card is ever opened for writing.\<close>

theorem upload_stays_in_root:
  assumes "x \<in> set (snd (bsp_handle_file env s payload))" and "x = JfsOpenW path \<or> x = SdOpenW path"
  shows "x = JfsOpenW path \<and> (\<exists>name. path = JFS_ROOT @ name \<and> 0x2F \<notin> set name \<and> 0x5C \<notin> set name \<and>
    \<not> has_dotdot name \<and> length name \<le> 192)"
proof (rule put_start_opens)
  show "x \<in> set (snd (bsp_handle_put_start env s payload))"
    using assms by (auto simp: bsp_handle_file_def bsp_handle_get_def bsp_handle_put_data_def
        bsp_handle_put_end_def Let_def case_prod_beta split: if_splits option.splits)
qed (rule assms(2))

text \<open>a download cannot climb out either: every path handed to the download task has no two
  adjacent dots, and lies below the JFS root or below the SD card's mount point, as its flag says.\<close>

theorem download_path_safe:
  assumes "SpawnGet host jfs \<in> set (snd (bsp_handle_file env s payload))"
  shows "\<not> has_dotdot host \<and> length host < 256 \<and>
    (\<exists>rest. host = (if jfs then JFS_ROOT else SD_MOUNT @ [0x2F]) @ rest)"
proof -
  define path where "path = cstr (take (unat (le16 (payload ! 4) (payload ! 5))) (drop 6 payload))"
  have spawn: "\<not> has_dotdot path" "bsp_resolve_path path 256 = Some (host, jfs)" "length path \<le> 192"
    using assms cstr_short[of "unat (le16 (payload ! 4) (payload ! 5))" "drop 6 payload"]
    by (auto simp: bsp_handle_file_def bsp_handle_get_def bsp_handle_put_start_def bsp_handle_put_data_def
        bsp_handle_put_end_def Let_def case_prod_beta path_def[symmetric] word_less_nat_alt
        split: if_splits option.splits)
  moreover have "length JFS_ROOT = 5" "length SD_MOUNT = 7" by (simp_all add: JFS_ROOT_def SD_MOUNT_def str_def)
  ultimately have "length host < 256 \<and> (\<exists>rest. host = (if jfs then JFS_ROOT else SD_MOUNT @ [0x2F]) @ rest)"
    by (auto simp: bsp_resolve_path_def split: if_splits)
  then show ?thesis using resolve_no_dotdot[OF spawn(2,1)] by simp
qed

definition file_env_ok :: file_env where
  "file_env_ok = \<lparr>jfs_can_create = (\<lambda>p. True), sd_can_create = (\<lambda>p. True), calloc_ok = True\<rparr>"

theorem upload_stays_in_root_witness:
  "JfsOpenW (JFS_ROOT @ str ''a'') = JfsOpenW (JFS_ROOT @ str ''a'') \<and>
   (\<exists>name. JFS_ROOT @ str ''a'' = JFS_ROOT @ name \<and> 0x2F \<notin> set name \<and> 0x5C \<notin> set name \<and>
    \<not> has_dotdot name \<and> length name \<le> 192)"
  by (rule upload_stays_in_root[of _ file_env_ok put_zero "MAGIC_PUT @ [1, 0] @ str ''a''"])
    (auto simp: bsp_handle_file_def magic_defs str_def bsp_handle_put_start_def le16_def cstr_def
      bsp_put_reset_def put_zero_def bsp_resolve_path_def JFS_ROOT_def file_env_ok_def Let_def)

theorem download_path_safe_witness:
  "\<not> has_dotdot (SD_MOUNT @ [0x2F] @ str ''x'') \<and> length (SD_MOUNT @ [0x2F] @ str ''x'') < 256 \<and>
   (\<exists>rest. SD_MOUNT @ [0x2F] @ str ''x'' = (if False then JFS_ROOT else SD_MOUNT @ [0x2F]) @ rest)"
  by (rule download_path_safe[of _ False file_env_ok put_zero "MAGIC_GET @ [4, 0] @ str ''B:/x''"])
    (simp add: bsp_handle_file_def magic_defs str_def bsp_handle_get_def le16_def cstr_def
      bsp_resolve_path_def SD_MOUNT_def file_env_ok_def Let_def)

section \<open>Uploads\<close>

definition put_start_rec :: "bytes \<Rightarrow> bytes" where
  "put_start_rec name = MAGIC_PUT @ put16 (of_nat (length name)) @ name"

definition put_eof_rec :: "u32 \<Rightarrow> u32 \<Rightarrow> bytes" where
  "put_eof_rec fsz crc = MAGIC_PUTEOF @ put32 fsz @ put32 crc"

definition plain_name :: "bytes \<Rightarrow> bool" where
  "plain_name name \<longleftrightarrow> name \<noteq> [] \<and> length name \<le> 192 \<and> 0 \<notin> set name \<and> 0x2F \<notin> set name \<and>
     0x5C \<notin> set name \<and> \<not> has_dotdot name"

text \<open>A piece of the file that does not look like a control record.\<close>

definition not_control :: "bytes \<Rightarrow> bool" where
  "not_control c \<longleftrightarrow> take 4 c \<notin> {MAGIC_GET, MAGIC_CANCEL, MAGIC_PUT, MAGIC_PUTEOF}"

definition put_open :: "bytes \<Rightarrow> bytes \<Rightarrow> bsp_put_ctx" where
  "put_open name got = \<lparr>put_active = True, is_jfs = True, put_path = JFS_ROOT @ name, jfs_w = True,
     sd_w = False, put_rx = of_nat (length got), put_crc = crc32_buf 0 got\<rparr>"

lemma magic_shape: "length MAGIC_PUT = 4" "length MAGIC_PUTEOF = 4" "length MAGIC_GET = 4" "length MAGIC_CANCEL = 4"
  "MAGIC_PUT \<noteq> MAGIC_GET" "MAGIC_PUT \<noteq> MAGIC_CANCEL" "MAGIC_PUTEOF \<noteq> MAGIC_GET"
  "MAGIC_PUTEOF \<noteq> MAGIC_CANCEL" "MAGIC_PUTEOF \<noteq> MAGIC_PUT" "MAGIC_CANCEL \<noteq> MAGIC_GET"
  by (simp_all add: magic_defs str_def)

lemma cstr_plain: "0 \<notin> set xs \<Longrightarrow> cstr xs = xs"
  unfolding cstr_def by (rule takeWhile_eq_all_conv[THEN iffD2]) auto

lemma handle_put_start:
  assumes "plain_name name" "jfs_can_create env (JFS_ROOT @ name)"
  shows "bsp_handle_file env s (put_start_rec name) =
    (put_open name [], snd (bsp_put_reset s) @ [JfsOpenW (JFS_ROOT @ name)])"
proof -
  let ?n = "of_nat (length name) :: u16"
  have n: "unat ?n = length name" using assms(1) by (intro unat_of_nat_small) (simp add: plain_name_def)
  have pay: "put_start_rec name ! 4 = ucast ?n" "put_start_rec name ! 5 = ucast (drop_bit 8 ?n)"
      "drop 6 (put_start_rec name) = name" "take 4 (put_start_rec name) = MAGIC_PUT"
      "length (put_start_rec name) = 6 + length name"
    by (simp_all add: put_start_rec_def put16_def nth_append magic_shape)
  have le: "le16 (put_start_rec name ! 4) (put_start_rec name ! 5) = ?n"
    by (simp add: pay le_simps)
  have nz: "?n \<noteq> 0" "\<not> ?n > 192"
    using assms(1) n by (auto simp: plain_name_def word_less_nat_alt unat_eq_0[symmetric])
  show ?thesis
    using assms nz resolve_name[of name]
    unfolding bsp_handle_file_def pay(4,5) bsp_handle_put_start_def Let_def le pay(3) n
    by (simp add: magic_shape cstr_plain plain_name_def case_prod_beta Let_def) (simp add: put_zero_def put_open_def)
qed

lemma handle_put_data:
  assumes "not_control c"
  shows "bsp_handle_file env (put_open name got) c =
    (if length c < 4 then (put_open name got, []) else (put_open name (got @ c), [JfsWrite c]))"
  using assms by (auto simp: bsp_handle_file_def not_control_def bsp_handle_put_data_def put_open_def crc32_buf_append)

text \<open>What is written of a sequence of data records: those of at least four bytes.\<close>

definition kept :: "bytes list \<Rightarrow> bytes list" where
  "kept cs = filter (\<lambda>c. 4 \<le> length c) cs"

lemma handle_put_datas:
  "\<forall>c\<in>set cs. not_control c \<Longrightarrow>
    feed_all (bsp_handle_file env) (put_open name got) cs =
      (put_open name (got @ concat (kept cs)), map JfsWrite (kept cs))"
  by (induction cs arbitrary: got) (auto simp: handle_put_data kept_def)

lemma and_all_ones32: "(x :: u32) AND 0xFFFFFFFF = x"
proof -
  have "(0xFFFFFFFF :: u32) = - 1" by simp
  then show ?thesis by (metis and.right_neutral)
qed

lemma handle_put_end:
  "bsp_handle_file env (put_open name got) (put_eof_rec fsz crc) =
    (put_zero, JfsClose # (if of_nat (length got) = fsz \<and> crc32_buf 0 got = crc then [FileSend MAGIC_OK]
       else bsp_file_send_err ''CRC or size mismatch''))"
proof -
  have pay: "take 4 (put_eof_rec fsz crc) = MAGIC_PUTEOF" "length (put_eof_rec fsz crc) = 12"
      "put_eof_rec fsz crc ! 4 = ucast fsz" "put_eof_rec fsz crc ! 5 = ucast (drop_bit 8 fsz)"
      "put_eof_rec fsz crc ! 6 = ucast (drop_bit 16 fsz)" "put_eof_rec fsz crc ! 7 = ucast (drop_bit 24 fsz)"
      "put_eof_rec fsz crc ! 8 = ucast crc" "put_eof_rec fsz crc ! 9 = ucast (drop_bit 8 crc)"
      "put_eof_rec fsz crc ! 10 = ucast (drop_bit 16 crc)" "put_eof_rec fsz crc ! 11 = ucast (drop_bit 24 crc)"
    by (simp_all add: put_eof_rec_def put32_def nth_append magic_shape)
  show ?thesis
    unfolding bsp_handle_file_def pay bsp_handle_put_end_def Let_def le32_put32
    by (simp add: magic_shape put_open_def and_all_ones32 bsp_put_reset_def)
qed

lemma feed_all_append:
  "feed_all f s (xs @ ys) = (let (s1, o1) = feed_all f s xs; (s2, o2) = feed_all f s1 ys in (s2, o1 @ o2))"
  by (induction xs arbitrary: s) (auto simp: Let_def split: prod.splits)

lemma upload_run:
  assumes "plain_name name" "jfs_can_create env (JFS_ROOT @ name)" "\<forall>c\<in>set cs. not_control c"
  shows "feed_all (bsp_handle_file env) s (put_start_rec name # cs @ [put_eof_rec fsz crc]) =
    (put_zero, snd (bsp_put_reset s) @ JfsOpenW (JFS_ROOT @ name) # map JfsWrite (kept cs) @ JfsClose #
      (if of_nat (length (concat (kept cs))) = fsz \<and> crc32_buf 0 (concat (kept cs)) = crc
       then [FileSend MAGIC_OK] else bsp_file_send_err ''CRC or size mismatch''))"
  using assms by (simp add: handle_put_start feed_all_append handle_put_datas handle_put_end)

text \<open>an honest upload succeeds: in whatever state the handler was, a start record with a plain name that the file
  system can create, the file cut into pieces of at least four bytes none of which begins with a control magic,
  and an end record with the file's size and CRC-32 write exactly the file's bytes, in order, to a file of
  that name under the JFS root, close it and answer BFOK; the handler is idle again.\<close>

theorem upload_accepted:
  assumes "plain_name name" and "jfs_can_create env (JFS_ROOT @ name)"
    and "\<forall>c\<in>set cs. not_control c \<and> 4 \<le> length c"
  shows "feed_all (bsp_handle_file env) s
      (put_start_rec name # cs @ [put_eof_rec (of_nat (length (concat cs))) (crc32_buf 0 (concat cs))]) =
    (put_zero, snd (bsp_put_reset s) @ JfsOpenW (JFS_ROOT @ name) # map JfsWrite cs @ [JfsClose, FileSend MAGIC_OK])"
proof -
  have "kept cs = cs" using assms(3) by (simp add: kept_def)
  then show ?thesis using upload_run[OF assms(1,2)] assms(3) by simp
qed

theorem upload_accepted_witness:
  "snd (feed_all (bsp_handle_file file_env_ok) put_zero
     (put_start_rec (str ''a.bin'') # [[1, 2, 3, 4], [5, 6, 7, 8, 9]] @
       [put_eof_rec 9 (crc32_buf 0 [1, 2, 3, 4, 5, 6, 7, 8, 9])])) =
   [JfsOpenW (JFS_ROOT @ str ''a.bin''), JfsWrite [1, 2, 3, 4], JfsWrite [5, 6, 7, 8, 9], JfsClose, FileSend MAGIC_OK]"
  using upload_accepted[of "str ''a.bin''" file_env_ok "[[1, 2, 3, 4], [5, 6, 7, 8, 9]]" put_zero]
  by (simp add: plain_name_def str_def file_env_ok_def not_control_def magic_defs)
    (simp add: bsp_put_reset_def put_zero_def)

text \<open>C33: an upload in which exactly one byte was changed is never confirmed: the answer to the end record that carries the
  original's size and CRC-32 is the mismatch error, not BFOK.\<close>

theorem upload_corruption_detected:
  assumes "plain_name name" and "jfs_can_create env (JFS_ROOT @ name)"
    and "\<forall>c\<in>set cs. not_control c \<and> 4 \<le> length c"
    and "concat cs = xs @ b # ys" and "b \<noteq> b'"
  shows "FileSend MAGIC_OK \<notin> set (snd (feed_all (bsp_handle_file env) s
      (put_start_rec name # cs @ [put_eof_rec (of_nat (length (xs @ b' # ys))) (crc32_buf 0 (xs @ b' # ys))])))"
proof -
  have "kept cs = cs" using assms(3) by (simp add: kept_def)
  moreover have "crc32_buf 0 (xs @ b # ys) \<noteq> crc32_buf 0 (xs @ b' # ys)"
    using assms(5) by (rule crc32_one_byte_off)
  moreover have "MAGIC_OK \<noteq> MAGIC_ERR @ z" for z by (simp add: magic_defs str_def)
  ultimately show ?thesis
    using upload_run[OF assms(1,2)] assms(3)
    by (auto simp: assms(4) bsp_put_reset_def bsp_file_send_err_def Let_def)
qed

theorem upload_corruption_detected_witness:
  "FileSend MAGIC_OK \<notin> set (snd (feed_all (bsp_handle_file file_env_ok) put_zero
      (put_start_rec (str ''a.bin'') # [[1, 2, 3, 4]] @
        [put_eof_rec (of_nat (length ([1, 2] @ 0 # [4 :: u8]))) (crc32_buf 0 ([1, 2] @ 0 # [4]))])))"
  by (rule upload_corruption_detected[of _ _ _ _ 3])
    (simp_all add: plain_name_def str_def file_env_ok_def not_control_def magic_defs)

text \<open>a file whose last piece is shorter than four bytes cannot be uploaded: bsp_handle_file drops every record of fewer
  than four bytes before it looks at the transfer, so the piece is neither written nor counted and the correct
  end record is answered with the mismatch error.\<close>

theorem short_piece_lost:
  assumes "plain_name name" and "jfs_can_create env (JFS_ROOT @ name)"
    and "\<forall>c\<in>set cs. not_control c \<and> 4 \<le> length c" and "0 < length tail_piece" and "length tail_piece < 4"
    and "length (concat (cs @ [tail_piece])) < 2 ^ 32"
  shows "snd (feed_all (bsp_handle_file env) put_zero
      (put_start_rec name # (cs @ [tail_piece]) @
        [put_eof_rec (of_nat (length (concat (cs @ [tail_piece])))) (crc32_buf 0 (concat (cs @ [tail_piece])))])) =
    JfsOpenW (JFS_ROOT @ name) # map JfsWrite cs @ JfsClose # bsp_file_send_err ''CRC or size mismatch''"
proof -
  have "take 4 tail_piece \<noteq> m" if "length m = 4" for m using assms(5) that by auto
  then have nc: "\<forall>c\<in>set (cs @ [tail_piece]). not_control c"
    using assms(3) magic_shape by (auto simp: not_control_def)
  have k: "kept (cs @ [tail_piece]) = cs" using assms(3,5) by (simp add: kept_def)
  have "(of_nat (length (concat cs)) :: u32) \<noteq> of_nat (length (concat (cs @ [tail_piece])))"
  proof
    assume "(of_nat (length (concat cs)) :: u32) = of_nat (length (concat (cs @ [tail_piece])))"
    then have "length (concat cs) = length (concat (cs @ [tail_piece]))"
      using assms(6) unat_of_nat_small[of "length (concat cs)", where 'a = 32]
        unat_of_nat_small[of "length (concat (cs @ [tail_piece]))", where 'a = 32] by simp
    then show False using assms(4) by simp
  qed
  then show ?thesis
    using upload_run[OF assms(1,2) nc, of put_zero] by (simp add: k bsp_put_reset_def put_zero_def)
qed

theorem short_piece_lost_witness:
  "snd (feed_all (bsp_handle_file file_env_ok) put_zero
      (put_start_rec (str ''a.txt'') # ([str ''Hello''] @ [str ''!'']) @
        [put_eof_rec (of_nat (length (concat ([str ''Hello''] @ [str ''!''])))) (crc32_buf 0 (concat ([str ''Hello''] @ [str ''!''])))])) =
    JfsOpenW (JFS_ROOT @ str ''a.txt'') # map JfsWrite [str ''Hello''] @ JfsClose # bsp_file_send_err ''CRC or size mismatch''"
  by (rule short_piece_lost)
    (simp_all add: plain_name_def str_def file_env_ok_def not_control_def magic_defs)

text \<open>a piece of file contents that happens to begin with the four bytes BFCA is taken as a cancel: the transfer is
  dropped, the bytes are not written, and the end record of the very same file is answered with
  the error that no upload is active.\<close>

theorem magic_in_contents_cancels:
  assumes "plain_name name" and "jfs_can_create env (JFS_ROOT @ name)"
    and "\<forall>c\<in>set cs. not_control c" and "\<forall>c\<in>set ds. not_control c"
  shows "snd (feed_all (bsp_handle_file env) put_zero
      (put_start_rec name # cs @ (MAGIC_CANCEL @ x) # ds @ [put_eof_rec fsz crc])) =
    JfsOpenW (JFS_ROOT @ name) # map JfsWrite (kept cs) @ JfsClose # bsp_file_send_err ''no active PUT''"
proof -
  have cancel: "bsp_handle_file env (put_open name got) (MAGIC_CANCEL @ x) = (put_zero, [JfsClose])" for got
    by (simp add: bsp_handle_file_def magic_shape bsp_put_reset_def put_open_def)
  have idle: "feed_all (bsp_handle_file env) put_zero ds = (put_zero, [])"
    using assms(4) by (induction ds) (auto simp: bsp_handle_file_def not_control_def put_zero_def)
  have eof: "bsp_handle_file env put_zero (put_eof_rec fsz crc) = (put_zero, bsp_file_send_err ''no active PUT'')"
    by (simp add: bsp_handle_file_def put_eof_rec_def magic_shape bsp_handle_put_end_def put_zero_def)
  show ?thesis
    using assms by (simp add: handle_put_start feed_all_append handle_put_datas cancel idle eof)
      (simp add: bsp_put_reset_def put_zero_def)
qed

theorem magic_in_contents_cancels_witness:
  "snd (feed_all (bsp_handle_file file_env_ok) put_zero
      (put_start_rec (str ''a.txt'') # [str ''Hello''] @ (MAGIC_CANCEL @ str ''FE'') # [] @ [put_eof_rec 11 5])) =
    JfsOpenW (JFS_ROOT @ str ''a.txt'') # map JfsWrite (kept [str ''Hello'']) @ JfsClose # bsp_file_send_err ''no active PUT''"
  by (rule magic_in_contents_cancels)
    (simp_all add: plain_name_def str_def file_env_ok_def not_control_def magic_defs)

section \<open>Downloads\<close>

lemma read_loop_all:
  "\<forall>r\<in>set rs. r \<noteq> [] \<Longrightarrow> unat acc + length (concat rs) = unat fsz \<Longrightarrow> read_loop fsz acc rs = rs"
proof (induction rs arbitrary: acc)
  case (Cons r rs)
  have bound: "unat fsz < 2 ^ 32" using unsigned_less[of fsz, where 'a = nat] by simp
  have "0 < length r" using Cons.prems(1) by simp
  then have "acc < fsz" using Cons.prems(2) unfolding word_less_nat_alt by (simp del: length_greater_0_conv)
  moreover have "unat (acc + of_nat (length r)) = unat acc + length r"
    using Cons.prems(2) bound by (subst unat_add_no_wrap) (auto simp: unat_of_nat_small)
  ultimately show ?case using Cons by simp
qed simp

lemma foldl_crc32_buf: "foldl crc32_buf c rs = crc32_buf c (concat rs)"
  by (induction rs arbitrary: c) (auto simp: crc32_buf_append)

definition reads_file :: "bytes \<Rightarrow> bytes list \<Rightarrow> bool" where
  "reads_file content rs \<longleftrightarrow> (\<forall>r\<in>set rs. r \<noteq> []) \<and> concat rs = content"

text \<open>C34: a download of a file of up to 4 MB, from either file system and however its reads are split, sends a header with the file's
  size and the CRC-32 of its contents, then data records whose concatenation is the contents, then the
  end marker with the same size; the CRC that the receiver computes over the data is the one announced.\<close>

theorem download_complete:
  assumes "length content \<le> unat BSP_FILE_MAX" and "g_malloc env"
    and "if jfs then g_jfs_open env = Some (of_nat (length content), r1) \<and> g_jfs_reopen env = Some r2
         else g_sd_stat env = Some (of_nat (length content)) \<and> g_sd_open env = Some (r1, r2)"
    and "reads_file content r1" and "reads_file content r2"
  shows "\<exists>ds. bsp_get_task env jfs =
      get_hdr (of_nat (length content)) (crc32_buf 0 content) # map FileSend ds @ [get_eof (of_nat (length content))] \<and>
    concat ds = content"
proof -
  let ?n = "of_nat (length content) :: u32"
  have n: "unat ?n = length content" using assms(1) by (intro unat_of_nat_small) (simp add: BSP_FILE_MAX_def)
  have small: "\<not> ?n > BSP_FILE_MAX" using assms(1) n by (simp add: word_less_nat_alt)
  have loops: "read_loop ?n 0 r1 = r1" "read_loop ?n 0 r2 = r2"
    using assms(4,5) n by (auto simp: reads_file_def intro!: read_loop_all)
  have crc: "get_crc ?n r1 = crc32_buf 0 content"
    using assms(4) by (simp add: get_crc_def loops foldl_crc32_buf and_all_ones32 reads_file_def)
  have "bsp_get_task env jfs = get_hdr ?n (crc32_buf 0 content) # map FileSend r2 @ [get_eof ?n]"
    using assms(2,3) small by (auto simp: bsp_get_task_def crc loops Let_def)
  then show ?thesis using assms(5) by (auto simp: reads_file_def)
qed

theorem download_complete_witness:
  "\<exists>ds. bsp_get_task \<lparr>g_jfs_open = Some (3, [[1], [2, 3]]), g_jfs_reopen = Some [[1, 2], [3]], g_sd_stat = None,
      g_sd_open = None, g_malloc = True\<rparr> True =
      get_hdr (of_nat (length [1, 2, 3 :: u8])) (crc32_buf 0 [1, 2, 3]) # map FileSend ds @ [get_eof (of_nat (length [1, 2, 3 :: u8]))] \<and>
    concat ds = [1, 2, 3]"
  by (rule download_complete[of _ _ _ "[[1], [2, 3]]" "[[1, 2], [3]]"])
    (simp_all add: BSP_FILE_MAX_def reads_file_def)

end
