(* ===== verification/Uart_Frame.thy ===== *)
theory Uart_Frame
  imports Prelude
begin

text \<open>
  How a console command enters the firmware over the serial port
  (main/UART_Actor.c): the byte scanner of Uart0_Event that cuts frames
  '<ACTOR.COMMAND(payload)' out of the stream, and parse_uart_command_frame that
  splits a frame.  The grammar of payloads (balanced parentheses outside quoted
  strings) is stated separately; the lemmas show that the scanner recognises it for every
  chunking of the stream and in spite of line breaks inserted anywhere.
\<close>

section \<open>The scanner\<close>

definition COMMAND_LEN :: nat where "COMMAND_LEN = 4096"
definition UART_READ_WRITE_SIZE :: nat where "UART_READ_WRITE_SIZE = COMMAND_LEN"

abbreviation (input) CR :: char where "CR \<equiv> CHR 0x0D"
abbreviation (input) LF :: char where "LF \<equiv> CHR 0x0A"
abbreviation (input) QUOTE :: char where "QUOTE \<equiv> CHR 0x22"
abbreviation (input) BACKSLASH :: char where "BACKSLASH \<equiv> CHR 0x5C"

text \<open>The static variables of the task; cmd_frame is the filled part of the array, so frame_len is
  its length.\<close>

record uart_fsm =
  cmd_frame :: string
  frame_started :: bool
  in_quotes :: bool
  escape_next :: bool
  paren_depth :: int

definition uart_idle :: uart_fsm where
  "uart_idle = \<lparr>cmd_frame = [], frame_started = False, in_quotes = False, escape_next = False, paren_depth = 0\<rparr>"

text \<open>The body of the loop for one received byte; a completed frame is an output.\<close>

definition uart_byte :: "uart_fsm \<Rightarrow> char \<Rightarrow> uart_fsm \<times> string list" where
  "uart_byte s0 ch =
     (if \<not> frame_started s0 \<and> ch \<noteq> CHR ''<'' then (s0, [])
      else
        let s = (if \<not> frame_started s0 then uart_idle\<lparr>frame_started := True\<rparr> else s0) in
        if ch = CR \<or> ch = LF then (s, [])
        else if length (cmd_frame s) \<ge> UART_READ_WRITE_SIZE - 1 then (uart_idle, [])
        else
          let s1 = s\<lparr>cmd_frame := cmd_frame s @ [ch]\<rparr> in
          if escape_next s1 then (s1\<lparr>escape_next := False\<rparr>, [])
          else if ch = BACKSLASH \<and> in_quotes s1 then (s1\<lparr>escape_next := True\<rparr>, [])
          else if ch = QUOTE then (s1\<lparr>in_quotes := \<not> in_quotes s1\<rparr>, [])
          else if \<not> in_quotes s1 then
            (if ch = CHR ''('' then (s1\<lparr>paren_depth := paren_depth s1 + 1\<rparr>, [])
             else if ch = CHR '')'' then
               (let d = (if paren_depth s1 > 0 then paren_depth s1 - 1 else paren_depth s1) in
                if d = 0 then (uart_idle, [cmd_frame s1])
                else (s1\<lparr>paren_depth := d\<rparr>, []))
             else (s1, []))
          else (s1, []))"

primrec uart_rx_loop :: "uart_fsm \<Rightarrow> string \<Rightarrow> uart_fsm \<times> string list" where
  "uart_rx_loop s [] = (s, [])"
| "uart_rx_loop s (ch # rx) = (let (s1, o1) = uart_byte s ch; (s2, o2) = uart_rx_loop s1 rx in (s2, o1 @ o2))"

text \<open>The task on a sequence of driver events: a data event carries the bytes that uart_read_bytes returned
  for it; every other event leaves the scanner alone.\<close>

datatype uart_event = UART_DATA string | UART_FIFO_OVF | UART_BUFFER_FULL | UART_BREAK
  | UART_PARITY_ERR | UART_FRAME_ERR | UART_PATTERN_DET

fun uart_handle_event :: "uart_fsm \<Rightarrow> uart_event \<Rightarrow> uart_fsm \<times> string list" where
  "uart_handle_event s (UART_DATA rx) = uart_rx_loop s rx"
| "uart_handle_event s _ = (s, [])"

section \<open>Splitting a frame\<close>

definition up_char :: "char \<Rightarrow> char" where
  "up_char c = (if 97 \<le> (of_char c :: nat) \<and> (of_char c :: nat) \<le> 122 then char_of (of_char c - (32 :: nat)) else c)"

definition upper :: "string \<Rightarrow> string" where
  "upper s = map up_char s"

text \<open>A buffer read as a C string ends at its first zero byte.  strchr and strrchr, as the index found.\<close>

definition cstr :: "string \<Rightarrow> string" where
  "cstr s = takeWhile (\<lambda>c. c \<noteq> CHR 0x00) s"

lemma cstr_id [simp]: "CHR 0x00 \<notin> set s \<Longrightarrow> cstr s = s"
  by (auto simp: cstr_def takeWhile_eq_all_conv)

fun strchr :: "string \<Rightarrow> char \<Rightarrow> nat option" where
  "strchr [] c = None"
| "strchr (x # xs) c = (if x = c then Some 0 else map_option Suc (strchr xs c))"

fun strrchr :: "string \<Rightarrow> char \<Rightarrow> nat option" where
  "strrchr [] c = None"
| "strrchr (x # xs) c = (case strrchr xs c of Some i \<Rightarrow> Some (Suc i)
     | None \<Rightarrow> if x = c then Some 0 else None)"

definition is_blank :: "char \<Rightarrow> bool" where
  "is_blank c \<longleftrightarrow> c = CHR '' '' \<or> c = CHR 0x09"

definition trim :: "string \<Rightarrow> string" where
  "trim s = rev (dropWhile is_blank (rev (dropWhile is_blank s)))"

text \<open>The three strings left in the buffer: '<ACTOR', 'COMMAND', 'payload'.  The frame is a buffer that the scanner has filled with whatever
  bytes came; the searches stop at a zero byte among them.\<close>

definition parse_uart_command_frame :: "string \<Rightarrow> (string \<times> string \<times> string) option" where
  "parse_uart_command_frame frame = (let f = cstr frame in
     (case (strchr f CHR ''.'', strchr f CHR ''('', strrchr f CHR '')'') of
        (Some dot, Some opn, Some cls) \<Rightarrow>
          if take 1 f \<noteq> ''<'' \<or> cls < opn \<or> dot \<le> 0 \<or> opn \<le> dot then None
          else Some (upper (take dot f), upper (take (opn - Suc dot) (drop (Suc dot) f)),
                     trim (take (cls - Suc opn) (drop (Suc opn) f)))
      | _ \<Rightarrow> None))"

primrec uart_run :: "uart_fsm \<Rightarrow> uart_event list \<Rightarrow> uart_fsm \<times> string list" where
  "uart_run s [] = (s, [])"
| "uart_run s (e # es) = (let (s1, o1) = uart_handle_event s e; (s2, o2) = uart_run s1 es in (s2, o1 @ o2))"

section \<open>The scanner as a stream consumer\<close>

interpretation uart: stream_consumer uart_rx_loop "\<lambda>s. True" "\<lambda>s. s"
  "\<lambda>s c. (fst (uart_byte s c), snd (uart_byte s c), False)"
proof unfold_locales
  fix s xs
  have "run_bytes (\<lambda>s c. (fst (uart_byte s c), snd (uart_byte s c), False)) s xs =
      (fst (uart_rx_loop s xs), snd (uart_rx_loop s xs), False)"
    by (induction xs arbitrary: s) (auto simp: Let_def case_prod_beta)
  then show "\<exists>stop. run_bytes (\<lambda>s c. (fst (uart_byte s c), snd (uart_byte s c), False)) s xs =
      (fst (uart_rx_loop s xs), snd (uart_rx_loop s xs), stop)" by blast
qed simp

lemma uart_rx_append:
  "uart_rx_loop s (xs @ ys) = (let (s1, o1) = uart_rx_loop s xs; (s2, o2) = uart_rx_loop s1 ys in (s2, o1 @ o2))"
  by (induction xs arbitrary: s) (auto simp: Let_def split: prod.splits)

fun uart_data :: "uart_event \<Rightarrow> string" where
  "uart_data (UART_DATA rx) = rx"
| "uart_data _ = []"

lemma uart_run_data: "uart_run s es = uart_rx_loop s (concat (map uart_data es))"
proof (induction es arbitrary: s)
  case (Cons e es)
  have "uart_handle_event s e = uart_rx_loop s (uart_data e)" by (cases e) simp_all
  then show ?case using Cons by (simp add: uart_rx_append)
qed simp

definition no_breaks :: "string \<Rightarrow> string" where
  "no_breaks s = filter (\<lambda>c. c \<noteq> CR \<and> c \<noteq> LF) s"

lemma uart_breaks_ignored: "uart_rx_loop s (no_breaks xs) = uart_rx_loop s xs"
proof (induction xs arbitrary: s)
  case (Cons x xs)
  have "uart_byte s x = (s, [])" if "x = CR \<or> x = LF" using that by (auto simp: uart_byte_def)
  then show ?case using Cons by (auto simp: no_breaks_def)
qed (simp add: no_breaks_def)

section \<open>The grammar of payloads\<close>

inductive quoted_body :: "string \<Rightarrow> bool" where
  qb_nil: "quoted_body []"
| qb_plain: "quoted_body q \<Longrightarrow> c \<notin> {QUOTE, BACKSLASH, CR, LF} \<Longrightarrow> quoted_body (c # q)"
| qb_escape: "quoted_body q \<Longrightarrow> c \<notin> {CR, LF} \<Longrightarrow> quoted_body (BACKSLASH # c # q)"

inductive balanced :: "string \<Rightarrow> bool" where
  bal_nil: "balanced []"
| bal_plain: "balanced p \<Longrightarrow> c \<notin> {CHR ''('', CHR '')'', QUOTE, CR, LF} \<Longrightarrow> balanced (c # p)"
| bal_paren: "balanced p \<Longrightarrow> balanced q \<Longrightarrow> balanced (CHR ''('' # p @ CHR '')'' # q)"
| bal_quote: "quoted_body b \<Longrightarrow> balanced q \<Longrightarrow> balanced (QUOTE # b @ QUOTE # q)"

definition scanning :: "string \<Rightarrow> bool \<Rightarrow> int \<Rightarrow> uart_fsm" where
  "scanning f q d = \<lparr>cmd_frame = f, frame_started = True, in_quotes = q, escape_next = False, paren_depth = d\<rparr>"

definition uart_cap :: nat where "uart_cap = UART_READ_WRITE_SIZE - 1"

lemma uart_cap_pos: "Suc (Suc 0) < uart_cap"
  by (simp add: uart_cap_def UART_READ_WRITE_SIZE_def COMMAND_LEN_def)

lemma scan_char:
  assumes "length f < uart_cap" "c \<notin> {CR, LF, QUOTE}" "c = BACKSLASH \<longrightarrow> \<not> q"
    and "q \<or> c \<notin> {CHR ''('', CHR '')''}"
  shows "uart_byte (scanning f q d) c = (scanning (f @ [c]) q d, [])"
  using assms by (auto simp: uart_byte_def scanning_def uart_cap_def Let_def)

lemma scan_special:
  assumes "length f < uart_cap"
  shows "uart_byte (scanning f q d) QUOTE = (scanning (f @ [QUOTE]) (\<not> q) d, [])"
    and "uart_byte (scanning f False d) CHR ''('' = (scanning (f @ ''('') False (d + 1), [])"
    and "1 < d \<Longrightarrow> uart_byte (scanning f False d) CHR '')'' = (scanning (f @ '')'') False (d - 1), [])"
    and "uart_byte (scanning f False 1) CHR '')'' = (uart_idle, [f @ '')''])"
  using assms by (auto simp: uart_byte_def scanning_def uart_cap_def Let_def)

lemma scan_escaped:
  assumes "Suc (length f) < uart_cap" "c \<notin> {CR, LF}"
  shows "uart_rx_loop (scanning f True d) (BACKSLASH # c # rest) = uart_rx_loop (scanning (f @ [BACKSLASH, c]) True d) rest"
  using assms by (auto simp: uart_byte_def scanning_def uart_cap_def Let_def case_prod_beta)

lemma scan_quoted_body:
  "quoted_body b \<Longrightarrow> length f + length b \<le> uart_cap \<Longrightarrow>
    uart_rx_loop (scanning f True d) (b @ rest) = uart_rx_loop (scanning (f @ b) True d) rest"
proof (induction b arbitrary: f rule: quoted_body.induct)
  case (qb_plain q c)
  then show ?case by (simp add: scan_char)
next
  case (qb_escape q c)
  then show ?case using scan_escaped[of f c d "q @ rest"] by simp
qed simp

lemma scan_balanced:
  "balanced p \<Longrightarrow> length f + length p \<le> uart_cap \<Longrightarrow> 1 \<le> d \<Longrightarrow>
    uart_rx_loop (scanning f False d) (p @ rest) = uart_rx_loop (scanning (f @ p) False d) rest"
proof (induction p arbitrary: f d rest rule: balanced.induct)
  case (bal_plain p c)
  then show ?case by (simp add: scan_char)
next
  case (bal_paren p q)
  then show ?case by (simp add: scan_special)
next
  case (bal_quote b q)
  then show ?case by (simp add: scan_special scan_quoted_body)
qed simp

definition name_char :: "char \<Rightarrow> bool" where
  "name_char c \<longleftrightarrow> c \<notin> {CHR ''('', CHR '')'', QUOTE, CR, LF}"

lemma scan_name:
  "list_all name_char n \<Longrightarrow> length f + length n \<le> uart_cap \<Longrightarrow>
    uart_rx_loop (scanning f False d) (n @ rest) = uart_rx_loop (scanning (f @ n) False d) rest"
  by (induction n arbitrary: f) (auto simp: scan_char name_char_def)

lemma scan_junk:
  "CHR ''<'' \<notin> set j \<Longrightarrow> uart_rx_loop uart_idle (j @ rest) = uart_rx_loop uart_idle rest"
  by (induction j) (auto simp: uart_byte_def uart_idle_def)

text \<open>A command as it is typed: junk without an opening angle bracket, a name and a payload.\<close>

definition frame_text :: "string \<Rightarrow> string \<Rightarrow> string" where
  "frame_text name pay = CHR ''<'' # name @ CHR ''('' # pay @ '')''"

definition command_ok :: "string \<times> string \<times> string \<Rightarrow> bool" where
  "command_ok c = (case c of (junk, name, pay) \<Rightarrow> CHR ''<'' \<notin> set junk \<and> list_all name_char name \<and>
     balanced pay \<and> length (frame_text name pay) \<le> uart_cap)"

definition command_wire :: "string \<times> string \<times> string \<Rightarrow> string" where
  "command_wire c = (case c of (junk, name, pay) \<Rightarrow> junk @ frame_text name pay)"

definition command_frame :: "string \<times> string \<times> string \<Rightarrow> string" where
  "command_frame c = frame_text (fst (snd c)) (snd (snd c))"

lemma scan_start: "uart_byte uart_idle CHR ''<'' = (scanning ''<'' False 0, [])"
  using uart_cap_pos by (simp add: uart_byte_def uart_idle_def scanning_def uart_cap_def Let_def)

lemma scan_command:
  assumes "command_ok c"
  shows "uart_rx_loop uart_idle (command_wire c @ rest) =
    (let (s, out) = uart_rx_loop uart_idle rest in (s, command_frame c # out))"
proof -
  obtain junk name pay where c: "c = (junk, name, pay)" by (cases c)
  have len: "length name + length pay + 3 \<le> uart_cap" and ok: "CHR ''<'' \<notin> set junk" "list_all name_char name" "balanced pay"
    using assms by (auto simp: command_ok_def c frame_text_def)
  show ?thesis
    using len ok by (simp add: command_wire_def command_frame_def c frame_text_def scan_junk scan_start
        scan_name scan_special scan_balanced Let_def case_prod_beta)
qed

lemma scan_commands:
  "\<forall>c\<in>set cs. command_ok c \<Longrightarrow>
    uart_rx_loop uart_idle (concat (map command_wire cs)) = (uart_idle, map command_frame cs)"
  by (induction cs) (auto simp: scan_command)

text \<open>commands survive the serial line: however the driver cuts the stream into events, with other events in
  between and line breaks inserted anywhere, the scanner extracts exactly the frames of the commands that
  were sent, in order, skips the junk between them and is idle at the end.  A command is any
  name and any payload whose parentheses outside quoted strings are balanced, of up to 4095 characters in all.\<close>

theorem commands_recognised:
  assumes "\<forall>c\<in>set cs. command_ok c"
    and "no_breaks (concat (map uart_data events)) = no_breaks (concat (map command_wire cs))"
  shows "uart_run uart_idle events = (uart_idle, map command_frame cs)"
proof -
  have "uart_run uart_idle events = uart_rx_loop uart_idle (no_breaks (concat (map command_wire cs)))"
    by (simp add: uart_run_data uart_breaks_ignored flip: assms(2))
  then show ?thesis using scan_commands[OF assms(1)] by (simp add: uart_breaks_ignored)
qed

theorem commands_recognised_witness:
  "uart_run uart_idle [UART_DATA ''noise<LED.SET({'', UART_BREAK, UART_DATA [LF], UART_DATA ''(1)})''] =
    (uart_idle, [''<LED.SET({(1)})''])"
proof -
  have "balanced ''{(1)}''"
    using bal_plain[of "''(1)}''" "CHR ''{''"] bal_paren[of "''1''" "''}''"]
      bal_plain[of "[]" "CHR ''1''"] bal_plain[of "[]" "CHR ''}''"] bal_nil by simp
  then show ?thesis
    using commands_recognised[of "[(''noise'', ''LED.SET'', ''{(1)}'')]"
        "[UART_DATA ''noise<LED.SET({'', UART_BREAK, UART_DATA [LF], UART_DATA ''(1)})'']"]
    by (simp add: command_ok_def name_char_def frame_text_def uart_cap_def UART_READ_WRITE_SIZE_def COMMAND_LEN_def
        command_wire_def command_frame_def no_breaks_def)
qed

section \<open>Bounds of the scanner\<close>

text \<open>The invariant of the task between bytes.\<close>

definition uart_inv :: "uart_fsm \<Rightarrow> bool" where
  "uart_inv s \<longleftrightarrow> length (cmd_frame s) \<le> uart_cap \<and> 0 \<le> paren_depth s \<and> paren_depth s \<le> int (length (cmd_frame s)) \<and>
     (\<not> frame_started s \<longrightarrow> s = uart_idle) \<and> (escape_next s \<longrightarrow> in_quotes s)"

lemma uart_inv_idle [simp]: "uart_inv uart_idle"
  by (simp add: uart_inv_def uart_idle_def)

lemma uart_byte_inv:
  assumes "uart_inv s"
  shows "uart_inv (fst (uart_byte s ch))"
    and "f \<in> set (snd (uart_byte s ch)) \<Longrightarrow> length f \<le> uart_cap"
  using assms by (auto simp: uart_byte_def uart_inv_def uart_idle_def uart_cap_def Let_def split: if_splits)

lemma uart_rx_inv:
  "uart_inv s \<Longrightarrow> uart_inv (fst (uart_rx_loop s xs)) \<and> (\<forall>f\<in>set (snd (uart_rx_loop s xs)). length f \<le> uart_cap)"
proof (induction xs arbitrary: s)
  case (Cons x xs)
  show ?case
    using Cons.IH[OF uart_byte_inv(1)[OF Cons.prems, of x]] uart_byte_inv(2)[OF Cons.prems, of _ x]
    by (auto simp: Let_def case_prod_beta)
qed simp

text \<open>whatever bytes arrive, the scanner never writes outside its 4096-byte buffer (a frame and its terminating zero
  fit), its 16-bit nesting depth stays between 0 and the frame's length, an escape is pending only inside quotes,
  and an unstarted frame is a completely reset one.\<close>

theorem scanner_in_bounds:
  "uart_inv (fst (uart_run uart_idle events)) \<and>
   list_all (\<lambda>f. length f + 1 \<le> UART_READ_WRITE_SIZE) (snd (uart_run uart_idle events)) \<and>
   paren_depth (fst (uart_run uart_idle events)) < 2 ^ 15"
  using uart_rx_inv[OF uart_inv_idle, of "concat (map uart_data events)"]
  by (auto simp: list_all_iff uart_run_data uart_inv_def uart_cap_def UART_READ_WRITE_SIZE_def COMMAND_LEN_def)

section \<open>The splitter\<close>

lemma strchr_first: "c \<notin> set xs \<Longrightarrow> strchr (xs @ c # ys) c = Some (length xs)"
  by (induction xs) auto

lemma strchr_none: "c \<notin> set xs \<longleftrightarrow> strchr xs c = None"
  by (induction xs) auto

lemma strrchr_none: "c \<notin> set xs \<longleftrightarrow> strrchr xs c = None"
  by (induction xs) (auto split: option.splits)

lemma strrchr_last: "c \<notin> set ys \<Longrightarrow> strrchr (xs @ c # ys) c = Some (length xs)"
proof (induction xs)
  case Nil
  then have "strrchr ys c = None" using strrchr_none by metis
  then show ?case by simp
qed simp

text \<open>What may be an actor's or a command's name.\<close>

definition word_ok :: "string \<Rightarrow> bool" where
  "word_ok w \<longleftrightarrow> (\<forall>c\<in>set w. name_char c \<and> c \<noteq> CHR ''.'' \<and> c \<noteq> CHR 0x00)"

lemma parse_frame_text:
  assumes "word_ok actor" "word_ok cmd" "CHR 0x00 \<notin> set pay"
  shows "parse_uart_command_frame (frame_text (actor @ CHR ''.'' # cmd) pay) =
    Some (upper (CHR ''<'' # actor), upper cmd, trim pay)"
proof -
  let ?f = "frame_text (actor @ CHR ''.'' # cmd) pay"
  have no: "CHR ''.'' \<notin> set actor" "CHR ''('' \<notin> set actor" "CHR ''('' \<notin> set cmd"
    using assms by (auto simp: word_ok_def name_char_def)
  have dot: "strchr ?f CHR ''.'' = Some (Suc (length actor))"
    using strchr_first[of "CHR ''.''" "CHR ''<'' # actor" "cmd @ CHR ''('' # pay @ '')''"] no
    by (simp add: frame_text_def)
  have opn: "strchr ?f CHR ''('' = Some (length actor + length cmd + 2)"
    using strchr_first[of "CHR ''(''" "CHR ''<'' # actor @ CHR ''.'' # cmd" "pay @ '')''"] no
    by (simp add: frame_text_def)
  have cls: "strrchr ?f CHR '')'' = Some (length actor + length cmd + length pay + 3)"
    using strrchr_last[of "CHR '')''" "[]" "CHR ''<'' # actor @ CHR ''.'' # cmd @ CHR ''('' # pay"]
    by (simp add: frame_text_def)
  have "CHR 0x00 \<notin> set ?f" using assms by (auto simp: word_ok_def frame_text_def)
  then have "cstr ?f = ?f" by simp
  then show ?thesis
    unfolding parse_uart_command_frame_def Let_def using dot opn cls
    by (simp only:) (simp add: frame_text_def numeral_eq_Suc)
qed

text \<open>A zero byte before the closing parenthesis hides it: the frame is dropped.\<close>

lemma zero_byte_drops_frame:
  assumes "CHR '')'' \<notin> set (cstr f)"
  shows "parse_uart_command_frame f = None"
  using assms by (simp add: parse_uart_command_frame_def Let_def strrchr_none split: option.split)

end
