(* ===== verification/Console_Route.thy ===== *)
theory Console_Route
  imports Uart_Frame
begin

text \<open>
  From a command line to an actor's queue: the line splitter of main/split_argv.c,
  esp_console_run_Custom and UartArbiter of main/UART_Actor.c, the queue entry of the
  console (console_ActorWriteToConsole_xface) and the router console_que_sel of
  main/console_actor.c with its table of actors, enable flags and payload ownership.
  Copies into the fixed 32-byte name arrays are checked: a longer name is the
  outcome "overflow".  The heap, cJSON_Parse and the queues are parameters.
\<close>

section \<open>Actors\<close>

datatype actor_id = NTP | LED | UART | PUSHBUTTON | FILE_SYSTEM | HTTP | WIFI | ETH | BLE | IHUB
  | WEB_SERVER | SMTP_CLIENT | IDLE | SPIFFS | TCP_SERVER | UDP | SQL | CONSOLE | SYSTEM
  | EVENT_ACTOR | SYS_FILES | B394_DI | MODEL_225

definition all_actors :: "actor_id list" where
  "all_actors = [NTP, LED, UART, PUSHBUTTON, FILE_SYSTEM, HTTP, WIFI, ETH, BLE, IHUB, WEB_SERVER, SMTP_CLIENT,
     IDLE, SPIFFS, TCP_SERVER, UDP, SQL, CONSOLE, SYSTEM, EVENT_ACTOR, SYS_FILES, B394_DI, MODEL_225]"

text \<open>The enum counts from 1.\<close>

fun index_of :: "'a list \<Rightarrow> 'a \<Rightarrow> nat" where
  "index_of [] a = 0"
| "index_of (x # xs) a = (if x = a then 0 else Suc (index_of xs a))"

definition actor_code :: "actor_id \<Rightarrow> nat" where
  "actor_code a = Suc (index_of all_actors a)"

definition A_Queue :: "(string \<times> actor_id) list" where
  "A_Queue = [(''NTP'', NTP), (''LED'', LED), (''UART'', UART), (''PUSHBUTTON'', PUSHBUTTON),
     (''SPIFFS'', SPIFFS), (''WIFI'', WIFI), (''WEB_SERVER'', WEB_SERVER), (''SMTP_CLIENT'', SMTP_CLIENT),
     (''HTTP'', HTTP), (''ETH'', ETH), (''BLE'', BLE), (''IHUB'', IHUB), (''IDLE'', IDLE),
     (''FILE_SYSTEM'', FILE_SYSTEM), (''TCP_SERVER'', TCP_SERVER), (''UDP'', UDP), (''SQL'', SQL),
     (''CONSOLE'', CONSOLE), (''SYSTEM'', SYSTEM), (''EVENT_ACTOR'', EVENT_ACTOR), (''SYS_FILES'', SYS_FILES),
     (''B394_DI'', B394_DI), (''Model225'', MODEL_225)]"

definition MAX_CMD_LEN :: nat where "MAX_CMD_LEN = 32"

record amessage =
  payload_size :: nat
  Src_ID :: nat
  Dest_ID :: nat
  src_Actor :: string
  dest_Actor :: string
  cmdFun :: string
  payload :: string

section \<open>The line splitter\<close>

definition MAX_Payload_LEN :: nat where "MAX_Payload_LEN = 4096"
definition MAX_ACTOR_LEN :: nat where "MAX_ACTOR_LEN = 32"

text \<open>The scan for the matching parenthesis; pre is what has been read since the opening one, newest
  first, in which the backslashes before a quote are counted.\<close>

fun close_paren :: "string \<Rightarrow> string \<Rightarrow> nat \<Rightarrow> int \<Rightarrow> bool \<Rightarrow> nat option" where
  "close_paren pre [] i depth inq = None"
| "close_paren pre (ch # rest) i depth inq =
     (if ch = QUOTE then
        close_paren (ch # pre) rest (Suc i) depth
          (if even (length (takeWhile (\<lambda>c. c = BACKSLASH) pre)) then \<not> inq else inq)
      else if inq then close_paren (ch # pre) rest (Suc i) depth inq
      else if ch = CHR ''('' then close_paren (ch # pre) rest (Suc i) (depth + 1) inq
      else if ch = CHR '')'' then
        (if depth - 1 = 0 then Some i else close_paren (ch # pre) rest (Suc i) (depth - 1) inq)
      else close_paren (ch # pre) rest (Suc i) depth inq)"

datatype 'a parsed = P_none | P_overflow | P_ok 'a

text \<open>strtok with one delimiter: skip leading delimiters, then the token and what follows it.\<close>

definition strtok :: "string \<Rightarrow> char \<Rightarrow> (string \<times> string) option" where
  "strtok s d = (let t = dropWhile (\<lambda>c. c = d) s in
     if t = [] then None else Some (takeWhile (\<lambda>c. c \<noteq> d) t, drop 1 (dropWhile (\<lambda>c. c \<noteq> d) t)))"

definition esp_console_split_argv :: "string \<Rightarrow> (string \<times> string \<times> string) parsed" where
  "esp_console_split_argv line = (let in_ptr = take (MAX_Payload_LEN - 1) line in
     if length line < 5 then P_none
     else case strchr in_ptr CHR ''<'' of None \<Rightarrow> P_none
     | Some k \<Rightarrow>
       let cmd_start = drop k in_ptr in
       case strchr cmd_start CHR ''('' of None \<Rightarrow> P_none
       | Some opn \<Rightarrow>
         let start_index = Suc opn in
         case close_paren [] (drop start_index cmd_start) start_index 1 False of None \<Rightarrow> P_none
         | Some end_index \<Rightarrow>
           let pl = take (end_index - start_index) (drop start_index cmd_start) in
           case strtok cmd_start CHR ''.'' of None \<Rightarrow> P_none
           | Some (tok, rest) \<Rightarrow>
             if length tok \<ge> MAX_ACTOR_LEN then P_overflow
             else case strtok rest CHR ''('' of None \<Rightarrow> P_none
             | Some (tok2, rest2) \<Rightarrow>
               if length tok2 \<ge> MAX_ACTOR_LEN then P_overflow
               else P_ok (upper tok, upper tok2, pl))"

section \<open>The arbiter\<close>

definition Dest_actor_que_sel :: "string \<Rightarrow> nat" where
  "Dest_actor_que_sel name =
     (case filter (\<lambda>(n, a). n = name \<and> a \<notin> {B394_DI, MODEL_225}) A_Queue of
        [] \<Rightarrow> 0 | (n, a) # _ \<Rightarrow> actor_code a)"

datatype arb_result = ArbOverflow | ArbNoMem | ArbSend amessage

definition UartArbiter :: "bool \<Rightarrow> string \<times> string \<times> string \<Rightarrow> string \<Rightarrow> arb_result" where
  "UartArbiter calloc_ok argv source_actor = (case argv of (a0, a1, a2) \<Rightarrow>
     if length source_actor \<ge> MAX_CMD_LEN \<or> length (drop 1 a0) \<ge> MAX_CMD_LEN \<or> length a1 \<ge> MAX_CMD_LEN
     then ArbOverflow
     else if \<not> calloc_ok then ArbNoMem
     else ArbSend \<lparr>payload_size = length a2, Src_ID = actor_code UART, Dest_ID = Dest_actor_que_sel (drop 1 a0),
            src_Actor = source_actor, dest_Actor = drop 1 a0, cmdFun = a1, payload = a2\<rparr>)"

definition process_uart_command_frame :: "bool \<Rightarrow> string \<Rightarrow> arb_result list" where
  "process_uart_command_frame calloc_ok f = (case parse_uart_command_frame f of
     None \<Rightarrow> [] | Some argv \<Rightarrow> [UartArbiter calloc_ok argv ''UART''])"

text \<open>One line of esp_console_run_Custom, and the loop over the lines; the k-th allocation's outcome is
  given by the environment.\<close>

definition run_line :: "bool \<Rightarrow> string \<Rightarrow> string \<Rightarrow> arb_result list" where
  "run_line calloc_ok source line =
     (if take 1 line = ''<'' then
        (case parse_uart_command_frame line of None \<Rightarrow> [] | Some argv \<Rightarrow> [UartArbiter calloc_ok argv source])
      else (case esp_console_split_argv line of P_none \<Rightarrow> [] | P_overflow \<Rightarrow> [ArbOverflow]
            | P_ok argv \<Rightarrow> [UartArbiter calloc_ok argv source]))"

definition is_eol :: "char \<Rightarrow> bool" where
  "is_eol c \<longleftrightarrow> c = CR \<or> c = LF"

function run_lines :: "(nat \<Rightarrow> bool) \<Rightarrow> string \<Rightarrow> nat \<Rightarrow> string \<Rightarrow> arb_result list" where
  "run_lines alloc source k p = (let q = dropWhile is_eol p in
     if q = [] then []
     else let line = takeWhile (\<lambda>c. \<not> is_eol c) q; rest = dropWhile (\<lambda>c. \<not> is_eol c) q;
              rest1 = (if take 2 rest = [CR, LF] then drop 2 rest else drop 1 rest) in
       run_line (alloc k) source line @ run_lines alloc source (Suc k) rest1)"
  by pat_completeness auto
termination
proof (relation "measure (\<lambda>(alloc, source, k, p). length p)", goal_cases)
  case (2 alloc source k p q line rest rest1)
  have "\<not> is_eol (hd q)" using 2(1,2) hd_dropWhile[of is_eol p] by simp
  then have "length rest < length q"
    using 2(2,4) length_dropWhile_le[of "\<lambda>c. \<not> is_eol c" "tl q"] by (cases q) auto
  moreover have "length q \<le> length p" using 2(1) by (simp add: length_dropWhile_le)
  ultimately show ?case using 2 by (auto split: if_splits)
qed simp

declare run_lines.simps [simp del]

definition MAX_CMDLINE :: nat where "MAX_CMDLINE = 16384"

definition esp_console_run_Custom :: "(nat \<Rightarrow> bool) \<Rightarrow> bool \<Rightarrow> string \<Rightarrow> string \<Rightarrow> arb_result list" where
  "esp_console_run_Custom alloc argv_ok cmdline source =
     (if \<not> argv_ok then [] else run_lines alloc source 0 (take (MAX_CMDLINE - 1) (cstr cmdline)))"

section \<open>Entering the console's queue\<close>

text \<open>Each attempt reports whether the queue took the message (xQueueSend answers pdTRUE or, with the same
  value as pdFALSE, errQUEUE_FULL); the outputs are the restart requests.\<close>

fun write_to_console :: "nat \<Rightarrow> bool list \<Rightarrow> nat \<Rightarrow> bool \<times> nat" where
  "write_to_console retry [] restarts = (False, restarts)"
| "write_to_console retry (ok # oks) restarts =
     (if ok then (True, restarts)
      else if Suc retry < 3 then write_to_console (Suc retry) oks (Suc restarts)
      else (False, Suc (Suc restarts)))"

definition console_ActorWriteToConsole :: "bool list \<Rightarrow> bool \<times> nat" where
  "console_ActorWriteToConsole oks = write_to_console 0 oks 0"

section \<open>The router\<close>

record console_cfg =
  en_wifi :: bool
  en_ble :: bool
  en_web :: bool
  en_eth :: bool
  en_ihub :: bool
  board_eth :: bool
  board_b394 :: bool

datatype route_out = Deliver actor_id amessage | Respond string | FreePayload | PrintInvalid

definition gated :: "bool \<Rightarrow> string \<Rightarrow> actor_id \<Rightarrow> amessage \<Rightarrow> route_out list" where
  "gated enabled name a m =
     (if enabled then [Deliver a m]
      else if cmdFun m = ''DEINIT'' then [Deliver a m]
      else [Respond (name @ '' is disabled''), FreePayload])"

fun route_type :: "console_cfg \<Rightarrow> actor_id \<Rightarrow> amessage \<Rightarrow> route_out list" where
  "route_type cfg WIFI m = gated (en_wifi cfg) ''WIFI'' WIFI m"
| "route_type cfg BLE m = gated (en_ble cfg) ''BLE'' BLE m"
| "route_type cfg WEB_SERVER m = gated (en_web cfg) ''Web Server'' WEB_SERVER m"
| "route_type cfg ETH m = (if board_eth cfg then gated (en_eth cfg) ''Ethernet'' ETH m else [])"
| "route_type cfg IHUB m = gated (en_ihub cfg) ''IHUB'' IHUB m"
| "route_type cfg B394_DI m = (if board_b394 cfg then [Deliver B394_DI m] else [])"
| "route_type cfg IDLE m = []"
| "route_type cfg CONSOLE m = []"
| "route_type cfg a m = [Deliver a m]"

definition m225_subs :: "string list" where
  "m225_subs = [''IndicatorSetup'', ''ScaleSetup'', ''ScaleCalibration'', ''LoadCellAssignments'',
     ''ComSetup'', ''SerialPorts'', ''Ethernet'', ''WiFi'', ''ISiteIP'', ''SendGross'', ''BankMode'',
     ''PrinterSetup'', ''SystemConfig'', ''Accumulators'', ''DACOutput'', ''KeyLockout'',
     ''BadgeReader'', ''WINVRS'', ''ModeConfig'', ''IDStorage'', ''DFC'', ''Batcher'',
     ''PackageWeigher'', ''AxleWeigher'', ''CheckWeigher'', ''PWC'', ''Livestock'',
     ''DLCSetup'', ''ReviewMenu'', ''195Menu'']"

definition console_que_sel :: "console_cfg \<Rightarrow> (string \<Rightarrow> bool) \<Rightarrow> bool \<Rightarrow> amessage \<Rightarrow> route_out list" where
  "console_que_sel cfg json_ok calloc_ok m =
     (if \<not> calloc_ok then [Respond ''Error! Failed to allocate memory for storing parameters in the JFS.'']
      else case map_of A_Queue (dest_Actor m) of
          Some a \<Rightarrow> route_type cfg a m
        | None \<Rightarrow>
            if dest_Actor m \<in> set m225_subs then [Deliver MODEL_225 m]
            else (if payload m \<noteq> [] then [PrintInvalid] else []) @ (if json_ok (payload m) then [FreePayload] else []))"

section \<open>Facts about the text path\<close>

lemma up_char_not_lower: "\<not> (97 \<le> (of_char (up_char c) :: nat) \<and> (of_char (up_char c) :: nat) \<le> 122)"
proof -
  have "(of_char c :: nat) < 256" by simp
  then show ?thesis by (auto simp: up_char_def)
qed

lemma upper_no_lower: "c \<in> set (upper s) \<Longrightarrow> \<not> (97 \<le> (of_char c :: nat) \<and> (of_char c :: nat) \<le> 122)"
  using up_char_not_lower by (auto simp: upper_def)

lemma upper_drop: "drop n (upper s) = upper (drop n s)"
  by (simp add: upper_def drop_map)

lemma length_upper [simp]: "length (upper s) = length s"
  by (simp add: upper_def)

definition all_caps :: "string \<Rightarrow> bool" where
  "all_caps s \<longleftrightarrow> (\<forall>c\<in>set s. \<not> (97 \<le> (of_char c :: nat) \<and> (of_char c :: nat) \<le> 122))"

lemma all_caps_upper [simp]: "all_caps (upper s)" "all_caps (drop n (upper s))"
  using upper_no_lower by (auto simp: all_caps_def upper_drop)

lemma parse_all_caps: "parse_uart_command_frame f = Some (a, c, p) \<Longrightarrow> all_caps (drop 1 a) \<and> all_caps c"
  by (auto simp: parse_uart_command_frame_def Let_def split: option.splits if_splits)

lemma split_all_caps: "esp_console_split_argv line = P_ok (a, c, p) \<Longrightarrow> all_caps (drop 1 a) \<and> all_caps c"
  by (auto simp: esp_console_split_argv_def Let_def split: option.splits if_splits prod.splits)

lemma arbiter_caps:
  "UartArbiter ok (a, c, p) src = ArbSend m \<Longrightarrow> all_caps (drop 1 a) \<and> all_caps c \<Longrightarrow>
    all_caps (dest_Actor m) \<and> all_caps (cmdFun m) \<and>
    length (dest_Actor m) < MAX_CMD_LEN \<and> length (cmdFun m) < MAX_CMD_LEN \<and> length (src_Actor m) < MAX_CMD_LEN"
  by (auto simp: UartArbiter_def split: if_splits)

lemma run_line_caps:
  "ArbSend m \<in> set (run_line ok src line) \<Longrightarrow> all_caps (dest_Actor m) \<and> all_caps (cmdFun m) \<and>
    length (dest_Actor m) < MAX_CMD_LEN \<and> length (cmdFun m) < MAX_CMD_LEN \<and> length (src_Actor m) < MAX_CMD_LEN"
  by (auto simp: run_line_def split: option.splits parsed.splits if_splits
      dest: arbiter_caps[OF _ parse_all_caps] arbiter_caps[OF _ split_all_caps] sym)

lemma run_lines_caps:
  "ArbSend m \<in> set (run_lines alloc src k p) \<Longrightarrow> all_caps (dest_Actor m) \<and> all_caps (cmdFun m) \<and>
    length (dest_Actor m) < MAX_CMD_LEN \<and> length (cmdFun m) < MAX_CMD_LEN \<and> length (src_Actor m) < MAX_CMD_LEN"
proof (induction alloc src k p rule: run_lines.induct)
  case (1 alloc src k p)
  show ?case
    using 1(2) 1(1)[OF refl _ refl refl refl] run_line_caps
    by (subst (asm) run_lines.simps) (auto simp: Let_def split: if_splits)
qed

section \<open>From the serial line to the message\<close>

lemma uart_one_command:
  assumes "word_ok actor" "word_ok cmd" "balanced pay" "CHR ''<'' \<notin> set junk"
    "length actor + length cmd + length pay + 4 \<le> uart_cap" "CHR 0x00 \<notin> set pay"
    "no_breaks (concat (map uart_data events)) = no_breaks (junk @ frame_text (actor @ CHR ''.'' # cmd) pay)"
  shows "concat (map (process_uart_command_frame ok) (snd (uart_run uart_idle events))) =
    [UartArbiter ok (upper (CHR ''<'' # actor), upper cmd, trim pay) ''UART'']"
proof -
  let ?c = "(junk, actor @ CHR ''.'' # cmd, pay)"
  have "list_all name_char (actor @ CHR ''.'' # cmd)"
    using assms(1,2) by (auto simp: word_ok_def name_char_def list_all_iff)
  then have ok: "command_ok ?c"
    using assms(3-5) by (simp add: command_ok_def frame_text_def)
  have "uart_run uart_idle events = uart_rx_loop uart_idle (no_breaks (concat (map command_wire [?c])))"
    by (simp add: uart_run_data uart_breaks_ignored command_wire_def flip: assms(7))
  then have "snd (uart_run uart_idle events) = [frame_text (actor @ CHR ''.'' # cmd) pay]"
    using scan_commands[of "[?c]"] ok by (simp add: uart_breaks_ignored command_frame_def)
  then show ?thesis
    using parse_frame_text[OF assms(1,2,6)] by (simp add: process_uart_command_frame_def)
qed

text \<open>C35: a command typed on the serial line arrives as the right message: for actor and command names of less than 32
  characters and a balanced payload, none with a zero byte, whatever the chunking, the noise before it and the inserted line
  breaks, exactly one message is sent, addressed to the upper-cased actor with the upper-cased
  command and the payload without surrounding blanks.\<close>

theorem serial_command_delivered:
  assumes "word_ok actor" and "word_ok cmd" and "balanced pay" and "CHR 0x00 \<notin> set pay" and "CHR ''<'' \<notin> set junk"
    and "length actor < MAX_CMD_LEN" and "length cmd < MAX_CMD_LEN"
    and "length actor + length cmd + length pay + 4 \<le> uart_cap"
    and "no_breaks (concat (map uart_data events)) = no_breaks (junk @ frame_text (actor @ CHR ''.'' # cmd) pay)"
  shows "concat (map (process_uart_command_frame True) (snd (uart_run uart_idle events))) =
    [ArbSend \<lparr>payload_size = length (trim pay), Src_ID = actor_code UART, Dest_ID = Dest_actor_que_sel (upper actor),
       src_Actor = ''UART'', dest_Actor = upper actor, cmdFun = upper cmd, payload = trim pay\<rparr>]"
  unfolding uart_one_command[OF assms(1-3,5,8,4,9)]
  using assms(6,7) by (simp add: UartArbiter_def MAX_CMD_LEN_def upper_def)

theorem serial_command_delivered_witness:
  "concat (map (process_uart_command_frame True) (snd (uart_run uart_idle
      [UART_DATA ''xx<led.set( on'', UART_DATA [CR, LF], UART_DATA '' )'']))) =
    [ArbSend \<lparr>payload_size = 2, Src_ID = 3, Dest_ID = 2,
       src_Actor = ''UART'', dest_Actor = ''LED'', cmdFun = ''SET'', payload = ''on''\<rparr>]"
proof -
  have up: "upper ''led'' = ''LED''" "upper ''set'' = ''SET''"
    by code_simp+
  have "balanced '' on ''" by (simp add: bal_plain bal_nil)
  then show ?thesis
    using serial_command_delivered[of "''led''" "''set''" "'' on ''" "''xx''"
        "[UART_DATA ''xx<led.set( on'', UART_DATA [CR, LF], UART_DATA '' )'']"]
    by (simp add: word_ok_def name_char_def MAX_CMD_LEN_def uart_cap_def UART_READ_WRITE_SIZE_def COMMAND_LEN_def
        no_breaks_def frame_text_def trim_def is_blank_def up actor_code_def all_actors_def
        Dest_actor_que_sel_def A_Queue_def)
qed

text \<open>the length checks are missing: a frame that the scanner accepts and whose actor name has 32
  or more characters makes UartArbiter copy it past the end of the message's 32-byte array.\<close>

theorem long_name_overflows:
  assumes "word_ok actor" and "word_ok cmd" and "balanced pay" and "CHR 0x00 \<notin> set pay"
    and "MAX_CMD_LEN \<le> length actor"
    and "length actor + length cmd + length pay + 4 \<le> uart_cap"
  shows "concat (map (process_uart_command_frame ok)
      (snd (uart_run uart_idle [UART_DATA (frame_text (actor @ CHR ''.'' # cmd) pay)]))) = [ArbOverflow]"
  using uart_one_command[of actor cmd pay "[]" "[UART_DATA (frame_text (actor @ CHR ''.'' # cmd) pay)]" ok] assms
  by (simp add: UartArbiter_def MAX_CMD_LEN_def upper_def)

theorem long_name_overflows_witness:
  "concat (map (process_uart_command_frame True)
      (snd (uart_run uart_idle [UART_DATA (frame_text (replicate 40 CHR ''A'' @ CHR ''.'' # ''SET'') [])]))) = [ArbOverflow]"
  by (rule long_name_overflows)
    (simp_all add: word_ok_def name_char_def MAX_CMD_LEN_def uart_cap_def UART_READ_WRITE_SIZE_def COMMAND_LEN_def bal_nil)

section \<open>Lines\<close>

lemma run_lines_line:
  assumes "line \<noteq> []" "\<forall>c\<in>set line. \<not> is_eol c" "\<forall>c\<in>set eol. is_eol c" "eol \<noteq> []"
  shows "run_lines alloc src k (line @ eol @ rest) = run_line (alloc k) src line @ run_lines alloc src (Suc k) rest"
proof -
  have skip: "run_lines alloc src j (es @ rest) = run_lines alloc src j rest" if "\<forall>c\<in>set es. is_eol c" for es j
  proof -
    have "dropWhile is_eol (es @ rest) = dropWhile is_eol rest" using that by (simp add: dropWhile_append)
    then show ?thesis by (simp only: run_lines.simps[of alloc src j "es @ rest"] run_lines.simps[of alloc src j rest])
  qed
  obtain l ls where l: "line = l # ls" using assms(1) by (cases line) auto
  obtain e es where e: "eol = e # es" using assms(4) by (cases eol) auto
  have q: "dropWhile is_eol (line @ eol @ rest) = line @ eol @ rest" using assms(2) l by simp
  have tw: "takeWhile (\<lambda>c. \<not> is_eol c) (line @ eol @ rest) = line" "dropWhile (\<lambda>c. \<not> is_eol c) (line @ eol @ rest) = eol @ rest"
    using assms(2,3) e by (auto simp: takeWhile_append2 dropWhile_append2)
  have code: "run_lines alloc src k (line @ eol @ rest) = run_line (alloc k) src line @
      run_lines alloc src (Suc k) (if take 2 (eol @ rest) = [CR, LF] then drop 2 (eol @ rest) else drop 1 (eol @ rest))"
    using assms(1) by (subst run_lines.simps) (simp add: q tw Let_def)
  show ?thesis
  proof (cases es)
    case Nil
    have "run_lines alloc src j (drop 1 rest) = run_lines alloc src j rest" if lf: "take 1 rest = [LF]" for j
    proof -
      obtain r where r: "rest = LF # r" using lf by (cases rest) auto
      have "dropWhile is_eol (LF # r) = dropWhile is_eol r" by (simp add: is_eol_def)
      then have "run_lines alloc src j (LF # r) = run_lines alloc src j r"
        by (simp only: run_lines.simps[of alloc src j "LF # r"] run_lines.simps[of alloc src j r])
      then show ?thesis by (simp add: r)
    qed
    moreover have "take 1 rest = [LF]" if "take 2 (e # rest) = [CR, LF]"
      using that by (cases rest) (auto simp: numeral_2_eq_2)
    moreover have "drop 2 (e # rest) = drop 1 rest" by (simp add: numeral_2_eq_2)
    ultimately show ?thesis
      unfolding code unfolding e Nil by (cases "take 2 (e # rest) = [CR, LF]") auto
  next
    case (Cons e2 es2)
    have "\<forall>c\<in>set es. is_eol c" "\<forall>c\<in>set es2. is_eol c" using assms(3) e Cons by auto
    then show ?thesis
      unfolding code unfolding e using skip[of es "Suc k"] skip[of es2 "Suc k"] by (simp add: Cons numeral_2_eq_2)
  qed
qed

definition line_ok :: "string \<times> string \<Rightarrow> bool" where
  "line_ok l = (fst l \<noteq> [] \<and> (\<forall>c\<in>set (fst l). \<not> is_eol c \<and> c \<noteq> CHR 0x00) \<and> snd l \<noteq> [] \<and> (\<forall>c\<in>set (snd l). is_eol c))"

text \<open>a batch of command lines, each closed by any non-empty mixture of carriage returns and line feeds (so
  CRLF, LF and blank lines alike), is run line by line: every line exactly once, in order, and nothing else.\<close>

theorem batch_runs_each_line_once:
  assumes "\<forall>l\<in>set ls. line_ok l"
    and "length (concat (map (\<lambda>l. fst l @ snd l) ls)) < MAX_CMDLINE"
  shows "esp_console_run_Custom alloc True (concat (map (\<lambda>l. fst l @ snd l) ls)) src =
    concat (map (\<lambda>i. run_line (alloc i) src (fst (ls ! i))) [0..<length ls])"
proof -
  have "run_lines alloc src k (concat (map (\<lambda>l. fst l @ snd l) ls)) =
      concat (map (\<lambda>i. run_line (alloc (k + i)) src (fst (ls ! i))) [0..<length ls])" for k
    using assms(1)
  proof (induction ls arbitrary: k)
    case Nil show ?case by (simp add: run_lines.simps)
  next
    case (Cons l ls)
    have "run_lines alloc src k (fst l @ snd l @ concat (map (\<lambda>l. fst l @ snd l) ls)) =
        run_line (alloc k) src (fst l) @ run_lines alloc src (Suc k) (concat (map (\<lambda>l. fst l @ snd l) ls))"
      using Cons.prems by (intro run_lines_line) (auto simp: line_ok_def)
    then show ?case using Cons by (simp add: map_upt_Suc del: upt_Suc)
  qed
  moreover have "CHR 0x00 \<notin> set (concat (map (\<lambda>l. fst l @ snd l) ls))"
    using assms(1) by (fastforce simp: line_ok_def is_eol_def)
  ultimately show ?thesis using assms(2) by (simp add: esp_console_run_Custom_def)
qed

theorem batch_runs_each_line_once_witness:
  "esp_console_run_Custom (\<lambda>i. True) True (''<LED.ON()'' @ [CR, LF, LF] @ ''<NTP.SYNC(1)'' @ [LF]) ''UDP'' =
    run_line True ''UDP'' ''<LED.ON()'' @ run_line True ''UDP'' ''<NTP.SYNC(1)''"
  using batch_runs_each_line_once[of "[(''<LED.ON()'', [CR, LF, LF]), (''<NTP.SYNC(1)'', [LF])]" "\<lambda>i. True" "''UDP''"]
  by (simp add: line_ok_def is_eol_def MAX_CMDLINE_def)

section \<open>Routing\<close>

text \<open>The enable flag an actor is behind, if any, and whether this board has the actor at all.\<close>

fun actor_enabled :: "console_cfg \<Rightarrow> actor_id \<Rightarrow> bool" where
  "actor_enabled cfg WIFI = en_wifi cfg"
| "actor_enabled cfg BLE = en_ble cfg"
| "actor_enabled cfg WEB_SERVER = en_web cfg"
| "actor_enabled cfg ETH = en_eth cfg"
| "actor_enabled cfg IHUB = en_ihub cfg"
| "actor_enabled cfg _ = True"

fun actor_present :: "console_cfg \<Rightarrow> actor_id \<Rightarrow> bool" where
  "actor_present cfg ETH = board_eth cfg"
| "actor_present cfg B394_DI = board_b394 cfg"
| "actor_present cfg IDLE = False"
| "actor_present cfg CONSOLE = False"
| "actor_present cfg _ = True"

lemma route_type_cases:
  "route_type cfg a m =
    (if \<not> actor_present cfg a then []
     else if actor_enabled cfg a \<or> cmdFun m = ''DEINIT'' then [Deliver a m]
     else (case route_type cfg a m of [Respond r, FreePayload] \<Rightarrow> [Respond r, FreePayload] | x \<Rightarrow> []))"
  by (cases a) (auto simp: gated_def)

lemma route_type_disabled:
  "actor_present cfg a \<Longrightarrow> \<not> actor_enabled cfg a \<Longrightarrow> cmdFun m \<noteq> ''DEINIT'' \<Longrightarrow>
    \<exists>r. route_type cfg a m = [Respond (r @ '' is disabled''), FreePayload]"
  by (cases a) (auto simp: gated_def)

text \<open>the router delivers a message to an actor's queue exactly when the copy of the payload could be allocated and either the
  destination is that actor's name in the table, this board has the actor and the actor is enabled or is being
  deinitialised, or the destination is a menu of the Model 225, which takes it; the message is unchanged.\<close>

theorem routed_exactly_when:
  "Deliver a m' \<in> set (console_que_sel cfg json_ok calloc_ok m) \<longleftrightarrow>
    calloc_ok \<and> m' = m \<and>
    ((map_of A_Queue (dest_Actor m) = Some a \<and> actor_present cfg a \<and> (actor_enabled cfg a \<or> cmdFun m = ''DEINIT'')) \<or>
     (map_of A_Queue (dest_Actor m) = None \<and> dest_Actor m \<in> set m225_subs \<and> a = MODEL_225))"
proof -
  have "Deliver a m' \<in> set (route_type cfg b m) \<longleftrightarrow>
      m' = m \<and> a = b \<and> actor_present cfg b \<and> (actor_enabled cfg b \<or> cmdFun m = ''DEINIT'')" for b
    by (cases b) (auto simp: gated_def)
  then show ?thesis by (auto simp: console_que_sel_def split: option.splits)
qed

definition handed_over :: "route_out list \<Rightarrow> nat" where
  "handed_over outs = length (filter (\<lambda>x. case x of Deliver _ _ \<Rightarrow> True | _ \<Rightarrow> False) outs)"

definition freed :: "route_out list \<Rightarrow> nat" where
  "freed outs = length (filter (\<lambda>x. x = FreePayload) outs)"

text \<open>ownership of the payload copy: it is handed to at most one actor or freed once, never both; it is lost (neither handed over nor
  freed) exactly for messages to IDLE and CONSOLE, to an actor that the board's build leaves out, and to unknown
  names whose payload cJSON cannot parse.\<close>

theorem payload_ownership:
  "handed_over (console_que_sel cfg json_ok True m) + freed (console_que_sel cfg json_ok True m) \<le> 1 \<and>
   (handed_over (console_que_sel cfg json_ok True m) + freed (console_que_sel cfg json_ok True m) = 0 \<longleftrightarrow>
     (case map_of A_Queue (dest_Actor m) of Some a \<Rightarrow> \<not> actor_present cfg a
      | None \<Rightarrow> dest_Actor m \<notin> set m225_subs \<and> \<not> json_ok (payload m)))"
proof -
  have "handed_over (route_type cfg a m) + freed (route_type cfg a m) = (if actor_present cfg a then 1 else 0)" for a
    by (cases a) (auto simp: gated_def handed_over_def freed_def)
  then show ?thesis
    by (cases "map_of A_Queue (dest_Actor m)") (auto simp: console_que_sel_def, simp_all add: handed_over_def freed_def)
qed

text \<open>text commands cannot reach the Model 225 by its own name: since both splitters upper-case the destination while the table
  and the menu names are in mixed case, a command line run through esp_console_run_Custom is delivered
  to that actor only for the three menus whose names have no small letter.\<close>

theorem text_reaches_three_menus_only:
  assumes "ArbSend m \<in> set (esp_console_run_Custom alloc argv_ok line src)"
    and "Deliver MODEL_225 m' \<in> set (console_que_sel cfg json_ok calloc_ok m)"
  shows "dest_Actor m \<in> {''WINVRS'', ''DFC'', ''PWC''}"
proof -
  have caps: "all_caps (dest_Actor m)"
    using assms(1) run_lines_caps by (auto simp: esp_console_run_Custom_def split: if_splits)
  have "Deliver MODEL_225 m' \<in> set (route_type cfg b m) \<Longrightarrow> b = MODEL_225" for b
    by (cases b) (auto simp: gated_def split: if_splits)
  then have "map_of A_Queue (dest_Actor m) = Some MODEL_225 \<or> dest_Actor m \<in> set m225_subs"
    using assms(2) by (fastforce simp: console_que_sel_def split: option.splits if_splits)
  then have "dest_Actor m = ''Model225'' \<or> dest_Actor m \<in> set m225_subs"
    by (auto simp: A_Queue_def split: if_splits)
  then show ?thesis using caps by (auto simp: m225_subs_def all_caps_def)
qed

definition demo_cfg :: console_cfg where
  "demo_cfg = \<lparr>en_wifi = True, en_ble = True, en_web = False, en_eth = False, en_ihub = True,
     board_eth = True, board_b394 = False\<rparr>"

theorem text_reaches_three_menus_only_witness:
  "dest_Actor \<lparr>payload_size = 0, Src_ID = 3, Dest_ID = 0, src_Actor = ''UDP'', dest_Actor = ''DFC'',
     cmdFun = ''OPEN'', payload = []\<rparr> \<in> {''WINVRS'', ''DFC'', ''PWC''}"
proof (rule text_reaches_three_menus_only[where line = "''<dfc.open()''" and src = "''UDP''"
      and alloc = "\<lambda>i. True" and argv_ok = True and cfg = demo_cfg and json_ok = "\<lambda>s. False" and calloc_ok = True])
  have "UartArbiter True (''<DFC'', ''OPEN'', []) ''UDP'' = ArbSend \<lparr>payload_size = 0, Src_ID = 3, Dest_ID = 0,
      src_Actor = ''UDP'', dest_Actor = ''DFC'', cmdFun = ''OPEN'', payload = []\<rparr>"
    by code_simp
  moreover have "parse_uart_command_frame ''<dfc.open()'' = Some (''<DFC'', ''OPEN'', [])"
    by code_simp
  moreover have "run_lines (\<lambda>i. True) ''UDP'' 0 ''<dfc.open()'' = run_line True ''UDP'' ''<dfc.open()''"
    by (simp add: run_lines.simps is_eol_def)
  ultimately show "ArbSend \<lparr>payload_size = 0, Src_ID = 3, Dest_ID = 0, src_Actor = ''UDP'', dest_Actor = ''DFC'',
     cmdFun = ''OPEN'', payload = []\<rparr> \<in> set (esp_console_run_Custom (\<lambda>i. True) True ''<dfc.open()'' ''UDP'')"
    by (simp add: esp_console_run_Custom_def run_line_def MAX_CMDLINE_def)
  show "Deliver MODEL_225 \<lparr>payload_size = 0, Src_ID = 3, Dest_ID = 0, src_Actor = ''UDP'', dest_Actor = ''DFC'',
     cmdFun = ''OPEN'', payload = []\<rparr> \<in> set (console_que_sel demo_cfg (\<lambda>s. False) True \<lparr>payload_size = 0, Src_ID = 3, Dest_ID = 0,
     src_Actor = ''UDP'', dest_Actor = ''DFC'', cmdFun = ''OPEN'', payload = []\<rparr>)"
    by (simp add: console_que_sel_def A_Queue_def m225_subs_def)
qed

lemma console_write_retries:
  "console_ActorWriteToConsole (a # b # c # rest) =
    (a \<or> b \<or> c, if a then 0 else if b then 1 else if c then 2 else 4)"
  by (simp add: console_ActorWriteToConsole_def)

end
