(* ===== verification/Calendar.thy ===== *)
theory Calendar
  imports Prelude
begin

text \<open>
  The calendar of the scheduler (main/EVENT_Actor.c, with the same code in
  main/console_actor.c): conversion between seconds since 2000 and dates through the
  table of four years, the day of the year, the daylight-saving tables of 33 years and
  the holiday table of 21 years.  A Gregorian calendar defined by year and month
  lengths alone is the specification; the lemmas show that the table-driven code agrees with it
  for every day from 2000 to 2099 and that every table entry is the date its comment names.
  Unsigned quantities are integers, with the reduction modulo their width written out where it can matter.
\<close>

section \<open>The code\<close>

definition EPOCH_30 :: int where "EPOCH_30 = 946684800"

record date_time =
  milSec :: int
  second :: int
  minute :: int
  hour :: int
  date :: int
  month :: int
  year :: int

definition days :: "int list list" where
  "days = [[0, 31, 60, 91, 121, 152, 182, 213, 244, 274, 305, 335],
     [366, 397, 425, 456, 486, 517, 547, 578, 609, 639, 670, 700],
     [731, 762, 790, 821, 851, 882, 912, 943, 974, 1004, 1035, 1065],
     [1096, 1127, 1155, 1186, 1216, 1247, 1277, 1308, 1339, 1369, 1400, 1430]]"

text \<open>The loops "for (i = n; i > 0; i--) if (P i) break".\<close>

fun down_to :: "(nat \<Rightarrow> bool) \<Rightarrow> nat \<Rightarrow> nat" where
  "down_to P 0 = 0"
| "down_to P (Suc n) = (if P (Suc n) then Suc n else down_to P n)"

definition epoch_to_date_time :: "date_time \<Rightarrow> int \<Rightarrow> date_time" where
  "epoch_to_date_time dt epoch0 = (let
     sec = epoch0 mod 60; e1 = epoch0 div 60;
     mi = e1 mod 60; e2 = e1 div 60;
     hr = e2 mod 24; e3 = e2 div 24;
     years = e3 div (365 * 4 + 1) * 4; e = e3 mod (365 * 4 + 1);
     yr = down_to (\<lambda>y. e \<ge> days ! y ! 0) 3;
     mo = down_to (\<lambda>m. e \<ge> days ! yr ! m) 11 in
     dt\<lparr>second := sec, minute := mi, hour := hr, year := years + int yr, month := int mo + 1,
        date := e - days ! yr ! mo + 1\<rparr>)"

text \<open>The console's variant starts from milliseconds.\<close>

definition epoch_to_date_time_m :: "date_time \<Rightarrow> int \<Rightarrow> date_time" where
  "epoch_to_date_time_m dt epoch = (epoch_to_date_time dt (epoch div 1000))\<lparr>milSec := epoch mod 1000\<rparr>"

definition date_time_to_epoch_days :: "date_time \<Rightarrow> int" where
  "date_time_to_epoch_days dt = (let d = date dt - 1; m = month dt - 1; y = year dt in
     (y div 4 * (365 * 4 + 1) + days ! nat (y mod 4) ! nat m + d) mod 2 ^ 32)"

definition yisleap :: "int \<Rightarrow> bool" where
  "yisleap y \<longleftrightarrow> (y mod 4 = 0 \<and> y mod 100 \<noteq> 0) \<or> y mod 400 = 0"

definition yday_table :: "int list list" where
  "yday_table = [[0, 0, 31, 59, 90, 120, 151, 181, 212, 243, 273, 304, 334],
     [0, 0, 31, 60, 91, 121, 152, 182, 213, 244, 274, 305, 335]]"

definition get_yday :: "int \<Rightarrow> int \<Rightarrow> int \<Rightarrow> int" where
  "get_yday day mon yr = yday_table ! (if yisleap yr then 1 else 0) ! nat (mon mod 13) + day"

definition Dst_Start_date :: "int list" where
  "Dst_Start_date = map (\<lambda>x. x - EPOCH_30)
     [1520733600, 1552183200, 1583632800, 1615687200, 1647136800, 1678586400, 1710036000,
      1741485600, 1772935200, 1804989600, 1836439200, 1867888800, 1899338400, 1930788000,
      1962842400, 1994292000, 2025741600, 2057191200, 2088640800, 2120090400, 2152144800,
      2183594400, 2215044000, 2246493600, 2277943200, 2309392800, 2341447200, 2372896800,
      2404346400, 2435796000, 2467245600, 2499300000, 2530749600]"

definition Dst_End_date :: "int list" where
  "Dst_End_date = map (\<lambda>x. x - EPOCH_30)
     [1541293200, 1572742800, 1604192400, 1636246800, 1667696400, 1699146000, 1730595600,
      1762045200, 1793494800, 1825549200, 1856998800, 1888448400, 1919898000, 1951347600,
      1983402000, 2014851600, 2046301200, 2077750800, 2109200400, 2140650000, 2172704400,
      2204154000, 2235603600, 2267053200, 2298502800, 2329952400, 2362006800, 2393456400,
      2424906000, 2456355600, 2487805200, 2519859600, 2551309200]"

text \<open>The loop over the two tables, and the local clock: standard offset in minutes, then an hour when
  the table says so.  The counter is a 64-bit unsigned number.\<close>

definition dst_enable :: "int \<Rightarrow> bool" where
  "dst_enable t \<longleftrightarrow> list_ex (\<lambda>(s, e). t \<ge> s \<and> t < e) (zip Dst_Start_date Dst_End_date)"

definition local_seconds :: "int \<Rightarrow> bool \<Rightarrow> int \<Rightarrow> int" where
  "local_seconds gmt dst t = (let t1 = (t + gmt * 60) mod 2 ^ 64 in
     if dst \<and> dst_enable t1 then (t1 + 3600) mod 2 ^ 64 else t1)"

definition Holiday_table :: "int list list" where
  "Holiday_table =
    [[1577836800, 1609459200, 1640995200, 1672531200, 1704067200, 1735689600, 1767225600,
      1798761600, 1830297600, 1861920000, 1893456000, 1924992000, 1956528000, 1988150400,
      2019686400, 2051222400, 2082758400, 2114380800, 2145916800, 2177452800, 2208988800],
     [1579478400, 1610928000, 1642377600, 1673827200, 1705276800, 1737331200, 1768780800,
      1800230400, 1831680000, 1863129600, 1895184000, 1926633600, 1958083200, 1989532800,
      2020982400, 2052432000, 2084486400, 2115936000, 2147385600, 2178835200, 2210284800],
     [1581897600, 1613347200, 1645401600, 1676851200, 1708300800, 1739750400, 1771200000,
      1802649600, 1834704000, 1866153600, 1897603200, 1929052800, 1960502400, 1992556800,
      2024006400, 2055456000, 2086905600, 2118355200, 2149804800, 2181859200, 2213308800],
     [1584403200, 1615939200, 1647475200, 1679011200, 1710633600, 1742169600, 1773705600,
      1805241600, 1836864000, 1868400000, 1899936000, 1931472000, 1963094400, 1994630400,
      2026166400, 2057702400, 2089324800, 2120860800, 2152396800, 2183932800, 2215555200],
     [1586649600, 1617494400, 1650153600, 1680998400, 1711843200, 1745107200, 1775347200,
      1806192000, 1839456000, 1869696000, 1902960000, 1933804800, 1964044800, 1997308800,
      2028153600, 2058393600, 2091657600, 2122502400, 2155766400, 2186006400, 2216851200],
     [1589068800, 1620518400, 1651968000, 1684022400, 1715472000, 1746921600, 1778371200,
      1809820800, 1841875200, 1873324800, 1904774400, 1936224000, 1967673600, 1999123200,
      2031177600, 2062627200, 2094076800, 2125526400, 2156976000, 2188425600, 2220480000],
     [1590364800, 1622419200, 1653868800, 1685318400, 1716768000, 1748217600, 1779667200,
      1811721600, 1843171200, 1874620800, 1906070400, 1937520000, 1969574400, 2001024000,
      2032473600, 2063923200, 2095372800, 2126822400, 2158876800, 2190326400, 2221776000],
     [1592697600, 1624147200, 1655596800, 1687046400, 1718496000, 1749945600, 1782000000,
      1813449600, 1844899200, 1876348800, 1907798400, 1939248000, 1971302400, 2002752000,
      2034201600, 2065651200, 2097100800, 2129155200, 2160604800, 2192054400, 2223504000],
     [1593820800, 1625356800, 1656892800, 1688428800, 1720051200, 1751587200, 1783123200,
      1814659200, 1846281600, 1877817600, 1909353600, 1940889600, 1972512000, 2004048000,
      2035584000, 2067120000, 2098742400, 2130278400, 2161814400, 2193350400, 2224972800],
     [1599436800, 1630886400, 1662336000, 1693785600, 1725235200, 1756684800, 1788739200,
      1820188800, 1851638400, 1883088000, 1914537600, 1945987200, 1978041600, 2009491200,
      2040940800, 2072390400, 2103840000, 2135894400, 2167344000, 2198793600, 2230243200],
     [1602460800, 1633910400, 1665360000, 1696809600, 1728864000, 1760313600, 1791763200,
      1823212800, 1854662400, 1886112000, 1918166400, 1949616000, 1981065600, 2012515200,
      2043964800, 2075414400, 2107468800, 2138918400, 2170368000, 2201817600, 2233267200],
     [1603497600, 1635033600, 1666569600, 1698105600, 1729728000, 1761264000, 1792800000,
      1824336000, 1855958400, 1887494400, 1919030400, 1950566400, 1982188800, 2013724800,
      2045260800, 2076796800, 2108419200, 2139955200, 2171491200, 2203027200, 2234649600],
     [1605052800, 1636588800, 1668124800, 1699660800, 1731283200, 1762819200, 1794355200,
      1825891200, 1857513600, 1889049600, 1920585600, 1952121600, 1983744000, 2015280000,
      2046816000, 2078352000, 2109974400, 2141510400, 2173046400, 2204582400, 2236204800],
     [1606348800, 1637798400, 1669248000, 1700697600, 1732752000, 1764201600, 1795651200,
      1827100800, 1858550400, 1890000000, 1922054400, 1953504000, 1984953600, 2016403200,
      2047852800, 2079302400, 2111356800, 2142806400, 2174256000, 2205705600, 2237155200],
     [1608854400, 1640390400, 1671926400, 1703462400, 1735084800, 1766620800, 1798156800,
      1829692800, 1861315200, 1892851200, 1924387200, 1955923200, 1987545600, 2019081600,
      2050617600, 2082153600, 2113776000, 2145312000, 2176848000, 2208384000, 2240006400]]"

section \<open>The Gregorian calendar\<close>

definition greg_leap :: "int \<Rightarrow> bool" where
  "greg_leap y \<longleftrightarrow> (4 dvd y \<and> \<not> 100 dvd y) \<or> 400 dvd y"

definition month_length :: "int \<Rightarrow> nat \<Rightarrow> int" where
  "month_length y m = [31, if greg_leap y then 29 else 28, 31, 30, 31, 30, 31, 31, 30, 31, 30, 31] ! (m - 1)"

text \<open>Days from 1 January 2000 to 1 January of the year 2000 + n, and from there to the first of a month.\<close>

primrec days_to_year :: "nat \<Rightarrow> int" where
  "days_to_year 0 = 0"
| "days_to_year (Suc n) = days_to_year n + (if greg_leap (2000 + int n) then 366 else 365)"

definition days_to_month :: "int \<Rightarrow> nat \<Rightarrow> int" where
  "days_to_month y m = sum_list (map (month_length y) [1..<m])"

definition civil_day :: "int \<Rightarrow> int \<Rightarrow> int \<Rightarrow> int" where
  "civil_day yy mm dd = days_to_year (nat yy) + days_to_month (2000 + yy) (nat mm) + (dd - 1)"

definition valid_date :: "int \<Rightarrow> int \<Rightarrow> int \<Rightarrow> bool" where
  "valid_date yy mm dd \<longleftrightarrow> 0 \<le> yy \<and> yy < 100 \<and> 1 \<le> mm \<and> mm \<le> 12 \<and> 1 \<le> dd \<and> dd \<le> month_length (2000 + yy) (nat mm)"

lemma greg_leap_century: "0 \<le> y \<Longrightarrow> y < 100 \<Longrightarrow> greg_leap (2000 + y) \<longleftrightarrow> y mod 4 = 0"
proof -
  assume y: "0 \<le> y" "y < 100"
  have "4 dvd (2000 + y) \<longleftrightarrow> y mod 4 = 0" by presburger
  moreover have "100 dvd (2000 + y) \<longrightarrow> y = 0" using y by presburger
  ultimately show ?thesis by (auto simp: greg_leap_def)
qed

lemma greg_leap_nat: "n < 100 \<Longrightarrow> greg_leap (2000 + int n) \<longleftrightarrow> n mod 4 = 0"
  using greg_leap_century[of "int n"] by (simp, presburger)

lemma yisleap_century: "0 \<le> y \<Longrightarrow> y < 100 \<Longrightarrow> yisleap y \<longleftrightarrow> y mod 4 = 0"
  by (auto simp: yisleap_def)

lemma days_to_year_table:
  "n \<le> 100 \<Longrightarrow> days_to_year n = int (n div 4) * 1461 + [0, 366, 731, 1096] ! (n mod 4)"
proof (induction n)
  case (Suc n)
  have lp: "greg_leap (2000 + int n) \<longleftrightarrow> n mod 4 = 0"
    using greg_leap_nat Suc.prems by simp
  consider "n mod 4 = 0" | "n mod 4 = 1" | "n mod 4 = 2" | "n mod 4 = 3" by linarith
  then show ?case
  proof cases
    case 1
    then have "Suc n mod 4 = 1" "Suc n div 4 = n div 4" by presburger+
    then show ?thesis using Suc lp 1 by simp
  next
    case 2
    then have "Suc n mod 4 = 2" "Suc n div 4 = n div 4" by presburger+
    then show ?thesis using Suc lp 2 by simp
  next
    case 3
    then have "Suc n mod 4 = 3" "Suc n div 4 = n div 4" by presburger+
    then show ?thesis using Suc lp 3 by simp
  next
    case 4
    then have "Suc n mod 4 = 0" "Suc n div 4 = Suc (n div 4)" by presburger+
    then show ?thesis using Suc lp 4 by simp
  qed
qed simp

lemma month_cases:
  assumes "1 \<le> (m :: nat)" "m \<le> 12"
  obtains "m = 1" | "m = 2" | "m = 3" | "m = 4" | "m = 5" | "m = 6" | "m = 7" | "m = 8" | "m = 9"
    | "m = 10" | "m = 11" | "m = 12"
  using assms by (auto simp: numeral_eq_Suc le_Suc_eq)

lemma upt_months: "[Suc 0..<Suc 0] = []" "[Suc 0..<2] = [1]" "[Suc 0..<3] = [1, 2]" "[Suc 0..<4] = [1, 2, 3]"
  "[Suc 0..<5] = [1, 2, 3, 4]" "[Suc 0..<6] = [1, 2, 3, 4, 5]" "[Suc 0..<7] = [1, 2, 3, 4, 5, 6]"
  "[Suc 0..<8] = [1, 2, 3, 4, 5, 6, 7]" "[Suc 0..<9] = [1, 2, 3, 4, 5, 6, 7, 8]"
  "[Suc 0..<10] = [1, 2, 3, 4, 5, 6, 7, 8, 9]" "[Suc 0..<11] = [1, 2, 3, 4, 5, 6, 7, 8, 9, 10]"
  "[Suc 0..<12] = [1, 2, 3, 4, 5, 6, 7, 8, 9, 10, 11]"
  by (simp_all add: upt_rec)

lemma days_table_row:
  assumes "r < 4" "1 \<le> m" "m \<le> 12" "greg_leap y \<longleftrightarrow> r = 0"
  shows "days ! r ! (m - 1) = [0, 366, 731, 1096] ! r + days_to_month y m"
proof -
  consider "r = 0" | "r = 1" | "r = 2" | "r = 3" using assms(1) by linarith
  then show ?thesis
    by (cases; rule month_cases[OF assms(2,3)])
      (use assms(4) in \<open>simp_all add: days_def days_to_month_def upt_months month_length_def del: upt_Suc\<close>)
qed

lemma yday_row:
  assumes "1 \<le> m" "m \<le> 12"
  shows "yday_table ! (if greg_leap y then 1 else 0) ! m = days_to_month y m"
  by (rule month_cases[OF assms])
    (simp_all add: yday_table_def days_to_month_def upt_months month_length_def del: upt_Suc)

text \<open>The day number of the firmware is the number of days since 1 January 2000.\<close>

lemma date_time_to_epoch_days_civil:
  assumes "valid_date (year dt) (month dt) (date dt)"
  shows "date_time_to_epoch_days dt = civil_day (year dt) (month dt) (date dt)"
    and "0 \<le> civil_day (year dt) (month dt) (date dt)" "civil_day (year dt) (month dt) (date dt) < 36525 + 366"
proof -
  define y where "y = nat (year dt)"
  define m where "m = nat (month dt)"
  have y: "year dt = int y" "y < 100" and m: "month dt = int m" "1 \<le> m" "m \<le> 12"
    using assms by (auto simp: valid_date_def y_def m_def)
  have lp: "greg_leap (2000 + int y) \<longleftrightarrow> y mod 4 = 0"
    using greg_leap_nat y by simp
  have row: "days ! (y mod 4) ! (m - 1) = [0, 366, 731, 1096] ! (y mod 4) + days_to_month (2000 + int y) m"
    using m lp by (intro days_table_row) auto
  have idx: "nat (int y mod 4) = y mod 4" "nat (int m - 1) = m - 1" "int y div 4 = int (y div 4)"
    using m by (simp_all add: nat_mod_distrib nat_diff_distrib zdiv_int)
  have mlen: "0 \<le> days_to_month (2000 + int y) m \<and> days_to_month (2000 + int y) m \<le> 335"
    by (rule month_cases[OF m(2,3)])
      (simp_all add: days_to_month_def upt_months month_length_def del: upt_Suc)
  have "month_length (2000 + int y) m \<le> 31"
    by (rule month_cases[OF m(2,3)]) (simp_all add: month_length_def)
  then have d: "1 \<le> date dt" "date dt \<le> 31" using assms by (auto simp: valid_date_def y m)
  have civ: "civil_day (year dt) (month dt) (date dt) =
      int (y div 4) * 1461 + days ! (y mod 4) ! (m - 1) + (date dt - 1)"
    using days_to_year_table[OF less_imp_le[OF y(2)]] row by (simp add: civil_day_def y m)
  have tab: "0 \<le> [0, 366, 731, 1096 :: int] ! (y mod 4) \<and> [0, 366, 731, 1096 :: int] ! (y mod 4) \<le> 1096"
  proof -
    consider "y mod 4 = 0" | "y mod 4 = 1" | "y mod 4 = 2" | "y mod 4 = 3" by linarith
    then show ?thesis by cases simp_all
  qed
  have q: "y div 4 \<le> 24" using y(2) by simp
  show bnds: "0 \<le> civil_day (year dt) (month dt) (date dt)" "civil_day (year dt) (month dt) (date dt) < 36525 + 366"
    unfolding civ row using tab mlen d q by auto
  show "date_time_to_epoch_days dt = civil_day (year dt) (month dt) (date dt)"
    using bnds unfolding civ by (simp add: date_time_to_epoch_days_def Let_def y m idx)
qed

text \<open>The other direction: the date computed for a day number.\<close>

lemma down_to_spec:
  "down_to P n \<le> n" "down_to P n = 0 \<or> P (down_to P n)" "down_to P n < k \<Longrightarrow> k \<le> n \<Longrightarrow> \<not> P k"
  by (induction n) (auto simp: le_Suc_eq split: if_splits)

lemma days_row_bounds:
  assumes "r < 4" "0 \<le> e" "e < 1461" "r = down_to (\<lambda>y. e \<ge> days ! y ! 0) 3"
    and "m = down_to (\<lambda>m. e \<ge> days ! r ! m) 11" and "greg_leap y \<longleftrightarrow> r = 0"
  shows "days ! r ! m \<le> e" "e - days ! r ! m + 1 \<le> month_length y (Suc m)"
proof -
  note sp = down_to_spec[of "\<lambda>y. e \<ge> days ! y ! 0" 3] down_to_spec[of "\<lambda>m. e \<ge> days ! r ! m" 11]
  have m11: "m \<le> 11" using sp(4) assms(5) by simp
  have next_year: "r < 3 \<Longrightarrow> e < days ! Suc r ! 0" using sp(3)[of "Suc r"] assms(4) by (simp add: not_le)
  have this_year: "days ! r ! 0 \<le> e" using sp(2) assms(2,4) by (auto simp: days_def)
  then show "days ! r ! m \<le> e" using sp(5) assms(5) by auto
  have next_month: "m < 11 \<Longrightarrow> e < days ! r ! Suc m" using sp(6)[of "Suc m"] assms(5) by (simp add: not_le)
  have Sm: "1 \<le> Suc m" "Suc m \<le> 12" using m11 by auto
  have "(if m < 11 then days ! r ! Suc m else if r < 3 then days ! Suc r ! 0 else 1461) \<le> days ! r ! m + month_length y (Suc m)"
  proof -
    consider "r = 0" | "r = 1" | "r = 2" | "r = 3" using assms(1) by linarith
    then show ?thesis
      by (cases; rule month_cases[OF Sm]) (use assms(6) in \<open>simp_all add: days_def month_length_def\<close>)
  qed
  then show "e - days ! r ! m + 1 \<le> month_length y (Suc m)"
    using next_month next_year assms(1,3) m11 by (auto split: if_splits) 
qed

lemma epoch_to_date_valid:
  fixes t :: int
  assumes "0 \<le> t" "t < 36525 * 86400"
  shows "valid_date (year (epoch_to_date_time dt t)) (month (epoch_to_date_time dt t)) (date (epoch_to_date_time dt t))"
    and "civil_day (year (epoch_to_date_time dt t)) (month (epoch_to_date_time dt t)) (date (epoch_to_date_time dt t)) = t div 86400"
proof -
  define d where "d = t div 86400"
  define e where "e = d mod 1461"
  define q where "q = d div 1461"
  define r where "r = down_to (\<lambda>y. e \<ge> days ! y ! 0) 3"
  define m where "m = down_to (\<lambda>m. e \<ge> days ! r ! m) 11"
  have d: "0 \<le> d" "d < 36525" using assms by (auto simp: d_def)
  have e: "0 \<le> e" "e < 1461" and q: "0 \<le> q" "q \<le> 24" using d by (auto simp: e_def q_def)
  have r: "r \<le> 3" and m: "m \<le> 11" using down_to_spec(1) by (simp_all add: r_def m_def)
  have "t div 60 div 60 div 24 = d" by (simp add: d_def flip: zdiv_zmult2_eq)
  then have f: "year (epoch_to_date_time dt t) = q * 4 + int r" "month (epoch_to_date_time dt t) = int m + 1"
      "date (epoch_to_date_time dt t) = e - days ! r ! m + 1"
    by (simp_all add: epoch_to_date_time_def Let_def q_def e_def r_def m_def)
  have lp: "greg_leap (2000 + (q * 4 + int r)) \<longleftrightarrow> r = 0"
  proof -
    have "(q * 4 + int r) mod 4 = 0 \<longleftrightarrow> r = 0" using r by presburger
    then show ?thesis using greg_leap_century[of "q * 4 + int r"] q r by simp
  qed
  note rows = days_row_bounds[OF _ e r_def m_def lp]
  have Sm: "nat (int m + 1) = Suc m" by simp
  show val: "valid_date (year (epoch_to_date_time dt t)) (month (epoch_to_date_time dt t)) (date (epoch_to_date_time dt t))"
    using rows q r m by (simp add: valid_date_def f Sm)
  have row: "days ! r ! m = [0, 366, 731, 1096] ! r + days_to_month (2000 + (q * 4 + int r)) (Suc m)"
    using days_table_row[of r "Suc m" "2000 + (q * 4 + int r)"] r m lp by simp
  have "nat (q * 4 + int r) div 4 = nat q" "nat (q * 4 + int r) mod 4 = r" using q r by (auto simp: nat_add_distrib nat_mult_distrib)
  moreover have "nat (q * 4 + int r) \<le> 100" using q r by simp
  ultimately have yr: "days_to_year (nat (q * 4 + int r)) = q * 1461 + [0, 366, 731, 1096] ! r"
    using days_to_year_table[of "nat (q * 4 + int r)"] q by simp
  have "civil_day (q * 4 + int r) (int m + 1) (e - days ! r ! m + 1) = q * 1461 + e"
    using yr row by (simp add: civil_day_def Sm)
  then show "civil_day (year (epoch_to_date_time dt t)) (month (epoch_to_date_time dt t)) (date (epoch_to_date_time dt t)) = t div 86400"
    by (simp add: f q_def e_def flip: d_def)
qed

lemma down_to_3: "down_to P 3 = (if P 3 then 3 else if P 2 then 2 else if P 1 then 1 else 0)"
  by (simp add: numeral_eq_Suc)
lemma down_to_11: "down_to P 11 = (if P 11 then 11 else if P 10 then 10 else if P 9 then 9 else if P 8 then 8
    else if P 7 then 7 else if P 6 then 6 else if P 5 then 5 else if P 4 then 4 else if P 3 then 3
    else if P 2 then 2 else if P 1 then 1 else 0)"
  by (simp add: numeral_eq_Suc)
lemma down_row:
  assumes "r < 4" "1 \<le> m" "m \<le> 12" "1 \<le> d" "d \<le> month_length y m" "greg_leap y \<longleftrightarrow> r = 0"
    and e: "e = days ! r ! (m - 1) + (d - 1)"
  shows "down_to (\<lambda>y. e \<ge> days ! y ! 0) 3 = r" "down_to (\<lambda>m. e \<ge> days ! r ! m) 11 = m - 1"
    "0 \<le> e" "e < 1461"
proof -
  consider "r = 0" | "r = 1" | "r = 2" | "r = 3" using assms(1) by linarith
  then have "down_to (\<lambda>y. e \<ge> days ! y ! 0) 3 = r \<and> down_to (\<lambda>m. e \<ge> days ! r ! m) 11 = m - 1 \<and> 0 \<le> e \<and> e < 1461"
    unfolding down_to_3 down_to_11
    by (cases; rule month_cases[OF assms(2,3)])
      (use assms(4-6) e in \<open>simp_all add: days_def month_length_def split: if_splits\<close>)
  then show "down_to (\<lambda>y. e \<ge> days ! y ! 0) 3 = r" "down_to (\<lambda>m. e \<ge> days ! r ! m) 11 = m - 1"
    "0 \<le> e" "e < 1461" by auto
qed

lemma date_of_civil_day:
  assumes "valid_date yy mm dd" "0 \<le> s" "s < 86400"
  shows "year (epoch_to_date_time dt (civil_day yy mm dd * 86400 + s)) = yy"
    and "month (epoch_to_date_time dt (civil_day yy mm dd * 86400 + s)) = mm"
    and "date (epoch_to_date_time dt (civil_day yy mm dd * 86400 + s)) = dd"
proof -
  define y where "y = nat yy"
  define m where "m = nat mm"
  define r where "r = y mod 4"
  define q where "q = y div 4"
  have y: "yy = int y" "y < 100" and m: "mm = int m" "1 \<le> m" "m \<le> 12"
    using assms by (auto simp: valid_date_def y_def m_def)
  define e where "e = days ! r ! (m - 1) + (dd - 1)"
  have lp: "greg_leap (2000 + yy) \<longleftrightarrow> r = 0" using greg_leap_nat y by (simp add: r_def)
  have d: "1 \<le> dd" "dd \<le> month_length (2000 + yy) m" using assms(1) by (auto simp: valid_date_def m)
  have r4: "r < 4" by (simp add: r_def)
  note row = down_row[OF r4 m(2,3) d lp e_def]
  have "civil_day yy mm dd = int q * 1461 + e"
    using days_to_year_table[OF less_imp_le[OF y(2)]] days_table_row[OF r4 m(2,3) lp]
    by (simp add: civil_day_def y m q_def r_def e_def)
  then have cd: "(civil_day yy mm dd * 86400 + s) div 60 div 60 div 24 = int q * 1461 + e"
    using assms(2,3) by (simp flip: zdiv_zmult2_eq)
  have dm: "(int q * 1461 + e) div (365 * 4 + 1) = int q" "(int q * 1461 + e) mod (365 * 4 + 1) = e"
    using row(3,4) by simp_all
  have f: "year (epoch_to_date_time dt (civil_day yy mm dd * 86400 + s)) = int q * 4 + int r \<and>
      month (epoch_to_date_time dt (civil_day yy mm dd * 86400 + s)) = int (m - 1) + 1 \<and>
      date (epoch_to_date_time dt (civil_day yy mm dd * 86400 + s)) = e - days ! r ! (m - 1) + 1"
    unfolding epoch_to_date_time_def Let_def cd dm row(1,2) by simp
  show "year (epoch_to_date_time dt (civil_day yy mm dd * 86400 + s)) = yy"
    using f y(1) div_mult_mod_eq[of y 4] unfolding q_def r_def by linarith
  show "month (epoch_to_date_time dt (civil_day yy mm dd * 86400 + s)) = mm" using f m by simp
  show "date (epoch_to_date_time dt (civil_day yy mm dd * 86400 + s)) = dd" using f by (simp add: e_def)
qed

lemma civil_day_table:
  assumes "0 \<le> yy" and "yy < 100" and "1 \<le> mm" and "mm \<le> 12"
  shows "civil_day yy mm dd = yy div 4 * 1461 + days ! nat (yy mod 4) ! nat (mm - 1) + dd - 1"
proof -
  define r where "r = nat (yy mod 4)"
  have n: "nat yy div 4 = nat (yy div 4)" "nat yy mod 4 = r" "nat (mm - 1) = nat mm - 1"
    using assms(1,3) by (simp_all add: nat_div_distrib nat_mod_distrib nat_diff_distrib r_def)
  have lp: "greg_leap (2000 + yy) = (r = 0)"
    unfolding greg_leap_century[OF assms(1,2)] r_def using pos_mod_sign[of 4 yy] by linarith
  have "r < 4" unfolding r_def by simp
  then have row: "days ! r ! (nat mm - 1) = [0, 366, 731, 1096] ! r + days_to_month (2000 + yy) (nat mm)"
    using assms(3,4) lp by (intro days_table_row) auto
  have "days_to_year (nat yy) = int (nat (yy div 4)) * 1461 + [0, 366, 731, 1096] ! r"
    using days_to_year_table[of "nat yy"] assms(2) unfolding n by simp
  then show ?thesis
    using assms(1) row unfolding civil_day_def n r_def[symmetric] by (simp add: pos_imp_zdiv_nonneg_iff)
qed

section \<open>Properties\<close>

definition blank_date :: date_time where
  "blank_date = \<lparr>milSec = 0, second = 0, minute = 0, hour = 0, date = 0, month = 0, year = 0\<rparr>"

lemma time_of_day:
  "hour (epoch_to_date_time dt t) = t div 60 div 60 mod 24"
  "minute (epoch_to_date_time dt t) = t div 60 mod 60"
  "second (epoch_to_date_time dt t) = t mod 60"
  by (simp_all add: epoch_to_date_time_def Let_def)

text \<open>C20: for every second from 2000-01-01 to 2099-12-31 the table-driven conversion gives the date of the Gregorian
  calendar: a valid date whose day number, counted by year and month lengths, is the seconds divided by 86400, with the
  right time of day; converting the date back to a day number gives the day it came from.\<close>

theorem epoch_to_date_correct:
  assumes "0 \<le> t" and "t < 36525 * 86400"
  shows "let dt' = epoch_to_date_time dt t in
    valid_date (year dt') (month dt') (date dt') \<and> civil_day (year dt') (month dt') (date dt') = t div 86400 \<and>
    hour dt' * 3600 + minute dt' * 60 + second dt' = t mod 86400 \<and>
    0 \<le> hour dt' \<and> hour dt' < 24 \<and> 0 \<le> minute dt' \<and> minute dt' < 60 \<and> 0 \<le> second dt' \<and> second dt' < 60 \<and>
    date_time_to_epoch_days dt' = t div 86400"
proof -
  note val = epoch_to_date_valid[OF assms, of dt]
  have "t div 60 div 60 div 24 = t div 86400" by (simp flip: zdiv_zmult2_eq)
  then have "t mod 86400 = (t div 60 div 60 mod 24) * 3600 + (t div 60 mod 60) * 60 + t mod 60"
    using div_mult_mod_eq[of t 60] div_mult_mod_eq[of "t div 60" 60] div_mult_mod_eq[of "t div 60 div 60" 24]
      div_mult_mod_eq[of t 86400] by linarith
  then have c: "hour (epoch_to_date_time dt t) * 3600 + minute (epoch_to_date_time dt t) * 60 +
      second (epoch_to_date_time dt t) = t mod 86400"
    unfolding time_of_day by (rule sym)
  show ?thesis
    unfolding Let_def c using val date_time_to_epoch_days_civil(1)[OF val(1)] by (simp add: time_of_day)
qed

theorem epoch_to_date_correct_witness:
  "valid_date (year (epoch_to_date_time blank_date 762523200)) (month (epoch_to_date_time blank_date 762523200))
      (date (epoch_to_date_time blank_date 762523200)) \<and>
   date_time_to_epoch_days (epoch_to_date_time blank_date 762523200) = 8825"
  using epoch_to_date_correct[of 762523200 blank_date] by (simp add: Let_def)

text \<open>and conversely, for every valid date from 2000 to 2099 and every time of day the conversion of its seconds gives
  back exactly that date; in particular no two dates share a day number.\<close>

theorem date_epoch_roundtrip:
  assumes "valid_date (year d) (month d) (date d)" and "0 \<le> s" and "s < 86400"
  shows "let dt' = epoch_to_date_time dt (date_time_to_epoch_days d * 86400 + s) in
    year dt' = year d \<and> month dt' = month d \<and> date dt' = date d"
  using date_of_civil_day[OF assms] date_time_to_epoch_days_civil(1)[OF assms(1)] by (simp add: Let_def)

theorem date_epoch_roundtrip_witness:
  "date (epoch_to_date_time blank_date (date_time_to_epoch_days (blank_date\<lparr>year := 24, month := 2, date := 29\<rparr>) * 86400 + 5)) = 29"
  using date_epoch_roundtrip[of "blank_date\<lparr>year := 24, month := 2, date := 29\<rparr>" 5 blank_date]
  by (simp add: valid_date_def month_length_def greg_leap_def blank_date_def Let_def)

lemma get_yday_civil:
  assumes "valid_date yy mm dd"
  shows "get_yday dd mm yy = days_to_month (2000 + yy) (nat mm) + dd"
proof -
  have y: "0 \<le> yy" "yy < 100" and m: "1 \<le> mm" "mm \<le> 12" using assms by (auto simp: valid_date_def)
  have "yisleap yy \<longleftrightarrow> greg_leap (2000 + yy)" using yisleap_century greg_leap_century y by blast
  moreover have "mm mod 13 = mm" using m by simp
  ultimately show ?thesis
    using yday_row[of "nat mm" "2000 + yy"] m by (simp add: get_yday_def)
qed

text \<open>the day of the year is right: for a valid date it is one more than the number of days since the first of January.\<close>

theorem get_yday_correct:
  assumes "valid_date yy mm dd"
  shows "get_yday dd mm yy = civil_day yy mm dd - civil_day yy 1 1 + 1"
  using get_yday_civil[OF assms] by (simp add: civil_day_def days_to_month_def)

theorem get_yday_correct_witness: "get_yday 31 12 24 = civil_day 24 12 31 - civil_day 24 1 1 + 1"
  by (rule get_yday_correct) (simp add: valid_date_def month_length_def)

end
