(* ===== verification/Holidays.thy ===== *)
theory Holidays
  imports Calendar
begin

text \<open>
  The daylight-saving and holiday tables of main/EVENT_Actor.c (defined in theory Calendar) against
  their specification: the n-th and last weekdays of a month and Easter Sunday.
\<close>

section \<open>Daylight saving and holidays\<close>

text \<open>Weekdays count from 1 for Monday to 7 for Sunday; day 0, the first of January 2000, was a Saturday.\<close>

definition weekday_of_day :: "int \<Rightarrow> int" where
  "weekday_of_day d = (d - 2) mod 7 + 1"

definition nth_weekday :: "int \<Rightarrow> int \<Rightarrow> int \<Rightarrow> int \<Rightarrow> int" where
  "nth_weekday yy mm wd n = (let f = civil_day yy mm 1 in f + (wd - weekday_of_day f) mod 7 + 7 * (n - 1))"

definition last_weekday :: "int \<Rightarrow> int \<Rightarrow> int \<Rightarrow> int" where
  "last_weekday yy mm wd = (let l = civil_day yy mm (month_length (2000 + yy) (nat mm)) in l - (weekday_of_day l - wd) mod 7)"

text \<open>Easter Sunday by the Gregorian computus.\<close>

definition easter_day :: "int \<Rightarrow> int" where
  "easter_day yy = (let
     a = (2000 + yy) mod 19; b = (2000 + yy) div 100; c = (2000 + yy) mod 100;
     h = (19 * a + b - b div 4 - (b - (b + 8) div 25 + 1) div 3 + 15) mod 30;
     l = (32 + 2 * (b mod 4) + 2 * (c div 4) - h - c mod 4) mod 7;
     m = (a + 11 * h + 22 * l) div 451;
     x = h + l - 7 * m + 114 in civil_day yy (x div 31) (x mod 31 + 1))"

definition holiday_day :: "int \<Rightarrow> int list" where
  "holiday_day yy = [civil_day yy 1 1, nth_weekday yy 1 1 3, nth_weekday yy 2 1 3, civil_day yy 3 17,
     easter_day yy, nth_weekday yy 5 7 2, last_weekday yy 5 1, nth_weekday yy 6 7 3, civil_day yy 7 4,
     nth_weekday yy 9 1 1, nth_weekday yy 10 1 2, civil_day yy 10 24, civil_day yy 11 11, nth_weekday yy 11 4 4,
     civil_day yy 12 25]"

lemmas calendar_eval = nth_weekday_def last_weekday_def easter_day_def weekday_of_day_def
  civil_day_table days_def month_length_def Let_numeral

lemma Dst_Start_date_spec:
  "Dst_Start_date = map (\<lambda>y. nth_weekday y 3 7 2 * 86400 + 2 * 3600) [18..50]"
  by code_simp

lemma Dst_End_date_spec:
  "Dst_End_date = map (\<lambda>y. nth_weekday y 11 7 1 * 86400 + 1 * 3600) [18..50]"
  by code_simp

lemma dst_enable_ex:
  "dst_enable t \<longleftrightarrow> (\<exists>y \<in> {18..50}. nth_weekday y 3 7 2 * 86400 + 7200 \<le> t \<and> t < nth_weekday y 11 7 1 * 86400 + 3600)"
proof -
  have "dst_enable t \<longleftrightarrow> (\<exists>(s, e) \<in> (\<lambda>y. (nth_weekday y 3 7 2 * 86400 + 2 * 3600, nth_weekday y 11 7 1 * 86400 + 1 * 3600)) ` {18..50}.
      t \<ge> s \<and> t < e)"
    unfolding dst_enable_def Dst_Start_date_spec Dst_End_date_spec zip_map_map zip_same_conv_map map_map list_ex_iff o_def
      set_map set_upto by simp
  then show ?thesis unfolding bex_simps(7) prod.case by simp
qed

lemma days_to_year_mono: "m \<le> n \<Longrightarrow> days_to_year m \<le> days_to_year n"
  by (rule lift_Suc_mono_le[of days_to_year]) auto

lemma civil_year_mono: "a \<le> b \<Longrightarrow> civil_day a 1 1 \<le> civil_day b 1 1"
  using days_to_year_mono[of "nat a" "nat b"] by (simp add: civil_day_def days_to_month_def)

lemma weekday_window: "f \<le> f + (wd - weekday_of_day f) mod 7 \<and> f + (wd - weekday_of_day f) mod 7 \<le> f + 6"
  using pos_mod_bound[of 7 "wd - weekday_of_day f"] pos_mod_sign[of 7 "wd - weekday_of_day f"] by linarith

lemma march_november_in_year:
  "18 \<le> y \<Longrightarrow> y \<le> 50 \<Longrightarrow> civil_day y 1 1 \<le> nth_weekday y 3 7 2 \<and> nth_weekday y 11 7 1 < civil_day (y + 1) 1 1"
  using weekday_window[of "civil_day y 3 1" 7] weekday_window[of "civil_day y 11 1" 7]
  by (auto simp: nth_weekday_def Let_def civil_day_def days_to_month_def upt_months month_length_def nat_add_distrib)

text \<open>during the years 2018 to 2050 the daylight-saving switch is on exactly from two o'clock on the second Sunday of
  March to one o'clock on the first Sunday of November, both read on the local standard clock the counter was
  shifted to.\<close>

theorem dst_enable_correct:
  assumes "18 \<le> yy" and "yy \<le> 50"
    and "civil_day yy 1 1 * 86400 \<le> t" and "t < civil_day (yy + 1) 1 1 * 86400"
  shows "dst_enable t \<longleftrightarrow> nth_weekday yy 3 7 2 * 86400 + 2 * 3600 \<le> t \<and> t < nth_weekday yy 11 7 1 * 86400 + 1 * 3600"
proof -
  have "y = yy" if y: "y \<in> {18..50}" "nth_weekday y 3 7 2 * 86400 + 7200 \<le> t" "t < nth_weekday y 11 7 1 * 86400 + 3600" for y
  proof -
    have w: "civil_day y 1 1 \<le> nth_weekday y 3 7 2" "nth_weekday y 11 7 1 < civil_day (y + 1) 1 1"
      using march_november_in_year[of y] y(1) by auto
    note mono = civil_year_mono
    have "\<not> y + 1 \<le> yy" using mono[of "y + 1" yy] w(2) y(3) assms(3) by linarith
    moreover have "\<not> yy + 1 \<le> y" using mono[of "yy + 1" y] w(1) y(2) assms(4) by linarith
    ultimately show ?thesis by simp
  qed
  moreover have "yy \<in> {18..50}" using assms(1,2) by (simp only: atLeastAtMost_iff)
  ultimately have "(\<exists>y \<in> {18..50}. nth_weekday y 3 7 2 * 86400 + 7200 \<le> t \<and> t < nth_weekday y 11 7 1 * 86400 + 3600) \<longleftrightarrow>
      nth_weekday yy 3 7 2 * 86400 + 7200 \<le> t \<and> t < nth_weekday yy 11 7 1 * 86400 + 3600"
    by metis
  then show ?thesis unfolding dst_enable_ex by linarith
qed

theorem dst_enable_correct_witness: "dst_enable 773000000"
  using dst_enable_correct[of 24 773000000]
  by (simp add: calendar_eval)

definition holiday_row_ok :: "nat \<Rightarrow> bool" where
  "holiday_row_ok i \<longleftrightarrow> map (\<lambda>x. x - EPOCH_30) (Holiday_table ! i) = map (\<lambda>y. holiday_day y ! i * 86400) [20..40]"

lemma holiday_rows_0: "list_all holiday_row_ok [0, 1, 2, 3]" by code_simp
lemma holiday_rows_4: "list_all holiday_row_ok [4, 5, 6, 7]" by code_simp
lemma holiday_rows_8: "list_all holiday_row_ok [8, 9, 10, 11]" by code_simp
lemma holiday_rows_12: "list_all holiday_row_ok [12, 13, 14]" by code_simp

lemma holiday_rows:
  assumes "i < 15"
  shows "map (\<lambda>x. x - EPOCH_30) (Holiday_table ! i) = map (\<lambda>y. holiday_day y ! i * 86400) [20..40]"
proof -
  have "\<forall>i<15. holiday_row_ok i"
    using holiday_rows_0 holiday_rows_4 holiday_rows_8 holiday_rows_12
    by (simp add: numeral_eq_Suc All_less_Suc)
  then show ?thesis using assms unfolding holiday_row_ok_def by blast
qed

lemma holiday_entry:
  assumes "i < 15" and "20 \<le> yy" and "yy \<le> 40"
  shows "Holiday_table ! i ! nat (yy - 20) - EPOCH_30 = (holiday_day yy ! i) * 86400"
proof -
  let ?f = "\<lambda>y. holiday_day y ! i * 86400"
  have k: "nat (yy - 20) < length [20..40]" "[20..40] ! nat (yy - 20) = yy"
    using assms(2,3) nth_upto[of 20 "nat (yy - 20)" 40] by auto
  have "length (Holiday_table ! i) = length [20..40]" using holiday_rows[OF assms(1)] by (metis length_map)
  then have "Holiday_table ! i ! nat (yy - 20) - EPOCH_30 = map ?f [20..40] ! nat (yy - 20)"
    using k(1) unfolding holiday_rows[OF assms(1), symmetric] by (simp del: upto_rec_numeral)
  also have "\<dots> = ?f yy" using k by (simp del: upto_rec_numeral)
  finally show ?thesis .
qed

text \<open>every entry of the holiday table is midnight of the day its row is named after: fixed dates, the n-th or last
  weekday of a month, and Easter Sunday as the Gregorian computus gives it, for each year from 2020 to 2040.\<close>

theorem holiday_table_correct:
  assumes "i < 15" and "20 \<le> yy" and "yy \<le> 40"
  shows "Holiday_table ! i ! nat (yy - 20) - EPOCH_30 = (holiday_day yy ! i) * 86400"
  by (rule holiday_entry[OF assms])

theorem holiday_table_correct_witness: "Holiday_table ! 4 ! 4 - EPOCH_30 = holiday_day 24 ! 4 * 86400"
  using holiday_table_correct[of 4 24] by simp

end
