(* ===== verification/Schedule_Range.thy ===== *)
theory Schedule_Range
  imports Holidays
begin

text \<open>
  The schedule entries of main/EVENT_Actor.c and their date windows (Start_EpochDay and
  Stop_EpochDay): plain date ranges, ranges that wrap over the end of the year, and ranges given by two
  holidays with day offsets.  The lemmas show which days of the year an entry is active on.
\<close>

section \<open>The code\<close>

record sched =
  EventId :: int
  ScriptID :: int
  Date_Range_Type :: int
  Start_month :: int
  Start_day :: int
  End_month :: int
  End_day :: int
  WeekDays :: int
  Time_type :: int
  HolidayStartIndex :: int
  HolidayStartOffset :: int
  HolidayEndIndex :: int
  HolidayEndOffset :: int
  OffsetMinutes :: int
  Hour :: int
  Minute :: int
  SortOrder :: int
  OverrideSport :: int
  RampTime :: int
  Duration :: int

definition sched_zero :: sched where
  "sched_zero = \<lparr>EventId = 0, ScriptID = 0, Date_Range_Type = 0, Start_month = 0, Start_day = 0, End_month = 0,
     End_day = 0, WeekDays = 0, Time_type = 0, HolidayStartIndex = 0, HolidayStartOffset = 0, HolidayEndIndex = 0,
     HolidayEndOffset = 0, OffsetMinutes = 0, Hour = 0, Minute = 0, SortOrder = 0, OverrideSport = 0, RampTime = 0,
     Duration = 0\<rparr>"

definition HOLIDAY_RANGE :: int where "HOLIDAY_RANGE = 3"

definition date_zero :: date_time where
  "date_zero = \<lparr>milSec = 0, second = 0, minute = 0, hour = 0, date = 0, month = 0, year = 0\<rparr>"

text \<open>The date of a holiday of the year, moved by an offset in days.  The sums are unsigned and the argument of
  epoch_to_date_time has 32 bits, so only the value modulo 2^32 matters.\<close>

definition holiday_date :: "int \<Rightarrow> int \<Rightarrow> int \<Rightarrow> date_time" where
  "holiday_date index offset yr =
     epoch_to_date_time date_zero ((Holiday_table ! nat (index - 1) ! nat (yr - 20) + offset * 24 * 60 * 60 - EPOCH_30) mod 2 ^ 32)"

text \<open>Start month and day, end month and day.\<close>

definition effective_range :: "sched \<Rightarrow> int \<Rightarrow> int \<times> int \<times> int \<times> int" where
  "effective_range e yr = (if Date_Range_Type e = HOLIDAY_RANGE then
     (let s = holiday_date (HolidayStartIndex e) (HolidayStartOffset e) yr;
          t = holiday_date (HolidayEndIndex e) (HolidayEndOffset e) yr in (month s, date s, month t, date t))
     else (Start_month e, Start_day e, End_month e, End_day e))"

text \<open>The entry is found with an index of eight bits.\<close>

definition Start_EpochDay :: "sched list \<Rightarrow> date_time \<Rightarrow> int \<Rightarrow> int" where
  "Start_EpochDay tab now EventOrder = (let
     (sm, sd, em, ed) = effective_range (tab ! nat (EventOrder mod 256)) (year now);
     StartDayTime = now\<lparr>date := sd mod 256, month := sm\<rparr>;
     stopdays = get_yday (ed mod 256) em (year now) mod 2 ^ 32;
     startdays = get_yday (sd mod 256) sm (year now) mod 2 ^ 32;
     currentdays = get_yday (date now) (month now) (year now) mod 2 ^ 32 in
     date_time_to_epoch_days
       (if stopdays < startdays then
          if currentdays \<ge> startdays then StartDayTime
          else if currentdays \<le> stopdays then StartDayTime\<lparr>date := 1, month := 1\<rparr> else StartDayTime
        else StartDayTime))"

definition Stop_EpochDay :: "sched list \<Rightarrow> date_time \<Rightarrow> int \<Rightarrow> int" where
  "Stop_EpochDay tab now EventOrder = (let
     (sm, sd, em, ed) = effective_range (tab ! nat (EventOrder mod 256)) (year now);
     StopDayTime = now\<lparr>date := ed mod 256, month := em\<rparr>;
     stopdays = get_yday (ed mod 256) em (year now) mod 2 ^ 32;
     startdays = get_yday (sd mod 256) sm (year now) mod 2 ^ 32;
     currentdays = get_yday (date now) (month now) (year now) mod 2 ^ 32 in
     date_time_to_epoch_days
       (if stopdays < startdays then
          if currentdays \<ge> startdays then StopDayTime\<lparr>date := 31, month := 12\<rparr> else StopDayTime
        else StopDayTime))"

text \<open>The test both scans of the table make.\<close>

definition entry_active :: "sched list \<Rightarrow> date_time \<Rightarrow> int \<Rightarrow> bool" where
  "entry_active tab now i = (let cur = date_time_to_epoch_days now; start = Start_EpochDay tab now i; stop = Stop_EpochDay tab now i in
     stop \<ge> start \<and> cur \<ge> start \<and> cur \<le> stop)"

section \<open>Which days an entry is active on\<close>

text \<open>The specification: a window of days that may wrap over the end of the year.\<close>

definition in_window :: "int \<Rightarrow> int \<Rightarrow> int \<Rightarrow> bool" where
  "in_window s t c = (if s \<le> t then s \<le> c \<and> c \<le> t else s \<le> c \<or> c \<le> t)"

definition plausible_day :: "int \<Rightarrow> int \<Rightarrow> bool" where
  "plausible_day mm dd \<longleftrightarrow> 1 \<le> mm \<and> mm \<le> 12 \<and> 1 \<le> dd \<and> dd \<le> 31"

lemma valid_date_plausible: "valid_date yy mm dd \<Longrightarrow> plausible_day mm dd \<and> 0 \<le> yy \<and> yy < 100"
proof -
  assume v: "valid_date yy mm dd"
  then have m: "1 \<le> nat mm" "nat mm \<le> 12" by (auto simp: valid_date_def)
  have "month_length (2000 + yy) (nat mm) \<le> 31"
    by (rule month_cases[OF m]) (simp_all add: month_length_def)
  then show ?thesis using v by (auto simp: valid_date_def plausible_day_def)
qed

lemma epoch_days_plausible:
  assumes "plausible_day (month d) (date d)" and "0 \<le> year d" and "year d < 100"
  shows "date_time_to_epoch_days d = civil_day (year d) (month d) (date d)"
proof -
  define r where "r = nat (year d mod 4)"
  define m where "m = nat (month d - 1)"
  have m: "1 \<le> month d" "month d \<le> 12" "1 \<le> date d" "date d \<le> 31" using assms(1) by (auto simp: plausible_day_def)
  have r: "r < 4" and m12: "m < 12" using m by (auto simp: r_def m_def)
  have b: "0 \<le> days ! r ! m \<and> days ! r ! m \<le> 1430"
  proof -
    have "\<forall>r<4. \<forall>m<12. 0 \<le> days ! r ! m \<and> days ! r ! m \<le> 1430"
      unfolding days_def by (simp add: numeral_eq_Suc All_less_Suc)
    then show ?thesis using r m12 by blast
  qed
  have "0 \<le> year d div 4 \<and> year d div 4 \<le> 24" using assms(2,3) by auto
  then have "(year d div 4 * (365 * 4 + 1) + days ! r ! m + (date d - 1)) mod 2 ^ 32 = year d div 4 * (365 * 4 + 1) + days ! r ! m + (date d - 1)"
    using b m by (intro mod_pos_pos_trivial) auto
  then show ?thesis
    unfolding civil_day_table[OF assms(2,3) m(1,2)] date_time_to_epoch_days_def Let_def r_def m_def by simp
qed

lemma get_yday_days:
  assumes "plausible_day mm dd" and "0 \<le> yy" and "yy < 100"
  shows "get_yday dd mm yy = civil_day yy mm dd - civil_day yy 1 1 + 1" "0 < get_yday dd mm yy" "get_yday dd mm yy \<le> 366"
proof -
  have m: "1 \<le> mm" "mm \<le> 12" "1 \<le> dd" "dd \<le> 31" using assms(1) by (auto simp: plausible_day_def)
  have "yisleap yy \<longleftrightarrow> greg_leap (2000 + yy)" using yisleap_century greg_leap_century assms(2,3) by blast
  moreover have "mm mod 13 = mm" using m by simp
  ultimately have y: "get_yday dd mm yy = days_to_month (2000 + yy) (nat mm) + dd"
    using yday_row[of "nat mm" "2000 + yy"] m by (simp add: get_yday_def)
  then show "get_yday dd mm yy = civil_day yy mm dd - civil_day yy 1 1 + 1"
    by (simp add: civil_day_def days_to_month_def)
  have "0 \<le> days_to_month (2000 + yy) (nat mm) \<and> days_to_month (2000 + yy) (nat mm) \<le> 335"
    by (rule month_cases[of "nat mm"])
      (use m in \<open>simp_all add: days_to_month_def upt_months month_length_def del: upt_Suc\<close>)
  then show "0 < get_yday dd mm yy" "get_yday dd mm yy \<le> 366" using y m by auto
qed

lemma entry_active_window:
  assumes rng: "effective_range (tab ! nat (i mod 256)) (year now) = (sm, sd, em, ed)"
    and s: "plausible_day sm sd" and t: "plausible_day em ed" and now: "valid_date (year now) (month now) (date now)"
  shows "entry_active tab now i \<longleftrightarrow> in_window (civil_day (year now) sm sd) (civil_day (year now) em ed)
    (civil_day (year now) (month now) (date now))"
proof -
  define y where "y = year now"
  note rng = rng[folded y_def]
  have yb: "0 \<le> y" "y < 100" and c: "plausible_day (month now) (date now)" using valid_date_plausible[OF now] by (auto simp: y_def)
  have sd: "sd mod 256 = sd" "ed mod 256 = ed" using s t by (auto simp: plausible_day_def)
  note ys = get_yday_days[OF s yb] and yt = get_yday_days[OF t yb] and yc = get_yday_days[OF c yb]
  have small: "get_yday sd sm y mod 2 ^ 32 = get_yday sd sm y" "get_yday ed em y mod 2 ^ 32 = get_yday ed em y"
      "get_yday (date now) (month now) y mod 2 ^ 32 = get_yday (date now) (month now) y"
    using ys yt yc by (simp_all add: mod_pos_pos_trivial)
  have ends: "plausible_day 1 1" "plausible_day 12 31" by (simp_all add: plausible_day_def)
  have ed1: "date_time_to_epoch_days (now\<lparr>date := d, month := m\<rparr>) = civil_day y m d" if "plausible_day m d" for m d
    using epoch_days_plausible[of "now\<lparr>date := d, month := m\<rparr>"] that yb by (simp add: y_def)
  have cur: "date_time_to_epoch_days now = civil_day y (month now) (date now)"
    using epoch_days_plausible[of now] c yb by (simp add: y_def)
  have lo: "civil_day y 1 1 \<le> civil_day y m d \<and> civil_day y m d \<le> civil_day y 12 31 + 1" if "plausible_day m d" for m d
    using get_yday_days[OF that yb] get_yday_days(1)[OF ends(2) yb] by (simp add: get_yday_def yday_table_def yisleap_def split: if_splits)
  have chi: "civil_day y (month now) (date now) \<le> civil_day y 12 31"
  proof -
    have m: "1 \<le> nat (month now)" "nat (month now) \<le> 12" using c by (auto simp: plausible_day_def)
    have "days_to_month (2000 + y) (nat (month now)) + month_length (2000 + y) (nat (month now)) \<le> days_to_month (2000 + y) 12 + 31"
      by (rule month_cases[OF m]) (simp_all add: days_to_month_def upt_months month_length_def del: upt_Suc)
    then show ?thesis using now by (simp add: civil_day_def valid_date_def y_def)
  qed
  have start: "Start_EpochDay tab now i = (if get_yday ed em y < get_yday sd sm y \<and> get_yday (date now) (month now) y < get_yday sd sm y
      \<and> get_yday (date now) (month now) y \<le> get_yday ed em y then civil_day y 1 1 else civil_day y sm sd)"
    unfolding Start_EpochDay_def Let_def y_def[symmetric] rng prod.case sd small using ed1[OF s] ed1[OF ends(1)] by (simp add: not_le)
  have stop: "Stop_EpochDay tab now i = (if get_yday ed em y < get_yday sd sm y \<and> get_yday sd sm y \<le> get_yday (date now) (month now) y
      then civil_day y 12 31 else civil_day y em ed)"
    unfolding Stop_EpochDay_def Let_def y_def[symmetric] rng prod.case sd small using ed1[OF t] ed1[OF ends(2)] by simp
  show ?thesis
    unfolding entry_active_def Let_def start stop cur y_def[symmetric] ys(1) yt(1) yc(1) in_window_def
    using lo[OF s] lo[OF t] lo[OF c] chi by (auto split: if_splits)
qed

lemma civil_day_in_year:
  assumes "valid_date yy mm dd"
  shows "civil_day yy 1 1 \<le> civil_day yy mm dd" and "civil_day yy mm dd < civil_day (yy + 1) 1 1"
proof -
  note v = valid_date_plausible[OF assms]
  show "civil_day yy 1 1 \<le> civil_day yy mm dd" using get_yday_days[of mm dd yy] v by linarith
  have m: "1 \<le> nat mm" "nat mm \<le> 12" using v by (auto simp: plausible_day_def)
  have "days_to_month (2000 + yy) (nat mm) + month_length (2000 + yy) (nat mm) \<le> (if greg_leap (2000 + yy) then 366 else 365)"
    by (rule month_cases[OF m]) (simp_all add: days_to_month_def upt_months month_length_def del: upt_Suc)
  moreover have "nat (yy + 1) = Suc (nat yy)" "int (nat yy) = yy" using v by auto
  ultimately show "civil_day yy mm dd < civil_day (yy + 1) 1 1"
    using assms by (simp add: civil_day_def valid_date_def days_to_month_def split: if_splits)
qed

lemma civil_year_unique:
  assumes "valid_date y mm dd" and "civil_day yy 1 1 \<le> civil_day y mm dd" and "civil_day y mm dd < civil_day (yy + 1) 1 1"
  shows "y = yy"
proof -
  note mono = civil_year_mono
  note w = civil_day_in_year[OF assms(1)]
  have "\<not> y + 1 \<le> yy" using mono[of "y + 1" yy] w(2) assms(2) by linarith
  moreover have "\<not> yy + 1 \<le> y" using mono[of "yy + 1" y] w(1) assms(3) by linarith
  ultimately show ?thesis by simp
qed

definition holiday_in_year :: "int \<Rightarrow> int \<Rightarrow> int \<Rightarrow> bool" where
  "holiday_in_year yy idx off \<longleftrightarrow> 20 \<le> yy \<and> yy \<le> 40 \<and> 1 \<le> idx \<and> idx \<le> 15 \<and>
     civil_day yy 1 1 \<le> holiday_day yy ! nat (idx - 1) + off \<and> holiday_day yy ! nat (idx - 1) + off < civil_day (yy + 1) 1 1"

lemma holiday_date_day:
  assumes "holiday_in_year yy idx off"
  shows "plausible_day (month (holiday_date idx off yy)) (date (holiday_date idx off yy)) \<and>
    civil_day yy (month (holiday_date idx off yy)) (date (holiday_date idx off yy)) = holiday_day yy ! nat (idx - 1) + off"
proof -
  define D where "D = holiday_day yy ! nat (idx - 1) + off"
  define d where "d = holiday_date idx off yy"
  have yb: "20 \<le> yy" "yy \<le> 40" and lo: "civil_day yy 1 1 \<le> D" "D < civil_day (yy + 1) 1 1" and i: "nat (idx - 1) < 15"
    using assms by (auto simp: holiday_in_year_def D_def)
  have "civil_day 0 1 1 \<le> civil_day yy 1 1" "civil_day (yy + 1) 1 1 \<le> civil_day 41 1 1"
    using yb by (simp_all add: civil_year_mono)
  moreover have "civil_day 0 1 1 = 0" "civil_day 41 1 1 < 36525" by (simp_all add: civil_day_table days_def)
  ultimately have "0 \<le> civil_day yy 1 1" "civil_day (yy + 1) 1 1 < 36525" by linarith+
  then have D: "0 \<le> D" "D < 36525" using lo by auto
  have "(Holiday_table ! nat (idx - 1) ! nat (yy - 20) + off * 24 * 60 * 60 - EPOCH_30) mod 2 ^ 32 = (D * 86400) mod 2 ^ 32"
    using holiday_entry[OF i yb] unfolding D_def by (simp add: algebra_simps)
  also have "\<dots> = D * 86400" using D by simp
  finally have d: "d = epoch_to_date_time date_zero (D * 86400)" by (simp add: d_def holiday_date_def)
  have v: "valid_date (year d) (month d) (date d)" "civil_day (year d) (month d) (date d) = D"
    using epoch_to_date_valid[of "D * 86400" date_zero] D unfolding d by simp_all
  then have "year d = yy" using civil_year_unique[OF v(1)] lo by simp
  then show ?thesis using v valid_date_plausible[OF v(1)] by (simp add: d_def D_def)
qed

section \<open>Properties\<close>

text \<open>C21: an entry with a date range (record number below 256) is active exactly from its start day to its end day of the current
  year, and, when the start lies after the end, from the start to new year's eve and from new year's day to the
  end: the window wraps over the end of the year.\<close>

theorem date_range_active:
  assumes "e = tab ! nat i" and "0 \<le> i" and "i < 256" and "Date_Range_Type e \<noteq> HOLIDAY_RANGE"
    and "plausible_day (Start_month e) (Start_day e)" and "plausible_day (End_month e) (End_day e)"
    and "valid_date (year now) (month now) (date now)"
  shows "entry_active tab now i \<longleftrightarrow> in_window (civil_day (year now) (Start_month e) (Start_day e))
    (civil_day (year now) (End_month e) (End_day e)) (civil_day (year now) (month now) (date now))"
  using entry_active_window[of tab i now "Start_month e" "Start_day e" "End_month e" "End_day e"] assms
  by (simp add: effective_range_def)

theorem date_range_active_witness:
  "entry_active [sched_zero\<lparr>Date_Range_Type := 2, Start_month := 11, Start_day := 15, End_month := 2, End_day := 29\<rparr>]
     (date_zero\<lparr>year := 26, month := 1, date := 3\<rparr>) 0 \<and>
   \<not> entry_active [sched_zero\<lparr>Date_Range_Type := 2, Start_month := 11, Start_day := 15, End_month := 2, End_day := 29\<rparr>]
     (date_zero\<lparr>year := 26, month := 11, date := 14\<rparr>) 0"
  by (simp add: date_range_active[OF refl] HOLIDAY_RANGE_def sched_zero_def date_zero_def plausible_day_def valid_date_def
    month_length_def in_window_def civil_day_table days_def greg_leap_def)

text \<open>an entry with a holiday range is active exactly from its first holiday moved by its offset to its last
  holiday moved by its own, again wrapping over the end of the year, as long as the moved days stay in the
  current year (2020 to 2040).\<close>

theorem holiday_range_active:
  assumes "e = tab ! nat i" and "0 \<le> i" and "i < 256" and "Date_Range_Type e = HOLIDAY_RANGE"
    and "holiday_in_year (year now) (HolidayStartIndex e) (HolidayStartOffset e)"
    and "holiday_in_year (year now) (HolidayEndIndex e) (HolidayEndOffset e)"
    and "valid_date (year now) (month now) (date now)"
  shows "entry_active tab now i \<longleftrightarrow> in_window (holiday_day (year now) ! nat (HolidayStartIndex e - 1) + HolidayStartOffset e)
    (holiday_day (year now) ! nat (HolidayEndIndex e - 1) + HolidayEndOffset e) (civil_day (year now) (month now) (date now))"
  using entry_active_window[of tab i now "month (holiday_date (HolidayStartIndex e) (HolidayStartOffset e) (year now))"
      "date (holiday_date (HolidayStartIndex e) (HolidayStartOffset e) (year now))"
      "month (holiday_date (HolidayEndIndex e) (HolidayEndOffset e) (year now))"
      "date (holiday_date (HolidayEndIndex e) (HolidayEndOffset e) (year now))"]
    holiday_date_day[OF assms(5)] holiday_date_day[OF assms(6)] assms
  by (simp add: effective_range_def Let_def)

theorem holiday_range_active_witness:
  "entry_active [sched_zero\<lparr>Date_Range_Type := 3, HolidayStartIndex := 14, HolidayStartOffset := 1, HolidayEndIndex := 1,
      HolidayEndOffset := 5\<rparr>] (date_zero\<lparr>year := 25, month := 11, date := 28\<rparr>) 0"
proof -
  have h: "holiday_day 25 ! 13 = 9462" "holiday_day 25 ! 0 = 9132" by code_simp+
  show ?thesis
    by (subst holiday_range_active[OF refl])
      (simp_all add: HOLIDAY_RANGE_def sched_zero_def date_zero_def valid_date_def holiday_in_year_def h
        month_length_def in_window_def civil_day_table days_def)
qed

end
