(* ===== verification/Scheduler.thy ===== *)
theory Scheduler
  imports Schedule_Range "HOL-Library.Signed_Division"
begin

text \<open>
  The event scheduler of main/EVENT_Actor.c: one turn of the loop of Tasks_EventCheck, which reads the
  clock (or the simulated clock of a time warp), derives the local time, and in the first seconds of a minute scans the schedule table
  twice, first for the best priority among the entries that are due and then to send those entries to the execution task.
  The astronomical functions are parameters, the messages to other actors are outputs, and the flag that another
  task can clear is read once per turn.
\<close>

unbundle bit_operations_syntax

section \<open>The state of the task\<close>

record ev_state =
  Schedule_table :: "sched list"
  gmt_value :: int
  dst_value :: int
  dst_apply_flag :: int
  Reboot_Flag :: int
  Reboot_HH :: int
  Reboot_MM :: int
  UserDateTime :: date_time
  SS_HR :: int
  SS_MIN :: int
  SR_HR :: int
  SR_MIN :: int
  prevDD :: int
  executedThisMinute :: bool
  startEPOC :: int
  endEPOC :: int

datatype ev_out = GmtDst int int | ResetCounts | Restart | Status date_time
  | Execute (script: int) (event: int) (sport: int) (local_time: date_time) (warp: "int option")
  | WarpFinished

definition SUNSET :: int where "SUNSET = 2"
definition SUNRISE :: int where "SUNRISE = 3"
definition TOTAL_DAY_MINUTES :: int where "TOTAL_DAY_MINUTES = 24 * 60"

type_synonym sun = "int \<Rightarrow> int \<Rightarrow> int \<Rightarrow> int"

text \<open>The local clock time of an instant of the sun (seconds since 1970) on the current day.\<close>

definition sun_clock :: "sun \<Rightarrow> ev_state \<Rightarrow> int \<times> int" where
  "sun_clock f ev = (let u = UserDateTime ev; u64epoch_seconds = (f (year u) (month u) (date u) - EPOCH_30) mod 2 ^ 64;
     d = epoch_to_date_time date_zero (local_seconds (gmt_value ev) (dst_value ev \<noteq> 0) u64epoch_seconds mod 2 ^ 32) in
     (hour d, minute d))"

definition CalculateSunsetTime :: "sun \<Rightarrow> ev_state \<Rightarrow> ev_state" where
  "CalculateSunsetTime sunset ev = ev\<lparr>SS_HR := fst (sun_clock sunset ev), SS_MIN := snd (sun_clock sunset ev)\<rparr>"

definition CalculateSunriseTime :: "sun \<Rightarrow> ev_state \<Rightarrow> ev_state" where
  "CalculateSunriseTime sunrise ev = ev\<lparr>SR_HR := fst (sun_clock sunrise ev), SR_MIN := snd (sun_clock sunrise ev)\<rparr>"

section \<open>The scans of the table\<close>

definition table_len :: "sched list \<Rightarrow> nat" where
  "table_len tab = length (takeWhile (\<lambda>e. ScriptID e \<noteq> 0) tab)"

text \<open>The hour and minute of a sunset or sunrise event, with the truncating division of C; the hour is stored in eight bits.\<close>

definition sun_event_time :: "int \<Rightarrow> int \<Rightarrow> int \<Rightarrow> int \<times> int" where
  "sun_event_time hr mn offset = (let m = hr * 60 + mn + offset in (((m sdiv 60) smod 24) mod 256, m smod 60))"

definition event_time :: "sun \<Rightarrow> sun \<Rightarrow> ev_state \<Rightarrow> sched \<Rightarrow> ev_state \<times> int \<times> int" where
  "event_time sunset sunrise ev e = (let
     ev1 = (if prevDD ev \<noteq> date (UserDateTime ev) then
              (let ev' = ev\<lparr>prevDD := date (UserDateTime ev)\<rparr> in
               if Time_type e = SUNSET then CalculateSunsetTime sunset ev'
               else if Time_type e = SUNRISE then CalculateSunriseTime sunrise ev' else ev')
            else ev) in
     (ev1, if Time_type e = SUNSET then sun_event_time (SS_HR ev1) (SS_MIN ev1) (OffsetMinutes e)
           else if Time_type e = SUNRISE then sun_event_time (SR_HR ev1) (SR_MIN ev1) (OffsetMinutes e)
           else (Hour e, Minute e)))"

text \<open>The weekday, 1 for Monday, shifted by a day when the minute of the day is outside the day.\<close>

definition RTC_WeekDay :: "int \<Rightarrow> int \<Rightarrow> int" where
  "RTC_WeekDay CurrentTotalDays CheckDayOffSet = (let w = ((CurrentTotalDays - 2) mod 2 ^ 32) mod 7 + 1 in
     if CheckDayOffSet \<ge> TOTAL_DAY_MINUTES then (if w \<ge> 7 then 1 else w + 1)
     else if CheckDayOffSet < 0 then (if w = 1 then 7 else w - 1)
     else w)"

definition time_matches :: "ev_state \<Rightarrow> sched \<Rightarrow> int \<times> int \<Rightarrow> bool" where
  "time_matches ev e t \<longleftrightarrow> (let u = UserDateTime ev; w = RTC_WeekDay (date_time_to_epoch_days u) (hour u * 60 + minute u) in
     (drop_bit (nat w) 0x80) AND WeekDays e \<noteq> 0 \<and> fst t = hour u \<and> snd t = minute u)"

text \<open>The first scan leaves the best priority and the event times.\<close>

fun scan_priority :: "sun \<Rightarrow> sun \<Rightarrow> ev_state \<Rightarrow> int \<Rightarrow> nat list \<Rightarrow> ev_state \<times> int \<times> (int \<times> int) list" where
  "scan_priority sunset sunrise ev prio [] = (ev, prio, [])"
| "scan_priority sunset sunrise ev prio (i # is) = (let
     e = Schedule_table ev ! i;
     (ev1, t, prio1) =
       (if entry_active (Schedule_table ev) (UserDateTime ev) (int i) then
          (let (ev1, t) = event_time sunset sunrise ev e in
           (ev1, t, if time_matches ev1 e t \<and> SortOrder e \<le> prio \<and> SortOrder e \<noteq> 0 \<and> prio \<noteq> 0 then SortOrder e else prio))
        else (ev, (Hour e, Minute e), prio));
     (ev2, prio2, ts) = scan_priority sunset sunrise ev1 prio1 is in
     (ev2, prio2, t # ts))"

definition scan_execute :: "ev_state \<Rightarrow> int \<Rightarrow> (int \<times> int) list \<Rightarrow> ev_out list" where
  "scan_execute ev prio ts = concat (map (\<lambda>i. let e = Schedule_table ev ! i in
     if entry_active (Schedule_table ev) (UserDateTime ev) (int i) \<and> time_matches ev e (ts ! i) \<and> SortOrder e = prio
     then [Execute (ScriptID e) (EventId e) (OverrideSport e) (UserDateTime ev)
             (if startEPOC ev \<noteq> 0 then Some (startEPOC ev) else None)]
     else []) [0..<table_len (Schedule_table ev)])"

section \<open>One turn of the loop\<close>

definition dst_notice :: "ev_state \<Rightarrow> int \<Rightarrow> ev_state \<times> ev_out list" where
  "dst_notice ev t = (if dst_value ev = 0 then (ev, []) else
     (let new = (if dst_enable t then 1 else 0) in
      (ev\<lparr>dst_apply_flag := new\<rparr>, if dst_apply_flag ev \<noteq> new then [GmtDst (gmt_value ev) new] else [])))"

definition set_clock :: "ev_state \<Rightarrow> int \<Rightarrow> ev_state \<times> ev_out list" where
  "set_clock ev ms = (let
     utc = (ms div 1000 - EPOCH_30) mod 2 ^ 64;
     (ev1, o1) = dst_notice ev ((utc + gmt_value ev * 60) mod 2 ^ 64);
     l = local_seconds (gmt_value ev) (dst_value ev \<noteq> 0) utc in
     (ev1\<lparr>UserDateTime := epoch_to_date_time (UserDateTime ev) (l mod 2 ^ 32)\<rparr>, o1))"

definition daily_actions :: "ev_state \<Rightarrow> ev_out list" where
  "daily_actions ev = (let u = UserDateTime ev in
     (if hour u = 0 \<and> minute u = 0 \<and> second u \<le> 3 \<and> startEPOC ev = 0 then [ResetCounts] else []) @
     (if Reboot_Flag ev = 1 \<and> Reboot_HH ev = hour u \<and> Reboot_MM ev = minute u \<and> second u \<le> 3 \<and> startEPOC ev = 0
      then [Restart] else []))"

text \<open>The report that precedes the sending of each script computes the times of the sun again.\<close>

definition minute_work :: "sun \<Rightarrow> sun \<Rightarrow> ev_state \<Rightarrow> ev_state \<times> ev_out list" where
  "minute_work sunset sunrise ev = (let
     ev1 = ev\<lparr>executedThisMinute := True\<rparr>;
     ev2 = (if startEPOC ev = 0 then CalculateSunsetTime sunset (CalculateSunriseTime sunrise ev1) else ev1);
     (ev3, prio, ts) = scan_priority sunset sunrise ev2 100 [0..<table_len (Schedule_table ev2)];
     outs = scan_execute ev3 prio ts;
     ev4 = (if outs = [] then ev3 else CalculateSunsetTime sunset (CalculateSunriseTime sunrise ev3)) in
     (ev4, (if startEPOC ev = 0 then [Status (UserDateTime ev)] else []) @ outs))"

definition warp_step :: "ev_state \<Rightarrow> ev_state \<times> ev_out list" where
  "warp_step ev = (if startEPOC ev = 0 then (ev, []) else
     (let ev1 = ev\<lparr>executedThisMinute := False, startEPOC := (startEPOC ev + 60000) mod 2 ^ 64\<rparr> in
      if startEPOC ev1 \<ge> endEPOC ev1 then (ev1\<lparr>startEPOC := 0, endEPOC := 0\<rparr>, [WarpFinished]) else (ev1, [])))"

definition Tasks_EventCheck_turn :: "sun \<Rightarrow> sun \<Rightarrow> int \<Rightarrow> ev_state \<Rightarrow> ev_state \<times> ev_out list" where
  "Tasks_EventCheck_turn sunset sunrise now_ms ev = (let
     (ev1, o1) = set_clock ev (if startEPOC ev = 0 then now_ms else startEPOC ev);
     o2 = daily_actions ev1;
     (ev2, o3) = (if second (UserDateTime ev1) < 6 \<and> \<not> executedThisMinute ev1 then minute_work sunset sunrise ev1 else (ev1, []));
     ev3 = (if second (UserDateTime ev2) > 5 then ev2\<lparr>executedThisMinute := False\<rparr> else ev2);
     (ev4, o4) = warp_step ev3 in
     (ev4, o1 @ o2 @ o3 @ o4))"

text \<open>TimeWarpCommand, with the numbers of the message where it has them.\<close>

definition TimeWarpCommand :: "int option \<Rightarrow> int option \<Rightarrow> ev_state \<Rightarrow> ev_state" where
  "TimeWarpCommand startItem endItem ev = (let
     ev1 = (case startItem of Some v \<Rightarrow> ev\<lparr>startEPOC := v - v mod 60000\<rparr> | None \<Rightarrow> ev) in
     (case endItem of Some v \<Rightarrow> ev1\<lparr>endEPOC := v - v mod 60000\<rparr> | None \<Rightarrow> ev1))"

section \<open>Lemmas on the clock\<close>

text \<open>The instants the scheduler is used at: the local time lies in the years 2000 to 2099.\<close>

definition clock_ok :: "int \<Rightarrow> int \<Rightarrow> bool" where
  "clock_ok gmt ms \<longleftrightarrow> (let t = ms div 1000 - EPOCH_30 in 0 \<le> t \<and> 0 \<le> t + gmt * 60 \<and> t + gmt * 60 + 3600 < 36525 * 86400 \<and> t < 2 ^ 63)"

definition local_of :: "ev_state \<Rightarrow> int \<Rightarrow> int" where
  "local_of ev ms = (let t = ms div 1000 - EPOCH_30 + gmt_value ev * 60 in
     if dst_value ev \<noteq> 0 \<and> dst_enable t then t + 3600 else t)"

lemma local_of_bounds: "clock_ok (gmt_value ev) ms \<Longrightarrow> 0 \<le> local_of ev ms \<and> local_of ev ms < 36525 * 86400"
  by (auto simp: clock_ok_def local_of_def Let_def)

lemma local_of_seconds: "local_of ev ms mod 60 = ms div 1000 mod 60"
proof -
  have "(ms div 1000 - EPOCH_30 + gmt_value ev * 60) mod 60 = ms div 1000 mod 60"
       "(ms div 1000 - EPOCH_30 + gmt_value ev * 60 + 3600) mod 60 = ms div 1000 mod 60"
  proof -
    define s g where "s = ms div 1000" and "g = gmt_value ev"
    have "s - 946684800 + g * 60 = s + (g - 15778080) * 60" "s - 946684800 + g * 60 + 3600 = s + (g - 15778020) * 60" by simp_all
    then show "(ms div 1000 - EPOCH_30 + gmt_value ev * 60) mod 60 = ms div 1000 mod 60"
      "(ms div 1000 - EPOCH_30 + gmt_value ev * 60 + 3600) mod 60 = ms div 1000 mod 60"
      unfolding EPOCH_30_def s_def[symmetric] g_def[symmetric] by (simp_all only: mod_mult_self1)
  qed
  then show ?thesis by (simp add: local_of_def Let_def)
qed

lemma dst_notice_frame [simp]:
  "UserDateTime (fst (dst_notice ev t)) = UserDateTime ev" "Schedule_table (fst (dst_notice ev t)) = Schedule_table ev"
  "gmt_value (fst (dst_notice ev t)) = gmt_value ev" "dst_value (fst (dst_notice ev t)) = dst_value ev"
  "executedThisMinute (fst (dst_notice ev t)) = executedThisMinute ev"
  "startEPOC (fst (dst_notice ev t)) = startEPOC ev" "endEPOC (fst (dst_notice ev t)) = endEPOC ev"
  by (simp_all add: dst_notice_def Let_def)

lemma set_clock_frame [simp]:
  "Schedule_table (fst (set_clock ev ms)) = Schedule_table ev"
  "gmt_value (fst (set_clock ev ms)) = gmt_value ev" "dst_value (fst (set_clock ev ms)) = dst_value ev"
  "executedThisMinute (fst (set_clock ev ms)) = executedThisMinute ev"
  "startEPOC (fst (set_clock ev ms)) = startEPOC ev" "endEPOC (fst (set_clock ev ms)) = endEPOC ev"
  by (simp_all add: set_clock_def Let_def case_prod_beta)

lemma set_clock_date:
  assumes "clock_ok (gmt_value ev) ms"
  shows "UserDateTime (fst (set_clock ev ms)) = epoch_to_date_time (UserDateTime ev) (local_of ev ms)"
proof -
  define t where "t = ms div 1000 - EPOCH_30"
  have b: "0 \<le> t" "t < 2 ^ 64" "0 \<le> t + gmt_value ev * 60" "t + gmt_value ev * 60 + 3600 < 2 ^ 32"
    using assms by (auto simp: clock_ok_def t_def Let_def)
  have "local_seconds (gmt_value ev) (dst_value ev \<noteq> 0) t = local_of ev ms"
    using b by (simp add: local_seconds_def local_of_def Let_def t_def)
  moreover have "local_of ev ms mod 2 ^ 32 = local_of ev ms" using local_of_bounds[OF assms] by simp
  moreover have "t mod 2 ^ 64 = t" using b(1,2) by (rule mod_pos_pos_trivial)
  ultimately show ?thesis by (simp add: set_clock_def Let_def case_prod_beta flip: t_def)
qed

lemma second_of_turn:
  assumes "clock_ok (gmt_value ev) ms"
  shows "second (UserDateTime (fst (set_clock ev ms))) = ms div 1000 mod 60"
  by (simp add: set_clock_date[OF assms] time_of_day local_of_seconds)

section \<open>Lemmas on the scans\<close>

definition sun_ok :: "sun \<Rightarrow> sun \<Rightarrow> ev_state \<Rightarrow> bool" where
  "sun_ok sunset sunrise ev \<longleftrightarrow> (SS_HR ev, SS_MIN ev) = sun_clock sunset ev \<and> (SR_HR ev, SR_MIN ev) = sun_clock sunrise ev"

text \<open>The time of day an entry stands for.\<close>

definition spec_time :: "sun \<Rightarrow> sun \<Rightarrow> ev_state \<Rightarrow> sched \<Rightarrow> int \<times> int" where
  "spec_time sunset sunrise ev e =
    (if Time_type e = SUNSET then sun_event_time (fst (sun_clock sunset ev)) (snd (sun_clock sunset ev)) (OffsetMinutes e)
     else if Time_type e = SUNRISE then sun_event_time (fst (sun_clock sunrise ev)) (snd (sun_clock sunrise ev)) (OffsetMinutes e)
     else (Hour e, Minute e))"

definition due :: "sun \<Rightarrow> sun \<Rightarrow> ev_state \<Rightarrow> nat \<Rightarrow> bool" where
  "due sunset sunrise ev i \<longleftrightarrow> entry_active (Schedule_table ev) (UserDateTime ev) (int i) \<and>
     time_matches ev (Schedule_table ev ! i) (spec_time sunset sunrise ev (Schedule_table ev ! i))"

definition priorities :: "sun \<Rightarrow> sun \<Rightarrow> ev_state \<Rightarrow> nat list \<Rightarrow> int set" where
  "priorities sunset sunrise ev is = {SortOrder (Schedule_table ev ! i) | i. i \<in> set is \<and> due sunset sunrise ev i \<and>
     SortOrder (Schedule_table ev ! i) \<le> 100 \<and> SortOrder (Schedule_table ev ! i) \<noteq> 0}"

definition scan_times :: "sun \<Rightarrow> sun \<Rightarrow> ev_state \<Rightarrow> nat list \<Rightarrow> (int \<times> int) list" where
  "scan_times sunset sunrise ev is = map (\<lambda>i. let e = Schedule_table ev ! i in
     if entry_active (Schedule_table ev) (UserDateTime ev) (int i) then spec_time sunset sunrise ev e else (Hour e, Minute e)) is"

lemma sun_clock_prevDD [simp]: "sun_clock f (ev\<lparr>prevDD := d\<rparr>) = sun_clock f ev"
  by (simp add: sun_clock_def)

lemma event_time_ok:
  assumes "sun_ok sunset sunrise ev"
  shows "event_time sunset sunrise ev e = (ev\<lparr>prevDD := date (UserDateTime ev)\<rparr>, spec_time sunset sunrise ev e)"
  using assms
  by (cases "sun_clock sunset ev"; cases "sun_clock sunrise ev")
    (auto simp: event_time_def spec_time_def sun_ok_def CalculateSunsetTime_def CalculateSunriseTime_def Let_def)

lemma prevDD_frame [simp]:
  "sun_ok sunset sunrise (ev\<lparr>prevDD := d\<rparr>) \<longleftrightarrow> sun_ok sunset sunrise ev"
  "spec_time sunset sunrise (ev\<lparr>prevDD := d\<rparr>) e = spec_time sunset sunrise ev e"
  "time_matches (ev\<lparr>prevDD := d\<rparr>) e t \<longleftrightarrow> time_matches ev e t"
  "due sunset sunrise (ev\<lparr>prevDD := d\<rparr>) i \<longleftrightarrow> due sunset sunrise ev i"
  "priorities sunset sunrise (ev\<lparr>prevDD := d\<rparr>) is = priorities sunset sunrise ev is"
  "scan_execute (ev\<lparr>prevDD := d\<rparr>) prio ts = scan_execute ev prio ts"
  "scan_times sunset sunrise (ev\<lparr>prevDD := d\<rparr>) is = scan_times sunset sunrise ev is"
  by (simp_all add: sun_ok_def spec_time_def time_matches_def due_def priorities_def scan_execute_def scan_times_def Let_def cong: if_cong)

lemma finite_priorities: "finite (priorities sunset sunrise ev is)"
proof -
  have "priorities sunset sunrise ev is \<subseteq> (\<lambda>i. SortOrder (Schedule_table ev ! i)) ` set is" by (auto simp: priorities_def)
  then show ?thesis by (rule finite_subset) simp
qed

lemma priorities_Cons:
  "priorities sunset sunrise ev (i # is) = (if due sunset sunrise ev i \<and> SortOrder (Schedule_table ev ! i) \<le> 100 \<and>
     SortOrder (Schedule_table ev ! i) \<noteq> 0 then insert (SortOrder (Schedule_table ev ! i)) else id) (priorities sunset sunrise ev is)"
  by (auto simp: priorities_def)

lemma scan_priority_ok:
  assumes "sun_ok sunset sunrise ev" and "prio \<le> 100" and "prio \<noteq> 0"
  shows "\<exists>d. scan_priority sunset sunrise ev prio is =
    (ev\<lparr>prevDD := d\<rparr>, Min (insert prio (priorities sunset sunrise ev is)), scan_times sunset sunrise ev is)"
  using assms
proof (induction "is" arbitrary: ev prio)
  case Nil
  have "ev\<lparr>prevDD := prevDD ev\<rparr> = ev" by simp
  then show ?case by (intro exI[of _ "prevDD ev"]) (simp add: priorities_def scan_times_def)
next
  case (Cons i "is")
  let ?e = "Schedule_table ev ! i"
  show ?case
  proof (cases "entry_active (Schedule_table ev) (UserDateTime ev) (int i)")
    case act: True
    define p1 where "p1 = (if time_matches ev ?e (spec_time sunset sunrise ev ?e) \<and> SortOrder ?e \<le> prio \<and> SortOrder ?e \<noteq> 0 then SortOrder ?e else prio)"
    have p1: "p1 \<le> 100" "p1 \<noteq> 0" using Cons.prems by (auto simp: p1_def)
    have m: "Min (insert p1 (priorities sunset sunrise ev is)) = Min (insert prio (priorities sunset sunrise ev (i # is)))"
    proof (rule Min_eqI)
      show "finite (insert p1 (priorities sunset sunrise ev is))" by (simp add: finite_priorities)
      fix y assume "y \<in> insert p1 (priorities sunset sunrise ev is)"
      then have "y \<in> insert prio (priorities sunset sunrise ev (i # is))"
        using Cons.prems act by (auto simp: p1_def priorities_Cons due_def split: if_splits)
      then show "Min (insert prio (priorities sunset sunrise ev (i # is))) \<le> y" by (simp add: finite_priorities del: Min_insert)
    next
      let ?A = "insert prio (priorities sunset sunrise ev (i # is))"
      have fin: "finite ?A" "?A \<noteq> {}" by (simp_all add: finite_priorities)
      have "Min ?A \<in> ?A" by (rule Min_in[OF fin])
      moreover have "Min ?A \<le> prio" by (simp add: finite_priorities)
      moreover have "Min ?A \<le> p1"
        using act Cons.prems by (auto simp: p1_def priorities_Cons due_def finite_priorities)
      moreover have "p1 \<le> prio" by (simp add: p1_def)
      moreover have "due sunset sunrise ev i \<Longrightarrow> SortOrder ?e \<le> 100 \<Longrightarrow> SortOrder ?e \<noteq> 0 \<Longrightarrow> p1 \<le> SortOrder ?e"
        using act by (auto simp: p1_def due_def)
      ultimately show "Min ?A \<in> insert p1 (priorities sunset sunrise ev is)"
        by (fastforce simp: priorities_Cons split: if_splits)
    qed
    obtain d where "scan_priority sunset sunrise (ev\<lparr>prevDD := date (UserDateTime ev)\<rparr>) p1 is =
        (ev\<lparr>prevDD := date (UserDateTime ev)\<rparr>\<lparr>prevDD := d\<rparr>, Min (insert p1 (priorities sunset sunrise ev is)),
         scan_times sunset sunrise ev is)"
      using Cons.IH[of "ev\<lparr>prevDD := date (UserDateTime ev)\<rparr>" p1] Cons.prems(1) p1 by auto
    then show ?thesis
      using act Cons.prems(3) m by (auto simp: event_time_ok[OF Cons.prems(1)] Let_def p1_def scan_times_def cong: if_cong)
  next
    case inact: False
    obtain d where "scan_priority sunset sunrise ev prio is =
        (ev\<lparr>prevDD := d\<rparr>, Min (insert prio (priorities sunset sunrise ev is)), scan_times sunset sunrise ev is)"
      using Cons.IH[OF Cons.prems] by blast
    then show ?thesis using inact by (auto simp: Let_def priorities_Cons due_def scan_times_def)
  qed
qed

section \<open>Lemmas on a turn\<close>

definition run_entry :: "date_time \<Rightarrow> sched \<Rightarrow> ev_out" where
  "run_entry u e = Execute (ScriptID e) (EventId e) (OverrideSport e) u None"

text \<open>The specification: entry i is due at the local second l.\<close>

definition due_entry :: "sun \<Rightarrow> sun \<Rightarrow> ev_state \<Rightarrow> int \<Rightarrow> nat \<Rightarrow> bool" where
  "due_entry sunset sunrise ev l i \<longleftrightarrow> (let u = epoch_to_date_time (UserDateTime ev) l; e = Schedule_table ev ! i in
     entry_active (Schedule_table ev) u (int i) \<and> bit (WeekDays e) (nat (7 - weekday_of_day (l div 86400))) \<and>
     spec_time sunset sunrise (ev\<lparr>UserDateTime := u\<rparr>) e = (hour u, minute u))"

definition due_priorities :: "sun \<Rightarrow> sun \<Rightarrow> ev_state \<Rightarrow> int \<Rightarrow> int set" where
  "due_priorities sunset sunrise ev l = {SortOrder (Schedule_table ev ! i) | i. i < table_len (Schedule_table ev) \<and>
     due_entry sunset sunrise ev l i \<and> SortOrder (Schedule_table ev ! i) \<le> 100 \<and> SortOrder (Schedule_table ev ! i) \<noteq> 0}"

lemma weekday_bit:
  assumes "1 \<le> w" "w \<le> 7"
  shows "drop_bit (nat w) 0x80 AND x \<noteq> (0 :: int) \<longleftrightarrow> bit x (nat (7 - w))"
proof -
  have "drop_bit (nat w) 0x80 = (2 :: int) ^ nat (7 - w)"
  proof -
    consider "w = 1" | "w = 2" | "w = 3" | "w = 4" | "w = 5" | "w = 6" | "w = 7" using assms by linarith
    then show ?thesis by cases (simp_all add: drop_bit_eq_div)
  qed
  then show ?thesis by (simp add: and.commute and_exp_eq_0_iff_not_bit)
qed

lemma RTC_WeekDay_spec:
  assumes "2 \<le> d" and "d < 2 ^ 31" and "0 \<le> m" and "m < TOTAL_DAY_MINUTES"
  shows "RTC_WeekDay d m = weekday_of_day d"
  using assms by (simp add: RTC_WeekDay_def weekday_of_day_def)

lemma time_matches_spec:
  assumes u: "UserDateTime ev = epoch_to_date_time dt l" and l: "2 * 86400 \<le> l" "l < 36525 * 86400"
  shows "time_matches ev e t \<longleftrightarrow> bit (WeekDays e) (nat (7 - weekday_of_day (l div 86400))) \<and>
    t = (hour (UserDateTime ev), minute (UserDateTime ev))"
proof -
  have v: "valid_date (year (UserDateTime ev)) (month (UserDateTime ev)) (date (UserDateTime ev))"
    "civil_day (year (UserDateTime ev)) (month (UserDateTime ev)) (date (UserDateTime ev)) = l div 86400"
    using epoch_to_date_valid[of l dt] l unfolding u by simp_all
  have d: "date_time_to_epoch_days (UserDateTime ev) = l div 86400"
    using date_time_to_epoch_days_civil(1)[OF v(1)] v(2) by simp
  have h: "0 \<le> hour (UserDateTime ev) \<and> hour (UserDateTime ev) < 24 \<and> 0 \<le> minute (UserDateTime ev) \<and> minute (UserDateTime ev) < 60"
    unfolding u time_of_day by simp
  have "2 \<le> l div 86400" "l div 86400 < 36525" using l by linarith+
  then have w: "RTC_WeekDay (l div 86400) (hour (UserDateTime ev) * 60 + minute (UserDateTime ev)) = weekday_of_day (l div 86400)"
    using h by (intro RTC_WeekDay_spec) (auto simp: TOTAL_DAY_MINUTES_def)
  have wd: "1 \<le> weekday_of_day (l div 86400)" "weekday_of_day (l div 86400) \<le> 7"
    using pos_mod_bound[of 7 "l div 86400 - 2"] pos_mod_sign[of 7 "l div 86400 - 2"] by (simp_all add: weekday_of_day_def)
  then show ?thesis
    unfolding time_matches_def Let_def d w weekday_bit[OF wd] by (cases t) auto
qed

lemma due_iff_entry:
  assumes "Schedule_table ev' = Schedule_table ev" "gmt_value ev' = gmt_value ev" "dst_value ev' = dst_value ev"
    and u: "UserDateTime ev' = epoch_to_date_time (UserDateTime ev) l" and l: "2 * 86400 \<le> l" "l < 36525 * 86400"
  shows "due sunset sunrise ev' i \<longleftrightarrow> due_entry sunset sunrise ev l i"
proof -
  have "sun_clock f ev' = sun_clock f (ev\<lparr>UserDateTime := UserDateTime ev'\<rparr>)" for f
    using assms by (simp add: sun_clock_def)
  then have "spec_time sunset sunrise ev' e = spec_time sunset sunrise (ev\<lparr>UserDateTime := UserDateTime ev'\<rparr>) e" for e
    by (simp add: spec_time_def)
  then show ?thesis
    unfolding due_def due_entry_def Let_def time_matches_spec[OF u l] by (auto simp: assms)
qed

lemma concat_map_if: "concat (map (\<lambda>i. if P i then [f i] else []) xs) = map f (filter P xs)"
  by (induction xs) auto

lemma scan_execute_ok:
  "startEPOC ev = 0 \<Longrightarrow> scan_execute ev prio (scan_times sunset sunrise ev [0..<table_len (Schedule_table ev)]) =
    map (\<lambda>i. run_entry (UserDateTime ev) (Schedule_table ev ! i))
      (filter (\<lambda>i. due sunset sunrise ev i \<and> SortOrder (Schedule_table ev ! i) = prio) [0..<table_len (Schedule_table ev)])"
  unfolding concat_map_if[symmetric] scan_execute_def
  by (intro arg_cong[where f = concat] map_cong refl)
    (auto simp: Let_def due_def scan_times_def run_entry_def)

definition after_sun :: "sun \<Rightarrow> sun \<Rightarrow> ev_state \<Rightarrow> ev_state" where
  "after_sun sunset sunrise ev = CalculateSunsetTime sunset (CalculateSunriseTime sunrise (ev\<lparr>executedThisMinute := True\<rparr>))"

lemma after_sun_frame [simp]:
  "Schedule_table (after_sun ss sr ev) = Schedule_table ev" "UserDateTime (after_sun ss sr ev) = UserDateTime ev"
  "gmt_value (after_sun ss sr ev) = gmt_value ev" "dst_value (after_sun ss sr ev) = dst_value ev"
  "startEPOC (after_sun ss sr ev) = startEPOC ev" "executedThisMinute (after_sun ss sr ev)"
  "sun_ok ss sr (after_sun ss sr ev)"
  by (simp_all add: after_sun_def CalculateSunsetTime_def CalculateSunriseTime_def sun_ok_def sun_clock_def)

lemma sun_refresh:
  assumes "sun_ok sunset sunrise ev"
  shows "CalculateSunsetTime sunset (CalculateSunriseTime sunrise ev) = ev"
proof -
  have "sun_clock sunset (ev\<lparr>SR_HR := a, SR_MIN := b\<rparr>) = sun_clock sunset ev" for a b by (simp add: sun_clock_def)
  moreover have "(SS_HR ev, SS_MIN ev) = sun_clock sunset ev" "(SR_HR ev, SR_MIN ev) = sun_clock sunrise ev"
    using assms by (simp_all add: sun_ok_def)
  ultimately show ?thesis unfolding CalculateSunsetTime_def CalculateSunriseTime_def by (simp add: prod_eq_iff)
qed

lemma minute_work_normal:
  assumes "startEPOC ev = 0"
  shows "\<exists>d. minute_work sunset sunrise ev = ((after_sun sunset sunrise ev)\<lparr>prevDD := d\<rparr>,
    Status (UserDateTime ev) # map (\<lambda>i. run_entry (UserDateTime ev) (Schedule_table ev ! i))
      (filter (\<lambda>i. due sunset sunrise (after_sun sunset sunrise ev) i \<and> SortOrder (Schedule_table ev ! i) =
         Min (insert 100 (priorities sunset sunrise (after_sun sunset sunrise ev) [0..<table_len (Schedule_table ev)])))
       [0..<table_len (Schedule_table ev)]))"
proof -
  let ?a = "after_sun sunset sunrise ev"
  obtain d where d: "scan_priority sunset sunrise ?a 100 [0..<table_len (Schedule_table ev)] =
      (?a\<lparr>prevDD := d\<rparr>, Min (insert 100 (priorities sunset sunrise ?a [0..<table_len (Schedule_table ev)])),
       scan_times sunset sunrise ?a [0..<table_len (Schedule_table ev)])"
    using scan_priority_ok[of sunset sunrise ?a 100] by auto
  have eq: "CalculateSunsetTime sunset (CalculateSunriseTime sunrise (ev\<lparr>executedThisMinute := True\<rparr>)) = ?a"
    by (simp add: after_sun_def)
  show ?thesis
    unfolding minute_work_def Let_def eq using d assms scan_execute_ok[of ?a _ sunset sunrise]
    by (intro exI[of _ d]) (simp add: sun_refresh)
qed

lemma turn_normal:
  assumes "startEPOC ev = 0" and "clock_ok (gmt_value ev) now"
  shows "Tasks_EventCheck_turn sunset sunrise now ev = (let
     (ev1, o1) = set_clock ev now; s = now div 1000 mod 60;
     (ev2, o3) = (if s < 6 \<and> \<not> executedThisMinute ev then minute_work sunset sunrise ev1 else (ev1, [])) in
     (if s > 5 then ev2\<lparr>executedThisMinute := False\<rparr> else ev2, o1 @ daily_actions ev1 @ o3))"
proof -
  obtain ev1 o1 where c: "set_clock ev now = (ev1, o1)" by fastforce
  have f: "startEPOC ev1 = 0" "executedThisMinute ev1 = executedThisMinute ev"
    using set_clock_frame(5,4)[of ev now] assms(1) c by simp_all
  have s: "second (UserDateTime ev1) = now div 1000 mod 60" using second_of_turn[OF assms(2)] c by simp
  obtain d outs where m: "minute_work sunset sunrise ev1 = ((after_sun sunset sunrise ev1)\<lparr>prevDD := d\<rparr>, outs)"
    using minute_work_normal[OF f(1)] by blast
  show ?thesis
    unfolding Tasks_EventCheck_turn_def using assms(1) c s f m by (auto simp: Let_def warp_step_def)
qed

lemma turn_frame:
  fixes sunset sunrise :: sun
  assumes "startEPOC ev = 0" and "clock_ok (gmt_value ev) now"
  defines "r \<equiv> fst (Tasks_EventCheck_turn sunset sunrise now ev)"
  shows "startEPOC r = 0" "gmt_value r = gmt_value ev" "Schedule_table r = Schedule_table ev"
    "executedThisMinute r \<longleftrightarrow> now div 1000 mod 60 < 6"
proof -
  obtain ev1 o1 where c: "set_clock ev now = (ev1, o1)" by fastforce
  have f: "startEPOC ev1 = 0" "gmt_value ev1 = gmt_value ev" "Schedule_table ev1 = Schedule_table ev" "executedThisMinute ev1 = executedThisMinute ev"
    using set_clock_frame[of ev now] assms(1) c by simp_all
  obtain d outs where m: "minute_work sunset sunrise ev1 = ((after_sun sunset sunrise ev1)\<lparr>prevDD := d\<rparr>, outs)"
    using minute_work_normal[OF f(1)] by blast
  have "now div 1000 mod 60 < 6 \<longleftrightarrow> \<not> 5 < now div 1000 mod 60" by linarith
  then show "startEPOC r = 0" "gmt_value r = gmt_value ev" "Schedule_table r = Schedule_table ev"
    "executedThisMinute r \<longleftrightarrow> now div 1000 mod 60 < 6"
    unfolding r_def turn_normal[OF assms(1,2)] by (auto simp: c m f Let_def)
qed

lemma no_execute_elsewhere [simp]:
  "filter is_Execute (snd (set_clock ev ms)) = []" "filter is_Execute (daily_actions ev) = []"
  "Status u \<notin> set (snd (set_clock ev ms))" "Status u \<notin> set (daily_actions ev)"
  by (auto simp: set_clock_def dst_notice_def daily_actions_def Let_def case_prod_beta)

section \<open>Properties\<close>

text \<open>C5: on a turn of the loop in the first six seconds of a minute that has not been served, with the real clock, the scripts
  sent for execution are exactly those of the entries due at that local minute (inside their date window, on a
  chosen weekday, at their fixed time or at sunset or sunrise moved by their offset) whose sort order is the
  smallest among the due entries with sort orders from 1 to 100, each once and in the order of the table.\<close>

theorem best_priority_runs:
  assumes "startEPOC ev = 0" and "\<not> executedThisMinute ev" and "clock_ok (gmt_value ev) now"
    and "2 * 86400 \<le> local_of ev now" and "now div 1000 mod 60 < 6"
  shows "filter is_Execute (snd (Tasks_EventCheck_turn sunset sunrise now ev)) =
    map (\<lambda>i. run_entry (epoch_to_date_time (UserDateTime ev) (local_of ev now)) (Schedule_table ev ! i))
      (filter (\<lambda>i. due_entry sunset sunrise ev (local_of ev now) i \<and>
         SortOrder (Schedule_table ev ! i) = Min (insert 100 (due_priorities sunset sunrise ev (local_of ev now))))
       [0..<table_len (Schedule_table ev)])"
proof -
  let ?l = "local_of ev now"
  obtain ev1 o1 where c: "set_clock ev now = (ev1, o1)" by fastforce
  have f: "startEPOC ev1 = 0" "gmt_value ev1 = gmt_value ev" "dst_value ev1 = dst_value ev" "Schedule_table ev1 = Schedule_table ev"
    using set_clock_frame[of ev now] assms(1) c by simp_all
  have o1: "filter is_Execute o1 = []" using no_execute_elsewhere(1)[of ev now] c by simp
  have u: "UserDateTime ev1 = epoch_to_date_time (UserDateTime ev) ?l" using set_clock_date[OF assms(3)] c by simp
  have l: "?l < 36525 * 86400" using local_of_bounds[OF assms(3)] by simp
  let ?a = "after_sun sunset sunrise ev1"
  have due: "due sunset sunrise ?a i \<longleftrightarrow> due_entry sunset sunrise ev ?l i" for i
    by (rule due_iff_entry) (use f u l assms(4) in simp_all)
  then have prio: "priorities sunset sunrise ?a [0..<table_len (Schedule_table ev)] = due_priorities sunset sunrise ev ?l"
    by (simp add: priorities_def due_priorities_def f)
  obtain d where m: "minute_work sunset sunrise ev1 = (?a\<lparr>prevDD := d\<rparr>,
      Status (UserDateTime ev1) # map (\<lambda>i. run_entry (UserDateTime ev1) (Schedule_table ev ! i))
        (filter (\<lambda>i. due_entry sunset sunrise ev ?l i \<and> SortOrder (Schedule_table ev ! i) =
           Min (insert 100 (due_priorities sunset sunrise ev ?l))) [0..<table_len (Schedule_table ev)]))"
    using minute_work_normal[OF f(1), of sunset sunrise] unfolding f(4) prio due by blast
  have all: "filter is_Execute (map (\<lambda>i. run_entry w (g i)) is) = map (\<lambda>i. run_entry w (g i)) is" for w g "is"
    by (induction "is") (simp_all add: run_entry_def)
  show ?thesis
    unfolding turn_normal[OF assms(1,3)] using assms(2,5) c m o1 u by (simp add: Let_def all)
qed

definition demo_ev :: ev_state where
  "demo_ev = \<lparr>Schedule_table =
      [sched_zero\<lparr>EventId := 1, ScriptID := 11, Date_Range_Type := 2, Start_month := 1, Start_day := 1, End_month := 12,
         End_day := 31, WeekDays := 0x7F, Time_type := 1, Hour := 20, Minute := 0, SortOrder := 5\<rparr>,
       sched_zero\<lparr>EventId := 2, ScriptID := 12, Date_Range_Type := 2, Start_month := 11, Start_day := 15, End_month := 2,
         End_day := 28, WeekDays := 0x7F, Time_type := 1, Hour := 20, Minute := 0, SortOrder := 2\<rparr>, sched_zero],
     gmt_value = -360, dst_value = 1, dst_apply_flag = 0, Reboot_Flag = 0, Reboot_HH = 0, Reboot_MM = 0,
     UserDateTime = date_zero, SS_HR = 0, SS_MIN = 0, SR_HR = 0, SR_MIN = 0, prevDD = 0, executedThisMinute = False,
     startEPOC = 0, endEPOC = 0\<rparr>"

definition demo_now :: int where "demo_now = 1767405602000"
definition demo_sun :: sun where "demo_sun = (\<lambda>y m d. 0)"
definition demo_local :: date_time where
  "demo_local = \<lparr>milSec = 0, second = 2, minute = 0, hour = 20, date = 2, month = 1, year = 26\<rparr>"

lemma demo_clock: "clock_ok (gmt_value demo_ev) demo_now" by code_simp
lemma demo_local_of: "local_of demo_ev demo_now = 820699202" by code_simp
lemma demo_len: "table_len (Schedule_table demo_ev) = 2" by code_simp
lemma demo_date: "epoch_to_date_time (UserDateTime demo_ev) 820699202 = demo_local" by code_simp
lemma demo_active_0: "entry_active (Schedule_table demo_ev) demo_local 0" by code_simp
lemma demo_active_1: "entry_active (Schedule_table demo_ev) demo_local 1" by code_simp
lemma demo_weekday: "bit (0x7F :: int) (nat (7 - weekday_of_day (820699202 div 86400)))" by code_simp

lemma demo_fields:
  "Time_type (Schedule_table demo_ev ! 0) = 1" "Time_type (Schedule_table demo_ev ! Suc 0) = 1"
  "WeekDays (Schedule_table demo_ev ! 0) = 0x7F" "WeekDays (Schedule_table demo_ev ! Suc 0) = 0x7F"
  "Hour (Schedule_table demo_ev ! 0) = 20" "Hour (Schedule_table demo_ev ! Suc 0) = 20"
  "Minute (Schedule_table demo_ev ! 0) = 0" "Minute (Schedule_table demo_ev ! Suc 0) = 0"
  by (simp_all add: demo_ev_def)

lemma demo_spec_time: "spec_time demo_sun demo_sun ev (Schedule_table demo_ev ! 0) = (hour demo_local, minute demo_local)"
  "spec_time demo_sun demo_sun ev (Schedule_table demo_ev ! Suc 0) = (hour demo_local, minute demo_local)"
  by (simp_all add: spec_time_def demo_fields SUNSET_def SUNRISE_def demo_local_def)

lemma demo_due: "due_entry demo_sun demo_sun demo_ev 820699202 0" "due_entry demo_sun demo_sun demo_ev 820699202 (Suc 0)"
  unfolding due_entry_def Let_def demo_date demo_fields demo_spec_time
  using demo_active_0 demo_active_1 demo_weekday by simp_all

lemma demo_sort: "SortOrder (Schedule_table demo_ev ! 0) = 5" "SortOrder (Schedule_table demo_ev ! Suc 0) = 2"
  by (simp_all add: demo_ev_def)

lemma demo_priorities: "due_priorities demo_sun demo_sun demo_ev 820699202 = {5, 2}"
proof (rule set_eqI)
  fix x
  have i: "i < 2 \<longleftrightarrow> i = 0 \<or> i = Suc 0" for i :: nat by linarith
  have "x \<in> due_priorities demo_sun demo_sun demo_ev 820699202 \<longleftrightarrow>
      (\<exists>i. x = SortOrder (Schedule_table demo_ev ! i) \<and> (i = 0 \<or> i = Suc 0) \<and> due_entry demo_sun demo_sun demo_ev 820699202 i \<and>
        SortOrder (Schedule_table demo_ev ! i) \<le> 100 \<and> SortOrder (Schedule_table demo_ev ! i) \<noteq> 0)"
    unfolding due_priorities_def demo_len i by (rule mem_Collect_eq)
  also have "\<dots> \<longleftrightarrow> x = 5 \<or> x = 2"
    unfolding ex_disj_distrib conj_disj_distribL conj_disj_distribR using demo_due demo_sort by force
  finally show "x \<in> due_priorities demo_sun demo_sun demo_ev 820699202 \<longleftrightarrow> x \<in> {5, 2}" by (simp only: insert_iff empty_iff simp_thms)
qed

theorem best_priority_runs_witness:
  "filter is_Execute (snd (Tasks_EventCheck_turn demo_sun demo_sun demo_now demo_ev)) = [Execute 12 2 0 demo_local None]"
proof -
  have h: "startEPOC demo_ev = 0" "\<not> executedThisMinute demo_ev" "(820699202 :: int) \<ge> 2 * 86400" "demo_now div 1000 mod 60 < 6"
    by (simp_all add: demo_ev_def demo_now_def)
  have r: "run_entry demo_local (Schedule_table demo_ev ! Suc 0) = Execute 12 2 0 demo_local None"
    by (simp add: demo_ev_def run_entry_def sched_zero_def)
  have "[0..<2] = [0, Suc 0]" by (simp add: upt_rec)
  then show ?thesis
    using best_priority_runs[OF h(1,2) demo_clock _ h(4), unfolded demo_local_of, OF h(3), of demo_sun demo_sun]
    by (simp add: demo_date demo_len demo_priorities demo_sort demo_due r)
qed

end
