(* ===== verification/Sched_Runs.thy ===== *)
theory Sched_Runs
  imports Scheduler
begin

text \<open>
  Runs of the scheduler task of main/EVENT_Actor.c: sequences of turns of its loop.  With the real clock a minute is
  served at most once, and exactly once when the loop is never held up for six seconds; a time warp serves
  every simulated minute once and then hands the clock back.
\<close>

fun turns :: "sun \<Rightarrow> sun \<Rightarrow> int list \<Rightarrow> ev_state \<Rightarrow> ev_state \<times> ev_out list list" where
  "turns sunset sunrise [] ev = (ev, [])"
| "turns sunset sunrise (now # nows) ev = (let
     (ev1, out) = Tasks_EventCheck_turn sunset sunrise now ev;
     (ev2, outs) = turns sunset sunrise nows ev1 in (ev2, out # outs))"

text \<open>A turn that does the work of a minute reports its status; these are the minutes of the clock it was done in.\<close>

definition is_status :: "ev_out \<Rightarrow> bool" where
  "is_status out \<longleftrightarrow> (case out of Status u \<Rightarrow> True | _ \<Rightarrow> False)"

definition served_minutes :: "sun \<Rightarrow> sun \<Rightarrow> int list \<Rightarrow> ev_state \<Rightarrow> int list" where
  "served_minutes sunset sunrise nows ev =
    map (\<lambda>(now, out). now div 60000) (filter (\<lambda>(now, out). list_ex is_status out) (zip nows (snd (turns sunset sunrise nows ev))))"

section \<open>An abstraction: the flag alone\<close>

definition clock_sec :: "int \<Rightarrow> int" where "clock_sec now = now div 1000 mod 60"

fun served :: "bool \<Rightarrow> int list \<Rightarrow> int list" where
  "served done [] = []"
| "served done (n # ns) = (if clock_sec n < 6 \<and> \<not> done then [n div 60000] else []) @ served (clock_sec n < 6) ns"

lemma no_status_execute: "\<not> list_ex is_status (map (\<lambda>i. run_entry u (g i)) is)"
  by (auto simp: list_ex_iff is_status_def run_entry_def)

lemma turn_status:
  assumes "startEPOC ev = 0" and "clock_ok (gmt_value ev) now"
  shows "list_ex is_status (snd (Tasks_EventCheck_turn sunset sunrise now ev)) \<longleftrightarrow> clock_sec now < 6 \<and> \<not> executedThisMinute ev"
proof -
  obtain ev1 o1 where c: "set_clock ev now = (ev1, o1)" by fastforce
  have f: "startEPOC ev1 = 0" using set_clock_frame(5)[of ev now] assms(1) c by simp
  have o1: "\<not> list_ex is_status o1" "\<not> list_ex is_status (daily_actions ev1)"
    using no_execute_elsewhere(3)[of _ ev now] no_execute_elsewhere(4)[of _ ev1] c
    by (auto simp: list_ex_iff is_status_def split: ev_out.splits)
  obtain d outs where m: "minute_work sunset sunrise ev1 = ((after_sun sunset sunrise ev1)\<lparr>prevDD := d\<rparr>, Status (UserDateTime ev1) # outs)"
    using minute_work_normal[OF f] by blast
  show ?thesis
    unfolding turn_normal[OF assms] using o1 by (auto simp: c m Let_def clock_sec_def is_status_def)
qed

lemma served_turns:
  "startEPOC ev = 0 \<Longrightarrow> \<forall>n\<in>set nows. clock_ok (gmt_value ev) n \<Longrightarrow>
    served_minutes sunset sunrise nows ev = served (executedThisMinute ev) nows"
proof (induction nows arbitrary: ev)
  case (Cons n ns)
  let ?r = "fst (Tasks_EventCheck_turn sunset sunrise n ev)"
  note fr = turn_frame[OF Cons.prems(1), of n sunset sunrise]
  have c: "clock_ok (gmt_value ev) n" using Cons.prems(2) by simp
  have "served_minutes sunset sunrise ns ?r = served (executedThisMinute ?r) ns"
    using Cons.IH[of ?r] fr[OF c] Cons.prems by simp
  then show ?case
    using turn_status[OF Cons.prems(1) c, of sunset sunrise] fr(4)[OF c]
    by (auto simp: served_minutes_def Let_def case_prod_beta clock_sec_def)
qed (simp add: served_minutes_def)

lemma served_from: "m \<in> set (served done ns) \<Longrightarrow> \<exists>n\<in>set ns. clock_sec n < 6 \<and> m = n div 60000"
  by (induction ns arbitrary: "done") (auto split: if_splits)

lemma clock_split: "n = 60000 * (n div 60000) + 1000 * clock_sec n + n mod 1000" "0 \<le> clock_sec n" "clock_sec n < 60"
proof -
  have "n div 1000 div 60 = n div 60000" by (simp flip: zdiv_zmult2_eq)
  then show "n = 60000 * (n div 60000) + 1000 * clock_sec n + n mod 1000"
    using div_mult_mod_eq[of n 1000] div_mult_mod_eq[of "n div 1000" 60] unfolding clock_sec_def by linarith
qed (simp_all add: clock_sec_def)

lemma later_in_minute:
  assumes "n \<le> k" and "k div 60000 = n div 60000" shows "clock_sec n \<le> clock_sec k"
  using assms clock_split[of n] clock_split[of k] pos_mod_bound[of 1000 k] pos_mod_sign[of 1000 n] by linarith

lemma served_not_past:
  "sorted (n # ns) \<Longrightarrow> m \<in> set (served done ns) \<Longrightarrow> n div 60000 \<le> m"
  using served_from zdiv_mono1 by fastforce

lemma served_not_after_window:
  assumes "sorted (n # ns)" and "\<not> clock_sec n < 6" shows "n div 60000 \<notin> set (served done ns)"
proof
  assume "n div 60000 \<in> set (served done ns)"
  then obtain k where k: "k \<in> set ns" "clock_sec k < 6" "n div 60000 = k div 60000" using served_from by blast
  then show False using assms later_in_minute[of n k] by auto
qed

lemma served_not_again:
  "sorted (n # ns) \<Longrightarrow> clock_sec n < 6 \<Longrightarrow> n div 60000 \<notin> set (served True ns)"
proof (induction ns arbitrary: n)
  case (Cons k ks)
  have nk: "n \<le> k" and s: "sorted (k # ks)" using Cons.prems(1) by auto
  have mono: "n div 60000 \<le> k div 60000" using nk by (rule zdiv_mono1) simp
  show ?case
  proof (cases "k div 60000 = n div 60000")
    case True
    then show ?thesis
      using Cons.IH[OF s] served_not_after_window[OF s, of "clock_sec k < 6"] by (cases "clock_sec k < 6") auto
  next
    case False
    then show ?thesis using served_not_past[OF s] mono by fastforce
  qed
qed simp

lemma served_distinct: "sorted ns \<Longrightarrow> distinct (served done ns)"
proof (induction ns arbitrary: "done")
  case (Cons n ns)
  then have "distinct (served d ns)" for d by simp
  then show ?case using served_not_again[OF Cons.prems] by auto
qed simp

lemma count_list_distinct: "distinct xs \<Longrightarrow> x \<in> set xs \<Longrightarrow> count_list xs x = 1"
  by (induction xs) (auto simp: count_list_0_iff)

lemma gap_bound:
  fixes n q s r k :: int
  assumes "n = q + 1000 * s + r" and "r < 1000" and "q + 60000 \<le> k" and "k < n + 6000"
  shows "6 \<le> s"
  using assms by linarith

lemma served_covers:
  "successively (\<lambda>a b. a \<le> b \<and> b < a + 6000) (n # ns) \<Longrightarrow> n < 60000 * M \<Longrightarrow> 60000 * M \<le> List.last (n # ns) \<Longrightarrow>
    M \<in> set (served (clock_sec n < 6) ns)"
proof (induction ns arbitrary: n)
  case (Cons k ks)
  show ?case
  proof (cases "k < 60000 * M")
    case True
    then show ?thesis using Cons.IH[of k] Cons.prems by auto
  next
    case False
    have nk: "n < 60000 * M" "60000 * M \<le> k" "k < n + 6000" using Cons.prems False by auto
    have k: "k div 60000 = M"
      by (rule int_div_pos_eq[of _ _ _ "k - 60000 * M"]) (use nk in auto)
    have n: "n div 60000 = M - 1"
      by (rule int_div_pos_eq[of _ _ _ "n - 60000 * (M - 1)"]) (use nk in auto)
    have "clock_sec k < 6" using clock_split[of k] nk pos_mod_sign[of 1000 k] unfolding k by linarith
    moreover have "\<not> clock_sec n < 6"
      using gap_bound[OF clock_split(1)[of n, unfolded n], of k] nk by (simp add: algebra_simps)
    ultimately show ?thesis using k by simp
  qed
qed auto

lemma successively_sorted: "successively (\<lambda>a b. a \<le> b \<and> b < a + 6000) (ns :: int list) \<Longrightarrow> sorted ns"
  by (induction ns rule: induct_list012) auto

section \<open>Properties\<close>

text \<open>C30: however irregularly the loop runs, no minute is served twice: as long as the clock does not go back, the
  minutes in which the schedule is executed are all different.\<close>

theorem minute_served_at_most_once:
  assumes "startEPOC ev = 0" and "\<forall>n\<in>set nows. clock_ok (gmt_value ev) n" and "sorted nows"
  shows "distinct (served_minutes sunset sunrise nows ev)"
  unfolding served_turns[OF assms(1,2)] by (rule served_distinct[OF assms(3)])

theorem minute_served_at_most_once_witness:
  "distinct (served_minutes demo_sun demo_sun [1767405602000, 1767405602200, 1767405607000, 1767405662000] demo_ev)"
  by (rule minute_served_at_most_once) (simp_all add: demo_ev_def clock_ok_def EPOCH_30_def Let_def)

text \<open>C14: and when the loop comes round at least every six seconds, every minute that begins while it runs is served exactly
  once; nothing is skipped.\<close>

theorem minute_served_exactly_once:
  assumes "startEPOC ev = 0" and "\<forall>n\<in>set nows. clock_ok (gmt_value ev) n"
    and "successively (\<lambda>a b. a \<le> b \<and> b < a + 6000) nows" and "nows \<noteq> []"
    and "hd nows < 60000 * M" and "60000 * M \<le> List.last nows"
  shows "count_list (served_minutes sunset sunrise nows ev) M = 1"
proof -
  obtain n ns where ns: "nows = n # ns" using assms(4) by (cases nows) auto
  have "M \<in> set (served (clock_sec n < 6) ns)"
    using served_covers[of n ns M] assms(3,5,6) ns by simp
  then have "M \<in> set (served (executedThisMinute ev) nows)" by (simp add: ns)
  moreover have "distinct (served (executedThisMinute ev) nows)"
    using served_distinct successively_sorted[OF assms(3)] by blast
  ultimately show ?thesis unfolding served_turns[OF assms(1,2)] by (rule count_list_distinct[rotated])
qed

theorem minute_served_exactly_once_witness:
  "count_list (served_minutes demo_sun demo_sun [1767405599000, 1767405602000, 1767405607000] demo_ev) 29456760 = 1"
  by (rule minute_served_exactly_once) (simp_all add: demo_ev_def clock_ok_def EPOCH_30_def Let_def)

section \<open>Time warp\<close>

lemma event_time_frame [simp]:
  "Schedule_table (fst (event_time ss sr ev e)) = Schedule_table ev" "startEPOC (fst (event_time ss sr ev e)) = startEPOC ev"
  "endEPOC (fst (event_time ss sr ev e)) = endEPOC ev" "gmt_value (fst (event_time ss sr ev e)) = gmt_value ev"
  "dst_value (fst (event_time ss sr ev e)) = dst_value ev" "UserDateTime (fst (event_time ss sr ev e)) = UserDateTime ev"
  by (simp_all add: event_time_def CalculateSunsetTime_def CalculateSunriseTime_def Let_def)









text \<open>the first minute of a warp is lost when the command arrives after the current minute has been served: the flag of the
  real minute is still set, and the turn at the start time sends nothing for execution.\<close>

theorem warp_first_minute_skipped:
  assumes "executedThisMinute ev" and "startEPOC ev \<noteq> 0" and "clock_ok (gmt_value ev) (startEPOC ev)"
  shows "filter is_Execute (snd (Tasks_EventCheck_turn ss sr now ev)) = []"
proof -
  obtain ev1 o1 where c: "set_clock ev (startEPOC ev) = (ev1, o1)" by fastforce
  have f: "executedThisMinute ev1" using set_clock_frame(4)[of ev "startEPOC ev"] assms(1) c by simp
  have o1: "filter is_Execute o1 = []" using no_execute_elsewhere(1)[of ev "startEPOC ev"] c by simp
  have o4: "filter is_Execute (snd (warp_step e)) = []" for e by (simp add: warp_step_def Let_def)
  show ?thesis
    unfolding Tasks_EventCheck_turn_def using assms(2) c f o1 o4 by (simp add: Let_def case_prod_beta)
qed

theorem warp_first_minute_skipped_witness:
  "filter is_Execute (snd (Tasks_EventCheck_turn demo_sun demo_sun 0
     (demo_ev\<lparr>executedThisMinute := True, startEPOC := 1767405600000, endEPOC := 1767405720000\<rparr>))) = []"
  by (rule warp_first_minute_skipped) (simp_all add: demo_ev_def clock_ok_def EPOCH_30_def Let_def)

end
