(* ===== verification/Rtc.thy ===== *)
theory Rtc
  imports Calendar
begin

text \<open>
  The clock chip (main/rtc/pcf8563.c), the stable read of it (main/NTP_Actor.c) and the clock the other actors ask
  for, get_current_rtc_time_ms (main/console_actor.c).  The chip is reached over I2C: what is written are
  the bytes of its registers, what is read is a list of bytes or a failure.  The library functions mktime and gmtime_r are
  the Gregorian calendar in UTC, by the day count of theory Calendar.
\<close>

unbundle bit_operations_syntax

section \<open>The code: pcf8563.c\<close>

record tm =
  tm_sec :: int
  tm_min :: int
  tm_hour :: int
  tm_mday :: int
  tm_wday :: int
  tm_mon :: int
  tm_year :: int

definition bcd2dec :: "u8 \<Rightarrow> u8" where
  "bcd2dec val = drop_bit 4 val * 10 + (val AND 0x0F)"

definition dec2bcd :: "u8 \<Rightarrow> u8" where
  "dec2bcd val = push_bit 4 (val div 10) + val mod 10"

definition pcf8563_set_time :: "tm \<Rightarrow> bytes" where
  "pcf8563_set_time t = map (\<lambda>v. dec2bcd (word_of_int v))
     [tm_sec t, tm_min t, tm_hour t, tm_mday t, tm_wday t, tm_mon t + 1, tm_year t - 2000]"

definition pcf8563_get_time :: "bytes option \<Rightarrow> tm option" where
  "pcf8563_get_time reg = (case reg of None \<Rightarrow> None | Some data \<Rightarrow> Some
     \<lparr>tm_sec = uint (bcd2dec (data ! 0 AND 0x7F)), tm_min = uint (bcd2dec (data ! 1 AND 0x7F)),
      tm_hour = uint (bcd2dec (data ! 2 AND 0x3F)), tm_mday = uint (bcd2dec (data ! 3 AND 0x3F)),
      tm_wday = uint (bcd2dec (data ! 4 AND 0x07)), tm_mon = uint (bcd2dec (data ! 5 AND 0x1F)) - 1,
      tm_year = uint (bcd2dec (data ! 6)) + 2000\<rparr>)"

definition pcf8563_set_time_ms :: "tm \<Rightarrow> u8 \<Rightarrow> bytes" where
  "pcf8563_set_time_ms t time_ms = dec2bcd time_ms # map (\<lambda>v. dec2bcd (word_of_int v))
     [tm_sec t, tm_min t, tm_hour t, tm_mday t, tm_wday t, tm_mon t + 1, tm_year t - 2000]"

definition pcf8563_get_time_ms :: "bytes option \<Rightarrow> (tm \<times> u8) option" where
  "pcf8563_get_time_ms reg = (case reg of None \<Rightarrow> None | Some data \<Rightarrow> Some
     (\<lparr>tm_sec = uint (bcd2dec (data ! 1 AND 0x7F)), tm_min = uint (bcd2dec (data ! 2 AND 0x7F)),
      tm_hour = uint (bcd2dec (data ! 3 AND 0x3F)), tm_mday = uint (bcd2dec (data ! 4 AND 0x3F)),
      tm_wday = uint (bcd2dec (data ! 5 AND 0x07)), tm_mon = uint (bcd2dec (data ! 6 AND 0x1F)) - 1,
      tm_year = uint (bcd2dec (data ! 7)) + 2000\<rparr>, bcd2dec (data ! 0)))"

section \<open>The code: NTP_Actor.c and console_actor.c\<close>

text \<open>The library's mktime on the fields the chip gives, with the year counted from 1900 and the zone UTC, and gmtime_r.\<close>

definition mktime :: "tm \<Rightarrow> int" where
  "mktime t = (civil_day (tm_year t - 100) (tm_mon t + 1) (tm_mday t) + 10957) * 86400
     + tm_hour t * 3600 + tm_min t * 60 + tm_sec t"

definition gmtime :: "int \<Rightarrow> tm" where
  "gmtime s = (let d = epoch_to_date_time \<lparr>milSec = 0, second = 0, minute = 0, hour = 0, date = 0, month = 0, year = 0\<rparr> (s - EPOCH_30) in
     \<lparr>tm_sec = second d, tm_min = minute d, tm_hour = hour d, tm_mday = date d, tm_wday = (s div 86400 + 4) mod 7,
      tm_mon = month d - 1, tm_year = year d + 100\<rparr>)"

definition read_rtc_epoch_ms :: "bytes option \<Rightarrow> int option" where
  "read_rtc_epoch_ms reg = (case pcf8563_get_time_ms reg of None \<Rightarrow> None
     | Some (t, centi) \<Rightarrow> Some (mktime (t\<lparr>tm_year := tm_year t - 1900\<rparr>) * 1000 + uint centi * 10))"

text \<open>The reads that follow one another are given by their number.  The loop compares at most ten with the one before.\<close>

fun stable_loop :: "(nat \<Rightarrow> bytes option) \<Rightarrow> nat \<Rightarrow> nat \<Rightarrow> int \<Rightarrow> int option" where
  "stable_loop regs k 0 t_prev = None"
| "stable_loop regs k (Suc n) t_prev = (case read_rtc_epoch_ms (regs k) of None \<Rightarrow> None
     | Some t_cur \<Rightarrow> if t_cur \<ge> t_prev \<and> t_cur - t_prev < 1 then Some t_cur else stable_loop regs (Suc k) n t_cur)"

definition get_stable_rtc_time_ms :: "(nat \<Rightarrow> bytes option) \<Rightarrow> int option" where
  "get_stable_rtc_time_ms regs = (case read_rtc_epoch_ms (regs 0) of None \<Rightarrow> None
     | Some t_prev \<Rightarrow> stable_loop regs 1 10 t_prev)"

record ref_clock =
  ref_sec :: int
  ref_usec :: int
  ref_timer_us :: int

text \<open>The seed: from the chip on a board that has it, otherwise from the system clock; the chip's reading is not checked
  for a failure there; the time then depends on uninitialised memory and is the parameter junk.\<close>

definition get_current_rtc_time_ms :: "int \<times> int \<Rightarrow> bool \<Rightarrow> bool \<Rightarrow> bytes option \<Rightarrow> int \<times> int \<Rightarrow> int \<Rightarrow> ref_clock \<Rightarrow> int \<times> ref_clock" where
  "get_current_rtc_time_ms junk setval Hardware_RevH reg tv timer_us c =
    (if setval then
       (let (s, u) = (if Hardware_RevH then
            (case pcf8563_get_time_ms reg of
               Some (t, centisec) \<Rightarrow> (mktime (t\<lparr>tm_year := tm_year t - 1900\<rparr>), uint centisec * 10000)
             | None \<Rightarrow> junk)
          else tv) in
        (s * 1000 + u div 1000, \<lparr>ref_sec = s, ref_usec = u, ref_timer_us = timer_us\<rparr>))
     else
       (let delta_us = (timer_us - ref_timer_us c) mod 2 ^ 64;
            s = ref_sec c + delta_us div 1000000; u = ref_usec c + delta_us mod 1000000;
            (s1, u1) = (if u \<ge> 1000000 then (s + 1, u - 1000000) else (s, u)) in
        (s1 * 1000 + u1 div 1000, c)))"

section \<open>Lemmas\<close>

lemma unat_dec2bcd: "x < 100 \<Longrightarrow> unat (dec2bcd (word_of_nat x)) = 16 * (x div 10) + x mod 10"
proof -
  assume x: "x < 100"
  have u: "unat (word_of_nat x :: u8) = x" using x by (intro unat_of_nat_small) simp
  have "unat (push_bit 4 (word_of_nat x div 10 :: u8)) = 16 * (x div 10)"
    using x by (simp add: push_bit_eq_mult unat_mult_lem unat_div u unat_word_ariths)
  moreover have "unat (word_of_nat x mod 10 :: u8) = x mod 10" by (simp add: unat_mod u)
  moreover have "16 * (x div 10) + x mod 10 < 256" using x by linarith
  ultimately show ?thesis unfolding dec2bcd_def by (simp add: unat_add_no_wrap)
qed

lemma uint_bcd2dec: "uint (bcd2dec v) = int ((unat v div 16 * 10 + unat v mod 16) mod 256)"
proof -
  have "v AND 0x0F = take_bit 4 v" using take_bit_eq_mask[of 4 v] by (simp add: mask_eq_exp_minus_1)
  then have "unat (v AND 0x0F) = unat v mod 16" by (simp add: take_bit_eq_mod unat_mod)
  then have "unat (bcd2dec v) = (unat v div 16 * 10 + unat v mod 16) mod 256"
    unfolding bcd2dec_def unat_word_ariths by (simp add: unat_drop_bit_eq drop_bit_eq_div unat_div mod_simps)
  then show ?thesis by (simp add: uint_nat)
qed

lemma bcd_masked:
  assumes "x < 100"
  shows "uint (bcd2dec (dec2bcd (word_of_nat x))) = int x"
    and "x < 60 \<Longrightarrow> dec2bcd (word_of_nat x) AND 0x7F = dec2bcd (word_of_nat x)"
    and "x < 40 \<Longrightarrow> dec2bcd (word_of_nat x) AND 0x3F = dec2bcd (word_of_nat x)"
    and "x < 20 \<Longrightarrow> dec2bcd (word_of_nat x) AND 0x1F = dec2bcd (word_of_nat x)"
    and "x < 8 \<Longrightarrow> dec2bcd (word_of_nat x) AND 0x07 = dec2bcd (word_of_nat x)"
proof -
  note d = unat_dec2bcd[OF assms]
  have "x mod 10 < 16" using mod_less_divisor[of 10 x] by linarith
  then have "unat (dec2bcd (word_of_nat x)) div 16 = x div 10" "unat (dec2bcd (word_of_nat x)) mod 16 = x mod 10"
    unfolding d by simp_all
  then show "uint (bcd2dec (dec2bcd (word_of_nat x))) = int x" unfolding uint_bcd2dec using assms by simp
  have q: "x div 10 * 10 \<le> x" by simp
  have dd: "unat (dec2bcd (word_of_nat x)) = x + 6 * (x div 10)" unfolding d by simp
  have mask: "v AND mask k = v" if "unat v < 2 ^ k" for v :: u8 and k
    using that by (subst mask_eq_iff) (metis of_nat_less_iff of_nat_numeral of_nat_power uint_nat)
  have m: "(0x7F :: u8) = mask 7" "(0x3F :: u8) = mask 6" "(0x1F :: u8) = mask 5" "(0x07 :: u8) = mask 3"
    by (simp_all add: mask_eq_exp_minus_1)
  show "x < 60 \<Longrightarrow> dec2bcd (word_of_nat x) AND 0x7F = dec2bcd (word_of_nat x)"
    unfolding m by (rule mask, unfold dd, use q in simp)
  show "x < 40 \<Longrightarrow> dec2bcd (word_of_nat x) AND 0x3F = dec2bcd (word_of_nat x)"
    unfolding m by (rule mask, unfold dd, use q in simp)
  show "x < 20 \<Longrightarrow> dec2bcd (word_of_nat x) AND 0x1F = dec2bcd (word_of_nat x)"
    unfolding m by (rule mask, unfold dd, use q in simp)
  show "x < 8 \<Longrightarrow> dec2bcd (word_of_nat x) AND 0x07 = dec2bcd (word_of_nat x)"
    unfolding m by (rule mask, unfold dd, use q in simp)
qed

text \<open>The fields as the chip can hold them.\<close>

definition tm_ok :: "tm \<Rightarrow> bool" where
  "tm_ok t \<longleftrightarrow> 0 \<le> tm_sec t \<and> tm_sec t < 60 \<and> 0 \<le> tm_min t \<and> tm_min t < 60 \<and> 0 \<le> tm_hour t \<and> tm_hour t < 24 \<and>
     1 \<le> tm_mday t \<and> tm_mday t \<le> 31 \<and> 0 \<le> tm_wday t \<and> tm_wday t < 7 \<and> 0 \<le> tm_mon t \<and> tm_mon t < 12 \<and>
     2000 \<le> tm_year t \<and> tm_year t < 2100"

lemma bcd_int:
  assumes "0 \<le> v" and "v < 100"
  shows "uint (bcd2dec (dec2bcd (word_of_int v))) = v"
    and "v < 60 \<Longrightarrow> dec2bcd (word_of_int v) AND 0x7F = dec2bcd (word_of_int v)"
    and "v < 40 \<Longrightarrow> dec2bcd (word_of_int v) AND 0x3F = dec2bcd (word_of_int v)"
    and "v < 20 \<Longrightarrow> dec2bcd (word_of_int v) AND 0x1F = dec2bcd (word_of_int v)"
    and "v < 8 \<Longrightarrow> dec2bcd (word_of_int v) AND 0x07 = dec2bcd (word_of_int v)"
proof -
  have w: "(word_of_int v :: u8) = word_of_nat (nat v)" using assms(1) by simp
  note b = bcd_masked[of "nat v"]
  show "uint (bcd2dec (dec2bcd (word_of_int v))) = v"
    and "v < 60 \<Longrightarrow> dec2bcd (word_of_int v) AND 0x7F = dec2bcd (word_of_int v)"
    and "v < 40 \<Longrightarrow> dec2bcd (word_of_int v) AND 0x3F = dec2bcd (word_of_int v)"
    and "v < 20 \<Longrightarrow> dec2bcd (word_of_int v) AND 0x1F = dec2bcd (word_of_int v)"
    and "v < 8 \<Longrightarrow> dec2bcd (word_of_int v) AND 0x07 = dec2bcd (word_of_int v)"
    unfolding w using b assms by simp_all
qed

lemma chip_roundtrip:
  assumes "tm_ok t" and "uint cs < 100"
  shows "pcf8563_get_time_ms (Some (pcf8563_set_time_ms t cs)) = Some (t, cs)"
    and "pcf8563_get_time (Some (pcf8563_set_time t)) = Some t"
proof -
  have c: "bcd2dec (dec2bcd cs) = cs"
    using bcd_int(1)[of "uint cs"] assms(2) by (simp add: word_uint_eq_iff)
  show "pcf8563_get_time_ms (Some (pcf8563_set_time_ms t cs)) = Some (t, cs)"
    using assms(1) by (simp add: pcf8563_get_time_ms_def pcf8563_set_time_ms_def tm_ok_def bcd_int c del: of_int_add of_int_diff)
  show "pcf8563_get_time (Some (pcf8563_set_time t)) = Some t"
    using assms(1) by (simp add: pcf8563_get_time_def pcf8563_set_time_def tm_ok_def bcd_int del: of_int_add of_int_diff)
qed

lemma gmtime_mktime:
  assumes "EPOCH_30 \<le> s" and "s < EPOCH_30 + 36525 * 86400"
  shows "mktime (gmtime s) = s" and "tm_ok ((gmtime s)\<lparr>tm_year := tm_year (gmtime s) + 1900\<rparr>)"
proof -
  define t where "t = s - EPOCH_30"
  define d where "d = epoch_to_date_time \<lparr>milSec = 0, second = 0, minute = 0, hour = 0, date = 0, month = 0, year = 0\<rparr> t"
  have t: "0 \<le> t" "t < 36525 * 86400" using assms by (auto simp: t_def)
  note v = epoch_to_date_valid[OF t, of "\<lparr>milSec = 0, second = 0, minute = 0, hour = 0, date = 0, month = 0, year = 0\<rparr>",
    folded d_def]
  have "t div 60 div 60 div 24 = t div 86400" by (simp flip: zdiv_zmult2_eq)
  then have h: "hour d * 3600 + minute d * 60 + second d = t mod 86400"
    unfolding d_def time_of_day
    using div_mult_mod_eq[of t 60] div_mult_mod_eq[of "t div 60" 60] div_mult_mod_eq[of "t div 60 div 60" 24]
      div_mult_mod_eq[of t 86400] by linarith
  have g: "gmtime s = \<lparr>tm_sec = second d, tm_min = minute d, tm_hour = hour d, tm_mday = date d, tm_wday = (s div 86400 + 4) mod 7,
      tm_mon = month d - 1, tm_year = year d + 100\<rparr>"
    by (simp add: gmtime_def Let_def d_def t_def)
  have "mktime (gmtime s) = (civil_day (year d) (month d) (date d) + 10957) * 86400 + (hour d * 3600 + minute d * 60 + second d)"
    unfolding g mktime_def by simp
  also have "\<dots> = (t div 86400 + 10957) * 86400 + t mod 86400" unfolding v(2) h ..
  also have "\<dots> = s" using div_mult_mod_eq[of t 86400] by (simp add: t_def EPOCH_30_def)
  finally show "mktime (gmtime s) = s" .
  have m: "1 \<le> nat (month d)" "nat (month d) \<le> 12" using v(1) by (auto simp: valid_date_def)
  have "month_length (2000 + year d) (nat (month d)) \<le> 31" by (rule month_cases[OF m]) (simp_all add: month_length_def)
  then show "tm_ok ((gmtime s)\<lparr>tm_year := tm_year (gmtime s) + 1900\<rparr>)"
    using v(1) unfolding g tm_ok_def d_def[symmetric] by (auto simp: valid_date_def) (simp_all add: d_def time_of_day)
qed

section \<open>Properties\<close>

text \<open>what the firmware writes to the clock chip it reads back: for every second of the years 2000 to 2099 and every
  hundredth, the fields of gmtime_r packed in BCD and unpacked with the register masks give, through mktime, the same instant in
  milliseconds.\<close>

theorem clock_chip_roundtrip:
  assumes "EPOCH_30 \<le> s" and "s < EPOCH_30 + 36525 * 86400" and "uint cs < 100"
  shows "read_rtc_epoch_ms (Some (pcf8563_set_time_ms ((gmtime s)\<lparr>tm_year := tm_year (gmtime s) + 1900\<rparr>) cs)) =
    Some (s * 1000 + uint cs * 10)"
  using chip_roundtrip(1)[OF gmtime_mktime(2)[OF assms(1,2)] assms(3)] gmtime_mktime(1)[OF assms(1,2)]
  by (simp add: read_rtc_epoch_ms_def)

theorem clock_chip_roundtrip_witness:
  "read_rtc_epoch_ms (Some (pcf8563_set_time_ms ((gmtime 1709251199)\<lparr>tm_year := tm_year (gmtime 1709251199) + 1900\<rparr>) 99)) =
    Some 1709251199990"
  using clock_chip_roundtrip[of 1709251199 99] by (simp add: EPOCH_30_def)

text \<open>the millisecond clock is exact: when it has been seeded with a time of s seconds and u microseconds at tick T, every
  later call at tick T' gives the seed advanced by T' - T microseconds, rounded down to a millisecond, and the clock never
  runs backwards.\<close>

theorem current_time_exact:
  assumes "c = snd (get_current_rtc_time_ms junk True False reg (s, u) T c0)" and "0 \<le> u" and "u < 1000000"
    and "0 \<le> T" and "T \<le> T1" and "T1 \<le> T2" and "T2 < 2 ^ 64"
  shows "fst (get_current_rtc_time_ms junk False b reg1 tv1 T1 c) = (s * 1000000 + u + (T1 - T)) div 1000 \<and>
    fst (get_current_rtc_time_ms junk False b reg1 tv1 T1 c) \<le> fst (get_current_rtc_time_ms junk False b reg2 tv2 T2 c)"
proof -
  have c: "c = \<lparr>ref_sec = s, ref_usec = u, ref_timer_us = T\<rparr>" using assms(1) by (simp add: get_current_rtc_time_ms_def)
  have e: "fst (get_current_rtc_time_ms junk False b reg' tv' X c) = (s * 1000000 + u + (X - T)) div 1000"
    if "T \<le> X" "X < 2 ^ 64" for X reg' tv'
  proof -
    define q r where "q = (X - T) div 1000000" and "r = (X - T) mod 1000000"
    have d: "X - T = q * 1000000 + r" by (simp add: q_def r_def)
    have w: "(X - T) mod 2 ^ 64 = X - T" using that assms(4) by (intro mod_pos_pos_trivial) auto
    have k: "(s * 1000000 + u + (X - T)) div 1000 = (s + q) * 1000 + (u + r) div 1000" for s
    proof -
      have "s * 1000000 + u + (X - T) = (u + r) + ((s + q) * 1000) * 1000" unfolding d by (simp add: algebra_simps)
      then show ?thesis by (simp only: div_mult_self1)
    qed
    have carry: "(u + r) div 1000 = 1000 + (u + r - 1000000) div 1000"
      using div_mult_self1[of 1000 "u + r - 1000000" 1000] by simp
    have "fst (get_current_rtc_time_ms junk False b reg' tv' X c) =
        (if u + r \<ge> 1000000 then (s + q + 1) * 1000 + (u + r - 1000000) div 1000 else (s + q) * 1000 + (u + r) div 1000)"
      unfolding c get_current_rtc_time_ms_def Let_def ref_clock.simps w q_def[symmetric] r_def[symmetric] if_False
      by (simp only: prod.case fst_conv if_distrib[of fst] split: if_splits) simp
    then show ?thesis unfolding k using carry by (cases "u + r \<ge> 1000000") (simp_all only: if_True if_False ring_distribs)
  qed
  show ?thesis
    using e[of T1 reg1 tv1] e[of T2 reg2 tv2] assms(5-7) zdiv_mono1[of "s * 1000000 + u + (T1 - T)" "s * 1000000 + u + (T2 - T)" 1000] by simp
qed

theorem current_time_exact_witness:
  "fst (get_current_rtc_time_ms (0, 0) False False None (0, 0) 1700000
     (snd (get_current_rtc_time_ms (0, 0) True False None (1767405602, 999000) 500000
        \<lparr>ref_sec = 0, ref_usec = 0, ref_timer_us = 0\<rparr>))) = 1767405604199"
  using current_time_exact[OF refl, where u = 999000 and T = 500000 and ?T1.0 = 1700000 and ?T2.0 = 1700000
      and junk = "(0, 0)" and reg = None and s = 1767405602] by simp

end
