(* ===== verification/Ntp.thy ===== *)
theory Ntp
  imports Rtc "HOL-Library.Signed_Division" "HOL-Library.Multiset"
begin

text \<open>
  Network time (main/NTP_Actor.c): decoding of a server's reply, the filters on the samples, the median of the round-trip
  times, the choice of a sample, the adjustment of the clock and one cycle of the synchronisation task.  Times are microseconds as
  integers; they stay far inside 64 bits, and division is C's truncating one.  The network is a
  parameter: the outcome of each exchange.
\<close>

section \<open>Constants and state\<close>

definition NTP_QUERY_COUNT :: nat where "NTP_QUERY_COUNT = 8"
definition INITIAL_POLL_INTERVAL_S :: int where "INITIAL_POLL_INTERVAL_S = 20"
definition INITIAL_SYNC_CYCLES :: int where "INITIAL_SYNC_CYCLES = 4"
definition OFFSET_OUTLIER_THRESHOLD :: int where "OFFSET_OUTLIER_THRESHOLD = 300000"
definition MAX_RTT_MS :: int where "MAX_RTT_MS = 5"
definition OFFSET_HISTORY_SIZE :: nat where "OFFSET_HISTORY_SIZE = 8"
definition ABSOLUTE_OFFSET_THRESHOLD_US :: int where "ABSOLUTE_OFFSET_THRESHOLD_US = 500 * 1000"
definition WARMUP_CYCLES :: int where "WARMUP_CYCLES = 3"
definition WARMUP_ABSOLUTE_CAP_US :: int where "WARMUP_ABSOLUTE_CAP_US = 5000000"
definition WARMUP_RTT_THRESHOLD_US :: int where "WARMUP_RTT_THRESHOLD_US = 200 * 1000"
definition NTP_TIMESTAMP_DELTA :: int where "NTP_TIMESTAMP_DELTA = 2208988800"

record ntp_sample =
  offset_us :: int
  rtt_us :: int
  valid :: bool

record ntp_state =
  last_offset_us :: int
  avg_drift_us_per_s :: int
  sync_cycle_count :: int
  offset_history :: "int list"
  offset_history_idx :: nat
  offset_history_count :: nat

definition sample_zero :: ntp_sample where
  "sample_zero = \<lparr>offset_us = 0, rtt_us = 0, valid = False\<rparr>"

section \<open>Median by insertion sort\<close>

text \<open>The inner loop: j + 1 is the argument, the place the key would go; greater values move up.\<close>

fun sift :: "int list \<Rightarrow> int \<Rightarrow> nat \<Rightarrow> int list" where
  "sift vs key 0 = vs[0 := key]"
| "sift vs key (Suc j) = (if vs ! j > key then sift (vs[Suc j := vs ! j]) key j else vs[Suc j := key])"

definition insertion_sort :: "int list \<Rightarrow> int list" where
  "insertion_sort vs = fold (\<lambda>i ws. sift ws (ws ! i) i) [1..<length vs] vs"

text \<open>Twice the median, an integer; the double computed by the code is exactly half of it (the values are below 2^23, so that
  the sum, its half and the conversion to float are exact).\<close>

definition calculate_median_rtt2 :: "ntp_sample list \<Rightarrow> int" where
  "calculate_median_rtt2 samples = (let vs = insertion_sort (map rtt_us (filter valid samples)); n = length vs in
     if n = 0 then 0 else if n mod 2 = 0 then vs ! (n div 2 - 1) + vs ! (n div 2) else 2 * vs ! (n div 2))"

section \<open>Offset history and validity\<close>

definition calculate_mean_offset :: "ntp_state \<Rightarrow> int" where
  "calculate_mean_offset st = (if offset_history_count st = 0 then 0
     else sum_list (take (offset_history_count st) (offset_history st)) sdiv int (offset_history_count st))"

definition update_offset_history :: "int \<Rightarrow> ntp_state \<Rightarrow> ntp_state" where
  "update_offset_history off st = st\<lparr>
     offset_history := (offset_history st)[offset_history_idx st := off],
     offset_history_idx := (offset_history_idx st + 1) mod OFFSET_HISTORY_SIZE,
     offset_history_count := (if offset_history_count st < OFFSET_HISTORY_SIZE then offset_history_count st + 1
       else offset_history_count st)\<rparr>"

definition is_offset_valid :: "ntp_state \<Rightarrow> int \<Rightarrow> bool" where
  "is_offset_valid st off = (
     if sync_cycle_count st < WARMUP_CYCLES then \<not> \<bar>off\<bar> > WARMUP_ABSOLUTE_CAP_US
     else if sync_cycle_count st < INITIAL_SYNC_CYCLES then \<not> \<bar>off\<bar> > ABSOLUTE_OFFSET_THRESHOLD_US
     else if offset_history_count st < OFFSET_HISTORY_SIZE then True
     else \<bar>off - calculate_mean_offset st\<bar> \<le> OFFSET_OUTLIER_THRESHOLD)"

section \<open>Exchanges, samples and their choice\<close>

text \<open>The end of ntp_raw_sample: the server's transmit time from the two words of the reply, round-trip time and offset.
  The seconds are reduced in 32 bits.\<close>

definition ntp_decode :: "int \<Rightarrow> int \<Rightarrow> u32 \<Rightarrow> u32 \<Rightarrow> int \<times> int" where
  "ntp_decode t1_us t4_us tx_secs tx_frac = (let
     server_secs = uint (tx_secs - word_of_int NTP_TIMESTAMP_DELTA);
     server_frac_us = uint (ucast (drop_bit 32 ((ucast tx_frac :: u64) * 1000000)) :: u32);
     t3_us = server_secs * 1000000 + server_frac_us in
     (t3_us - ((t1_us + t4_us) sdiv 2), t4_us - t1_us))"

text \<open>The outcome of an exchange is offset and round-trip time, or a failure.\<close>

fun collect_ntp_samples :: "ntp_state \<Rightarrow> (int \<times> int) option list \<Rightarrow> ntp_state \<times> ntp_sample list" where
  "collect_ntp_samples st [] = (st, [])"
| "collect_ntp_samples st (r # rs) = (let (st1, s) = (case r of None \<Rightarrow> (st, sample_zero)
     | Some (offs, rtt) \<Rightarrow>
         if sync_cycle_count st < WARMUP_CYCLES \<and> rtt > WARMUP_RTT_THRESHOLD_US then (st, sample_zero)
         else if rtt < 0 \<or> rtt > MAX_RTT_MS * 1000000 then (st, sample_zero)
         else if \<not> is_offset_valid st offs then (st, sample_zero)
         else (update_offset_history offs st, \<lparr>offset_us = offs, rtt_us = rtt, valid = True\<rparr>));
     (st2, ss) = collect_ntp_samples st1 rs in (st2, s # ss))"

text \<open>The scan for the smallest round-trip time not above the cut-off 1.2 * median: for integers that is 5 * rtt \<le> 6 * median.
  (The double nearest to 1.2 is smaller by less than half a unit in the last place of the product, and the product
  otherwise differs from an integer by at least a tenth, so the comparison in doubles is exact.)\<close>

fun scan_best :: "int \<Rightarrow> ntp_sample list \<Rightarrow> ntp_sample option \<Rightarrow> ntp_sample option" where
  "scan_best median2 [] best = best"
| "scan_best median2 (s # ss) best =
    (if \<not> valid s \<or> 10 * rtt_us s > 6 * median2 then scan_best median2 ss best
     else if (case best of None \<Rightarrow> rtt_us s < 2 ^ 63 - 1 | Some b \<Rightarrow> rtt_us s < rtt_us b) then scan_best median2 ss (Some s)
     else scan_best median2 ss best)"

definition select_best_sample :: "ntp_sample list \<Rightarrow> (int \<times> int) option" where
  "select_best_sample samples = map_option (\<lambda>s. (offset_us s, rtt_us s))
     (scan_best (calculate_median_rtt2 samples) samples None)"

section \<open>A cycle of the task\<close>

text \<open>The new system time: seconds and microseconds moved by the offset and normalised.\<close>

definition adjust_time :: "int \<times> int \<Rightarrow> int \<Rightarrow> int \<times> int" where
  "adjust_time tv off = (let s = fst tv + off sdiv 1000000; u = snd tv + off smod 1000000 in
     if u \<ge> 1000000 then (s + 1, u - 1000000) else if u < 0 then (s - 1, u + 1000000) else (s, u))"

definition epoch_to_wday_plain :: "int \<Rightarrow> int" where
  "epoch_to_wday_plain epoch = (let days = epoch sdiv 86400; wday = (days + 4) smod 7 in if wday < 0 then wday + 7 else wday)"

text \<open>What a cycle does to the outside: it sets the system clock, writes the chip when there is one, and waits.\<close>

datatype ntp_out = SetTime "int \<times> int" | WriteRtc bytes | SeedClock | Report bool | Wait int

definition mirror_time :: "bool \<Rightarrow> int \<times> int \<Rightarrow> ntp_out list" where
  "mirror_time Hardware_RevH tv = (let
     t = (gmtime (fst tv))\<lparr>tm_year := tm_year (gmtime (fst tv)) + 1900, tm_wday := epoch_to_wday_plain (fst tv)\<rparr>;
     cs = snd tv sdiv 10000 mod 256;
     (t', cs') = (if cs \<ge> 100 then ((gmtime (fst tv + 1))\<lparr>tm_year := tm_year (gmtime (fst tv + 1)) + 1900\<rparr>, 0) else (t, cs)) in
     (if Hardware_RevH then [WriteRtc (pcf8563_set_time_ms t' (word_of_int cs'))] else []))"

definition update_drift :: "int \<Rightarrow> int \<Rightarrow> ntp_state \<Rightarrow> ntp_state" where
  "update_drift off poll st = (let
     st1 = (if last_offset_us st \<noteq> 0 then
       (let drift = off - last_offset_us st;
            avg = (avg_drift_us_per_s st * 3 + drift sdiv poll) sdiv 4 in
        st\<lparr>avg_drift_us_per_s := avg, sync_cycle_count := (if \<bar>avg\<bar> > 5000 then 0 else sync_cycle_count st)\<rparr>)
       else st) in
     st1\<lparr>last_offset_us := off\<rparr>)"

definition NTP_Sync_Check :: "bool \<Rightarrow> int \<Rightarrow> int \<times> int \<Rightarrow> (int \<times> int) option list \<Rightarrow> ntp_state \<Rightarrow> ntp_state \<times> ntp_out list" where
  "NTP_Sync_Check Hardware_RevH sync_interval tv exchanges st = (let
     poll = (if sync_cycle_count st < INITIAL_SYNC_CYCLES then INITIAL_POLL_INTERVAL_S else sync_interval);
     (st1, samples) = collect_ntp_samples st exchanges;
     (st2, outs, poll2) = (case select_best_sample samples of
        Some (off, rtt) \<Rightarrow>
          if is_offset_valid st1 off then
            (let new_tv = adjust_time tv off in
             (update_drift off poll st1, SetTime new_tv # mirror_time Hardware_RevH new_tv @ [SeedClock, Report True], poll))
          else (st1, [Report False], 20)
      | None \<Rightarrow> (st1, [Report False], 20)) in
     (st2\<lparr>sync_cycle_count := sync_cycle_count st2 + 1\<rparr>, outs @ [Wait poll2]))"

definition reset_time_buffers :: "ntp_state \<Rightarrow> ntp_state" where
  "reset_time_buffers st = \<lparr>last_offset_us = 0, avg_drift_us_per_s = 0, sync_cycle_count = 0,
     offset_history = replicate OFFSET_HISTORY_SIZE 0, offset_history_idx = 0, offset_history_count = 0\<rparr>"

section \<open>The sort and the median\<close>

lemma length_sift [simp]: "length (sift vs key j) = length vs"
  by (induction vs key j rule: sift.induct) auto

text \<open>Inserting into a sorted front: what is moved and what stays.\<close>

lemma sift_insert:
  "j < length vs \<Longrightarrow> sorted (take j vs) \<Longrightarrow>
    sorted (take (Suc j) (sift vs key j)) \<and> mset (take (Suc j) (sift vs key j)) = add_mset key (mset (take j vs)) \<and>
    drop (Suc j) (sift vs key j) = drop (Suc j) vs"
proof (induction vs key j rule: sift.induct)
  case (1 vs key)
  then show ?case by (cases vs) auto
next
  case (2 vs key j)
  have tj: "take (Suc j) vs = take j vs @ [vs ! j]" using 2(2) by (simp add: take_Suc_conv_app_nth)
  have le: "\<forall>x\<in>set (take j vs). x \<le> vs ! j" and srt: "sorted (take j vs)"
    using 2(3) unfolding tj by (auto simp: sorted_append)
  show ?case
  proof (cases "vs ! j > key")
    case True
    let ?vs = "vs[Suc j := vs ! j]" and ?r = "sift (vs[Suc j := vs ! j]) key j"
    have IH: "sorted (take (Suc j) ?r)" "mset (take (Suc j) ?r) = add_mset key (mset (take j vs))" "drop (Suc j) ?r = drop (Suc j) ?vs"
      using 2(1)[OF True] 2(2) srt by simp_all
    have len: "Suc j < length ?r" using 2(2) by simp
    have "drop (Suc j) ?r = vs ! j # drop (Suc (Suc j)) vs"
      using IH(3) 2(2) by (simp add: Cons_nth_drop_Suc[symmetric] drop_update_cancel)
    then have nth: "?r ! Suc j = vs ! j" and dr: "drop (Suc (Suc j)) ?r = drop (Suc (Suc j)) vs"
      using Cons_nth_drop_Suc[OF len] by (metis list.inject)+
    have tk: "take (Suc (Suc j)) ?r = take (Suc j) ?r @ [vs ! j]"
      using len nth by (simp add: take_Suc_conv_app_nth[of "Suc j"])
    have "set (take (Suc j) ?r) = insert key (set (take j vs))"
      using IH(2) by (metis set_mset_add_mset_insert set_mset_mset)
    then have "\<forall>x\<in>set (take (Suc j) ?r). x \<le> vs ! j" using le True by auto
    then show ?thesis using True dr IH(1,2) tk tj by (simp add: sorted_append)
  next
    case False
    have tk: "take (Suc (Suc j)) (vs[Suc j := key]) = take j vs @ [vs ! j, key]"
      using 2(2) tj by (simp add: take_Suc_conv_app_nth[of "Suc j"])
    have "\<forall>x\<in>set (take j vs). x \<le> key" using le False by fastforce
    then show ?thesis using False srt le tk tj by (simp add: sorted_append)
  qed
qed

lemma insertion_sort_prefix:
  assumes "n \<le> length vs" and "0 < length vs"
  defines "w \<equiv> (\<lambda>n. fold (\<lambda>i ws. sift ws (ws ! i) i) [1..<n] vs)"
  shows "length (w n) = length vs \<and> sorted (take n (w n)) \<and> mset (take n (w n)) = mset (take n vs) \<and> drop n (w n) = drop n vs"
  using assms(1)
proof (induction n)
  case 0
  then show ?case by (simp add: w_def)
next
  case (Suc n)
  show ?case
  proof (cases "n = 0")
    case True
    then show ?thesis using assms(2) by (cases vs) (simp_all add: w_def)
  next
    case False
    have IH: "length (w n) = length vs" "sorted (take n (w n))" "mset (take n (w n)) = mset (take n vs)" "drop n (w n) = drop n vs"
      using Suc by simp_all
    have n: "n < length (w n)" "n < length vs" using Suc.prems IH(1) by simp_all
    have key: "w n ! n = vs ! n" and dr: "drop (Suc n) (w n) = drop (Suc n) vs"
      using IH(4) Cons_nth_drop_Suc[OF n(1)] Cons_nth_drop_Suc[OF n(2)] by (metis list.inject)+
    have step: "w (Suc n) = sift (w n) (w n ! n) n" using False by (simp add: w_def)
    note si = sift_insert[OF n(1) IH(2), of "w n ! n"]
    have "mset (take (Suc n) vs) = add_mset (vs ! n) (mset (take n vs))" using n(2) by (simp add: take_Suc_conv_app_nth)
    then show ?thesis unfolding step using si IH(1,3) dr key by simp
  qed
qed

lemma insertion_sort_sort: "insertion_sort vs = sort vs"
proof (cases "vs = []")
  case False
  then have "sorted (insertion_sort vs)" "mset (insertion_sort vs) = mset vs"
    using insertion_sort_prefix[of "length vs" vs] unfolding insertion_sort_def by auto
  then show ?thesis by (metis properties_for_sort)
qed (simp add: insertion_sort_def)

section \<open>The choice of a sample\<close>

definition usable :: "ntp_sample \<Rightarrow> bool" where
  "usable s \<longleftrightarrow> 0 \<le> rtt_us s \<and> rtt_us s \<le> MAX_RTT_MS * 1000000"

lemma sorted_median_ge:
  fixes vs :: "int list"
  assumes "vs \<noteq> []" and "sorted vs"
  shows "2 * hd vs \<le> (if length vs mod 2 = 0 then vs ! (length vs div 2 - 1) + vs ! (length vs div 2) else 2 * vs ! (length vs div 2))"
proof -
  have hd: "hd vs \<le> vs ! i" if "i < length vs" for i
    using sorted_nth_mono[OF assms(2), of 0 i] that assms(1) by (simp add: hd_conv_nth)
  have "length vs div 2 < length vs" "length vs div 2 - 1 < length vs" using assms(1) by (cases vs; simp)+
  then show ?thesis using hd[of "length vs div 2"] hd[of "length vs div 2 - 1"] by auto
qed

lemma median_ge_min:
  assumes "s \<in> set samples" and "valid s" and "\<forall>x\<in>set samples. valid x \<longrightarrow> rtt_us s \<le> rtt_us x"
  shows "2 * rtt_us s \<le> calculate_median_rtt2 samples"
proof -
  define vs where "vs = sort (map rtt_us (filter valid samples))"
  have sv: "set vs = rtt_us ` {x \<in> set samples. valid x}" by (auto simp: vs_def)
  then have ne: "vs \<noteq> []" using assms(1,2) by (metis (mono_tags) emptyE image_eqI list.set(1) mem_Collect_eq)
  have "hd vs \<in> set vs" using ne by simp
  then obtain x where "x \<in> set samples" "valid x" "hd vs = rtt_us x" unfolding sv by blast
  then have "rtt_us s \<le> hd vs" using assms(3) by simp
  moreover have srt: "sorted vs" by (simp add: vs_def)
  moreover have "length vs \<noteq> 0" using ne by simp
  ultimately show ?thesis
    using sorted_median_ge[OF ne srt] unfolding calculate_median_rtt2_def insertion_sort_sort vs_def[symmetric] Let_def
    by simp
qed

definition in_cutoff :: "int \<Rightarrow> ntp_sample \<Rightarrow> bool" where
  "in_cutoff m2 s \<longleftrightarrow> valid s \<and> \<not> 10 * rtt_us s > 6 * m2"

lemma scan_best_some:
  "\<exists>r. scan_best m2 ss (Some b) = Some r \<and> (r = b \<or> r \<in> set ss \<and> in_cutoff m2 r) \<and>
     rtt_us r \<le> rtt_us b \<and> (\<forall>x\<in>set ss. in_cutoff m2 x \<longrightarrow> rtt_us r \<le> rtt_us x)"
proof (induction ss arbitrary: b)
  case (Cons s ss)
  show ?case
  proof (cases "in_cutoff m2 s \<and> rtt_us s < rtt_us b")
    case True
    then show ?thesis using Cons.IH[of s] by (auto simp: in_cutoff_def)
  next
    case False
    then have "scan_best m2 (s # ss) (Some b) = scan_best m2 ss (Some b)" by (auto simp: in_cutoff_def)
    then show ?thesis using Cons.IH[of b] False by fastforce
  qed
qed simp

lemma scan_best_none:
  assumes "\<forall>x\<in>set ss. in_cutoff m2 x \<longrightarrow> rtt_us x < 2 ^ 63 - 1"
  shows "(\<forall>x\<in>set ss. \<not> in_cutoff m2 x) \<and> scan_best m2 ss None = None \<or>
    (\<exists>r\<in>set ss. in_cutoff m2 r \<and> scan_best m2 ss None = Some r \<and> (\<forall>x\<in>set ss. in_cutoff m2 x \<longrightarrow> rtt_us r \<le> rtt_us x))"
  using assms
proof (induction ss)
  case (Cons s ss)
  show ?case
  proof (cases "in_cutoff m2 s")
    case True
    then have "scan_best m2 (s # ss) None = scan_best m2 ss (Some s)" using Cons.prems by (simp add: in_cutoff_def)
    then show ?thesis using scan_best_some[of m2 ss s] True by auto
  next
    case False
    then have "scan_best m2 (s # ss) None = scan_best m2 ss None" by (auto simp: in_cutoff_def)
    then show ?thesis using Cons.IH Cons.prems False by auto
  qed
qed simp

lemma ex_least_rtt:
  assumes "\<exists>s\<in>set ss. valid s"
  shows "\<exists>s\<in>set ss. valid s \<and> (\<forall>x\<in>set ss. valid x \<longrightarrow> rtt_us s \<le> rtt_us x)"
proof -
  let ?R = "rtt_us ` {x \<in> set ss. valid x}"
  have "finite ?R" "?R \<noteq> {}" using assms by auto
  then have "Min ?R \<in> ?R" "\<forall>r\<in>?R. Min ?R \<le> r" by simp_all
  then show ?thesis by fastforce
qed

lemma select_best_minimal:
  assumes "\<forall>s\<in>set samples. valid s \<longrightarrow> usable s"
  shows "(select_best_sample samples = None \<longleftrightarrow> (\<forall>s\<in>set samples. \<not> valid s)) \<and>
    (\<forall>off rtt. select_best_sample samples = Some (off, rtt) \<longrightarrow>
      (\<exists>s\<in>set samples. valid s \<and> offset_us s = off \<and> rtt_us s = rtt \<and> (\<forall>x\<in>set samples. valid x \<longrightarrow> rtt \<le> rtt_us x)))"
proof -
  define m2 where "m2 = calculate_median_rtt2 samples"
  have small: "\<forall>x\<in>set samples. in_cutoff m2 x \<longrightarrow> rtt_us x < 2 ^ 63 - 1"
    using assms by (auto simp: in_cutoff_def usable_def MAX_RTT_MS_def)
  have min_in: "in_cutoff m2 s" if "s \<in> set samples" "valid s" "\<forall>x\<in>set samples. valid x \<longrightarrow> rtt_us s \<le> rtt_us x" for s
    using median_ge_min[OF that] that assms by (auto simp: in_cutoff_def m2_def usable_def)
  show ?thesis
  proof (cases "\<exists>s\<in>set samples. valid s")
    case True
    then obtain s where s: "s \<in> set samples" "valid s" "\<forall>x\<in>set samples. valid x \<longrightarrow> rtt_us s \<le> rtt_us x"
      using ex_least_rtt[of samples] by blast
    then obtain r where r: "r \<in> set samples" "in_cutoff m2 r" "scan_best m2 samples None = Some r"
        "\<forall>x\<in>set samples. in_cutoff m2 x \<longrightarrow> rtt_us r \<le> rtt_us x"
      using scan_best_none[OF small] min_in[OF s] by blast
    have "rtt_us r \<le> rtt_us s" using r(4) s(1) min_in[OF s] by blast
    then have "\<forall>x\<in>set samples. valid x \<longrightarrow> rtt_us r \<le> rtt_us x" using s(3) by fastforce
    then show ?thesis using r True unfolding select_best_sample_def m2_def[symmetric] by (auto simp: in_cutoff_def)
  next
    case False
    then show ?thesis
      using scan_best_none[OF small] unfolding select_best_sample_def m2_def[symmetric] by (auto simp: in_cutoff_def)
  qed
qed

section \<open>The history\<close>

lemma rotate_step:
  assumes "i < length h"
  shows "rotate (Suc i) (h[i := x]) = tl (rotate i h) @ [x]"
proof -
  have "rotate i (h[i := x]) = x # drop (Suc i) h @ take i h"
    using assms by (simp add: rotate_drop_take upd_conv_take_nth_drop)
  moreover have "rotate i h = h ! i # drop (Suc i) h @ take i h"
    using assms by (simp add: rotate_drop_take Cons_nth_drop_Suc[symmetric])
  ultimately show ?thesis by simp
qed

definition history_of :: "int list \<Rightarrow> ntp_state \<Rightarrow> bool" where
  "history_of xs st \<longleftrightarrow> length (offset_history st) = 8 \<and> offset_history_idx st = length xs mod 8 \<and>
     offset_history_count st = min 8 (length xs) \<and>
     (if length xs < 8 then take (length xs) (offset_history st) = xs
      else rotate (length xs mod 8) (offset_history st) = drop (length xs - 8) xs)"

lemma history_step:
  assumes "history_of xs st"
  shows "history_of (xs @ [x]) (update_offset_history x st)"
proof -
  let ?h = "offset_history st" and ?n = "length xs" and ?i = "length xs mod 8"
  have h: "length ?h = 8" "offset_history_idx st = ?i" "offset_history_count st = min 8 ?n" using assms by (auto simp: history_of_def)
  have new: "offset_history (update_offset_history x st) = ?h[?i := x]" by (simp add: update_offset_history_def h)
  consider (few) "Suc ?n < 8" | (full) "Suc ?n = 8" | (more) "8 \<le> ?n" by linarith
  then have "if length (xs @ [x]) < 8 then take (length (xs @ [x])) (?h[?i := x]) = xs @ [x]
      else rotate (length (xs @ [x]) mod 8) (?h[?i := x]) = drop (length (xs @ [x]) - 8) (xs @ [x])"
  proof cases
    case few
    then have "take ?n ?h = xs" using assms by (simp add: history_of_def)
    then show ?thesis using few h(1) by (simp add: take_Suc_conv_app_nth)
  next
    case full
    then have "take ?n ?h = xs" using assms by (simp add: history_of_def)
    moreover have "?h[?i := x] = take 7 ?h @ [x]" using full h(1) by (simp add: upd_conv_take_nth_drop)
    ultimately show ?thesis using full by simp
  next
    case more
    then have r: "rotate ?i ?h = drop (?n - 8) xs" using assms by (simp add: history_of_def)
    have "rotate (Suc ?n mod 8) (?h[?i := x]) = rotate (Suc ?i) (?h[?i := x])"
      using h(1) by (metis length_list_update mod_Suc_eq rotate_conv_mod)
    also have "\<dots> = tl (drop (?n - 8) xs) @ [x]" using rotate_step[of ?i ?h x] h(1) r by simp
    also have "tl (drop (?n - 8) xs) = drop (Suc ?n - 8) xs" unfolding Suc_diff_le[OF more] by (simp only: drop_Suc tl_drop)
    finally show ?thesis using more by simp
  qed
  moreover have "offset_history_idx (update_offset_history x st) = length (xs @ [x]) mod 8"
    by (simp add: update_offset_history_def h OFFSET_HISTORY_SIZE_def mod_Suc_eq)
  moreover have "offset_history_count (update_offset_history x st) = min 8 (length (xs @ [x]))"
    by (simp add: update_offset_history_def h OFFSET_HISTORY_SIZE_def)
  ultimately show ?thesis unfolding history_of_def new using h(1) by (simp only: length_list_update simp_thms)
qed

lemma history_mean:
  assumes "history_of xs st"
  shows "calculate_mean_offset st = (if xs = [] then 0
    else sum_list (drop (length xs - min 8 (length xs)) xs) sdiv int (min 8 (length xs)))"
proof (cases "length xs < 8")
  case True
  then show ?thesis using assms by (auto simp: history_of_def calculate_mean_offset_def)
next
  case False
  have "sum_list (rotate k l) = sum_list l" for k and l :: "int list"
    by (simp add: rotate_drop_take) (metis add.commute append_take_drop_id sum_list_append)
  then have "sum_list (offset_history st) = sum_list (drop (length xs - 8) xs)"
    using assms False unfolding history_of_def by metis
  then show ?thesis using assms False by (auto simp: history_of_def calculate_mean_offset_def min_def)
qed

section \<open>The clock\<close>

lemma sdiv_smod: "a sdiv b * b + a smod b = (a :: int)"
  by (rule sdiv_mult_smod_eq)

lemma smod_bound: "\<bar>a smod (1000000 :: int)\<bar> < 1000000"
  using smod_int_range[of 1000000 a] by auto

lemma adjust_exact:
  assumes "0 \<le> snd tv" and "snd tv < 1000000"
  shows "fst (adjust_time tv off) * 1000000 + snd (adjust_time tv off) = fst tv * 1000000 + snd tv + off \<and>
    0 \<le> snd (adjust_time tv off) \<and> snd (adjust_time tv off) < 1000000"
proof -
  define s u where "s = off sdiv 1000000" and "u = off smod 1000000"
  have "off = s * 1000000 + u" "- 1000000 < u" "u < 1000000"
    using sdiv_smod[of off 1000000] smod_bound[of off] by (simp_all add: s_def u_def)
  then show ?thesis
    unfolding adjust_time_def Let_def s_def[symmetric] u_def[symmetric] using assms by auto
qed

lemma wday_plain:
  assumes "0 \<le> s" shows "epoch_to_wday_plain s = (s div 86400 + 4) mod 7"
proof -
  have "s sdiv 86400 = s div 86400" using assms by (simp add: signed_divide_int_def sgn_if)
  moreover have "(s div 86400 + 4) smod 7 = (s div 86400 + 4) mod 7"
    using assms by (intro smod_mod_positive) (simp_all add: pos_imp_zdiv_nonneg_iff add_nonneg_nonneg)
  ultimately show ?thesis by (simp add: epoch_to_wday_plain_def Let_def)
qed

text \<open>Before 1970 the function is off: the division truncates towards zero before the days are counted.\<close>

lemma wday_plain_wrong: "epoch_to_wday_plain (-1) = 4 \<and> (-1 div 86400 + 4) mod 7 = (3 :: int)"
  by (simp add: epoch_to_wday_plain_def signed_divide_int_def signed_modulo_int_def Let_def sgn_if)

lemma mirror_reads_back:
  assumes s: "EPOCH_30 \<le> fst tv" "fst tv < EPOCH_30 + 36525 * 86400" and u: "0 \<le> snd tv" "snd tv < 1000000"
  shows "\<exists>bytes. mirror_time True tv = [WriteRtc bytes] \<and>
    read_rtc_epoch_ms (Some bytes) = Some (fst tv * 1000 + snd tv div 10000 * 10)"
proof -
  define cs where "cs = snd tv div 10000"
  have cs: "0 \<le> cs" "cs < 100" using u by (auto simp: cs_def)
  have sd: "snd tv sdiv 10000 mod 256 = cs" using u cs by (simp add: cs_def signed_divide_int_def sgn_if)
  define t where "t = (gmtime (fst tv))\<lparr>tm_year := tm_year (gmtime (fst tv)) + 1900\<rparr>"
  have "epoch_to_wday_plain (fst tv) = tm_wday (gmtime (fst tv))"
    using wday_plain[of "fst tv"] s(1) by (simp add: gmtime_def Let_def EPOCH_30_def)
  then have w: "(gmtime (fst tv))\<lparr>tm_year := tm_year (gmtime (fst tv)) + 1900, tm_wday := epoch_to_wday_plain (fst tv)\<rparr> = t"
    by (simp add: t_def)
  have uc: "uint (word_of_int cs :: u8) = cs" using cs by (simp add: uint_word_of_int)
  have "read_rtc_epoch_ms (Some (pcf8563_set_time_ms t (word_of_int cs))) = Some (fst tv * 1000 + cs * 10)"
    using chip_roundtrip(1)[OF gmtime_mktime(2)[OF s, folded t_def], of "word_of_int cs"] gmtime_mktime(1)[OF s] cs uc
    by (simp add: read_rtc_epoch_ms_def t_def)
  moreover have "mirror_time True tv = [WriteRtc (pcf8563_set_time_ms t (word_of_int cs))]"
    unfolding mirror_time_def Let_def w sd using cs(2) by simp
  ultimately show ?thesis by (simp add: cs_def)
qed

lemma collect_usable: "s \<in> set (snd (collect_ntp_samples st rs)) \<Longrightarrow> valid s \<Longrightarrow> usable s \<and> Some (offset_us s, rtt_us s) \<in> set rs"
proof (induction rs arbitrary: st)
  case (Cons r rs)
  have conclude: ?case if f: "collect_ntp_samples st (r # rs) = (let (st2, ss) = collect_ntp_samples st1 rs in (st2, s1 # ss))"
      and s1: "valid s1 \<Longrightarrow> usable s1 \<and> r = Some (offset_us s1, rtt_us s1)" for st1 s1
  proof -
    have "s = s1 \<or> s \<in> set (snd (collect_ntp_samples st1 rs))" using Cons.prems(1) f by (auto simp: Let_def case_prod_beta)
    then show ?case using Cons.IH[of st1] Cons.prems(2) s1 by fastforce
  qed
  show ?case
  proof (cases "\<exists>off rtt. r = Some (off, rtt) \<and> \<not> (sync_cycle_count st < WARMUP_CYCLES \<and> rtt > WARMUP_RTT_THRESHOLD_US) \<and>
      \<not> (rtt < 0 \<or> rtt > MAX_RTT_MS * 1000000) \<and> is_offset_valid st off")
    case True
    then obtain off rtt where r: "r = Some (off, rtt)" "\<not> (sync_cycle_count st < WARMUP_CYCLES \<and> rtt > WARMUP_RTT_THRESHOLD_US)"
      "\<not> (rtt < 0 \<or> rtt > MAX_RTT_MS * 1000000)" "is_offset_valid st off" by blast
    show ?thesis
      by (rule conclude[of "update_offset_history off st" "\<lparr>offset_us = off, rtt_us = rtt, valid = True\<rparr>"])
        (use r in \<open>auto simp: usable_def\<close>)
  next
    case False
    show ?thesis
    proof (rule conclude[of st sample_zero])
      show "collect_ntp_samples st (r # rs) = (let (st2, ss) = collect_ntp_samples st rs in (st2, sample_zero # ss))"
      proof (cases r)
        case (Some x)
        obtain off rtt where x: "x = (off, rtt)" by fastforce
        have "(sync_cycle_count st < WARMUP_CYCLES \<and> rtt > WARMUP_RTT_THRESHOLD_US) \<or> (rtt < 0 \<or> rtt > MAX_RTT_MS * 1000000) \<or>
            \<not> is_offset_valid st off"
          using False Some x by blast
        then show ?thesis unfolding Some x by (elim disjE; simp)
      qed simp
    qed (simp add: sample_zero_def)
  qed
qed simp

lemma uint_drop_bit_div: "uint (drop_bit n w) = uint w div 2 ^ n"
proof -
  have "uint (drop_bit n w) = int (unat w div 2 ^ n)" 
    by (simp only: uint_nat unat_drop_bit_eq) (simp add: drop_bit_eq_div)
  also have "\<dots> = uint w div 2 ^ n" by (simp only: zdiv_int of_nat_power of_nat_numeral uint_nat)
  finally show ?thesis .
qed

lemma half_round_trip:
  fixes t1 t4 t m r e off theta :: int
  assumes "off = t + theta - e - m" and "t1 + t4 = 2 * m + r" and "0 \<le> r" "r \<le> 1" and "0 \<le> e" "e \<le> 1" and "t1 \<le> t" "t \<le> t4"
  shows "2 * (off - theta) \<le> t4 - t1 + 2" and "- (2 * (off - theta)) \<le> t4 - t1 + 2"
  unfolding right_diff_distrib using assms by linarith+

lemma ntp_decode_seconds:
  assumes "0 \<le> T" and "T < 2 ^ 32 * 1000000"
    and "tx_secs = word_of_int (T div 1000000 + NTP_TIMESTAMP_DELTA)"
    and "tx_frac = word_of_int ((T mod 1000000) * 2 ^ 32 div 1000000)"
  shows "\<exists>e\<in>{0, 1}. ntp_decode t1 t4 tx_secs tx_frac = (T - e - (t1 + t4) sdiv 2, t4 - t1)"
proof -
  define S F f where "S = T div 1000000" and "F = T mod 1000000" and "f = F * 2 ^ 32 div 1000000"
  have b: "0 \<le> S" "S < 2 ^ 32" "0 \<le> F" "F < 1000000" using assms(1,2) by (auto simp: S_def F_def)
  have f: "0 \<le> f" "f < 2 ^ 32" using b by (auto simp: f_def)
  have "uint (tx_secs - word_of_int NTP_TIMESTAMP_DELTA) = S"
    using b unfolding assms(3) S_def[symmetric] by (simp add: uint_word_of_int)
  moreover have "uint (ucast (drop_bit 32 ((ucast tx_frac :: u64) * 1000000)) :: u32) = f * 1000000 div 2 ^ 32"
  proof -
    have uf: "uint tx_frac = f" unfolding assms(4) F_def[symmetric] f_def[symmetric] using f by (simp add: uint_word_of_int)
    have "uint ((ucast tx_frac :: u64) * 1000000) = f * 1000000"
      using f uf by (simp add: uint_word_arith_bintrs uint_up_ucast is_up take_bit_int_eq_self)
    then have "uint (drop_bit 32 ((ucast tx_frac :: u64) * 1000000)) = f * 1000000 div 2 ^ 32"
      by (simp only: uint_drop_bit_div)
    moreover have "f * 1000000 div 2 ^ 32 < 2 ^ 32" "0 \<le> f * 1000000 div 2 ^ 32" using f by auto
    ultimately show ?thesis by (simp add: unsigned_ucast_eq take_bit_int_eq_self)
  qed
  moreover have "F - 1 \<le> f * 1000000 div 2 ^ 32 \<and> f * 1000000 div 2 ^ 32 \<le> F"
  proof -
    have "f * 1000000 \<le> F * 2 ^ 32" "F * 2 ^ 32 - 1000000 < f * 1000000"
      unfolding f_def using div_mult_mod_eq[of "F * 2 ^ 32" 1000000] pos_mod_bound[of 1000000 "F * 2 ^ 32"]
        pos_mod_sign[of 1000000 "F * 2 ^ 32"] by linarith+
    then have "f * 1000000 \<le> F * 4294967296" "(F - 1) * 4294967296 \<le> f * 1000000" by simp_all
    then have "f * 1000000 div 4294967296 \<le> F" "F - 1 \<le> f * 1000000 div 4294967296"
      using zdiv_mono1[of "f * 1000000" "F * 4294967296" 4294967296] zdiv_mono1[of "(F - 1) * 4294967296" "f * 1000000" 4294967296]
      by simp_all
    then show ?thesis by simp
  qed
  ultimately show ?thesis
    using div_mult_mod_eq[of T 1000000] unfolding ntp_decode_def Let_def S_def[symmetric] F_def[symmetric] by auto
qed

lemma sdiv_two: "0 \<le> a \<Longrightarrow> a sdiv 2 = a div (2 :: int)"
  by (simp add: signed_divide_int_def sgn_if)

section \<open>Properties\<close>

text \<open>the offset computed from a reply is right up to half the round trip: if the server's clock is ahead by theta and it
  stamps its reply at some moment t between sending and receiving, the decoded offset differs from
  theta by at most half the round-trip time and one microsecond; this holds for every server time until 2106, across the
  wrap of the 32-bit seconds in 2036.\<close>

theorem ntp_offset_accuracy:
  assumes "0 \<le> t1" and "t1 \<le> t" and "t \<le> t4" and "0 \<le> t + theta" and "t + theta < 2 ^ 32 * 1000000"
    and "tx_secs = word_of_int ((t + theta) div 1000000 + NTP_TIMESTAMP_DELTA)"
    and "tx_frac = word_of_int (((t + theta) mod 1000000) * 2 ^ 32 div 1000000)"
    and "ntp_decode t1 t4 tx_secs tx_frac = (off, rtt)"
  shows "rtt = t4 - t1 \<and> 2 * \<bar>off - theta\<bar> \<le> rtt + 2"
proof -
  obtain e where e: "e \<in> {0, 1}" "off = t + theta - e - (t1 + t4) sdiv 2" "rtt = t4 - t1"
    using ntp_decode_seconds[OF assms(4-7), of t1 t4] assms(8) by auto
  have "(t1 + t4) sdiv 2 = (t1 + t4) div 2" using assms(1-3) by (intro sdiv_two) simp
  moreover define m r where "m = (t1 + t4) div 2" and "r = (t1 + t4) mod 2"
  then have m: "(t1 + t4) div 2 = m" "t1 + t4 = 2 * m + r" "0 \<le> r" "r \<le> 1"
    using pos_mod_bound[of 2 "t1 + t4"] by simp_all
  ultimately have "off = t + theta - e - m" using e(2) by simp
  moreover have "0 \<le> e" "e \<le> 1" using e(1) by auto
  ultimately show ?thesis
    using half_round_trip[of off t theta e m t1 t4 r] m(2-4) assms(2,3) e(3) by (simp add: abs_if)
qed

theorem ntp_offset_accuracy_witness:
  "2 * \<bar>fst (ntp_decode 1767405602000000 1767405602030000
     (word_of_int (1767405602510000 div 1000000 + NTP_TIMESTAMP_DELTA)) (word_of_int (1767405602510000 mod 1000000 * 2 ^ 32 div 1000000)))
     - 500000\<bar> \<le> 30002"
  using ntp_offset_accuracy[of 1767405602000000 1767405602010000 1767405602030000 500000, OF _ _ _ _ _ refl refl prod.collapse[symmetric]]
  by simp

text \<open>C22: a synchronisation sets the clock right: when a cycle sets the system time, the new time is exactly the old time plus the
  offset of one of the accepted samples, a sample with the smallest round trip of all accepted ones (the outlier
  filter never removes it), with microseconds in range; on a board with a clock chip the bytes written to it read
  back as the new time, rounded down to a hundredth of a second.\<close>

theorem sync_cycle_correct:
  assumes "NTP_Sync_Check True interval tv exchanges st = (st', outs)" and "SetTime new \<in> set outs"
    and "0 \<le> snd tv" and "snd tv < 1000000" and "EPOCH_30 \<le> fst new" and "fst new < EPOCH_30 + 36525 * 86400"
  shows "\<exists>off rtt bytes. Some (off, rtt) \<in> set exchanges \<and>
    (\<forall>s\<in>set (snd (collect_ntp_samples st exchanges)). valid s \<longrightarrow> rtt \<le> rtt_us s) \<and>
    fst new * 1000000 + snd new = fst tv * 1000000 + snd tv + off \<and> 0 \<le> snd new \<and> snd new < 1000000 \<and>
    WriteRtc bytes \<in> set outs \<and> read_rtc_epoch_ms (Some bytes) = Some (fst new * 1000 + snd new div 10000 * 10)"
proof -
  let ?ss = "snd (collect_ntp_samples st exchanges)"
  obtain off rtt where sel: "select_best_sample ?ss = Some (off, rtt)" and new: "new = adjust_time tv off"
    and outs: "set (mirror_time True new) \<subseteq> set outs"
    using assms(1,2) unfolding NTP_Sync_Check_def Let_def case_prod_beta
    by (auto split: option.splits if_splits simp: mirror_time_def Let_def)
  obtain s where s: "s \<in> set ?ss" "valid s" "offset_us s = off" "rtt_us s = rtt" "\<forall>x\<in>set ?ss. valid x \<longrightarrow> rtt \<le> rtt_us x"
    using select_best_minimal[of ?ss] collect_usable[of _ st exchanges] sel by blast
  have ex: "Some (off, rtt) \<in> set exchanges" using collect_usable[OF s(1,2)] s(3,4) by simp
  note adj = adjust_exact[OF assms(3,4), of off, folded new]
  obtain bytes where "mirror_time True new = [WriteRtc bytes]"
      "read_rtc_epoch_ms (Some bytes) = Some (fst new * 1000 + snd new div 10000 * 10)"
    using mirror_reads_back[OF assms(5,6)] adj by blast
  then show ?thesis using ex s(5) adj outs by (intro exI[of _ off] exI[of _ rtt] exI[of _ bytes]) simp
qed

definition ntp_start :: ntp_state where
  "ntp_start = reset_time_buffers \<lparr>last_offset_us = 0, avg_drift_us_per_s = 0, sync_cycle_count = 0, offset_history = [],
     offset_history_idx = 0, offset_history_count = 0\<rparr>"

theorem sync_cycle_correct_witness:
  "\<exists>new outs st'. NTP_Sync_Check True 600 (1767405602, 999000) [None, Some (-2500000, 40000), Some (-2400000, 30000)] ntp_start = (st', outs) \<and>
     SetTime new \<in> set outs \<and> fst new * 1000000 + snd new = 1767405602999000 - 2400000"
proof -
  obtain st' outs where c: "NTP_Sync_Check True 600 (1767405602, 999000) [None, Some (-2500000, 40000), Some (-2400000, 30000)] ntp_start = (st', outs)"
    by fastforce
  have "SetTime (1767405600, 599000) \<in> set (snd (NTP_Sync_Check True 600 (1767405602, 999000)
      [None, Some (-2500000, 40000), Some (-2400000, 30000)] ntp_start))"
    by code_simp
  then have n: "SetTime (1767405600, 599000) \<in> set outs" using c by simp
  show ?thesis
    using sync_cycle_correct[OF c n] c n by (intro exI[of _ "(1767405600, 599000)"] exI[of _ outs] exI[of _ st']) (simp add: EPOCH_30_def)
qed

text \<open>the history of offsets is a sliding window: after any run of accepted offsets from a reset, the mean the filter
  compares with is that of the last eight of them, or of all while there are fewer.\<close>

theorem history_is_window:
  "calculate_mean_offset (fold update_offset_history xs (reset_time_buffers st)) =
    (if xs = [] then 0 else sum_list (drop (length xs - min 8 (length xs)) xs) sdiv int (min 8 (length xs)))"
proof -
  have "history_of xs (fold update_offset_history xs (reset_time_buffers st))"
  proof (induction xs rule: rev_induct)
    case Nil
    show ?case by (simp add: history_of_def reset_time_buffers_def OFFSET_HISTORY_SIZE_def)
  next
    case (snoc x xs)
    then show ?case using history_step by simp
  qed
  then show ?thesis by (rule history_mean)
qed

lemma locked_out:
  assumes "offset_history_count st = 8" and "INITIAL_SYNC_CYCLES \<le> sync_cycle_count st"
    and "\<forall>off rtt. Some (off, rtt) \<in> set rs \<longrightarrow> OFFSET_OUTLIER_THRESHOLD < \<bar>off - calculate_mean_offset st\<bar>"
  shows "collect_ntp_samples st rs = (st, replicate (length rs) sample_zero)"
  using assms(3)
proof (induction rs)
  case (Cons r rs)
  have nv: "\<not> is_offset_valid st off" if "r = Some (off, rtt)" for off rtt
    using Cons.prems assms(1,2) that
    by (auto simp: is_offset_valid_def WARMUP_CYCLES_def INITIAL_SYNC_CYCLES_def OFFSET_HISTORY_SIZE_def not_le)
  have IH: "collect_ntp_samples st rs = (st, replicate (length rs) sample_zero)"
    by (rule Cons.IH) (use Cons.prems in auto)
  show ?case
  proof (cases r)
    case (Some x)
    then show ?thesis using nv[of "fst x" "snd x"] IH by (cases x) simp
  qed (simp add: IH)
qed simp

text \<open>the outlier filter can lock the clock out for good: once the history is full and the warm-up is over, if the clock is
  off by more than 300 ms from the stored mean (it was set by hand, say), no sample is ever accepted again: every later
  cycle reports a failure, changes nothing but the cycle counter, and never sets the time.\<close>

theorem filter_locks_out:
  assumes "offset_history_count st = 8" and "INITIAL_SYNC_CYCLES \<le> sync_cycle_count st"
    and "\<forall>rs\<in>set cycles. \<forall>off rtt. Some (off, rtt) \<in> set rs \<longrightarrow> OFFSET_OUTLIER_THRESHOLD < \<bar>off - calculate_mean_offset st\<bar>"
  shows "fold (\<lambda>rs s. fst (NTP_Sync_Check revH interval tv rs s)) cycles st =
      st\<lparr>sync_cycle_count := sync_cycle_count st + int (length cycles)\<rparr> \<and>
    (\<forall>rs\<in>set cycles. snd (NTP_Sync_Check revH interval tv rs st) = [Report False, Wait 20])"
proof -
  have sel: "select_best_sample (replicate n sample_zero) = None" for n
  proof -
    have "scan_best m2 (replicate n sample_zero) None = None" for m2 by (induction n) (simp_all add: sample_zero_def)
    then show ?thesis by (simp add: select_best_sample_def)
  qed
  have one: "NTP_Sync_Check revH interval tv rs s = (s\<lparr>sync_cycle_count := sync_cycle_count s + 1\<rparr>, [Report False, Wait 20])"
    if "offset_history_count s = 8" "INITIAL_SYNC_CYCLES \<le> sync_cycle_count s"
      "\<forall>off rtt. Some (off, rtt) \<in> set rs \<longrightarrow> OFFSET_OUTLIER_THRESHOLD < \<bar>off - calculate_mean_offset s\<bar>" for rs s
    using locked_out[OF that] by (simp add: NTP_Sync_Check_def Let_def sel)
  have "fold (\<lambda>rs s. fst (NTP_Sync_Check revH interval tv rs s)) cycles st =
      st\<lparr>sync_cycle_count := sync_cycle_count st + int (length cycles)\<rparr>"
    using assms
  proof (induction cycles arbitrary: st)
    case (Cons rs cycles)
    let ?s = "st\<lparr>sync_cycle_count := sync_cycle_count st + 1\<rparr>"
    have m: "calculate_mean_offset ?s = calculate_mean_offset st" by (simp add: calculate_mean_offset_def)
    have o: "NTP_Sync_Check revH interval tv rs st = (?s, [Report False, Wait 20])" using one Cons.prems by simp
    show ?case using Cons.IH[of ?s] Cons.prems o m by (simp add: algebra_simps)
  qed simp
  then show ?thesis using one assms by simp
qed

theorem filter_locks_out_witness:
  "snd (NTP_Sync_Check True 600 (1767405602, 0) [Some (-3600000000, 20000)]
     (ntp_start\<lparr>sync_cycle_count := 9, offset_history := [100, -200, 50, 20, 0, 10, 5, 7], offset_history_count := 8\<rparr>)) = [Report False, Wait 20]"
proof -
  let ?st = "ntp_start\<lparr>sync_cycle_count := 9, offset_history := [100, -200, 50, 20, 0, 10, 5, 7], offset_history_count := 8\<rparr>"
  have "calculate_mean_offset ?st = -1" by code_simp
  then show ?thesis
    using filter_locks_out[of ?st "[[Some (-3600000000, 20000)]]" True 600 "(1767405602, 0)"]
    by (simp add: INITIAL_SYNC_CYCLES_def OFFSET_OUTLIER_THRESHOLD_def)
qed

end
