(* ===== verification/Pushbutton.thy ===== *)
theory Pushbutton
  imports Prelude "HOL-Library.Signed_Division" "HOL-Library.Sublist"
begin

text \<open>
  The push buttons of the controller (main/Pushbutton_Actor.c): debouncing of the edges the interrupt handler
  queues, sorting of releases into taps and holds, collection of a sequence, its report to the console and the action it
  triggers, the hold warning and the reset by a ten second hold.  The readings of the timers are inputs: esp_timer_get_time
  in microseconds since start, get_current_rtc_time_ms in milliseconds.
\<close>

section \<open>Constants and state\<close>

datatype board = B480 | B553 | B543 | B542 | B394 | B527 | B_other

text \<open>The boards the file is compiled for with a second button, and those with the short list of actions.\<close>

fun two_buttons :: "board \<Rightarrow> bool" where
  "two_buttons B480 = True" | "two_buttons B553 = True" | "two_buttons _ = False"

fun small_board :: "board \<Rightarrow> bool" where
  "small_board B543 = True" | "small_board B542 = True" | "small_board B394 = True" | "small_board B527 = True"
| "small_board _ = False"

definition MAX_SEQUENCE_LENGTH :: nat where "MAX_SEQUENCE_LENGTH = 16"
definition TAP_SEQUENCE_TIMEOUT_MS :: int where "TAP_SEQUENCE_TIMEOUT_MS = 800"
definition HOLD_MIN_DURATION_MS :: int where "HOLD_MIN_DURATION_MS = 2000"
definition DEBOUNCE_DELAY_MS :: int where "DEBOUNCE_DELAY_MS = 50"

text \<open>What the file keeps per button: its debounced state (1 is pressed), when it was pressed (us) and its last event (ms).\<close>

record button =
  state :: int
  press_time :: int
  last_event_time :: int

record pb_st =
  last_button_release_time :: int
  pb1 :: button
  pb2 :: button
  button_sequence :: "char list"
  sequence_length :: nat
  sequence_type :: string
  hold_durations :: "int list"
  last_time_pb_pressed :: int
  Send_hold_warning :: nat
  playListTime :: nat
  pingListTime :: nat
  testLoopCmd_sent :: bool
  dimWhiteCmd_sent :: bool
  lastCmdSentTime :: nat
  isOn :: nat
  l_color_Index :: nat
  ten_second_task :: bool
  post_task :: bool
  ble_timer :: bool

definition NUL :: char where "NUL = CHR 0x00"

definition pb_init :: pb_st where
  "pb_init = \<lparr>last_button_release_time = 0, pb1 = \<lparr>state = 0, press_time = 0, last_event_time = 0\<rparr>,
     pb2 = \<lparr>state = 0, press_time = 0, last_event_time = 0\<rparr>, button_sequence = replicate MAX_SEQUENCE_LENGTH NUL,
     sequence_length = 0, sequence_type = [], hold_durations = replicate MAX_SEQUENCE_LENGTH 0,
     last_time_pb_pressed = 0, Send_hold_warning = 0, playListTime = 0, pingListTime = 0,
     testLoopCmd_sent = False, dimWhiteCmd_sent = False, lastCmdSentTime = 0, isOn = 0, l_color_Index = 0,
     ten_second_task = False, post_task = False, ble_timer = False\<rparr>"

text \<open>What the actor sends and starts.\<close>

datatype pb_out =
    Report string string "int list"        \<comment> \<open>the console event: buttons, type, durations of a hold\<close>
  | Toggle_lighting | Toggle_all_colors | Lighting_on
  | Send_cmd string string                  \<comment> \<open>destination actor, function\<close>
  | Set_param string string nat
  | Led_state string int
  | Start_ble_timer nat
  | Start_post | Start_ten_second
  | Task_delay nat
  | Restart

type_synonym pb_res = "pb_st \<times> pb_out list"

text \<open>The bytes of a char array up to the terminator, as strcmp and the JSON library read it.\<close>

definition c_string :: "char list \<Rightarrow> string" where
  "c_string buf = takeWhile (\<lambda>c. c \<noteq> NUL) buf"

section \<open>Actions\<close>

definition sendLedState :: "string \<Rightarrow> int \<Rightarrow> pb_out list" where
  "sendLedState name d = [Led_state name d]"

text \<open>The result of esp_timer_delete is an input: it fails while the timer runs.\<close>

definition start_ble_advertisement_with_timer :: "bool \<Rightarrow> pb_st \<Rightarrow> pb_res" where
  "start_ble_advertisement_with_timer delete_ok st =
    (if ble_timer st \<and> \<not> delete_ok then (st, [])
     else (st\<lparr>ble_timer := True\<rparr>,
       [Set_param ''BLE'' ''CONN_MODE'' 1, Send_cmd ''BLE'' ''ADVERT_START'', Start_ble_timer 1200000000]))"

definition stop_ble_advertisement :: "bool \<Rightarrow> pb_st \<Rightarrow> pb_res" where
  "stop_ble_advertisement delete_ok st =
    ((if delete_ok then st\<lparr>ble_timer := False\<rparr> else st), [Send_cmd ''BLE'' ''ADVERT_STOP''])"

text \<open>At most one ping per two (five) minutes, in either direction of the clock; rtc 0 and rtc 1 are its two readings.\<close>

definition ping_gap :: "board \<Rightarrow> nat" where
  "ping_gap b = (if small_board b then 120000 else 300000)"

definition send_ping :: "board \<Rightarrow> (nat \<Rightarrow> nat) \<Rightarrow> pb_st \<Rightarrow> pb_res" where
  "send_ping b rtc st = (let
     post = (if pingListTime st = 0 then True
             else if pingListTime st \<le> rtc 0 then ping_gap b \<le> rtc 0 - pingListTime st
             else ping_gap b \<le> pingListTime st - rtc 0) in
     if post then
       (st\<lparr>pingListTime := rtc 1, post_task := True\<rparr>, if post_task st then [] else [Start_post])
     else (st, []))"

text \<open>One turn of the play list task; it ends when the play list has been stopped.\<close>

definition ten_second_tsk_turn :: "(nat \<Rightarrow> nat) \<Rightarrow> pb_st \<Rightarrow> pb_res" where
  "ten_second_tsk_turn rtc st = (let
     (st1, out) = (if playListTime st \<noteq> 0 \<and> 10000 \<le> \<bar>int (rtc 0) - int (playListTime st)\<bar>
        then (st\<lparr>playListTime := rtc 1\<rparr>, [Toggle_all_colors]) else (st, [])) in
     if playListTime st1 = 0 then (st1\<lparr>ten_second_task := False\<rparr>, out) else (st1, out @ [Task_delay 2000]))"

text \<open>What the actions need from outside: successive readings of the clock and the result of deleting a timer.\<close>

record pb_env =
  rtc :: "nat \<Rightarrow> nat"
  delete_ok :: bool

definition test_mode :: "nat \<Rightarrow> pb_st \<Rightarrow> pb_res" where
  "test_mode t st = (st\<lparr>testLoopCmd_sent := True, dimWhiteCmd_sent := False, lastCmdSentTime := t, playListTime := 0\<rparr>,
     [Lighting_on])"

text \<open>The body of the loop over the holds of a sequence, on the small boards and on the others.\<close>

definition small_hold :: "pb_env \<Rightarrow> string \<Rightarrow> nat \<Rightarrow> int \<Rightarrow> pb_st \<Rightarrow> pb_res" where
  "small_hold env sq i d st =
    (if sq = ''A'' then
       if 1000 \<le> d \<and> d \<le> 3000 then test_mode (rtc env i) st
       else if 5000 < d \<and> d \<le> 8000 then start_ble_advertisement_with_timer (delete_ok env) st
       else (st, [])
     else (st, []))"

definition big_hold :: "pb_env \<Rightarrow> string \<Rightarrow> nat \<Rightarrow> int \<Rightarrow> pb_st \<Rightarrow> pb_res" where
  "big_hold env sq i d st =
    (if sq = ''AB'' \<or> sq = ''BA'' then
       if 3000 \<le> d \<and> d \<le> 10000 then (st\<lparr>playListTime := 0\<rparr>, [Restart]) else (st, [])
     else if sq = ''B'' then
       if 3000 \<le> d \<and> d \<le> 10000 then
         (st\<lparr>testLoopCmd_sent := False, dimWhiteCmd_sent := False, playListTime := rtc env i, ten_second_task := True\<rparr>,
          Toggle_all_colors # (if ten_second_task st then [] else [Start_ten_second]))
       else (st, [])
     else if sq = ''A'' then
       if 3000 \<le> d \<and> d \<le> 10000 then test_mode (rtc env i) st else (st, [])
     else (st, []))"

fun hold_loop :: "(nat \<Rightarrow> int \<Rightarrow> pb_st \<Rightarrow> pb_res) \<Rightarrow> nat \<Rightarrow> int list \<Rightarrow> pb_st \<Rightarrow> pb_res" where
  "hold_loop body i [] st = (st, [])"
| "hold_loop body i (d # ds) st =
    (let (st1, o1) = body i d st; (st2, o2) = hold_loop body (Suc i) ds st1 in (st2, o1 @ o2))"

definition small_taps :: "board \<Rightarrow> pb_env \<Rightarrow> string \<Rightarrow> pb_st \<Rightarrow> pb_res" where
  "small_taps b env sq st =
    (if sq = ''A'' then
       let (st1, o1) = send_ping b (rtc env) (st\<lparr>playListTime := 0\<rparr>) in (st1, Toggle_lighting # o1)
     else (st, []))"

definition big_taps :: "board \<Rightarrow> pb_env \<Rightarrow> string \<Rightarrow> pb_st \<Rightarrow> pb_res" where
  "big_taps b env sq st =
    (if sq = ''A'' then (st\<lparr>playListTime := 0\<rparr>, [Toggle_lighting])
     else if sq = ''B'' then (st\<lparr>playListTime := 0\<rparr>, [Toggle_all_colors])
     else if sq = ''AB'' \<or> sq = ''BA'' then send_ping b (rtc env) st
     else if sq = ''ABBBA'' then
       (st, sendLedState ''REBOOT_MODE'' (-1) @ [Task_delay 1000, Send_cmd ''FILE_SYSTEM'' ''JFS_FORMAT''])
     else if sq = ''AABA'' then (st, [Send_cmd ''FILE_SYSTEM'' ''CPY_ALLJFS_TO_SD''])
     else if sq = ''AAA'' then start_ble_advertisement_with_timer (delete_ok env) st
     else if sq = ''BBB'' then start_ble_advertisement_with_timer (delete_ok env) st
     else (st, []))"

definition execute_sequence_actions :: "board \<Rightarrow> pb_env \<Rightarrow> pb_st \<Rightarrow> pb_res" where
  "execute_sequence_actions b env st = (let
     sq = c_string (button_sequence st); holds = take (sequence_length st) (hold_durations st) in
     if sequence_type st = ''Tap'' then (if small_board b then small_taps b env sq st else big_taps b env sq st)
     else if sequence_type st = ''Hold'' then
       hold_loop (if small_board b then small_hold env sq else big_hold env sq) 0 holds st
     else (st, []))"

definition process_event_sequence :: "board \<Rightarrow> pb_env \<Rightarrow> pb_st \<Rightarrow> pb_res" where
  "process_event_sequence b env st = (let
     report = Report (c_string (button_sequence st)) (sequence_type st)
       (if sequence_type st = ''Hold'' then take (sequence_length st) (hold_durations st) else []);
     (st1, o1) = execute_sequence_actions b env st in (st1, report # o1))"

section \<open>Edges and releases\<close>

text \<open>Appending a button to the sequence when there is room for it and for the terminator.\<close>

definition add_button :: "char \<Rightarrow> string \<Rightarrow> int \<Rightarrow> pb_st \<Rightarrow> pb_st" where
  "add_button c event_type d st = (let n = sequence_length st in
     if n < MAX_SEQUENCE_LENGTH - 1 then
       st\<lparr>hold_durations := (if event_type = ''Hold'' then (hold_durations st)[n := d] else hold_durations st),
          sequence_length := Suc n,
          button_sequence := (button_sequence st)[n := c, Suc n := NUL]\<rparr>
     else st)"

definition add_release :: "board \<Rightarrow> pb_env \<Rightarrow> char \<Rightarrow> string \<Rightarrow> int \<Rightarrow> pb_st \<Rightarrow> pb_res" where
  "add_release b env c event_type d st =
    (if sequence_length st = 0 then (add_button c event_type d (st\<lparr>sequence_type := event_type\<rparr>), [])
     else if event_type = sequence_type st then (add_button c event_type d st, [])
     else let (st1, o1) = process_event_sequence b env st in
       (add_button c event_type d (st1\<lparr>sequence_length := 0, sequence_type := event_type\<rparr>), o1))"

text \<open>The debouncer of one button: an edge is ignored, begins a press or ends it after a duration in ms.\<close>

datatype edge = Ignored | Pressed button | Released button int

definition debounce :: "int \<Rightarrow> int \<Rightarrow> button \<Rightarrow> edge" where
  "debounce level now p = (let now_ms = now sdiv 1000 in
     if level = 0 \<and> state p = 0 then
       (if DEBOUNCE_DELAY_MS \<le> now_ms - last_event_time p
        then Pressed \<lparr>state = 1, press_time = now, last_event_time = now_ms\<rparr> else Ignored)
     else if level = 1 \<and> state p = 1 then
       (if DEBOUNCE_DELAY_MS \<le> now_ms - last_event_time p
        then Released (p\<lparr>state := 0, last_event_time := now_ms\<rparr>) ((now - press_time p) sdiv 1000) else Ignored)
     else Ignored)"

definition event_type :: "int \<Rightarrow> string" where
  "event_type d = (if HOLD_MIN_DURATION_MS \<le> d then ''Hold'' else ''Tap'')"

definition process_pb1_event :: "board \<Rightarrow> pb_env \<Rightarrow> int \<Rightarrow> int \<Rightarrow> pb_st \<Rightarrow> pb_res" where
  "process_pb1_event b env level now st = (case debounce level now (pb1 st) of
     Ignored \<Rightarrow> (st, [])
   | Pressed p \<Rightarrow> (st\<lparr>pb1 := p\<rparr>, [])
   | Released p d \<Rightarrow> (let (st1, o1) = add_release b env CHR ''A'' (event_type d) d st in
       (st1\<lparr>last_button_release_time := now, pb1 := p\<rparr>, o1)))"

definition process_pb2_event :: "board \<Rightarrow> pb_env \<Rightarrow> int \<Rightarrow> int \<Rightarrow> pb_st \<Rightarrow> pb_res" where
  "process_pb2_event b env level now st = (case debounce level now (pb2 st) of
     Ignored \<Rightarrow> (st, [])
   | Pressed p \<Rightarrow> (st\<lparr>pb2 := p\<rparr>, [])
   | Released p d \<Rightarrow> (let (st1, o1) = add_release b env CHR ''B'' (event_type d) d st in
       (st1\<lparr>last_button_release_time := now, pb2 := p\<rparr>, o1)))"

datatype pin = PB1 | PB2

definition handle_button_event :: "board \<Rightarrow> pb_env \<Rightarrow> pin \<Rightarrow> int \<Rightarrow> int \<Rightarrow> pb_st \<Rightarrow> pb_res" where
  "handle_button_event b env io level now st = (case io of
     PB1 \<Rightarrow> process_pb1_event b env level now st
   | PB2 \<Rightarrow> if two_buttons b then process_pb2_event b env level now st else (st, []))"

section \<open>The task\<close>

text \<open>The task gets a queued edge of a pin, or nothing for 50 ms (esp_timer_get_time is then read up to three times).\<close>

datatype pb_event = Edge pin int int | Poll int int int

definition gpio_edge :: "board \<Rightarrow> pb_env \<Rightarrow> pin \<Rightarrow> int \<Rightarrow> int \<Rightarrow> pb_st \<Rightarrow> pb_res" where
  "gpio_edge b env io level now st = (let
     st1 = (if 180 < (now - press_time (pb1 st)) sdiv 1000000 then st\<lparr>isOn := 0\<rparr> else st);
     st2 = (if two_buttons b \<and> 180 < (now - press_time (pb2 st1)) sdiv 1000000 then st1\<lparr>l_color_Index := 0\<rparr> else st1) in
     case io of
       PB1 \<Rightarrow> (let (st3, out) = handle_button_event b env PB1 level now st2 in
         (st3\<lparr>last_time_pb_pressed := press_time (pb1 st3) sdiv 1000\<rparr>, out))
     | PB2 \<Rightarrow> if two_buttons b then (let (st3, out) = handle_button_event b env PB2 level now st2 in
         (st3\<lparr>last_time_pb_pressed := press_time (pb2 st3) sdiv 1000\<rparr>, out)) else (st2, []))"

definition hold_reset :: "int \<Rightarrow> pb_st \<Rightarrow> pb_res" where
  "hold_reset t st = (if state (pb1 st) = 1 then
     (let held = t sdiv 1000 - last_time_pb_pressed st in
      if 10000 < held \<and> held \<le> 20000
      then (st\<lparr>testLoopCmd_sent := False, dimWhiteCmd_sent := False, playListTime := 0\<rparr>, [Restart]) else (st, []))
     else (st, []))"

definition hold_warning :: "board \<Rightarrow> int \<Rightarrow> pb_st \<Rightarrow> pb_res" where
  "hold_warning b t st =
    (if (state (pb1 st) = 1 \<or> two_buttons b \<and> state (pb2 st) = 1) \<and> Send_hold_warning st = 0 then
       (let held = t sdiv 1000 - last_time_pb_pressed st in
        if (if two_buttons b then 1000 < held \<and> held < 1500 else 2000 < held \<and> held < 2500)
        then (st\<lparr>Send_hold_warning := 1\<rparr>, sendLedState ''Hold Warning'' 3) else (st, []))
     else (st, []))"

definition sequence_timeout :: "board \<Rightarrow> pb_env \<Rightarrow> int \<Rightarrow> pb_st \<Rightarrow> pb_res" where
  "sequence_timeout b env t st =
    (if 0 < last_button_release_time st \<and> TAP_SEQUENCE_TIMEOUT_MS \<le> (t - last_button_release_time st) sdiv 1000 then
       (let (st1, o1) = process_event_sequence b env st in
        (st1\<lparr>sequence_length := 0, button_sequence := (button_sequence st1)[0 := NUL], sequence_type := [],
             last_button_release_time := 0, Send_hold_warning := 0\<rparr>, o1))
     else (st, []))"

definition gpio_poll :: "board \<Rightarrow> pb_env \<Rightarrow> int \<Rightarrow> int \<Rightarrow> int \<Rightarrow> pb_st \<Rightarrow> pb_res" where
  "gpio_poll b env t1 t2 t3 st = (let
     (st1, o1) = hold_reset t1 st; (st2, o2) = hold_warning b t2 st1; (st3, o3) = sequence_timeout b env t3 st2
     in (st3, o1 @ o2 @ o3))"

definition gpio_task :: "board \<Rightarrow> pb_st \<Rightarrow> pb_env \<times> pb_event \<Rightarrow> pb_res" where
  "gpio_task b st e = (case e of
     (env, Edge io level now) \<Rightarrow> gpio_edge b env io level now st
   | (env, Poll t1 t2 t3) \<Rightarrow> gpio_poll b env t1 t2 t3 st)"

section \<open>What the actions leave alone\<close>

text \<open>The part of the state that the recogniser works on, and the sequences that are reported.\<close>

definition inputs :: "pb_st \<Rightarrow> int \<times> button \<times> button \<times> char list \<times> nat \<times> string \<times> int list" where
  "inputs st = (last_button_release_time st, pb1 st, pb2 st, button_sequence st, sequence_length st,
     sequence_type st, hold_durations st)"

definition is_report :: "pb_out \<Rightarrow> bool" where
  "is_report out = (case out of Report _ _ _ \<Rightarrow> True | _ \<Rightarrow> False)"

definition quiet :: "pb_st \<Rightarrow> pb_res \<Rightarrow> bool" where
  "quiet st r \<longleftrightarrow> inputs (fst r) = inputs st \<and> filter is_report (snd r) = []"

named_theorems pb_simps \<open>the operations of the push button task\<close>

lemmas pb_quiet_defs = quiet_def inputs_def is_report_def sendLedState_def

lemma quiet_if: "quiet st r \<Longrightarrow> quiet st r' \<Longrightarrow> quiet st (if c then r else r')"
  by simp

lemma quiet_refl [intro, simp]: "quiet st (st, [])"
  by (simp add: quiet_def)

lemma quiet_start_ble [intro, simp]: "quiet st (start_ble_advertisement_with_timer ok st)"
  by (auto simp: pb_quiet_defs start_ble_advertisement_with_timer_def)

lemma quiet_stop_ble [intro, simp]: "quiet st (stop_ble_advertisement ok st)"
  by (auto simp: pb_quiet_defs stop_ble_advertisement_def)

lemma quiet_send_ping [intro, simp]: "quiet st (send_ping b r st)"
  by (auto simp: pb_quiet_defs send_ping_def Let_def)

lemma quiet_ten_second [intro, simp]: "quiet st (ten_second_tsk_turn r st)"
  by (auto simp: pb_quiet_defs ten_second_tsk_turn_def Let_def)

lemma quiet_holds [intro, simp]: "quiet st (small_hold env sq i d st)" "quiet st (big_hold env sq i d st)"
  by (auto simp: small_hold_def big_hold_def test_mode_def) (auto simp: pb_quiet_defs)

lemma quiet_hold_loop:
  "(\<And>i d st. quiet st (body i d st)) \<Longrightarrow> quiet st (hold_loop body i ds st)"
proof (induction ds arbitrary: i st)
  case (Cons d ds)
  have "quiet st (body i d st)" "quiet (fst (body i d st)) (hold_loop body (Suc i) ds (fst (body i d st)))"
    using Cons by auto
  then show ?case by (auto simp: quiet_def Let_def case_prod_beta)
qed (simp add: quiet_def)

lemma quiet_taps [intro, simp]: "quiet st (small_taps b env sq st)" "quiet st (big_taps b env sq st)"
proof -
  have "quiet (st\<lparr>playListTime := 0\<rparr>) (send_ping b (rtc env) (st\<lparr>playListTime := 0\<rparr>))" by simp
  then have "quiet st (let (st1, o1) = send_ping b (rtc env) (st\<lparr>playListTime := 0\<rparr>) in (st1, Toggle_lighting # o1))"
    by (auto simp: pb_quiet_defs Let_def case_prod_beta)
  then show "quiet st (small_taps b env sq st)" by (simp add: small_taps_def)
  show "quiet st (big_taps b env sq st)"
    unfolding big_taps_def by (intro quiet_if quiet_refl quiet_start_ble quiet_send_ping) (simp_all add: pb_quiet_defs)
qed

lemma quiet_actions: "quiet st (execute_sequence_actions b env st)"
  by (auto simp: execute_sequence_actions_def Let_def intro!: quiet_hold_loop)

lemma process_event_sequence_frame:
  "inputs (fst (process_event_sequence b env st)) = inputs st"
  "filter is_report (snd (process_event_sequence b env st)) =
    [Report (c_string (button_sequence st)) (sequence_type st)
       (if sequence_type st = ''Hold'' then take (sequence_length st) (hold_durations st) else [])]"
  using quiet_actions[of st b env]
  by (auto simp: process_event_sequence_def Let_def case_prod_beta quiet_def is_report_def)

lemma quiet_hold_reset: "quiet st (hold_reset t st)"
  by (auto simp: hold_reset_def pb_quiet_defs Let_def)

lemma quiet_hold_warning: "quiet st (hold_warning b t st)"
  by (auto simp: hold_warning_def pb_quiet_defs Let_def)

section \<open>The invariant of the recogniser\<close>

lemma sdiv_nonneg_imp: "0 < b \<Longrightarrow> 0 < a sdiv b \<Longrightarrow> 0 < (a :: int)"
  using pos_imp_zdiv_neg_iff[of b "- a"] pos_imp_zdiv_nonneg_iff[of b "- a"]
  by (cases "a < 0") (auto simp: signed_divide_int_def sgn_if split: if_splits)

text \<open>The buffer is terminated inside its bounds, holds only button letters, and every hold in it is a real one; there is a
  pending sequence exactly when there is a release to time out.\<close>

definition seq_body :: "nat \<Rightarrow> char list \<Rightarrow> string \<Rightarrow> int list \<Rightarrow> bool" where
  "seq_body n buf ty ds \<longleftrightarrow> length buf = MAX_SEQUENCE_LENGTH \<and> length ds = MAX_SEQUENCE_LENGTH \<and>
     list_all (\<lambda>c. c = CHR ''A'' \<or> c = CHR ''B'') (take n buf) \<and>
     (ty = ''Hold'' \<longrightarrow> list_all (\<lambda>d. HOLD_MIN_DURATION_MS \<le> d) (take n ds))"

definition seq_ok :: "nat \<Rightarrow> char list \<Rightarrow> string \<Rightarrow> int list \<Rightarrow> bool" where
  "seq_ok n buf ty ds \<longleftrightarrow> n < MAX_SEQUENCE_LENGTH \<and> buf ! n = NUL \<and> seq_body n buf ty ds \<and>
     (if n = 0 then ty = [] else ty = ''Tap'' \<or> ty = ''Hold'')"

definition pb_inv :: "pb_st \<Rightarrow> bool" where
  "pb_inv st \<longleftrightarrow> seq_ok (sequence_length st) (button_sequence st) (sequence_type st) (hold_durations st) \<and>
     (0 < sequence_length st \<longleftrightarrow> 0 < last_button_release_time st) \<and>
     0 \<le> last_event_time (pb1 st) \<and> 0 \<le> last_event_time (pb2 st)"

lemma pb_inv_inputs: "inputs st = inputs st' \<Longrightarrow> pb_inv st = pb_inv st'"
  by (simp add: inputs_def pb_inv_def)

lemma pb_inv_init: "pb_inv pb_init"
  by (simp add: pb_inv_def pb_init_def seq_ok_def seq_body_def MAX_SEQUENCE_LENGTH_def)

lemma c_string_seq: "seq_ok n buf ty ds \<Longrightarrow> c_string buf = take n buf"
proof -
  assume ok: "seq_ok n buf ty ds"
  then have "buf = take n buf @ NUL # drop (Suc n) buf"
    using id_take_nth_drop[of n buf] by (simp add: seq_ok_def seq_body_def)
  moreover have "\<forall>c\<in>set (take n buf). c \<noteq> NUL"
    using ok by (auto simp: seq_ok_def seq_body_def list_all_iff NUL_def)
  ultimately have "takeWhile (\<lambda>c. c \<noteq> NUL) buf = take n buf @ takeWhile (\<lambda>c. c \<noteq> NUL) (NUL # drop (Suc n) buf)"
    using takeWhile_append2[of "take n buf" "\<lambda>c. c \<noteq> NUL" "NUL # drop (Suc n) buf"] by simp
  then show ?thesis by (simp add: c_string_def)
qed

section \<open>The abstract recogniser\<close>

text \<open>
  What the actor promises, without buffers: the debounced releases are collected in a list of one kind; a release of the other
  kind or a pause of 800 ms reports the list and starts afresh.  Its state is the two debouncers, the time of the last release and
  the kind and items of the sequence.
\<close>

type_synonym item = "char \<times> int option"
type_synonym seq_view = "button \<times> button \<times> int \<times> string \<times> item list"

definition item :: "string \<Rightarrow> char \<Rightarrow> int \<Rightarrow> item" where
  "item ty c d = (c, if ty = ''Hold'' then Some d else None)"

definition items :: "string \<Rightarrow> string \<Rightarrow> int list \<Rightarrow> item list" where
  "items ty cs ds = zip cs (if ty = ''Hold'' then map Some ds else replicate (length cs) None)"

definition collect :: "string \<Rightarrow> item list \<Rightarrow> char \<Rightarrow> int \<Rightarrow> (string \<times> item list) \<times> (string \<times> item list) list" where
  "collect ty ps c d = (let ty1 = event_type d in
     if ps = [] then ((ty1, [item ty1 c d]), [])
     else if ty1 = ty then ((ty, if length ps < 15 then ps @ [item ty c d] else ps), [])
     else ((ty1, [item ty1 c d]), [(ty, ps)]))"

fun recognise :: "board \<Rightarrow> seq_view \<Rightarrow> pb_env \<times> pb_event \<Rightarrow> seq_view \<times> (string \<times> item list) list" where
  "recognise b (p1, p2, r, ty, ps) (env, Edge PB1 level now) = (case debounce level now p1 of
     Ignored \<Rightarrow> ((p1, p2, r, ty, ps), [])
   | Pressed p \<Rightarrow> ((p, p2, r, ty, ps), [])
   | Released p d \<Rightarrow> (let ((ty1, ps1), out) = collect ty ps CHR ''A'' d in ((p, p2, now, ty1, ps1), out)))"
| "recognise b (p1, p2, r, ty, ps) (env, Edge PB2 level now) =
    (if two_buttons b then (case debounce level now p2 of
       Ignored \<Rightarrow> ((p1, p2, r, ty, ps), [])
     | Pressed p \<Rightarrow> ((p1, p, r, ty, ps), [])
     | Released p d \<Rightarrow> (let ((ty1, ps1), out) = collect ty ps CHR ''B'' d in ((p1, p, now, ty1, ps1), out)))
     else ((p1, p2, r, ty, ps), []))"
| "recognise b (p1, p2, r, ty, ps) (env, Poll t1 t2 t3) =
    (if 0 < r \<and> TAP_SEQUENCE_TIMEOUT_MS \<le> (t3 - r) sdiv 1000 then ((p1, p2, 0, [], []), [(ty, ps)])
     else ((p1, p2, r, ty, ps), []))"

definition pending :: "pb_st \<Rightarrow> item list" where
  "pending st = items (sequence_type st) (take (sequence_length st) (button_sequence st)) (take (sequence_length st) (hold_durations st))"

definition seq_view :: "pb_st \<Rightarrow> seq_view" where
  "seq_view st = (pb1 st, pb2 st, last_button_release_time st, sequence_type st, pending st)"

fun report_of :: "pb_out \<Rightarrow> (string \<times> item list) list" where
  "report_of (Report cs ty ds) = [(ty, items ty cs ds)]"
| "report_of _ = []"

definition reports :: "pb_out list \<Rightarrow> (string \<times> item list) list" where
  "reports out = concat (map report_of out)"

lemma reports_simps [simp]: "reports [] = []" "reports (xs @ ys) = reports xs @ reports ys"
  by (simp_all add: reports_def)

lemma reports_filter: "reports out = concat (map report_of (filter is_report out))"
  unfolding reports_def
proof (induction out)
  case (Cons x xs)
  then show ?case by (cases x) (simp_all add: is_report_def)
qed simp

lemma quiet_reports: "quiet st r \<Longrightarrow> reports (snd r) = [] \<and> seq_view (fst r) = seq_view st \<and> inputs (fst r) = inputs st"
  by (simp add: quiet_def reports_filter inputs_def seq_view_def pending_def)

lemma length_pending: "pb_inv st \<Longrightarrow> length (pending st) = sequence_length st"
  by (simp add: pending_def items_def pb_inv_def seq_ok_def seq_body_def)

lemma add_button_seq_ok:
  assumes "seq_body n buf ty ds" "n < 15" "c = CHR ''A'' \<or> c = CHR ''B''"
    "ty = ''Tap'' \<or> ty = ''Hold''" "ty = ''Hold'' \<longrightarrow> HOLD_MIN_DURATION_MS \<le> d"
  shows "seq_ok (Suc n) (buf[n := c, Suc n := NUL]) ty (if ty = ''Hold'' then ds[n := d] else ds)"
    "items ty (take (Suc n) (buf[n := c, Suc n := NUL])) (take (Suc n) (if ty = ''Hold'' then ds[n := d] else ds)) =
      items ty (take n buf) (take n ds) @ [item ty c d]"
  using assms
  by (auto simp: seq_ok_def seq_body_def MAX_SEQUENCE_LENGTH_def take_Suc_conv_app_nth items_def item_def replicate_append_same[symmetric]
      split: if_splits)

definition seq_part :: "pb_st \<Rightarrow> bool" where
  "seq_part st = seq_ok (sequence_length st) (button_sequence st) (sequence_type st) (hold_durations st)"

lemma event_type_cases: "event_type d = ''Tap'' \<or> event_type d = ''Hold''"
  "event_type d = ''Hold'' \<Longrightarrow> HOLD_MIN_DURATION_MS \<le> d"
  by (auto simp: event_type_def split: if_splits)

lemma add_button_room:
  assumes "seq_body (sequence_length st) (button_sequence st) ty (hold_durations st)"
    "sequence_length st < 15" "c = CHR ''A'' \<or> c = CHR ''B''" "sequence_type st = ty" "ty = event_type d"
  shows "seq_part (add_button c ty d st)" "pending (add_button c ty d st) = pending st @ [item ty c d]"
    "sequence_type (add_button c ty d st) = ty" "0 < sequence_length (add_button c ty d st)"
    "pb1 (add_button c ty d st) = pb1 st" "pb2 (add_button c ty d st) = pb2 st"
proof -
  have eq: "add_button c ty d st = st\<lparr>hold_durations := (if ty = ''Hold'' then (hold_durations st)[sequence_length st := d] else hold_durations st),
      sequence_length := Suc (sequence_length st),
      button_sequence := (button_sequence st)[sequence_length st := c, Suc (sequence_length st) := NUL]\<rparr>"
    using assms(2) by (simp add: add_button_def Let_def MAX_SEQUENCE_LENGTH_def)
  note r = add_button_seq_ok[OF assms(1,2,3), of d]
  have ty: "ty = ''Tap'' \<or> ty = ''Hold''" "ty = ''Hold'' \<longrightarrow> HOLD_MIN_DURATION_MS \<le> d"
    using event_type_cases[of d] assms(5) by auto
  show "seq_part (add_button c ty d st)" using r(1)[OF ty] assms(4) by (simp add: eq seq_part_def)
  show "pending (add_button c ty d st) = pending st @ [item ty c d]"
    using r(2)[OF ty] assms(4) by (simp add: eq pending_def)
qed (use assms(2,4) in \<open>simp_all add: add_button_def Let_def MAX_SEQUENCE_LENGTH_def\<close>)

lemma add_release_sim:
  assumes ok: "seq_part st" and c: "c = CHR ''A'' \<or> c = CHR ''B''"
    and r: "add_release b env c (event_type d) d st = r"
  shows "collect (sequence_type st) (pending st) c d = ((sequence_type (fst r), pending (fst r)), reports (snd r)) \<and>
    seq_part (fst r) \<and> 0 < sequence_length (fst r) \<and> pb1 (fst r) = pb1 st \<and> pb2 (fst r) = pb2 st"
proof -
  let ?ty = "event_type d" and ?n = "sequence_length st"
  have len: "length (pending st) = ?n" "?n < 16" and body: "seq_body ?n (button_sequence st) (sequence_type st) (hold_durations st)"
    using ok by (auto simp: seq_part_def pending_def items_def seq_ok_def seq_body_def MAX_SEQUENCE_LENGTH_def)
  consider "?n = 0" | "?n \<noteq> 0" "?ty = sequence_type st" "?n < 15" | "?n \<noteq> 0" "?ty = sequence_type st" "?n = 15"
    | "?n \<noteq> 0" "?ty \<noteq> sequence_type st" using len by linarith
  then show ?thesis
  proof cases
    case 1
    let ?s = "st\<lparr>sequence_type := ?ty\<rparr>"
    have "r = (add_button c ?ty d ?s, [])" using 1 r by (simp add: add_release_def)
    moreover have "seq_body (sequence_length ?s) (button_sequence ?s) ?ty (hold_durations ?s)" "pending ?s = []" "pending st = []"
      using 1 len body by (simp_all add: pending_def items_def seq_body_def)
    ultimately show ?thesis
      using add_button_room[of ?s ?ty c d] c 1 by (simp add: collect_def Let_def)
  next
    case 2
    then have "r = (add_button c ?ty d st, [])" using r by (simp add: add_release_def)
    moreover have "seq_body ?n (button_sequence st) ?ty (hold_durations st)" using body 2(2) by simp
    note add_button_room[OF this 2(3) c 2(2)[symmetric] refl]
    moreover have "pending st \<noteq> []" using 2(1) len(1) by auto
    ultimately show ?thesis using 2 len by (simp add: collect_def Let_def)
  next
    case 3
    then have "r = (st, [])" using r by (simp add: add_release_def add_button_def Let_def MAX_SEQUENCE_LENGTH_def)
    then show ?thesis using 3 len ok by (auto simp: collect_def Let_def)
  next
    case 4
    let ?p = "process_event_sequence b env st"
    let ?s = "(fst ?p)\<lparr>sequence_length := 0, sequence_type := ?ty\<rparr>"
    have req: "r = (add_button c ?ty d ?s, snd ?p)"
      using 4 r by (simp add: add_release_def Let_def case_prod_beta)
    have same: "button_sequence (fst ?p) = button_sequence st" "hold_durations (fst ?p) = hold_durations st"
      "pb1 (fst ?p) = pb1 st" "pb2 (fst ?p) = pb2 st"
      using process_event_sequence_frame(1)[of b env st] by (simp_all add: inputs_def)
    have s: "seq_body (sequence_length ?s) (button_sequence ?s) ?ty (hold_durations ?s)" "pending ?s = []"
      using body same by (simp_all add: seq_body_def pending_def items_def)
    have rep: "reports (snd ?p) = [(sequence_type st, pending st)]"
      using process_event_sequence_frame(2)[of b env st] c_string_seq ok
      by (auto simp: reports_filter seq_part_def pending_def items_def)
    have ne: "pending st \<noteq> []" using 4(1) len(1) by auto
    show ?thesis
      using add_button_room[OF s(1) _ c, of d] same s(2) rep 4 ne unfolding req
      by (simp add: collect_def Let_def)
  qed
qed

section \<open>The task implements the recogniser\<close>

lemma pb_inv_alt: "pb_inv st \<longleftrightarrow> seq_part st \<and> (0 < sequence_length st \<longleftrightarrow> 0 < last_button_release_time st) \<and>
    0 \<le> last_event_time (pb1 st) \<and> 0 \<le> last_event_time (pb2 st)"
  by (simp add: pb_inv_def seq_part_def)

lemma debounce_facts:
  "debounce level now p = Pressed q \<Longrightarrow> 0 \<le> last_event_time p \<Longrightarrow> 0 \<le> last_event_time q"
  "debounce level now p = Released q d \<Longrightarrow> 0 \<le> last_event_time p \<Longrightarrow> 0 \<le> last_event_time q \<and> 0 < now"
  using sdiv_nonneg_imp[of 1000 now]
  by (auto simp: debounce_def Let_def DEBOUNCE_DELAY_MS_def split: if_splits)

text \<open>One button event; the two handlers differ in the letter and the debouncer they use.\<close>

lemma process_pb1_sim:
  assumes "pb_inv st" and r: "process_pb1_event b env level now st = r"
  shows "pb_inv (fst r) \<and> recognise b (seq_view st) (env', Edge PB1 level now) = (seq_view (fst r), reports (snd r))"
proof (cases "debounce level now (pb1 st)")
  case (Released p d)
  obtain st1 o1 where a: "add_release b env CHR ''A'' (event_type d) d st = (st1, o1)" by fastforce
  show ?thesis
    using add_release_sim[OF _ _ a] assms(1) debounce_facts(2)[OF Released] a Released r[symmetric]
    by (auto simp: process_pb1_event_def pb_inv_alt seq_view_def pending_def seq_part_def)
qed (use assms debounce_facts(1) in \<open>auto simp: process_pb1_event_def pb_inv_alt seq_view_def pending_def seq_part_def\<close>)

lemma process_pb2_sim:
  assumes "pb_inv st" "two_buttons b" and r: "process_pb2_event b env level now st = r"
  shows "pb_inv (fst r) \<and> recognise b (seq_view st) (env', Edge PB2 level now) = (seq_view (fst r), reports (snd r))"
proof (cases "debounce level now (pb2 st)")
  case (Released p d)
  obtain st1 o1 where a: "add_release b env CHR ''B'' (event_type d) d st = (st1, o1)" by fastforce
  show ?thesis
    using add_release_sim[OF _ _ a] assms(1,2) debounce_facts(2)[OF Released] a Released r[symmetric]
    by (auto simp: process_pb2_event_def pb_inv_alt seq_view_def pending_def seq_part_def)
qed (use assms debounce_facts(1) in \<open>auto simp: process_pb2_event_def pb_inv_alt seq_view_def pending_def seq_part_def\<close>)

lemma view_update_other [simp]:
  "seq_view (st\<lparr>isOn := x\<rparr>) = seq_view st" "seq_view (st\<lparr>l_color_Index := x\<rparr>) = seq_view st"
  "seq_view (st\<lparr>last_time_pb_pressed := y\<rparr>) = seq_view st"
  "pb_inv (st\<lparr>isOn := x\<rparr>) = pb_inv st" "pb_inv (st\<lparr>l_color_Index := x\<rparr>) = pb_inv st"
  "pb_inv (st\<lparr>last_time_pb_pressed := y\<rparr>) = pb_inv st"
  by (simp_all add: seq_view_def pending_def pb_inv_def)

lemma recognise_no_pb2: "\<not> two_buttons b \<Longrightarrow> recognise b v (env, Edge PB2 level now) = (v, [])"
  by (cases v) simp

lemma gpio_edge_sim:
  assumes "pb_inv st"
  shows "pb_inv (fst (gpio_edge b env io level now st)) \<and> recognise b (seq_view st) (env, Edge io level now) =
    (seq_view (fst (gpio_edge b env io level now st)), reports (snd (gpio_edge b env io level now st)))"
proof -
  define st1 where "st1 = (if 180 < (now - press_time (pb1 st)) sdiv 1000000 then st\<lparr>isOn := 0\<rparr> else st)"
  define st2 where "st2 = (if two_buttons b \<and> 180 < (now - press_time (pb2 st1)) sdiv 1000000 then st1\<lparr>l_color_Index := 0\<rparr> else st1)"
  have s: "pb_inv st2" "seq_view st2 = seq_view st" using assms by (simp_all add: st1_def st2_def)
  have g: "gpio_edge b env io level now st = (case io of
       PB1 \<Rightarrow> (let (st3, out) = handle_button_event b env PB1 level now st2 in
         (st3\<lparr>last_time_pb_pressed := press_time (pb1 st3) sdiv 1000\<rparr>, out))
     | PB2 \<Rightarrow> if two_buttons b then (let (st3, out) = handle_button_event b env PB2 level now st2 in
         (st3\<lparr>last_time_pb_pressed := press_time (pb2 st3) sdiv 1000\<rparr>, out)) else (st2, []))"
    unfolding gpio_edge_def Let_def st2_def st1_def by (rule refl)
  show ?thesis
  proof (cases io)
    case PB1
    then show ?thesis using process_pb1_sim[OF s(1) refl, of b env level now env] s(2)
      unfolding g by (simp add: handle_button_event_def Let_def case_prod_beta)
  next
    case PB2
    then show ?thesis using process_pb2_sim[OF s(1) _ refl, of b env level now env] s
      unfolding g by (cases "two_buttons b") (auto simp: handle_button_event_def Let_def case_prod_beta recognise_no_pb2)
  qed
qed

lemma gpio_poll_sim:
  assumes "pb_inv st"
  shows "pb_inv (fst (gpio_poll b env t1 t2 t3 st)) \<and> recognise b (seq_view st) (env, Poll t1 t2 t3) =
    (seq_view (fst (gpio_poll b env t1 t2 t3 st)), reports (snd (gpio_poll b env t1 t2 t3 st)))"
proof -
  obtain st1 o1 where 1: "hold_reset t1 st = (st1, o1)" by fastforce
  obtain st2 o2 where 2: "hold_warning b t2 st1 = (st2, o2)" by fastforce
  have q: "reports o1 = []" "reports o2 = []" "seq_view st2 = seq_view st" "inputs st2 = inputs st"
    using quiet_reports[OF quiet_hold_reset[of st t1]] quiet_reports[OF quiet_hold_warning[of st1 b t2]] 1 2 by auto
  have inv: "pb_inv st2" using assms q(4) pb_inv_inputs by blast
  show ?thesis
  proof (cases "0 < last_button_release_time st2 \<and> TAP_SEQUENCE_TIMEOUT_MS \<le> (t3 - last_button_release_time st2) sdiv 1000")
    case True
    let ?p = "process_event_sequence b env st2"
    have same: "button_sequence (fst ?p) = button_sequence st2" "hold_durations (fst ?p) = hold_durations st2"
      "pb1 (fst ?p) = pb1 st2" "pb2 (fst ?p) = pb2 st2"
      using process_event_sequence_frame(1)[of b env st2] by (simp_all add: inputs_def)
    have rep: "reports (snd ?p) = [(sequence_type st2, pending st2)]"
      using process_event_sequence_frame(2)[of b env st2] c_string_seq inv
      by (auto simp: reports_filter pb_inv_def pending_def items_def)
    show ?thesis using True inv rep same q
      by (auto simp: gpio_poll_def sequence_timeout_def 1 2 Let_def case_prod_beta seq_view_def pending_def items_def
          pb_inv_def seq_ok_def seq_body_def MAX_SEQUENCE_LENGTH_def)
  next
    case False
    then show ?thesis using inv q
      by (auto simp: gpio_poll_def sequence_timeout_def 1 2 seq_view_def)
  qed
qed

interpretation pb: refined_machine "gpio_task b" pb_inv "\<lambda>e. True" seq_view reports "recognise b" for b
proof unfold_locales
  fix s and e :: "pb_env \<times> pb_event" assume inv: "pb_inv s"
  obtain env ev where e: "e = (env, ev)" by fastforce
  have "pb_inv (fst (gpio_task b s e)) \<and> recognise b (seq_view s) e = (seq_view (fst (gpio_task b s e)), reports (snd (gpio_task b s e)))"
    using gpio_edge_sim[OF inv] gpio_poll_sim[OF inv] by (cases ev) (simp_all add: e gpio_task_def)
  then show "pb_inv (fst (gpio_task b s e))"
    and "recognise b (seq_view s) e = (seq_view (fst (gpio_task b s e)), reports (snd (gpio_task b s e)))" by simp_all
qed simp_all

section \<open>Reachable states\<close>

text \<open>The steps of the file: an edge or a pause of the button task, a turn of the play list task, the callback of the
  advertisement timer and the end of the ping task.\<close>

inductive pb_step :: "board \<Rightarrow> pb_st \<Rightarrow> pb_st \<Rightarrow> bool" for b where
  Button: "pb_step b st (fst (gpio_task b st e))"
| Play_list: "pb_step b st (fst (ten_second_tsk_turn clock st))"
| Ble_timeout: "pb_step b st (fst (stop_ble_advertisement ok st))"
| Ping_done: "pb_step b st (st\<lparr>post_task := False\<rparr>)"

inductive pb_reachable :: "board \<Rightarrow> pb_st \<Rightarrow> bool" for b where
  Start: "pb_reachable b pb_init"
| Step: "pb_reachable b st \<Longrightarrow> pb_step b st st' \<Longrightarrow> pb_reachable b st'"

inductive_cases pb_stepE: "pb_step b st st'"

lemma pb_step_inv: "pb_step b st st' \<Longrightarrow> pb_inv st \<Longrightarrow> pb_inv st'"
proof (erule pb_stepE)
  assume "pb_inv st" and st': "st' = st\<lparr>post_task := False\<rparr>"
  have "inputs st' = inputs st" by (simp add: st' inputs_def)
  then show "pb_inv st'" using \<open>pb_inv st\<close> pb_inv_inputs by blast
qed (use pb.step_inv pb_inv_inputs quiet_reports[OF quiet_ten_second] quiet_reports[OF quiet_stop_ble] in metis)+

lemma pb_reachable_inv: "pb_reachable b st \<Longrightarrow> pb_inv st"
  by (induction rule: pb_reachable.induct) (auto simp: pb_inv_init pb_step_inv)

text \<open>C37: In every state the push button file can get into, on every board and whatever the edges and the timers do, the
  sequence counter stays below the size of the buffers, the buffer is a terminated string of button letters, a pending
  sequence has a kind, and every duration of a pending hold sequence is at least two seconds.\<close>

theorem button_buffers_bounded:
  assumes "pb_reachable b st"
  shows "sequence_length st < MAX_SEQUENCE_LENGTH \<and>
    length (button_sequence st) = MAX_SEQUENCE_LENGTH \<and> length (hold_durations st) = MAX_SEQUENCE_LENGTH \<and>
    c_string (button_sequence st) = take (sequence_length st) (button_sequence st) \<and>
    set (c_string (button_sequence st)) \<subseteq> {CHR ''A'', CHR ''B''} \<and>
    (sequence_length st = 0 \<or> sequence_type st = ''Tap'' \<or>
      sequence_type st = ''Hold'' \<and> list_all (\<lambda>d. HOLD_MIN_DURATION_MS \<le> d) (take (sequence_length st) (hold_durations st)))"
proof -
  have ok: "seq_ok (sequence_length st) (button_sequence st) (sequence_type st) (hold_durations st)"
    using pb_reachable_inv[OF assms] by (simp add: pb_inv_def)
  then show ?thesis
    using c_string_seq[OF ok] by (auto simp: seq_ok_def seq_body_def list_all_iff split: if_splits)
qed

theorem button_buffers_bounded_witness:
  "sequence_length (fst (gpio_task B480 pb_init (\<lparr>rtc = \<lambda>k. 0, delete_ok = True\<rparr>, Edge PB1 0 60000))) < MAX_SEQUENCE_LENGTH"
  using button_buffers_bounded[OF pb_reachable.Step[OF pb_reachable.Start pb_step.Button]] by blast

section \<open>Every release is reported\<close>

text \<open>The two debouncers alone, emitting the releases they let through.\<close>

fun debounced :: "board \<Rightarrow> button \<times> button \<Rightarrow> pb_event \<Rightarrow> (button \<times> button) \<times> (char \<times> int) list" where
  "debounced b (p1, p2) (Edge PB1 level now) = (case debounce level now p1 of
     Ignored \<Rightarrow> ((p1, p2), []) | Pressed p \<Rightarrow> ((p, p2), []) | Released p d \<Rightarrow> ((p, p2), [(CHR ''A'', d)]))"
| "debounced b (p1, p2) (Edge PB2 level now) = (if two_buttons b then (case debounce level now p2 of
     Ignored \<Rightarrow> ((p1, p2), []) | Pressed p \<Rightarrow> ((p1, p), []) | Released p d \<Rightarrow> ((p1, p), [(CHR ''B'', d)])) else ((p1, p2), []))"
| "debounced b (p1, p2) (Poll t1 t2 t3) = ((p1, p2), [])"

definition accepted :: "board \<Rightarrow> button \<times> button \<Rightarrow> pb_event list \<Rightarrow> (char \<times> int) list" where
  "accepted b ps es = snd (run_events (debounced b) ps es)"

definition release_item :: "char \<times> int \<Rightarrow> item" where
  "release_item r = item (event_type (snd r)) (fst r) (snd r)"

text \<open>What has been told by a run of the abstract recogniser: everything reported, then what is pending.\<close>

definition told :: "seq_view \<times> (string \<times> item list) list \<Rightarrow> item list" where
  "told r = concat (map snd (snd r)) @ (case fst r of (p1, p2, t, ty, ps) \<Rightarrow> ps)"

lemma collect_told:
  assumes "collect ty ps c d = ((ty1, ps1), out)"
  shows "subseq (concat (map snd out) @ ps1) (ps @ [release_item (c, d)])"
    "length ps < 15 \<Longrightarrow> concat (map snd out) @ ps1 = ps @ [release_item (c, d)]"
    "length ps1 \<le> Suc (length ps)"
  using assms by (auto simp: collect_def Let_def release_item_def split: if_splits)

lemma recognise_cases:
  assumes "recognise b (p1, p2, r, ty, ps) (env, e) = ((q1, q2, r', ty', ps'), out)" "debounced b (p1, p2) e = (qs, rel)"
  shows "qs = (q1, q2) \<and> (rel = [] \<and> (out = [] \<and> ps' = ps \<or> out = [(ty, ps)] \<and> ps' = []) \<or>
    (\<exists>c d. rel = [(c, d)] \<and> collect ty ps c d = ((ty', ps'), out)))"
proof (cases e)
  case (Edge io level now)
  then show ?thesis
    using assms by (cases io) (auto split: edge.splits if_splits prod.splits)
next
  case (Poll t1 t2 t3)
  then show ?thesis using assms by (auto split: if_splits)
qed

lemma recognise_told:
  assumes "recognise b (p1, p2, r, ty, ps) (env, e) = ((q1, q2, r', ty', ps'), out)" "debounced b (p1, p2) e = (qs, rel)"
  shows "qs = (q1, q2) \<and> length ps' \<le> length ps + length rel \<and>
    subseq (concat (map snd out) @ ps') (ps @ map release_item rel) \<and>
    (length ps + length rel \<le> 15 \<longrightarrow> concat (map snd out) @ ps' = ps @ map release_item rel)"
  using recognise_cases[OF assms] collect_told[of ty ps _ _ ty' ps' out] by fastforce

lemma recogniser_tells_all:
  "subseq (told (run_events (recognise b) (p1, p2, r, ty, ps) es)) (ps @ map release_item (accepted b (p1, p2) (map snd es))) \<and>
   (length ps + length (accepted b (p1, p2) (map snd es)) \<le> 15 \<longrightarrow>
    told (run_events (recognise b) (p1, p2, r, ty, ps) es) = ps @ map release_item (accepted b (p1, p2) (map snd es)))"
proof (induction es arbitrary: p1 p2 r ty ps)
  case Nil
  show ?case by (simp add: told_def accepted_def)
next
  case (Cons e es)
  obtain env ev where e: "e = (env, ev)" by fastforce
  obtain q1 q2 r' ty' ps' out where s: "recognise b (p1, p2, r, ty, ps) (env, ev) = ((q1, q2, r', ty', ps'), out)"
    by (metis surj_pair)
  obtain qs rel where d: "debounced b (p1, p2) ev = (qs, rel)" by fastforce
  note step = recognise_told[OF s d]
  let ?t = "told (run_events (recognise b) (q1, q2, r', ty', ps') es)"
  let ?a = "accepted b (q1, q2) (map snd es)"
  have t: "told (run_events (recognise b) (p1, p2, r, ty, ps) (e # es)) = concat (map snd out) @ ?t"
    by (simp add: told_def e s Let_def case_prod_beta)
  have a: "accepted b (p1, p2) (map snd (e # es)) = rel @ ?a"
    using step by (simp add: accepted_def e d Let_def case_prod_beta)
  note IH = Cons.IH[of q1 q2 r' ty' ps']
  have "subseq (concat (map snd out) @ ?t) (concat (map snd out) @ ps' @ map release_item ?a)"
    using IH by (simp add: subseq_append_le_same_iff list_emb_append_mono)
  moreover have "subseq ((concat (map snd out) @ ps') @ map release_item ?a) ((ps @ map release_item rel) @ map release_item ?a)"
    by (rule list_emb_append_mono) (use step in auto)
  ultimately have sub: "subseq (concat (map snd out) @ ?t) (ps @ map release_item (rel @ ?a))"
    using subseq_order.trans by fastforce
  have "concat (map snd out) @ ?t = ps @ map release_item (rel @ ?a)" if "length ps + length (rel @ ?a) \<le> 15"
  proof -
    have "length ps' + length ?a \<le> 15" "length ps + length rel \<le> 15" using that step by auto
    then show ?thesis using IH step by simp
  qed
  then show ?case using sub unfolding t a by blast
qed

text \<open>C23: Whatever the edges and pauses, on every board, every report and the pending sequence together list debounced releases in the
  order they happened, each with its button and, for a hold, its duration, and never one twice; as long as no
  more than fifteen releases come in they list every one of them.\<close>

theorem every_release_reported:
  assumes "run_events (gpio_task b) pb_init es = (st, out)"
  shows "subseq (concat (map snd (reports out)) @ pending st) (map release_item (accepted b (pb1 pb_init, pb2 pb_init) (map snd es))) \<and>
    (length (accepted b (pb1 pb_init, pb2 pb_init) (map snd es)) \<le> 15 \<longrightarrow>
      concat (map snd (reports out)) @ pending st = map release_item (accepted b (pb1 pb_init, pb2 pb_init) (map snd es)))"
proof -
  have v: "seq_view pb_init = (pb1 pb_init, pb2 pb_init, 0, [], [])"
    by (simp add: seq_view_def pending_def items_def pb_init_def)
  have "run_events (recognise b) (seq_view pb_init) es = (seq_view st, reports out)"
    using pb.run_simulates[OF pb_inv_init, of es b] assms by (simp add: list_all_iff)
  then have "told (run_events (recognise b) (seq_view pb_init) es) = concat (map snd (reports out)) @ pending st"
    by (simp add: told_def seq_view_def)
  then show ?thesis
    using recogniser_tells_all[of b "pb1 pb_init" "pb2 pb_init" 0 "[]" "[]" es] unfolding v by simp
qed

theorem every_release_reported_witness:
  "let r = run_events (gpio_task B480) pb_init
       (map (Pair \<lparr>rtc = \<lambda>k. 0, delete_ok = True\<rparr>)
         [Edge PB1 0 60000, Edge PB1 1 160000, Edge PB2 0 300000, Edge PB2 1 3300000])
   in concat (map snd (reports (snd r))) @ pending (fst r) = [(CHR ''A'', None), (CHR ''B'', Some 3000)]"
  using every_release_reported[of B480 "map (Pair \<lparr>rtc = \<lambda>k. 0, delete_ok = True\<rparr>)
         [Edge PB1 0 60000, Edge PB1 1 160000, Edge PB2 0 300000, Edge PB2 1 3300000]"]
  by (simp add: Let_def case_prod_beta accepted_def pb_init_def debounce_def DEBOUNCE_DELAY_MS_def signed_divide_int_def
      release_item_def event_type_def item_def HOLD_MIN_DURATION_MS_def)

section \<open>A series of taps\<close>

definition letter :: "pin \<Rightarrow> char" where
  "letter io = (case io of PB1 \<Rightarrow> CHR ''A'' | PB2 \<Rightarrow> CHR ''B'')"

text \<open>Taps with their press and release times in us; spaced means that bounce is over between any two edges and no tap is a hold.\<close>

type_synonym tap = "pin \<times> int \<times> int"

definition tap_edges :: "tap list \<Rightarrow> pb_event list" where
  "tap_edges xs = concat (map (\<lambda>(io, p, r). [Edge io 0 p, Edge io 1 r]) xs)"

fun spaced :: "board \<Rightarrow> int \<Rightarrow> tap list \<Rightarrow> bool" where
  "spaced b t [] = True"
| "spaced b t ((io, p, r) # xs) = ((io = PB2 \<longrightarrow> two_buttons b) \<and> t + 51000 \<le> p \<and> p + 51000 \<le> r \<and> r < p + 2000000 \<and> spaced b r xs)"

fun last_release :: "int \<Rightarrow> tap list \<Rightarrow> int" where
  "last_release t [] = t" | "last_release t ((io, p, r) # xs) = last_release r xs"

definition idle :: "int \<Rightarrow> button \<Rightarrow> bool" where
  "idle t p \<longleftrightarrow> state p = 0 \<and> last_event_time p \<le> t sdiv 1000"

lemma sdiv_gap: "0 \<le> a \<Longrightarrow> a + 51000 \<le> b \<Longrightarrow> 50 \<le> b sdiv 1000 - a sdiv (1000 :: int)"
  using zdiv_mono1[of "a + 51 * 1000" b 1000] div_mult_self1[of 1000 a 51]
  by (auto simp: signed_divide_int_def sgn_if)

lemma sdiv_mono_pos: "0 \<le> a \<Longrightarrow> a \<le> b \<Longrightarrow> a sdiv 1000 \<le> b sdiv (1000 :: int)"
  by (auto simp: signed_divide_int_def sgn_if zdiv_mono1)

lemma tap_debounced:
  assumes "idle t p" "0 \<le> t" "t + 51000 \<le> p0" "p0 + 51000 \<le> r0" "r0 < p0 + 2000000"
  obtains q q' d where "debounce 0 p0 p = Pressed q" "debounce 1 r0 q = Released q' d" "event_type d = ''Tap''"
    "idle r0 q'" "idle p0 (q\<lparr>state := 0\<rparr>)"
proof -
  have g: "50 \<le> p0 sdiv 1000 - t sdiv 1000" "50 \<le> r0 sdiv 1000 - p0 sdiv 1000"
    using sdiv_gap[of t p0] sdiv_gap[of p0 r0] assms by auto
  have d: "(r0 - p0) sdiv 1000 < 2000" using assms by (auto simp: signed_divide_int_def sgn_if)
  show ?thesis
    using assms(1) g d
    by (intro that[of "\<lparr>state = 1, press_time = p0, last_event_time = p0 sdiv 1000\<rparr>"
          "\<lparr>state = 0, press_time = p0, last_event_time = r0 sdiv 1000\<rparr>" "(r0 - p0) sdiv 1000"])
      (auto simp: debounce_def Let_def idle_def DEBOUNCE_DELAY_MS_def event_type_def HOLD_MIN_DURATION_MS_def)
qed

lemma idle_mono: "idle t p \<Longrightarrow> 0 \<le> t \<Longrightarrow> t \<le> u \<Longrightarrow> idle u p"
  using sdiv_mono_pos[of t u] by (auto simp: idle_def)

lemma one_tap:
  assumes "idle t p1" "idle t p2" "0 \<le> t" "io = PB2 \<Longrightarrow> two_buttons b" "t + 51000 \<le> p0" "p0 + 51000 \<le> r0"
    "r0 < p0 + 2000000" "ps = [] \<or> ty = ''Tap''" "length ps < 15"
  shows "\<exists>p1' p2' q1 q2. idle r0 q1 \<and> idle r0 q2 \<and> recognise b (p1, p2, r, ty, ps) (e1, Edge io 0 p0) = ((p1', p2', r, ty, ps), []) \<and>
     recognise b (p1', p2', r, ty, ps) (e2, Edge io 1 r0) = ((q1, q2, r0, ''Tap'', ps @ [(letter io, None)]), [])"
proof -
  have c: "collect ty ps c d = ((''Tap'', ps @ [(c, None)]), [])" if "event_type d = ''Tap''" for c d
    using assms(8,9) that by (auto simp: collect_def Let_def item_def)
  have other: "idle r0 p1" "idle r0 p2" using idle_mono assms(1-3,5,6) by auto
  show ?thesis
  proof (cases io)
    case PB1
    obtain q q' d where "debounce 0 p0 p1 = Pressed q" "debounce 1 r0 q = Released q' d" "event_type d = ''Tap''" "idle r0 q'"
      using tap_debounced[OF assms(1,3,5,6,7)] by metis
    then show ?thesis using PB1 other c by (intro exI[of _ q] exI[of _ p2] exI[of _ q'] exI[of _ p2]) (simp add: letter_def)
  next
    case PB2
    obtain q q' d where "debounce 0 p0 p2 = Pressed q" "debounce 1 r0 q = Released q' d" "event_type d = ''Tap''" "idle r0 q'"
      using tap_debounced[OF assms(2,3,5,6,7)] by metis
    then show ?thesis using PB2 other c assms(4) by (intro exI[of _ p1] exI[of _ q] exI[of _ p1] exI[of _ q']) (simp add: letter_def)
  qed
qed

text \<open>What happens in time: edges, and turns without an edge, of which the last reading of the clock counts.\<close>

definition is_edge :: "pb_event \<Rightarrow> bool" where
  "is_edge e = (case e of Edge _ _ _ \<Rightarrow> True | _ \<Rightarrow> False)"

definition event_time :: "pb_event \<Rightarrow> int" where
  "event_time e = (case e of Edge _ _ now \<Rightarrow> now | Poll t1 t2 t3 \<Rightarrow> t3)"

fun releases :: "pb_event list \<Rightarrow> int list" where
  "releases [] = []"
| "releases (Edge io level now # es) = (if level = 1 then now # releases es else releases es)"
| "releases (Poll t1 t2 t3 # es) = releases es"

text \<open>Releases that follow each other within 800 ms; r is the one before, 0 if there is none.\<close>

fun brisk :: "int \<Rightarrow> int list \<Rightarrow> bool" where
  "brisk r [] = True"
| "brisk r (n # ns) = ((0 < r \<longrightarrow> n < r + 800000) \<and> brisk n ns)"

text \<open>No turn without an edge finds that 800 ms have passed since the last release.\<close>

fun no_timeout :: "int \<Rightarrow> pb_event list \<Rightarrow> bool" where
  "no_timeout r [] = True"
| "no_timeout r (Edge io level now # es) = no_timeout (if level = 1 then now else r) es"
| "no_timeout r (Poll t1 t2 t3 # es) = ((0 < r \<longrightarrow> t3 < r + 800000) \<and> no_timeout r es)"

lemma release_in: "n \<in> set (releases es) \<Longrightarrow> \<exists>e\<in>set es. event_time e = n"
  by (induction es rule: releases.induct) (auto simp: event_time_def split: if_splits)

lemma brisk_no_timeout:
  assumes "sorted (map event_time es)" "brisk r (releases es)" "\<forall>e\<in>set es. \<not> is_edge e \<longrightarrow> event_time e < last (r # releases es) + 800000"
  shows "no_timeout r es"
  using assms
proof (induction r es rule: no_timeout.induct)
  case (2 r io level now es)
  then show ?case by (auto split: if_splits)
next
  case (3 r t1 t2 t3 es)
  have "t3 < r + 800000" if "0 < r"
  proof (cases "releases es")
    case Nil
    then show ?thesis using 3(4) by (simp add: is_edge_def event_time_def)
  next
    case (Cons n ns)
    then obtain e where "e \<in> set es" "event_time e = n" using release_in[of n es] by auto
    then have "t3 \<le> n" using 3(2) by (auto simp: event_time_def)
    moreover have "n < r + 800000" using 3(3) Cons that by simp
    ultimately show ?thesis by simp
  qed
  then show ?case using 3 by simp
qed simp

lemma polls_skipped:
  assumes "\<forall>e\<in>set us. \<not> is_edge (snd e)" "no_timeout r (map snd (us @ vs))"
  shows "run_events (recognise b) (p1, p2, r, ty, ps) (us @ vs) = run_events (recognise b) (p1, p2, r, ty, ps) vs \<and> no_timeout r (map snd vs)"
  using assms
proof (induction us)
  case (Cons u us)
  obtain env t1 t2 t3 where u: "u = (env, Poll t1 t2 t3)" using Cons.prems(1) by (cases u; cases "snd u") (auto simp: is_edge_def)
  have "\<not> (0 < r \<and> TAP_SEQUENCE_TIMEOUT_MS \<le> (t3 - r) sdiv 1000)"
  proof
    assume c: "0 < r \<and> TAP_SEQUENCE_TIMEOUT_MS \<le> (t3 - r) sdiv 1000"
    then have "t3 - r < 800000" using Cons.prems(2) by (simp add: u)
    then have "(t3 - r) sdiv 1000 < 800" by (auto simp: signed_divide_int_def sgn_if abs_if)
    then show False using c by (simp add: TAP_SEQUENCE_TIMEOUT_MS_def)
  qed
  then have "recognise b (p1, p2, r, ty, ps) u = ((p1, p2, r, ty, ps), [])" by (simp add: u)
  then show ?case using Cons by (simp add: u)
qed simp

lemma taps_recognised:
  assumes "idle t p1" "idle t p2" "0 \<le> t" "spaced b t xs" "ps = [] \<or> ty = ''Tap''" "length ps + length xs \<le> 15"
    "filter is_edge (map snd es) = tap_edges xs" "xs \<noteq> []" "no_timeout r (map snd es)"
  shows "\<exists>q1 q2. run_events (recognise b) (p1, p2, r, ty, ps) es =
    ((q1, q2, last_release t xs, ''Tap'', ps @ map (\<lambda>(io, _, _). (letter io, None)) xs), [])"
  using assms
proof (induction xs arbitrary: t p1 p2 r ty ps es)
  case (Cons x xs)
  obtain io p0 r0 where x: "x = (io, p0, r0)" by (cases x)
  have "map snd (filter (is_edge \<circ> snd) es) = Edge io 0 p0 # Edge io 1 r0 # tap_edges xs"
    using Cons.prems(7) by (simp add: tap_edges_def x filter_map)
  then obtain f1 f2 fs where f: "filter (is_edge \<circ> snd) es = f1 # f2 # fs" "snd f1 = Edge io 0 p0" "snd f2 = Edge io 1 r0" "map snd fs = tap_edges xs"
    by (auto simp: map_eq_Cons_conv)
  obtain us vs where v: "es = us @ f1 # vs" "\<forall>e\<in>set us. \<not> is_edge (snd e)" "f2 # fs = filter (is_edge \<circ> snd) vs"
    using filter_eq_ConsD[OF f(1)] by auto
  obtain us' es' where w: "vs = us' @ f2 # es'" "\<forall>e\<in>set us'. \<not> is_edge (snd e)" "fs = filter (is_edge \<circ> snd) es'"
    using filter_eq_ConsD[OF v(3)[symmetric]] by auto
  obtain e1 e2 where e: "f1 = (e1, Edge io 0 p0)" "f2 = (e2, Edge io 1 r0)" using f(2,3) by (cases f1; cases f2) auto
  have sp: "io = PB2 \<Longrightarrow> two_buttons b" "t + 51000 \<le> p0" "p0 + 51000 \<le> r0" "r0 < p0 + 2000000" "spaced b r0 xs" "0 \<le> r0" "t \<le> r0"
    using Cons.prems(3,4) by (auto simp: x)
  let ?ps = "ps @ [(letter io, None)]"
  obtain p1' p2' q1 q2 where q: "idle r0 q1" "idle r0 q2"
    and m: "recognise b (p1, p2, r, ty, ps) (e1, Edge io 0 p0) = ((p1', p2', r, ty, ps), [])"
      "recognise b (p1', p2', r, ty, ps) (e2, Edge io 1 r0) = ((q1, q2, r0, ''Tap'', ?ps), [])"
    using one_tap[OF Cons.prems(1-3) sp(1-4) Cons.prems(5), where r = r and ?e1.0 = e1 and ?e2.0 = e2] Cons.prems(6) by fastforce
  have n0: "no_timeout r (map snd (us @ f1 # vs))" using Cons.prems(9) by (simp add: v(1))
  note 1 = polls_skipped[OF v(2) n0, of b p1 p2 ty ps]
  have n1: "no_timeout r (map snd (us' @ f2 # es'))" using 1[THEN conjunct2] by (simp add: e(1) w(1))
  note 2 = polls_skipped[OF w(2) n1, of b p1' p2' ty ps]
  have n2: "no_timeout r0 (map snd es')" using 2[THEN conjunct2] by (simp add: e(2))
  have run: "run_events (recognise b) (p1, p2, r, ty, ps) es = run_events (recognise b) (q1, q2, r0, ''Tap'', ?ps) es'"
    using 1[THEN conjunct1] 2[THEN conjunct1] m by (simp add: v(1) w(1) e Let_def case_prod_beta del: recognise.simps)
  have g: "filter is_edge (map snd es') = tap_edges xs" using f(4) w(3) by (simp add: filter_map)
  show ?case
  proof (cases "xs = []")
    case True
    then have "\<forall>e\<in>set es'. \<not> is_edge (snd e)" using g by (auto simp: tap_edges_def filter_empty_conv)
    then show ?thesis using run polls_skipped[of es' r0 "[]" b q1 q2 "''Tap''" ?ps] n2 True by (simp add: x)
  next
    case False
    then show ?thesis
      unfolding run using Cons.IH[OF q(1,2) sp(6,5) _ _ g False n2, of ?ps "''Tap''"] Cons.prems(6) by (simp add: x)
  qed
qed simp

lemma releases_edges: "releases es = releases (filter is_edge es)"
  by (induction es rule: releases.induct) (simp_all add: is_edge_def)

lemma releases_taps: "releases (tap_edges xs) = map (\<lambda>(io, p, r). r) xs"
  by (induction xs) (auto simp: tap_edges_def)

lemma last_release_last: "last (t # map (\<lambda>(io, p, r). r) xs) = last_release t xs"
  by (induction t xs rule: last_release.induct) auto

text \<open>C36: A series of at most fifteen taps on buttons at rest, with the turns of the task in between that find no edge: bounce is over
  between any two edges, no tap lasts two seconds, and the releases follow each other within 800 ms.  It is reported as exactly one
  tap sequence with the letters of the buttons in order at the first turn without an edge that comes 800 ms or more after the last
  release, not before, and nothing is pending afterwards.\<close>

theorem taps_reported_once:
  assumes "pb_inv st" "sequence_length st = 0" "last_button_release_time st = 0" "idle t (pb1 st)" "idle t (pb2 st)" "0 \<le> t"
    and "spaced b t xs" "brisk 0 (map (\<lambda>(io, p, r). r) xs)" "xs \<noteq> []" "length xs \<le> 15"
    and "filter is_edge (map snd es) = tap_edges xs" "sorted (map event_time (map snd es))"
    and "\<forall>e\<in>set (map snd es). \<not> is_edge e \<longrightarrow> event_time e < last_release t xs + 800000" "last_release t xs + 800000 \<le> t3"
  shows "let r0 = run_events (gpio_task b) st es; r = run_events (gpio_task b) st (es @ [(env, Poll t1 t2 t3)]) in
    reports (snd r0) = [] \<and> reports (snd r) = [(''Tap'', map (\<lambda>(io, _, _). (letter io, None)) xs)] \<and>
    sequence_length (fst r) = 0 \<and> last_button_release_time (fst r) = 0"
proof -
  let ?ps = "map (\<lambda>(io, _, _). (letter io, None :: int option)) xs"
  let ?r = "run_events (gpio_task b) st (es @ [(env, Poll t1 t2 t3)])"
  have v: "seq_view st = (pb1 st, pb2 st, 0, sequence_type st, [])"
    using length_pending[OF assms(1)] assms(2,3) by (simp add: seq_view_def)
  have rel: "releases (map snd es) = map (\<lambda>(io, p, r). r) xs"
    using releases_edges[of "map snd es"] by (simp only: assms(11) releases_taps)
  have "last_release t xs = last (0 # releases (map snd es))"
    using last_release_last[of t xs] assms(9) unfolding rel by (cases xs) auto
  then have n: "no_timeout 0 (map snd es)"
    using assms(8,12,13) by (intro brisk_no_timeout) (simp_all add: rel)
  obtain q1 q2 where q: "run_events (recognise b) (seq_view st) es = ((q1, q2, last_release t xs, ''Tap'', ?ps), [])"
    using taps_recognised[OF assms(4-7) _ _ assms(11,9) n, where ps = "[]" and ty = "sequence_type st"] assms(10) unfolding v by auto
  have pos: "0 < last_release t xs" using assms(6,7,9)
  proof (induction xs arbitrary: t)
    case (Cons x xs)
    then show ?case by (cases x; cases "xs = []") fastforce+
  qed simp
  have "800 \<le> (t3 - last_release t xs) sdiv 1000"
    using assms(14) zdiv_mono1[of 800000 "t3 - last_release t xs" 1000] by (simp add: signed_divide_int_def sgn_if)
  then have "run_events (recognise b) (seq_view st) (es @ [(env, Poll t1 t2 t3)]) = ((q1, q2, 0, [], []), [(''Tap'', ?ps)])"
    using pos by (simp add: run_events_append q TAP_SEQUENCE_TIMEOUT_MS_def)
  moreover have "run_events (recognise b) (seq_view st) fs = (seq_view (fst (run_events (gpio_task b) st fs)), reports (snd (run_events (gpio_task b) st fs)))" for fs
    using pb.run_simulates[OF assms(1)] by (simp add: list_all_iff)
  moreover have "pb_inv (fst ?r)" using pb.run_inv[OF assms(1)] by (simp add: list_all_iff)
  ultimately show ?thesis using q by (auto simp: seq_view_def pb_inv_def Let_def)
qed

definition demo_taps :: "pb_event list" where
  "demo_taps = [Poll 50000 50001 50002, Edge PB1 0 60000, Poll 110000 110001 110002, Edge PB1 1 160000, Poll 210000 210001 210002, Edge PB2 0 300000,
     Edge PB2 1 400000, Edge PB1 0 500000, Edge PB1 1 600000, Poll 1300000 1300001 1300002]"

theorem taps_reported_once_witness:
  "reports (snd (run_events (gpio_task B480) pb_init
     (map (Pair \<lparr>rtc = \<lambda>k. 0, delete_ok = True\<rparr>) demo_taps @ [(\<lparr>rtc = \<lambda>k. 0, delete_ok = True\<rparr>, Poll 1400000 1400001 1400002)]))) =
   [(''Tap'', [(CHR ''A'', None), (CHR ''B'', None), (CHR ''A'', None)])]"
  using taps_reported_once[OF pb_inv_init, of 0 B480 "[(PB1, 60000, 160000), (PB2, 300000, 400000), (PB1, 500000, 600000)]"
      "map (Pair \<lparr>rtc = \<lambda>k. 0, delete_ok = True\<rparr>) demo_taps" 1400002 "\<lparr>rtc = \<lambda>k. 0, delete_ok = True\<rparr>" 1400000 1400001]
  by (simp add: pb_init_def idle_def letter_def Let_def comp_def demo_taps_def tap_edges_def is_edge_def event_time_def)

section \<open>A short press\<close>

text \<open>A press shorter than the debounce time is accepted but its release is not: the file believes the button still down, and
  when nothing else happens the first pause between ten and twenty seconds later restarts the controller.\<close>

theorem short_press_restarts:
  assumes "idle t (pb1 st)" "0 \<le> t" "t + 51000 \<le> p" "p \<le> r" "r < p + 49000"
    and "p + 10001000 \<le> t1" "t1 < p + 20000000"
  shows "Restart \<in> set (snd (run_events (gpio_task b) st [(e1, Edge PB1 0 p), (e2, Edge PB1 1 r), (e3, Poll t1 t2 t3)]))"
proof -
  let ?q = "\<lparr>state = 1, press_time = p, last_event_time = p sdiv 1000\<rparr>"
  have g: "50 \<le> p sdiv 1000 - t sdiv 1000" "r sdiv 1000 - p sdiv 1000 < 50"
    "10000 < t1 sdiv 1000 - p sdiv 1000" "t1 sdiv 1000 - p sdiv 1000 \<le> 20000"
    using sdiv_gap[of t p] assms zdiv_mono1[of r "p + 49 * 1000" 1000] div_mult_self1[of 1000 p 49]
      zdiv_mono1[of "p + 10001 * 1000" t1 1000] div_mult_self1[of 1000 p 10001]
      zdiv_mono1[of t1 "p + 20000 * 1000" 1000] div_mult_self1[of 1000 p 20000]
    by (auto simp: signed_divide_int_def sgn_if)
  have d: "debounce 0 p (pb1 st) = Pressed ?q" "debounce 1 r ?q = Ignored"
    using assms(1) g by (auto simp: debounce_def Let_def idle_def DEBOUNCE_DELAY_MS_def)
  define s1 where "s1 = fst (gpio_task b st (e1, Edge PB1 0 p))"
  have s1: "pb1 s1 = ?q" "last_time_pb_pressed s1 = p sdiv 1000"
    using d(1) by (simp_all add: s1_def gpio_task_def gpio_edge_def handle_button_event_def process_pb1_event_def Let_def case_prod_beta)
  define s2 where "s2 = fst (gpio_task b s1 (e2, Edge PB1 1 r))"
  have s2: "pb1 s2 = ?q" "last_time_pb_pressed s2 = p sdiv 1000"
    using d(2) s1(1) by (simp_all add: s2_def gpio_task_def gpio_edge_def handle_button_event_def process_pb1_event_def Let_def case_prod_beta)
  have "Restart \<in> set (snd (gpio_task b s2 (e3, Poll t1 t2 t3)))"
    using s2 g(3,4) by (simp add: gpio_task_def gpio_poll_def hold_reset_def Let_def case_prod_beta)
  then show ?thesis by (simp add: s1_def[symmetric] s2_def[symmetric] Let_def case_prod_beta)
qed

theorem short_press_restarts_witness:
  "Restart \<in> set (snd (run_events (gpio_task B480) pb_init
     [(\<lparr>rtc = \<lambda>k. 0, delete_ok = True\<rparr>, Edge PB1 0 60000), (\<lparr>rtc = \<lambda>k. 0, delete_ok = True\<rparr>, Edge PB1 1 90000),
      (\<lparr>rtc = \<lambda>k. 0, delete_ok = True\<rparr>, Poll 10070000 10070001 10070002)]))"
  by (rule short_press_restarts[where t = 0]) (simp_all add: idle_def pb_init_def)

end
