(* ===== verification/M225_Tables.thy ===== *)
theory M225_Tables
  imports Prelude
begin

text \<open>
  The configuration store of the Model 225 indicator (main/195_Actor.h, main/195_Actor.c) as data: the fields of
  m225_state_t with their C types, their initial values, and the chains of name comparisons of m225_actor_get and
  m225_set_property as association lists, in the order of the source, each entry with the macro it applies.
  The facts proved here are the consistency checks of these tables that the operations rest on.
\<close>

section \<open>Values and macros\<close>

datatype ftype = TBool | TU8 | TU16 | TU32 | TI32 | TFloat | TChars nat

text \<open>Floats are abstract: the model uses of them what the code does, atof and printf's general format.\<close>

record 'f float_lib =
  atof :: "string \<Rightarrow> 'f"
  show_g :: "'f \<Rightarrow> string"

datatype 'f fval = Bool bool | U8 u8 | U16 u16 | U32 u32 | I32 u32 | Flt 'f | Str string

datatype getter = G_BOOL string | G_U8 string | G_U16 string | G_U32 string | G_I32 string | G_FLOAT string | G_STR string | G_NA

datatype setter = S_STR string | S_BOOL string | S_U8 string | S_U16 string | S_U32 string | S_I32 string | S_FLT string
  | S_U8_CLAMP string int int

section \<open>The struct and its initial value\<close>

definition m225_fields1 :: "(string \<times> ftype) list" where
  "m225_fields1 = [
    (''usa'', TBool), (''lft'', TBool), (''oiml'', TBool), (''time_format'', TChars 4), (''date_format'', TChars 12),
    (''consecutive_number'', TU32), (''clear_tare'', TBool), (''clear_id'', TBool), (''number_of_scales'', TU8),
    (''totalizer'', TBool), (''mode_of_operation'', TChars 20), (''primary_units'', TChars 4),
    (''secondary_units'', TChars 4), (''zero_tracking'', TChars 6), (''zero_limit'', TBool), (''power_up_zero'', TBool),
    (''sample_rate'', TU8), (''motion_range'', TU8), (''stable_count'', TU8), (''weight_intervals'', TU8),
    (''scale_type'', TChars 8), (''filter_type'', TChars 8), (''filter_level'', TU8), (''filter_break'', TU8),
    (''interval'', TU32), (''decimal_place'', TU8), (''capacity'', TU32), (''low_interval'', TU32),
    (''low_decimal_place'', TU8), (''low_capacity'', TU32), (''high_interval'', TU32), (''high_decimal_place'', TU8),
    (''high_capacity'', TU32), (''prelim_filter_count'', TU8), (''span_weight'', TFloat), (''span_count'', TU32),
    (''zero_count'', TU32), (''lc1'', TU32), (''lc2'', TU32), (''lc3'', TU32), (''lc4'', TU32), (''cell_trimming'', TFloat),
    (''cell_id'', TU8), (''cell_to_scale'', TChars 8), (''cells_per_scale'', TU8), (''cell_trim'', TFloat)]"

definition m225_fields2 :: "(string \<times> ftype) list" where
  "m225_fields2 = [
    (''serial_type'', TChars 12), (''baud_rate'', TChars 8), (''data_bits'', TChars 2), (''stop_bits'', TChars 2),
    (''parity'', TChars 6), (''transfer_condition'', TChars 12), (''serial_scale'', TChars 16), (''gross_only'', TBool),
    (''manual_mode'', TBool), (''message_slot'', TChars 12), (''electrical_interface'', TChars 6),
    (''sb_high_threshold'', TU32), (''ethernet_enable'', TBool), (''eth_dhcp'', TBool), (''eth_ip'', TChars 16),
    (''eth_gateway'', TChars 16), (''eth_subnet'', TChars 16), (''server_port_a'', TU16), (''server_port_b'', TU16),
    (''server_port_c'', TU16), (''client_server_port'', TU16), (''eth_port_type'', TChars 8),
    (''eth_port_threshold'', TU32), (''eth_message_slot'', TChars 12), (''wifi_enable'', TBool), (''wifi_dhcp'', TBool),
    (''wifi_ssid'', TChars 32), (''wifi_password'', TChars 32), (''wifi_port_type'', TChars 8),
    (''wifi_port_threshold'', TU32), (''wifi_message_slot'', TChars 12), (''site_order'', TChars 32),
    (''isite_dhcp'', TBool), (''isite_ip'', TChars 16), (''isite_subnet'', TChars 16), (''isite_gateway'', TChars 16),
    (''dns1'', TChars 16), (''dns2'', TChars 16), (''enable_dns'', TBool), (''send_gross_enable'', TBool),
    (''gross_weight_port'', TChars 8)]"

definition m225_fields3 :: "(string \<times> ftype) list" where
  "m225_fields3 = [
    (''printer_port'', TChars 8), (''auto_lf'', TBool), (''ending_lf'', TU8), (''end_of_line'', TChars 4),
    (''start_of_ticket'', TChars 32), (''end_of_ticket'', TChars 32), (''end_of_ticket_lf'', TU8), (''print_slot'', TU8),
    (''time_tab'', TFloat), (''date_tab'', TFloat), (''consecutive_tab'', TFloat), (''gross_tab'', TFloat),
    (''tare_tab'', TFloat), (''net_tab'', TFloat), (''gross_accum_tab'', TFloat), (''net_accum_tab'', TFloat),
    (''id_tab'', TFloat), (''gen_accums'', TBool), (''accumulator_scale1'', TFloat), (''accumulator_scale2'', TFloat),
    (''accumulator_scale3'', TFloat), (''totalizer_accumulator'', TFloat), (''password'', TChars 32),
    (''lr_port'', TChars 8), (''dac_gross'', TBool), (''dac_low_weight'', TFloat), (''dac_high_weight'', TFloat),
    (''dac_volt_output'', TFloat), (''adjust_high'', TI32), (''adjust_low'', TI32), (''dac_scale'', TChars 8),
    (''zero_key_lock'', TBool), (''tare_key_lock'', TBool), (''net_key_lock'', TBool), (''print_key_lock'', TBool),
    (''unit_key_lock'', TBool), (''green_key_lock'', TBool), (''keypad_lock'', TBool), (''id_key_lock'', TBool),
    (''count_key_lock'', TBool), (''mem_key_lock'', TBool), (''preset_key_lock'', TBool), (''delete_key_lock'', TBool),
    (''start_key_lock'', TBool), (''drop_key_lock'', TBool), (''pause_key_lock'', TBool), (''stop_key_lock'', TBool),
    (''restart_key_lock'', TBool), (''dump_key_lock'', TBool), (''reader1_port'', TChars 8), (''reader1_type'', TChars 12),
    (''reader2_port'', TChars 8), (''reader2_type'', TChars 12), (''threshold_weight'', TFloat), (''site_id'', TBool),
    (''computer1_port'', TChars 8), (''computer1_mode'', TChars 12), (''computer2_port'', TChars 8),
    (''computer2_mode'', TChars 12), (''print_passthrough'', TBool), (''traffic_mode'', TChars 4),
    (''traffic_on_threshold'', TFloat), (''traffic_off_threshold'', TFloat), (''traffic_off_delay'', TU8),
    (''enter_relay_command'', TChars 8), (''exit_relay_command'', TChars 8), (''traffic_display'', TBool),
    (''winvrs_dfc_enable'', TBool)]"

definition m225_fields4 :: "(string \<times> ftype) list" where
  "m225_fields4 = [
    (''weight_alarm'', TBool), (''alarm_threshold'', TFloat), (''alarm_time_on'', TU8), (''id_count'', TU8),
    (''prompt1'', TChars 16), (''prompt2'', TChars 16), (''prompt3'', TChars 16), (''dfc_speed'', TChars 12),
    (''gate_sequence'', TChars 6), (''auto_trim'', TBool), (''dfc_auto_print'', TBool), (''multi_drop'', TBool),
    (''dump_gate'', TBool), (''auto_dump'', TBool), (''decumulate'', TBool), (''auto_tare'', TBool),
    (''jog_to_cutoff'', TBool), (''fast_cutoff'', TFloat), (''fill_weight'', TFloat), (''slow_cutoff'', TFloat),
    (''dfc_trim'', TFloat), (''drop_count'', TU8), (''zero_tolerance'', TFloat), (''gate_timer'', TU16),
    (''chatter'', TFloat), (''batcher_speed'', TChars 12), (''batcher_gate_seq'', TChars 6), (''batcher_auto_trim'', TBool),
    (''batcher_auto_print'', TBool), (''batcher_dump_gate'', TBool), (''batcher_auto_dump'', TBool),
    (''batcher_decumulate'', TBool), (''bin_count'', TU8), (''batch_count'', TU32), (''batcher_zero_tolerance'', TFloat),
    (''batcher_gate_timer'', TU16), (''settle_timer'', TU16), (''pkg_id_count'', TU8), (''pkg_prompt1'', TChars 16),
    (''pkg_prompt2'', TChars 16), (''pkg_prompt3'', TChars 16), (''retain_id'', TBool), (''aw_mode'', TChars 8),
    (''axle_pads'', TBool), (''axle_threshold'', TFloat), (''stop_delay'', TU16), (''total_delay'', TU16),
    (''axle_counter'', TU32), (''cw_outputs'', TU8), (''cw_auto_print'', TBool), (''under_threshold'', TFloat),
    (''low_ok_threshold'', TFloat), (''high_ok_threshold'', TFloat), (''over_threshold'', TFloat),
    (''color_under'', TChars 8), (''color_low_ok'', TChars 8), (''color_high_ok'', TChars 8),
    (''color_accept_ok'', TChars 8), (''color_over'', TChars 8), (''number_of_pwc_outputs'', TU8),
    (''balance_on_print'', TBool), (''monitor_zero'', TBool), (''pwc_threshold'', TFloat), (''pwc_trim'', TFloat),
    (''output_scale'', TChars 8), (''inclinometer'', TBool), (''set_pitch'', TFloat), (''set_roll'', TFloat),
    (''snap_mediabox'', TBool), (''snap_id'', TU8), (''snap_channel'', TU8), (''scale_id'', TU8),
    (''calibration_counter'', TU32), (''configuration_counter'', TU32)]"

definition m225_fields :: "(string \<times> ftype) list" where
  "m225_fields = m225_fields1 @ m225_fields2 @ m225_fields3 @ m225_fields4"

definition s_m225_init1 :: "'f float_lib \<Rightarrow> (string \<times> 'f fval) list" where
  "s_m225_init1 lib = [
    (''usa'', Bool True), (''lft'', Bool False), (''oiml'', Bool False), (''time_format'', Str ''12H''),
    (''date_format'', Str ''MM-DD-YYYY''), (''consecutive_number'', U32 1), (''clear_tare'', Bool False),
    (''clear_id'', Bool False), (''number_of_scales'', U8 1), (''totalizer'', Bool False),
    (''mode_of_operation'', Str ''Normal''), (''primary_units'', Str ''lb''), (''secondary_units'', Str ''kg''),
    (''zero_tracking'', Str ''0.0d''), (''zero_limit'', Bool False), (''power_up_zero'', Bool False),
    (''sample_rate'', U8 4), (''motion_range'', U8 3), (''stable_count'', U8 3), (''weight_intervals'', U8 1),
    (''scale_type'', Str ''Analog''), (''filter_type'', Str ''None''), (''filter_level'', U8 2), (''filter_break'', U8 1),
    (''interval'', U32 10), (''decimal_place'', U8 0), (''capacity'', U32 50000), (''low_interval'', U32 10),
    (''low_decimal_place'', U8 0), (''low_capacity'', U32 50000), (''high_interval'', U32 10),
    (''high_decimal_place'', U8 0), (''high_capacity'', U32 100000), (''prelim_filter_count'', U8 0),
    (''span_weight'', Flt (atof lib ''0.0'')), (''span_count'', U32 0), (''zero_count'', U32 0), (''lc1'', U32 1000),
    (''lc2'', U32 1000), (''lc3'', U32 1000), (''lc4'', U32 1000), (''cell_trimming'', Flt (atof lib ''1.0'')),
    (''cell_id'', U8 0), (''cell_to_scale'', Str ''Scale1''), (''cells_per_scale'', U8 0),
    (''cell_trim'', Flt (atof lib ''1.0''))]"

definition s_m225_init2 :: "'f float_lib \<Rightarrow> (string \<times> 'f fval) list" where
  "s_m225_init2 lib = [
    (''serial_type'', Str ''SMA''), (''baud_rate'', Str ''9600''), (''data_bits'', Str ''8''), (''stop_bits'', Str ''1''),
    (''parity'', Str ''None''), (''transfer_condition'', Str ''Continuous''), (''serial_scale'', Str ''CurrentSelected''),
    (''gross_only'', Bool False), (''manual_mode'', Bool False), (''message_slot'', Str ''Disabled''),
    (''electrical_interface'', Str ''RS232''), (''sb_high_threshold'', U32 1500), (''ethernet_enable'', Bool False),
    (''eth_dhcp'', Bool True), (''eth_ip'', Str ''192.168.4.138''), (''eth_gateway'', Str ''192.168.4.1''),
    (''eth_subnet'', Str ''255.255.255.0''), (''server_port_a'', U16 10010), (''server_port_b'', U16 10011),
    (''server_port_c'', U16 10012), (''client_server_port'', U16 10010), (''eth_port_type'', Str ''SB600''),
    (''eth_port_threshold'', U32 1500), (''eth_message_slot'', Str ''Disabled''), (''wifi_enable'', Bool True),
    (''wifi_dhcp'', Bool True), (''wifi_ssid'', Str ''195''), (''wifi_password'', Str ''12345678''),
    (''wifi_port_type'', Str ''SB600''), (''wifi_port_threshold'', U32 1500), (''wifi_message_slot'', Str ''Disabled''),
    (''site_order'', Str ''''), (''isite_dhcp'', Bool True), (''isite_ip'', Str ''192.168.1.70''),
    (''isite_subnet'', Str ''255.255.255.0''), (''isite_gateway'', Str ''192.168.1.1''), (''dns1'', Str ''8.8.8.8''),
    (''dns2'', Str ''8.8.4.4''), (''enable_dns'', Bool True), (''send_gross_enable'', Bool False),
    (''gross_weight_port'', Str ''Com1'')]"

definition s_m225_init3 :: "'f float_lib \<Rightarrow> (string \<times> 'f fval) list" where
  "s_m225_init3 lib = [
    (''printer_port'', Str ''Com1''), (''auto_lf'', Bool False), (''ending_lf'', U8 0), (''end_of_line'', Str ''0D''),
    (''start_of_ticket'', Str ''''), (''end_of_ticket'', Str ''''), (''end_of_ticket_lf'', U8 0), (''print_slot'', U8 0),
    (''time_tab'', Flt (atof lib ''1.0'')), (''date_tab'', Flt (atof lib ''2.0'')),
    (''consecutive_tab'', Flt (atof lib ''6.0'')), (''gross_tab'', Flt (atof lib ''7.0'')),
    (''tare_tab'', Flt (atof lib ''8.0'')), (''net_tab'', Flt (atof lib ''9.0'')),
    (''gross_accum_tab'', Flt (atof lib ''0.0'')), (''net_accum_tab'', Flt (atof lib ''0.0'')),
    (''id_tab'', Flt (atof lib ''3.05'')), (''gen_accums'', Bool True), (''accumulator_scale1'', Flt (atof lib ''0.0'')),
    (''accumulator_scale2'', Flt (atof lib ''0.0'')), (''accumulator_scale3'', Flt (atof lib ''0.0'')),
    (''totalizer_accumulator'', Flt (atof lib ''0.0'')), (''password'', Str ''''), (''lr_port'', Str ''Com1''),
    (''dac_gross'', Bool True), (''dac_low_weight'', Flt (atof lib ''0.0'')),
    (''dac_high_weight'', Flt (atof lib ''50000.0'')), (''dac_volt_output'', Flt (atof lib ''10.0'')),
    (''adjust_high'', I32 0), (''adjust_low'', I32 0), (''dac_scale'', Str ''Scale1''), (''zero_key_lock'', Bool False),
    (''tare_key_lock'', Bool False), (''net_key_lock'', Bool False), (''print_key_lock'', Bool False),
    (''unit_key_lock'', Bool False), (''green_key_lock'', Bool False), (''keypad_lock'', Bool False),
    (''id_key_lock'', Bool False), (''count_key_lock'', Bool False), (''mem_key_lock'', Bool False),
    (''preset_key_lock'', Bool False), (''delete_key_lock'', Bool False), (''start_key_lock'', Bool False),
    (''drop_key_lock'', Bool False), (''pause_key_lock'', Bool False), (''stop_key_lock'', Bool False),
    (''restart_key_lock'', Bool False), (''dump_key_lock'', Bool False), (''reader1_port'', Str ''Com1''),
    (''reader1_type'', Str ''None''), (''reader2_port'', Str ''Com1''), (''reader2_type'', Str ''None''),
    (''threshold_weight'', Flt (atof lib ''0.0'')), (''site_id'', Bool False), (''computer1_port'', Str ''Com1''),
    (''computer1_mode'', Str ''Disabled''), (''computer2_port'', Str ''Com1''), (''computer2_mode'', Str ''Disabled''),
    (''print_passthrough'', Bool False), (''traffic_mode'', Str ''Off''),
    (''traffic_on_threshold'', Flt (atof lib ''0.0'')), (''traffic_off_threshold'', Flt (atof lib ''0.0'')),
    (''traffic_off_delay'', U8 1), (''enter_relay_command'', Str ''3!4''), (''exit_relay_command'', Str ''1!2''),
    (''traffic_display'', Bool False), (''winvrs_dfc_enable'', Bool False)]"

definition s_m225_init4 :: "'f float_lib \<Rightarrow> (string \<times> 'f fval) list" where
  "s_m225_init4 lib = [
    (''weight_alarm'', Bool False), (''alarm_threshold'', Flt (atof lib ''1000.0'')), (''alarm_time_on'', U8 99),
    (''id_count'', U8 1), (''prompt1'', Str ''ID''), (''prompt2'', Str ''ID2''), (''prompt3'', Str ''ID3''),
    (''dfc_speed'', Str ''SingleSpeed''), (''gate_sequence'', Str ''ABB''), (''auto_trim'', Bool False),
    (''dfc_auto_print'', Bool False), (''multi_drop'', Bool False), (''dump_gate'', Bool False),
    (''auto_dump'', Bool False), (''decumulate'', Bool False), (''auto_tare'', Bool False), (''jog_to_cutoff'', Bool False),
    (''fast_cutoff'', Flt (atof lib ''0.0'')), (''fill_weight'', Flt (atof lib ''0.0'')),
    (''slow_cutoff'', Flt (atof lib ''0.0'')), (''dfc_trim'', Flt (atof lib ''0.0'')), (''drop_count'', U8 0),
    (''zero_tolerance'', Flt (atof lib ''0.0'')), (''gate_timer'', U16 0), (''chatter'', Flt (atof lib ''0.0'')),
    (''batcher_speed'', Str ''SingleSpeed''), (''batcher_gate_seq'', Str ''ABB''), (''batcher_auto_trim'', Bool False),
    (''batcher_auto_print'', Bool False), (''batcher_dump_gate'', Bool False), (''batcher_auto_dump'', Bool False),
    (''batcher_decumulate'', Bool False), (''bin_count'', U8 4), (''batch_count'', U32 0),
    (''batcher_zero_tolerance'', Flt (atof lib ''0.0'')), (''batcher_gate_timer'', U16 0), (''settle_timer'', U16 0),
    (''pkg_id_count'', U8 1), (''pkg_prompt1'', Str ''ID''), (''pkg_prompt2'', Str ''ID2''), (''pkg_prompt3'', Str ''ID3''),
    (''retain_id'', Bool False), (''aw_mode'', Str ''Auto''), (''axle_pads'', Bool False),
    (''axle_threshold'', Flt (atof lib ''500.0'')), (''stop_delay'', U16 0), (''total_delay'', U16 0),
    (''axle_counter'', U32 1), (''cw_outputs'', U8 3), (''cw_auto_print'', Bool False),
    (''under_threshold'', Flt (atof lib ''500.0'')), (''low_ok_threshold'', Flt (atof lib ''1000.0'')),
    (''high_ok_threshold'', Flt (atof lib ''1500.0'')), (''over_threshold'', Flt (atof lib ''2000.0'')),
    (''color_under'', Str ''Yellow''), (''color_low_ok'', Str ''Pink''), (''color_high_ok'', Str ''Blue''),
    (''color_accept_ok'', Str ''Green''), (''color_over'', Str ''Red''), (''number_of_pwc_outputs'', U8 1),
    (''balance_on_print'', Bool False), (''monitor_zero'', Bool False), (''pwc_threshold'', Flt (atof lib ''0.0'')),
    (''pwc_trim'', Flt (atof lib ''0.0'')), (''output_scale'', Str ''Scale1''), (''inclinometer'', Bool False),
    (''set_pitch'', Flt (atof lib ''0.0'')), (''set_roll'', Flt (atof lib ''0.0'')), (''snap_mediabox'', Bool False),
    (''snap_id'', U8 0), (''snap_channel'', U8 15), (''scale_id'', U8 0), (''calibration_counter'', U32 0),
    (''configuration_counter'', U32 0)]"

definition s_m225_init :: "'f float_lib \<Rightarrow> (string \<times> 'f fval) list" where
  "s_m225_init lib = s_m225_init1 lib @ s_m225_init2 lib @ s_m225_init3 lib @ s_m225_init4 lib"

section \<open>The chains of comparisons\<close>

text \<open>First the blocks that apply in one context only, then the chain that applies in every context.\<close>

definition get_ctx2 :: "(string \<times> (string \<times> getter) list) list" where
  "get_ctx2 = [
    (''Ethernet'', [
      (''DHCP'', G_BOOL ''eth_dhcp''), (''IPAddress'', G_STR ''eth_ip''), (''Gateway'', G_STR ''eth_gateway''),
      (''Subnet'', G_STR ''eth_subnet''), (''PortType'', G_STR ''eth_port_type''),
      (''PortThreshold'', G_U32 ''eth_port_threshold''), (''MessageSlot'', G_STR ''eth_message_slot'')]),
    (''WiFi'', [
      (''DHCP'', G_BOOL ''wifi_dhcp''), (''PortType'', G_STR ''wifi_port_type''),
      (''PortThreshold'', G_U32 ''wifi_port_threshold''), (''MessageSlot'', G_STR ''wifi_message_slot''),
      (''Password'', G_STR ''wifi_password'')]),
    (''SerialPorts'', [
      (''MessageSlot'', G_STR ''message_slot'')]),
    (''ISiteIP'', [
      (''DHCP'', G_BOOL ''isite_dhcp''), (''IPAddress'', G_STR ''isite_ip''), (''Subnet'', G_STR ''isite_subnet''),
      (''Gateway'', G_STR ''isite_gateway'')])]"

definition get_ctx3 :: "(string \<times> (string \<times> getter) list) list" where
  "get_ctx3 = [
    (''Accumulators'', [
      (''Password'', G_STR ''password'')]),
    (''BadgeReader'', [
      (''ThresholdWeight'', G_FLOAT ''threshold_weight'')])]"

definition get_ctx4 :: "(string \<times> (string \<times> getter) list) list" where
  "get_ctx4 = [
    (''AxleWeigher'', [
      (''ThresholdWeight'', G_FLOAT ''axle_threshold'')]),
    (''IDStorage'', [
      (''IDCount'', G_U8 ''id_count''), (''Prompt1'', G_STR ''prompt1''), (''Prompt2'', G_STR ''prompt2''),
      (''Prompt3'', G_STR ''prompt3'')]),
    (''PackageWeigher'', [
      (''IDCount'', G_U8 ''pkg_id_count''), (''Prompt1'', G_STR ''pkg_prompt1''), (''Prompt2'', G_STR ''pkg_prompt2''),
      (''Prompt3'', G_STR ''pkg_prompt3'')]),
    (''DFC'', [
      (''Speed'', G_STR ''dfc_speed''), (''GateSequence'', G_STR ''gate_sequence''), (''AutoTrim'', G_BOOL ''auto_trim''),
      (''AutoPrint'', G_BOOL ''dfc_auto_print''), (''DumpGate'', G_BOOL ''dump_gate''),
      (''AutoDump'', G_BOOL ''auto_dump''), (''Decumulate'', G_BOOL ''decumulate''),
      (''ZeroTolerance'', G_FLOAT ''zero_tolerance''), (''GateTimer'', G_U16 ''gate_timer''),
      (''Trim'', G_FLOAT ''dfc_trim'')]),
    (''Batcher'', [
      (''Speed'', G_STR ''batcher_speed''), (''GateSequence'', G_STR ''batcher_gate_seq''),
      (''AutoTrim'', G_BOOL ''batcher_auto_trim''), (''AutoPrint'', G_BOOL ''batcher_auto_print''),
      (''DumpGate'', G_BOOL ''batcher_dump_gate''), (''AutoDump'', G_BOOL ''batcher_auto_dump''),
      (''Decumulate'', G_BOOL ''batcher_decumulate''), (''ZeroTolerance'', G_FLOAT ''batcher_zero_tolerance''),
      (''GateTimer'', G_U16 ''batcher_gate_timer'')]),
    (''CheckWeigher'', [
      (''AutoPrint'', G_BOOL ''cw_auto_print'')]),
    (''PWC'', [
      (''Trim'', G_FLOAT ''pwc_trim'')])]"

definition get_ctx :: "(string \<times> (string \<times> getter) list) list" where
  "get_ctx = get_ctx2 @ get_ctx3 @ get_ctx4"

definition get_flat1 :: "(string \<times> getter) list" where
  "get_flat1 = [
    (''USA'', G_BOOL ''usa''), (''LFT'', G_BOOL ''lft''), (''OIML'', G_BOOL ''oiml''),
    (''TimeFormat'', G_STR ''time_format''), (''DateFormat'', G_STR ''date_format''),
    (''ConsecutiveNumber'', G_U32 ''consecutive_number''), (''ClearTare'', G_BOOL ''clear_tare''),
    (''ClearID'', G_BOOL ''clear_id''), (''NumberOfScales'', G_U8 ''number_of_scales''),
    (''Totalizer'', G_BOOL ''totalizer''), (''ModeOfOperation'', G_STR ''mode_of_operation''),
    (''PrimaryUnits'', G_STR ''primary_units''), (''SecondaryUnits'', G_STR ''secondary_units''),
    (''ZeroTracking'', G_STR ''zero_tracking''), (''ZeroLimit'', G_BOOL ''zero_limit''),
    (''PowerUpZero'', G_BOOL ''power_up_zero''), (''SampleRate'', G_U8 ''sample_rate''),
    (''MotionRange'', G_U8 ''motion_range''), (''StableCount'', G_U8 ''stable_count''),
    (''WeightIntervals'', G_U8 ''weight_intervals''), (''ScaleType'', G_STR ''scale_type''),
    (''FilterType'', G_STR ''filter_type''), (''FilterLevel'', G_U8 ''filter_level''),
    (''FilterBreak'', G_U8 ''filter_break''), (''Interval'', G_U32 ''interval''),
    (''DecimalPlace'', G_U8 ''decimal_place''), (''Capacity'', G_U32 ''capacity''),
    (''LowInterval'', G_U32 ''low_interval''), (''LowDecimalPlace'', G_U8 ''low_decimal_place''),
    (''LowCapacity'', G_U32 ''low_capacity''), (''HighInterval'', G_U32 ''high_interval''),
    (''HighDecimalPlace'', G_U8 ''high_decimal_place''), (''HighCapacity'', G_U32 ''high_capacity''),
    (''PrelimFilterCount'', G_U8 ''prelim_filter_count''), (''SpanWeight'', G_FLOAT ''span_weight''),
    (''SpanCount'', G_U32 ''span_count''), (''ZeroCount'', G_U32 ''zero_count''), (''LC1'', G_U32 ''lc1''),
    (''LC2'', G_U32 ''lc2''), (''LC3'', G_U32 ''lc3''), (''LC4'', G_U32 ''lc4''),
    (''CellTrimming'', G_FLOAT ''cell_trimming''), (''NSC'', G_NA), (''CellID'', G_U8 ''cell_id''),
    (''CellToScale'', G_STR ''cell_to_scale''), (''CellsPerScale'', G_U8 ''cells_per_scale''),
    (''CellTrim'', G_FLOAT ''cell_trim'')]"

definition get_flat2 :: "(string \<times> getter) list" where
  "get_flat2 = [
    (''Type'', G_STR ''serial_type''), (''BaudRate'', G_STR ''baud_rate''), (''DataBits'', G_STR ''data_bits''),
    (''StopBits'', G_STR ''stop_bits''), (''Parity'', G_STR ''parity''),
    (''TransferCondition'', G_STR ''transfer_condition''), (''Scale'', G_STR ''serial_scale''),
    (''GrossOnly'', G_BOOL ''gross_only''), (''ManualMode'', G_BOOL ''manual_mode''),
    (''ElectricalInterface'', G_STR ''electrical_interface''), (''SBHighThreshold'', G_U32 ''sb_high_threshold''),
    (''EthernetEnable'', G_BOOL ''ethernet_enable''), (''ServerPortA'', G_U16 ''server_port_a''),
    (''ServerPortB'', G_U16 ''server_port_b''), (''ServerPortC'', G_U16 ''server_port_c''),
    (''ClientServerPort'', G_U16 ''client_server_port''), (''WiFiEnable'', G_BOOL ''wifi_enable''),
    (''SSID'', G_STR ''wifi_ssid''), (''SiteOrder'', G_STR ''site_order''), (''DNS1'', G_STR ''dns1''),
    (''DNS2'', G_STR ''dns2''), (''EnableDNS'', G_BOOL ''enable_dns''), (''SendGrossEnable'', G_BOOL ''send_gross_enable''),
    (''GrossWeightPort'', G_STR ''gross_weight_port'')]"

definition get_flat3 :: "(string \<times> getter) list" where
  "get_flat3 = [
    (''Port'', G_STR ''printer_port''), (''AutoLF'', G_BOOL ''auto_lf''), (''EndingLF'', G_U8 ''ending_lf''),
    (''EndOfLine'', G_STR ''end_of_line''), (''StartOfTicket'', G_STR ''start_of_ticket''),
    (''EndOfTicket'', G_STR ''end_of_ticket''), (''EndOfTicketLineFeeds'', G_U8 ''end_of_ticket_lf''),
    (''PrintSlot'', G_U8 ''print_slot''), (''TimeTab'', G_FLOAT ''time_tab''), (''DateTab'', G_FLOAT ''date_tab''),
    (''ConsecutiveTab'', G_FLOAT ''consecutive_tab''), (''GrossTab'', G_FLOAT ''gross_tab''),
    (''TareTab'', G_FLOAT ''tare_tab''), (''NetTab'', G_FLOAT ''net_tab''),
    (''GrossAccumTab'', G_FLOAT ''gross_accum_tab''), (''NetAccumTab'', G_FLOAT ''net_accum_tab''),
    (''IDTab'', G_FLOAT ''id_tab''), (''GenAccums'', G_BOOL ''gen_accums''),
    (''AccumulatorScale1'', G_FLOAT ''accumulator_scale1''), (''AccumulatorScale2'', G_FLOAT ''accumulator_scale2''),
    (''AccumulatorScale3'', G_FLOAT ''accumulator_scale3''), (''TotalizerAccumulator'', G_FLOAT ''totalizer_accumulator''),
    (''LRPort'', G_STR ''lr_port''), (''DACGross'', G_BOOL ''dac_gross''), (''DACLowWeight'', G_FLOAT ''dac_low_weight''),
    (''DACHighWeight'', G_FLOAT ''dac_high_weight''), (''DACVoltOutput'', G_FLOAT ''dac_volt_output''),
    (''AdjustHigh'', G_I32 ''adjust_high''), (''AdjustLow'', G_I32 ''adjust_low''), (''DACScale'', G_STR ''dac_scale''),
    (''ZeroKeyLock'', G_BOOL ''zero_key_lock''), (''TareKeyLock'', G_BOOL ''tare_key_lock''),
    (''NetKeyLock'', G_BOOL ''net_key_lock''), (''PrintKeyLock'', G_BOOL ''print_key_lock''),
    (''UnitKeyLock'', G_BOOL ''unit_key_lock''), (''GreenKeyLock'', G_BOOL ''green_key_lock''),
    (''KeypadLock'', G_BOOL ''keypad_lock''), (''IDKeyLock'', G_BOOL ''id_key_lock''),
    (''CountKeyLock'', G_BOOL ''count_key_lock''), (''MemKeyLock'', G_BOOL ''mem_key_lock''),
    (''PresetKeyLock'', G_BOOL ''preset_key_lock''), (''DeleteKeyLock'', G_BOOL ''delete_key_lock''),
    (''StartKeyLock'', G_BOOL ''start_key_lock''), (''DropKeyLock'', G_BOOL ''drop_key_lock''),
    (''PauseKeyLock'', G_BOOL ''pause_key_lock''), (''StopKeyLock'', G_BOOL ''stop_key_lock''),
    (''RestartKeyLock'', G_BOOL ''restart_key_lock''), (''DumpKeyLock'', G_BOOL ''dump_key_lock''),
    (''Reader1Port'', G_STR ''reader1_port''), (''Reader1Type'', G_STR ''reader1_type''),
    (''Reader2Port'', G_STR ''reader2_port''), (''Reader2Type'', G_STR ''reader2_type''), (''SiteID'', G_BOOL ''site_id''),
    (''Computer1Port'', G_STR ''computer1_port''), (''Computer1Mode'', G_STR ''computer1_mode''),
    (''Computer2Port'', G_STR ''computer2_port''), (''Computer2Mode'', G_STR ''computer2_mode''),
    (''PrintPassthrough'', G_BOOL ''print_passthrough''), (''TrafficMode'', G_STR ''traffic_mode''),
    (''TrafficOnThreshold'', G_FLOAT ''traffic_on_threshold''),
    (''TrafficOffThreshold'', G_FLOAT ''traffic_off_threshold''), (''TrafficOffDelay'', G_U8 ''traffic_off_delay''),
    (''EnterRelayCommand'', G_STR ''enter_relay_command''), (''ExitRelayCommand'', G_STR ''exit_relay_command''),
    (''TrafficDisplay'', G_BOOL ''traffic_display''), (''DFCEnable'', G_BOOL ''winvrs_dfc_enable'')]"

definition get_flat4 :: "(string \<times> getter) list" where
  "get_flat4 = [
    (''WeightAlarm'', G_BOOL ''weight_alarm''), (''AlarmThreshold'', G_FLOAT ''alarm_threshold''),
    (''AlarmTimeOn'', G_U8 ''alarm_time_on''), (''MultiDrop'', G_BOOL ''multi_drop''), (''AutoTare'', G_BOOL ''auto_tare''),
    (''JogToCutoff'', G_BOOL ''jog_to_cutoff''), (''FastCutoff'', G_FLOAT ''fast_cutoff''),
    (''FillWeight'', G_FLOAT ''fill_weight''), (''SlowCutoff'', G_FLOAT ''slow_cutoff''),
    (''DropCount'', G_U8 ''drop_count''), (''Chatter'', G_FLOAT ''chatter''), (''BinCount'', G_U8 ''bin_count''),
    (''BatchCount'', G_U32 ''batch_count''), (''SettleTimer'', G_U16 ''settle_timer''),
    (''RetainID'', G_BOOL ''retain_id''), (''AWMode'', G_STR ''aw_mode''), (''AxlePads'', G_BOOL ''axle_pads''),
    (''StopDelay'', G_U16 ''stop_delay''), (''TotalDelay'', G_U16 ''total_delay''),
    (''AxleCounter'', G_U32 ''axle_counter''), (''Outputs'', G_U8 ''cw_outputs''),
    (''UnderThreshold'', G_FLOAT ''under_threshold''), (''LowOKThreshold'', G_FLOAT ''low_ok_threshold''),
    (''HighOKThreshold'', G_FLOAT ''high_ok_threshold''), (''OverThreshold'', G_FLOAT ''over_threshold''),
    (''ColorUnder'', G_STR ''color_under''), (''ColorLowOK'', G_STR ''color_low_ok''),
    (''ColorHighOK'', G_STR ''color_high_ok''), (''ColorAcceptOK'', G_STR ''color_accept_ok''),
    (''ColorOver'', G_STR ''color_over''), (''NumberOfOutputs'', G_U8 ''number_of_pwc_outputs''),
    (''BalanceOnPrint'', G_BOOL ''balance_on_print''), (''MonitorZero'', G_BOOL ''monitor_zero''),
    (''Threshold'', G_FLOAT ''pwc_threshold''), (''OutputScale'', G_STR ''output_scale''),
    (''Inclinometer'', G_BOOL ''inclinometer''), (''SetPitch'', G_FLOAT ''set_pitch''), (''SetRoll'', G_FLOAT ''set_roll''),
    (''SnapMediabox'', G_BOOL ''snap_mediabox''), (''SnapID'', G_U8 ''snap_id''), (''Channel'', G_U8 ''snap_channel''),
    (''ScaleID'', G_U8 ''scale_id''), (''CalibrationCounter'', G_U32 ''calibration_counter''),
    (''ConfigurationCounter'', G_U32 ''configuration_counter'')]"

definition get_flat :: "(string \<times> getter) list" where
  "get_flat = get_flat1 @ get_flat2 @ get_flat3 @ get_flat4"

definition set_ctx2 :: "(string \<times> (string \<times> setter) list) list" where
  "set_ctx2 = [
    (''Ethernet'', [
      (''DHCP'', S_BOOL ''eth_dhcp''), (''IPAddress'', S_STR ''eth_ip''), (''Gateway'', S_STR ''eth_gateway''),
      (''Subnet'', S_STR ''eth_subnet''), (''PortType'', S_STR ''eth_port_type''),
      (''PortThreshold'', S_U32 ''eth_port_threshold''), (''MessageSlot'', S_STR ''eth_message_slot'')]),
    (''WiFi'', [
      (''DHCP'', S_BOOL ''wifi_dhcp''), (''PortType'', S_STR ''wifi_port_type''),
      (''PortThreshold'', S_U32 ''wifi_port_threshold''), (''MessageSlot'', S_STR ''wifi_message_slot''),
      (''Password'', S_STR ''wifi_password'')]),
    (''SerialPorts'', [
      (''MessageSlot'', S_STR ''message_slot'')]),
    (''ISiteIP'', [
      (''DHCP'', S_BOOL ''isite_dhcp''), (''IPAddress'', S_STR ''isite_ip''), (''Subnet'', S_STR ''isite_subnet''),
      (''Gateway'', S_STR ''isite_gateway'')])]"

definition set_ctx3 :: "(string \<times> (string \<times> setter) list) list" where
  "set_ctx3 = [
    (''Accumulators'', [
      (''Password'', S_STR ''password'')]),
    (''BadgeReader'', [
      (''ThresholdWeight'', S_FLT ''threshold_weight'')])]"

definition set_ctx4 :: "(string \<times> (string \<times> setter) list) list" where
  "set_ctx4 = [
    (''AxleWeigher'', [
      (''ThresholdWeight'', S_FLT ''axle_threshold'')]),
    (''IDStorage'', [
      (''IDCount'', S_U8 ''id_count''), (''Prompt1'', S_STR ''prompt1''), (''Prompt2'', S_STR ''prompt2''),
      (''Prompt3'', S_STR ''prompt3'')]),
    (''PackageWeigher'', [
      (''IDCount'', S_U8 ''pkg_id_count''), (''Prompt1'', S_STR ''pkg_prompt1''), (''Prompt2'', S_STR ''pkg_prompt2''),
      (''Prompt3'', S_STR ''pkg_prompt3'')]),
    (''DFC'', [
      (''Speed'', S_STR ''dfc_speed''), (''GateSequence'', S_STR ''gate_sequence''), (''AutoTrim'', S_BOOL ''auto_trim''),
      (''AutoPrint'', S_BOOL ''dfc_auto_print''), (''DumpGate'', S_BOOL ''dump_gate''),
      (''AutoDump'', S_BOOL ''auto_dump''), (''Decumulate'', S_BOOL ''decumulate''),
      (''ZeroTolerance'', S_FLT ''zero_tolerance''), (''GateTimer'', S_U16 ''gate_timer''), (''Trim'', S_FLT ''dfc_trim'')]),
    (''Batcher'', [
      (''Speed'', S_STR ''batcher_speed''), (''GateSequence'', S_STR ''batcher_gate_seq''),
      (''AutoTrim'', S_BOOL ''batcher_auto_trim''), (''AutoPrint'', S_BOOL ''batcher_auto_print''),
      (''DumpGate'', S_BOOL ''batcher_dump_gate''), (''AutoDump'', S_BOOL ''batcher_auto_dump''),
      (''Decumulate'', S_BOOL ''batcher_decumulate''), (''ZeroTolerance'', S_FLT ''batcher_zero_tolerance''),
      (''GateTimer'', S_U16 ''batcher_gate_timer'')]),
    (''CheckWeigher'', [
      (''AutoPrint'', S_BOOL ''cw_auto_print'')]),
    (''PWC'', [
      (''Trim'', S_FLT ''pwc_trim'')])]"

definition set_ctx :: "(string \<times> (string \<times> setter) list) list" where
  "set_ctx = set_ctx2 @ set_ctx3 @ set_ctx4"

definition set_flat1 :: "(string \<times> setter) list" where
  "set_flat1 = [
    (''USA'', S_BOOL ''usa''), (''LFT'', S_BOOL ''lft''), (''OIML'', S_BOOL ''oiml''),
    (''TimeFormat'', S_STR ''time_format''), (''DateFormat'', S_STR ''date_format''),
    (''ConsecutiveNumber'', S_U32 ''consecutive_number''), (''ClearTare'', S_BOOL ''clear_tare''),
    (''ClearID'', S_BOOL ''clear_id''), (''NumberOfScales'', S_U8 ''number_of_scales''),
    (''Totalizer'', S_BOOL ''totalizer''), (''ModeOfOperation'', S_STR ''mode_of_operation''),
    (''PrimaryUnits'', S_STR ''primary_units''), (''SecondaryUnits'', S_STR ''secondary_units''),
    (''ZeroTracking'', S_STR ''zero_tracking''), (''ZeroLimit'', S_BOOL ''zero_limit''),
    (''PowerUpZero'', S_BOOL ''power_up_zero''), (''SampleRate'', S_U8_CLAMP ''sample_rate'' 1 16),
    (''MotionRange'', S_U8_CLAMP ''motion_range'' 1 10), (''StableCount'', S_U8_CLAMP ''stable_count'' 1 20),
    (''FilterLevel'', S_U8_CLAMP ''filter_level'' 0 9), (''FilterBreak'', S_U8_CLAMP ''filter_break'' 0 9),
    (''NumberOfScales'', S_U8_CLAMP ''number_of_scales'' 1 3), (''DecimalPlace'', S_U8_CLAMP ''decimal_place'' 0 4),
    (''PrelimFilterCount'', S_U8_CLAMP ''prelim_filter_count'' 0 255), (''WeightIntervals'', S_U8 ''weight_intervals''),
    (''ScaleType'', S_STR ''scale_type''), (''FilterType'', S_STR ''filter_type''), (''Interval'', S_U32 ''interval''),
    (''Capacity'', S_U32 ''capacity''), (''LowInterval'', S_U32 ''low_interval''),
    (''LowDecimalPlace'', S_U8 ''low_decimal_place''), (''LowCapacity'', S_U32 ''low_capacity''),
    (''HighInterval'', S_U32 ''high_interval''), (''HighDecimalPlace'', S_U8 ''high_decimal_place''),
    (''HighCapacity'', S_U32 ''high_capacity''), (''SpanWeight'', S_FLT ''span_weight''),
    (''SpanCount'', S_U32 ''span_count''), (''ZeroCount'', S_U32 ''zero_count''), (''LC1'', S_U32 ''lc1''),
    (''LC2'', S_U32 ''lc2''), (''LC3'', S_U32 ''lc3''), (''LC4'', S_U32 ''lc4''),
    (''CellTrimming'', S_FLT ''cell_trimming''), (''CellID'', S_U8 ''cell_id''), (''CellToScale'', S_STR ''cell_to_scale''),
    (''CellsPerScale'', S_U8 ''cells_per_scale''), (''CellTrim'', S_FLT ''cell_trim'')]"

definition set_flat2 :: "(string \<times> setter) list" where
  "set_flat2 = [
    (''Type'', S_STR ''serial_type''), (''BaudRate'', S_STR ''baud_rate''), (''DataBits'', S_STR ''data_bits''),
    (''StopBits'', S_STR ''stop_bits''), (''Parity'', S_STR ''parity''),
    (''TransferCondition'', S_STR ''transfer_condition''), (''Scale'', S_STR ''serial_scale''),
    (''GrossOnly'', S_BOOL ''gross_only''), (''ManualMode'', S_BOOL ''manual_mode''),
    (''ElectricalInterface'', S_STR ''electrical_interface''), (''SBHighThreshold'', S_U32 ''sb_high_threshold''),
    (''EthernetEnable'', S_BOOL ''ethernet_enable''), (''ServerPortA'', S_U16 ''server_port_a''),
    (''ServerPortB'', S_U16 ''server_port_b''), (''ServerPortC'', S_U16 ''server_port_c''),
    (''ClientServerPort'', S_U16 ''client_server_port''), (''WiFiEnable'', S_BOOL ''wifi_enable''),
    (''SSID'', S_STR ''wifi_ssid''), (''SiteOrder'', S_STR ''site_order''), (''DNS1'', S_STR ''dns1''),
    (''DNS2'', S_STR ''dns2''), (''EnableDNS'', S_BOOL ''enable_dns''), (''SendGrossEnable'', S_BOOL ''send_gross_enable''),
    (''GrossWeightPort'', S_STR ''gross_weight_port'')]"

definition set_flat3 :: "(string \<times> setter) list" where
  "set_flat3 = [
    (''Port'', S_STR ''printer_port''), (''AutoLF'', S_BOOL ''auto_lf''), (''EndingLF'', S_U8 ''ending_lf''),
    (''EndOfLine'', S_STR ''end_of_line''), (''StartOfTicket'', S_STR ''start_of_ticket''),
    (''EndOfTicket'', S_STR ''end_of_ticket''), (''EndOfTicketLineFeeds'', S_U8 ''end_of_ticket_lf''),
    (''PrintSlot'', S_U8 ''print_slot''), (''TimeTab'', S_FLT ''time_tab''), (''DateTab'', S_FLT ''date_tab''),
    (''ConsecutiveTab'', S_FLT ''consecutive_tab''), (''GrossTab'', S_FLT ''gross_tab''), (''TareTab'', S_FLT ''tare_tab''),
    (''NetTab'', S_FLT ''net_tab''), (''GrossAccumTab'', S_FLT ''gross_accum_tab''),
    (''NetAccumTab'', S_FLT ''net_accum_tab''), (''IDTab'', S_FLT ''id_tab''), (''GenAccums'', S_BOOL ''gen_accums''),
    (''LRPort'', S_STR ''lr_port''), (''DACGross'', S_BOOL ''dac_gross''), (''DACLowWeight'', S_FLT ''dac_low_weight''),
    (''DACHighWeight'', S_FLT ''dac_high_weight''), (''DACVoltOutput'', S_FLT ''dac_volt_output''),
    (''AdjustHigh'', S_I32 ''adjust_high''), (''AdjustLow'', S_I32 ''adjust_low''), (''DACScale'', S_STR ''dac_scale''),
    (''ZeroKeyLock'', S_BOOL ''zero_key_lock''), (''TareKeyLock'', S_BOOL ''tare_key_lock''),
    (''NetKeyLock'', S_BOOL ''net_key_lock''), (''PrintKeyLock'', S_BOOL ''print_key_lock''),
    (''UnitKeyLock'', S_BOOL ''unit_key_lock''), (''GreenKeyLock'', S_BOOL ''green_key_lock''),
    (''KeypadLock'', S_BOOL ''keypad_lock''), (''IDKeyLock'', S_BOOL ''id_key_lock''),
    (''CountKeyLock'', S_BOOL ''count_key_lock''), (''MemKeyLock'', S_BOOL ''mem_key_lock''),
    (''PresetKeyLock'', S_BOOL ''preset_key_lock''), (''DeleteKeyLock'', S_BOOL ''delete_key_lock''),
    (''StartKeyLock'', S_BOOL ''start_key_lock''), (''DropKeyLock'', S_BOOL ''drop_key_lock''),
    (''PauseKeyLock'', S_BOOL ''pause_key_lock''), (''StopKeyLock'', S_BOOL ''stop_key_lock''),
    (''RestartKeyLock'', S_BOOL ''restart_key_lock''), (''DumpKeyLock'', S_BOOL ''dump_key_lock''),
    (''Reader1Port'', S_STR ''reader1_port''), (''Reader1Type'', S_STR ''reader1_type''),
    (''Reader2Port'', S_STR ''reader2_port''), (''Reader2Type'', S_STR ''reader2_type''), (''SiteID'', S_BOOL ''site_id''),
    (''Computer1Port'', S_STR ''computer1_port''), (''Computer1Mode'', S_STR ''computer1_mode''),
    (''Computer2Port'', S_STR ''computer2_port''), (''Computer2Mode'', S_STR ''computer2_mode''),
    (''PrintPassthrough'', S_BOOL ''print_passthrough''), (''TrafficMode'', S_STR ''traffic_mode''),
    (''TrafficOnThreshold'', S_FLT ''traffic_on_threshold''), (''TrafficOffThreshold'', S_FLT ''traffic_off_threshold''),
    (''TrafficOffDelay'', S_U8 ''traffic_off_delay''), (''EnterRelayCommand'', S_STR ''enter_relay_command''),
    (''ExitRelayCommand'', S_STR ''exit_relay_command''), (''TrafficDisplay'', S_BOOL ''traffic_display''),
    (''DFCEnable'', S_BOOL ''winvrs_dfc_enable'')]"

definition set_flat4 :: "(string \<times> setter) list" where
  "set_flat4 = [
    (''WeightAlarm'', S_BOOL ''weight_alarm''), (''AlarmThreshold'', S_FLT ''alarm_threshold''),
    (''AlarmTimeOn'', S_U8 ''alarm_time_on''), (''MultiDrop'', S_BOOL ''multi_drop''), (''AutoTare'', S_BOOL ''auto_tare''),
    (''JogToCutoff'', S_BOOL ''jog_to_cutoff''), (''FastCutoff'', S_FLT ''fast_cutoff''),
    (''FillWeight'', S_FLT ''fill_weight''), (''SlowCutoff'', S_FLT ''slow_cutoff''), (''DropCount'', S_U8 ''drop_count''),
    (''Chatter'', S_FLT ''chatter''), (''BinCount'', S_U8 ''bin_count''), (''BatchCount'', S_U32 ''batch_count''),
    (''SettleTimer'', S_U16 ''settle_timer''), (''RetainID'', S_BOOL ''retain_id''), (''AWMode'', S_STR ''aw_mode''),
    (''AxlePads'', S_BOOL ''axle_pads''), (''StopDelay'', S_U16 ''stop_delay''), (''TotalDelay'', S_U16 ''total_delay''),
    (''AxleCounter'', S_U32 ''axle_counter''), (''Outputs'', S_U8 ''cw_outputs''),
    (''UnderThreshold'', S_FLT ''under_threshold''), (''LowOKThreshold'', S_FLT ''low_ok_threshold''),
    (''HighOKThreshold'', S_FLT ''high_ok_threshold''), (''OverThreshold'', S_FLT ''over_threshold''),
    (''ColorUnder'', S_STR ''color_under''), (''ColorLowOK'', S_STR ''color_low_ok''),
    (''ColorHighOK'', S_STR ''color_high_ok''), (''ColorAcceptOK'', S_STR ''color_accept_ok''),
    (''ColorOver'', S_STR ''color_over''), (''NumberOfOutputs'', S_U8 ''number_of_pwc_outputs''),
    (''BalanceOnPrint'', S_BOOL ''balance_on_print''), (''MonitorZero'', S_BOOL ''monitor_zero''),
    (''Threshold'', S_FLT ''pwc_threshold''), (''OutputScale'', S_STR ''output_scale''),
    (''Inclinometer'', S_BOOL ''inclinometer''), (''SetPitch'', S_FLT ''set_pitch''), (''SetRoll'', S_FLT ''set_roll''),
    (''SnapMediabox'', S_BOOL ''snap_mediabox''), (''SnapID'', S_U8 ''snap_id''), (''Channel'', S_U8 ''snap_channel''),
    (''ScaleID'', S_U8 ''scale_id'')]"

definition set_flat :: "(string \<times> setter) list" where
  "set_flat = set_flat1 @ set_flat2 @ set_flat3 @ set_flat4"

section \<open>Looking a property up\<close>

definition lookup :: "(string \<times> (string \<times> 'a) list) list \<Rightarrow> (string \<times> 'a) list \<Rightarrow> string \<Rightarrow> string \<Rightarrow> 'a option" where
  "lookup blocks flat ctx name = (case map_of blocks ctx of
     None \<Rightarrow> map_of flat name
   | Some tab \<Rightarrow> (case map_of tab name of None \<Rightarrow> map_of flat name | Some a \<Rightarrow> Some a))"

text \<open>The field an entry touches and the type its macro is written for.\<close>

fun getter_field :: "getter \<Rightarrow> (string \<times> ftype) option" where
  "getter_field (G_BOOL f) = Some (f, TBool)" | "getter_field (G_U8 f) = Some (f, TU8)"
| "getter_field (G_U16 f) = Some (f, TU16)" | "getter_field (G_U32 f) = Some (f, TU32)"
| "getter_field (G_I32 f) = Some (f, TI32)" | "getter_field (G_FLOAT f) = Some (f, TFloat)"
| "getter_field (G_STR f) = Some (f, TChars 0)" | "getter_field G_NA = None"

fun setter_field :: "setter \<Rightarrow> string \<times> ftype" where
  "setter_field (S_STR f) = (f, TChars 0)" | "setter_field (S_BOOL f) = (f, TBool)" | "setter_field (S_U8 f) = (f, TU8)"
| "setter_field (S_U16 f) = (f, TU16)" | "setter_field (S_U32 f) = (f, TU32)" | "setter_field (S_I32 f) = (f, TI32)"
| "setter_field (S_FLT f) = (f, TFloat)" | "setter_field (S_U8_CLAMP f lo hi) = (f, TU8)"

section \<open>Checks that stay linear in the tables\<close>

text \<open>A list is distinct when a number computed from each element is, and numbers are told apart bit by bit.\<close>

definition hash :: "string \<Rightarrow> int" where
  "hash s = foldl (\<lambda>h c. (h * 33 + of_char c) mod 65521) 0 s"

definition short :: "'a list \<Rightarrow> bool" where
  "short xs = (case xs of [] \<Rightarrow> True | y # ys \<Rightarrow> ys = [])"

primrec radix_distinct :: "nat \<Rightarrow> int list \<Rightarrow> bool" where
  "radix_distinct 0 xs = short xs"
| "radix_distinct (Suc k) xs = (short xs \<or>
     radix_distinct k (map (\<lambda>n. n div 2) (filter even xs)) \<and> radix_distinct k (map (\<lambda>n. n div 2) (filter odd xs)))"

lemma distinct_by_parity: "distinct (filter even xs) \<Longrightarrow> distinct (filter odd xs) \<Longrightarrow> distinct (xs :: int list)"
  by (induction xs) (auto split: if_splits)

lemma radix_distinct: "radix_distinct k xs \<Longrightarrow> distinct xs"
proof (induction k arbitrary: xs)
  case 0
  then show ?case by (cases xs) (auto simp: short_def)
next
  case (Suc k)
  show ?case
  proof (cases "short xs")
    case True
    then show ?thesis by (cases xs) (auto simp: short_def)
  next
    case False
    then have "distinct (filter even xs)" "distinct (filter odd xs)"
      using Suc.prems by (auto dest!: Suc.IH simp: distinct_map)
    then show ?thesis by (rule distinct_by_parity)
  qed
qed

lemma distinct_by_hash: "radix_distinct k (map hash xs) \<Longrightarrow> distinct xs"
  using radix_distinct distinct_map by blast

text \<open>Inclusion of a list in another that has its elements in nearly the same order: what is left of it after one pass
  over the other, and after a few.\<close>

primrec one_pass :: "'a list \<Rightarrow> 'a list \<Rightarrow> 'a list" where
  "one_pass [] xs = xs"
| "one_pass (y # ys) xs = (case xs of [] \<Rightarrow> [] | x # xs' \<Rightarrow> if x = y then one_pass ys xs' else one_pass ys xs)"

primrec passes :: "nat \<Rightarrow> 'a list \<Rightarrow> 'a list \<Rightarrow> bool" where
  "passes 0 ys xs = (xs = [])"
| "passes (Suc k) ys xs = passes k ys (one_pass ys xs)"

lemma one_pass_subset: "set xs \<subseteq> set ys \<union> set (one_pass ys xs)"
proof (induction ys arbitrary: xs)
  case (Cons y ys)
  show ?case
  proof (cases xs)
    case (Cons x xs')
    then show ?thesis using Cons.IH[of xs] Cons.IH[of xs'] by auto
  qed simp
qed simp

lemma passes_subset: "passes k ys xs \<Longrightarrow> set xs \<subseteq> set ys"
proof (induction k arbitrary: xs)
  case (Suc k)
  then show ?case using one_pass_subset[of xs ys] by fastforce
qed simp

section \<open>The tables are consistent\<close>

definition getter_pairs :: "(string \<times> getter) list \<Rightarrow> (string \<times> (string \<times> ftype) option) list" where
  "getter_pairs tab = map (\<lambda>(n, g). (n, getter_field g)) tab"

definition setter_pairs :: "(string \<times> setter) list \<Rightarrow> (string \<times> (string \<times> ftype) option) list" where
  "setter_pairs tab = map (\<lambda>(n, s). (n, Some (setter_field s))) tab"

definition getter_fields :: "(string \<times> getter) list \<Rightarrow> (string \<times> ftype) list" where
  "getter_fields tab = concat (map (\<lambda>(n, g). case getter_field g of None \<Rightarrow> [] | Some p \<Rightarrow> [p]) tab)"

fun kind_of :: "ftype \<Rightarrow> ftype" where
  "kind_of (TChars n) = TChars 0" | "kind_of t = t"

definition kinds :: "(string \<times> ftype) list \<Rightarrow> (string \<times> ftype) list" where
  "kinds fs = map (\<lambda>(f, t). (f, kind_of t)) fs"

lemma get_flat_distinct: "distinct (map fst get_flat)"
proof (rule distinct_by_hash[of 16])
  show "radix_distinct 16 (map hash (map fst get_flat))" by code_simp
qed

definition all_getters :: "(string \<times> getter) list" where
  "all_getters = concat (map snd get_ctx) @ get_flat"

lemma getter_fields_distinct: "distinct (map fst (getter_fields all_getters))"
proof (rule distinct_by_hash[of 16])
  show "radix_distinct 16 (map hash (map fst (getter_fields all_getters)))" by code_simp
qed

lemma fields_distinct: "distinct (map fst m225_fields)"
proof (rule distinct_by_hash[of 16])
  show "radix_distinct 16 (map hash (map fst m225_fields))" by code_simp
qed

lemma get_kinds1: "set (getter_fields get_flat1) \<subseteq> set (kinds m225_fields1)"
  by (rule passes_subset[of 1]) code_simp
lemma get_kinds2: "set (getter_fields get_flat2) \<subseteq> set (kinds m225_fields2)"
  by (rule passes_subset[of 1]) code_simp
lemma get_kinds3: "set (getter_fields get_flat3) \<subseteq> set (kinds m225_fields3)"
  by (rule passes_subset[of 1]) code_simp
lemma get_kinds4: "set (getter_fields get_flat4) \<subseteq> set (kinds m225_fields4)"
  by (rule passes_subset[of 1]) code_simp

lemma set_pairs1: "set (setter_pairs set_flat1) \<subseteq> set (getter_pairs get_flat1)"
  by (rule passes_subset[of 3]) code_simp
lemma set_pairs2: "set (setter_pairs set_flat2) \<subseteq> set (getter_pairs get_flat2)"
  by (rule passes_subset[of 1]) code_simp
lemma set_pairs3: "set (setter_pairs set_flat3) \<subseteq> set (getter_pairs get_flat3)"
  by (rule passes_subset[of 1]) code_simp
lemma set_pairs4: "set (setter_pairs set_flat4) \<subseteq> set (getter_pairs get_flat4)"
  by (rule passes_subset[of 1]) code_simp

lemma ctx_pairs: "map (\<lambda>(c, tab). (c, setter_pairs tab)) set_ctx = map (\<lambda>(c, tab). (c, getter_pairs tab)) get_ctx"
  by (simp add: set_ctx_def get_ctx_def set_ctx2_def set_ctx3_def set_ctx4_def get_ctx2_def get_ctx3_def get_ctx4_def
      setter_pairs_def getter_pairs_def)

lemma ctx_kinds2: "set (getter_fields (concat (map snd get_ctx2))) \<subseteq> set (kinds m225_fields2)"
  by (rule passes_subset[of 5]) code_simp
lemma ctx_kinds3: "set (getter_fields (concat (map snd get_ctx3))) \<subseteq> set (kinds m225_fields3)"
  by (rule passes_subset[of 2]) code_simp
lemma ctx_kinds4: "set (getter_fields (concat (map snd get_ctx4))) \<subseteq> set (kinds m225_fields4)"
  by (rule passes_subset[of 8]) code_simp

lemma no_counter_setter: "map_of set_flat ''ConfigurationCounter'' = None"
  by code_simp

lemma no_counter_ctx: "list_all (\<lambda>(c, tab). map_of tab ''ConfigurationCounter'' = None) set_ctx"
  by code_simp

section \<open>What the checks give\<close>

lemma getter_fields_append [simp]: "getter_fields (a @ b) = getter_fields a @ getter_fields b"
  by (simp add: getter_fields_def)

lemma getter_fields_mem: "(n, g) \<in> set tab \<Longrightarrow> getter_field g = Some p \<Longrightarrow> p \<in> set (getter_fields tab)"
  by (cases p; induction tab) (auto simp: getter_fields_def)

lemma all_kinds: "set (getter_fields all_getters) \<subseteq> set (kinds m225_fields)"
proof -
  have k: "kinds (a @ b) = kinds a @ kinds b" for a b by (simp add: kinds_def)
  show ?thesis
    unfolding all_getters_def get_ctx_def get_flat_def m225_fields_def k getter_fields_append map_append concat_append set_append
    using get_kinds1 get_kinds2 get_kinds3 get_kinds4 ctx_kinds2 ctx_kinds3 ctx_kinds4 by (intro Un_least) (rule le_supI1 le_supI2, blast)+
qed

lemma getter_entry_unique:
  "distinct (map fst (getter_fields tab)) \<Longrightarrow> (n, g) \<in> set tab \<Longrightarrow> (n', g') \<in> set tab \<Longrightarrow>
    getter_field g = Some (f, t) \<Longrightarrow> getter_field g' = Some (f, t') \<Longrightarrow> (n, g) = (n', g')"
proof (induction tab)
  case (Cons x tab)
  have split: "getter_fields (x # tab) = getter_fields [x] @ getter_fields tab" by (simp add: getter_fields_def)
  have rest: "distinct (map fst (getter_fields tab))" using Cons.prems(1) by (simp add: split)
  have head: "f \<notin> set (map fst (getter_fields tab))" if "getter_field (snd x) = Some (f, u)" for u
    using Cons.prems(1) that by (cases x) (auto simp: split getter_fields_def)
  have mem: "(m, h) \<in> set tab \<Longrightarrow> getter_field h = Some (f, u) \<Longrightarrow> f \<in> set (map fst (getter_fields tab))" for m h u
    using getter_fields_mem[of m h tab "(f, u)"] by force
  show ?case using Cons.prems(2-5) Cons.IH[OF rest] head mem by (metis set_ConsD snd_conv)
qed simp

lemma lookup_get_mem: "lookup get_ctx get_flat ctx name = Some g \<Longrightarrow> (name, g) \<in> set all_getters"
  by (force simp: lookup_def all_getters_def dest!: map_of_SomeD split: option.splits)

lemma lookup_other_field:
  assumes "lookup get_ctx get_flat ctx n = Some g" "lookup get_ctx get_flat ctx' n' = Some g'" "n \<noteq> n' \<or> g \<noteq> g'"
    "getter_field g = Some (f, t)" "getter_field g' = Some (f', t')"
  shows "f \<noteq> f'"
  using getter_entry_unique[OF getter_fields_distinct lookup_get_mem[OF assms(1)] lookup_get_mem[OF assms(2)]] assms by auto

lemma pairs_append: "setter_pairs (a @ b) = setter_pairs a @ setter_pairs b" "getter_pairs (c @ d) = getter_pairs c @ getter_pairs d"
  by (simp_all add: setter_pairs_def getter_pairs_def)

lemma all_pairs: "set (setter_pairs set_flat) \<subseteq> set (getter_pairs get_flat)"
  unfolding set_flat_def get_flat_def pairs_append set_append
  by (intro Un_mono set_pairs1 set_pairs2 set_pairs3 set_pairs4)

lemma flat_match: "map_of set_flat n = Some s \<Longrightarrow> \<exists>g. map_of get_flat n = Some g \<and> getter_field g = Some (setter_field s)"
proof -
  assume "map_of set_flat n = Some s"
  then have "(n, Some (setter_field s)) \<in> set (setter_pairs set_flat)"
    by (force simp: setter_pairs_def dest!: map_of_SomeD)
  then have "(n, Some (setter_field s)) \<in> set (getter_pairs get_flat)"
    using all_pairs by blast
  then obtain g where "(n, g) \<in> set get_flat" "getter_field g = Some (setter_field s)"
    by (auto simp: getter_pairs_def)
  then show ?thesis using get_flat_distinct by auto
qed

lemma ctx_match:
  "map_option setter_pairs (map_of set_ctx c) = map_option getter_pairs (map_of get_ctx c)"
proof -
  have m: "map_of (map (\<lambda>(c, tab). (c, h tab)) xs) c = map_option h (map_of xs c)" for h :: "'x \<Rightarrow> 'y" and xs
    by (induction xs) auto
  show ?thesis using arg_cong[OF ctx_pairs, of "\<lambda>xs. map_of xs c"] by (simp add: m)
qed

lemma pairs_lookup:
  "map_of (setter_pairs tab) n = map_option (\<lambda>s. Some (setter_field s)) (map_of tab n)"
  "map_of (getter_pairs tab') n = map_option getter_field (map_of tab' n)"
  unfolding setter_pairs_def getter_pairs_def by (induction tab, auto) (induction tab', auto)

text \<open>Whatever can be set in a context is read there from the same field as the same type.\<close>

lemma setter_has_getter:
  assumes "lookup set_ctx set_flat ctx name = Some s"
  shows "\<exists>g. lookup get_ctx get_flat ctx name = Some g \<and> getter_field g = Some (setter_field s)"
proof (cases "map_of set_ctx ctx")
  case None
  then show ?thesis using assms flat_match ctx_match[of ctx] by (auto simp: lookup_def split: option.splits)
next
  case (Some ts)
  then obtain tg where tg: "map_of get_ctx ctx = Some tg" "setter_pairs ts = getter_pairs tg"
    using ctx_match[of ctx] by (cases "map_of get_ctx ctx") auto
  have "map_option (\<lambda>s. Some (setter_field s)) (map_of ts name) = map_option getter_field (map_of tg name)"
    using tg(2) pairs_lookup by metis
  then show ?thesis using assms Some tg(1) flat_match by (auto simp: lookup_def split: option.splits)
qed

lemma setter_kind:
  assumes "lookup set_ctx set_flat ctx name = Some s" "setter_field s = (f, k)"
  shows "\<exists>t. map_of m225_fields f = Some t \<and> kind_of t = k"
proof -
  obtain g where g: "lookup get_ctx get_flat ctx name = Some g" "getter_field g = Some (f, k)"
    using setter_has_getter[OF assms(1)] assms(2) by auto
  have "(f, k) \<in> set (kinds m225_fields)"
    using getter_fields_mem[OF lookup_get_mem[OF g(1)] g(2)] all_kinds by blast
  then obtain t where "(f, t) \<in> set m225_fields" "kind_of t = k" by (auto simp: kinds_def)
  then show ?thesis using fields_distinct by auto
qed

lemma counter_not_set:
  assumes "lookup set_ctx set_flat ctx name = Some s"
  shows "fst (setter_field s) \<noteq> ''configuration_counter''"
proof
  assume eq: "fst (setter_field s) = ''configuration_counter''"
  obtain g where g: "lookup get_ctx get_flat ctx name = Some g" "getter_field g = Some (setter_field s)"
    using setter_has_getter[OF assms] by blast
  have "(''ConfigurationCounter'', G_U32 ''configuration_counter'') \<in> set all_getters"
    by (simp add: all_getters_def get_flat_def get_flat4_def)
  then have "name = ''ConfigurationCounter''"
    using getter_entry_unique[OF getter_fields_distinct lookup_get_mem[OF g(1)]] g(2) eq by (cases "setter_field s") auto
  then show False
    using assms no_counter_setter no_counter_ctx map_of_SomeD[of set_ctx ctx]
    by (cases "map_of set_ctx ctx") (fastforce simp: lookup_def list_all_iff)+
qed

end
