(* ===== verification/Decimal.thy ===== *)
theory Decimal
  imports Prelude
begin

text \<open>
  Decimal text, as the firmware exchanges it with the application and the console: what printf writes for an integer
  and what atoi and atol of the 32-bit C library read (they saturate at the bounds of a long, as strtol does there).
\<close>

definition digit_char :: "nat \<Rightarrow> char" where
  "digit_char n = char_of (48 + n)"

fun show_nat :: "nat \<Rightarrow> string" where
  "show_nat n = (if n < 10 then [digit_char n] else show_nat (n div 10) @ [digit_char (n mod 10)])"

declare show_nat.simps [simp del]

definition show_int :: "int \<Rightarrow> string" where
  "show_int i = (if i < 0 then CHR ''-'' # show_nat (nat (- i)) else show_nat (nat i))"

definition is_digit :: "char \<Rightarrow> bool" where
  "is_digit c \<longleftrightarrow> 48 \<le> (of_char c :: nat) \<and> (of_char c :: nat) \<le> 57"

definition is_space :: "char \<Rightarrow> bool" where
  "is_space c \<longleftrightarrow> (of_char c :: nat) = 32 \<or> 9 \<le> (of_char c :: nat) \<and> (of_char c :: nat) \<le> 13"

definition read_nat :: "string \<Rightarrow> nat" where
  "read_nat s = foldl (\<lambda>v c. 10 * v + (of_char c - 48)) 0 s"

definition sign_of :: "string \<Rightarrow> bool \<times> string" where
  "sign_of s = (case s of [] \<Rightarrow> (False, [])
     | c # cs \<Rightarrow> if c = CHR ''-'' then (True, cs) else if c = CHR ''+'' then (False, cs) else (False, s))"

definition strtol :: "string \<Rightarrow> int" where
  "strtol s = (let (neg, t) = sign_of (dropWhile is_space s); v = int (read_nat (takeWhile is_digit t)) in
     if neg then max (- 2147483648) (- v) else min 2147483647 v)"

text \<open>The values of integer members of a struct: unsigned and signed, of a width.\<close>

definition wrap_u :: "nat \<Rightarrow> int \<Rightarrow> int" where "wrap_u w x = x mod 2 ^ w"
definition wrap_s :: "nat \<Rightarrow> int \<Rightarrow> int" where "wrap_s w x = (x + 2 ^ (w - 1)) mod 2 ^ w - 2 ^ (w - 1)"

lemma wrap_u_range: "0 \<le> wrap_u w x \<and> wrap_u w x < 2 ^ w"
  by (simp add: wrap_u_def)

lemma wrap_s_range: "0 < w \<Longrightarrow> - (2 ^ (w - 1)) \<le> wrap_s w x \<and> wrap_s w x < 2 ^ (w - 1)"
proof -
  assume "0 < w"
  then have "(2::int) ^ w = 2 * 2 ^ (w - 1)" by (cases w) auto
  moreover have "0 \<le> (x + 2 ^ (w - 1)) mod 2 ^ w" "(x + 2 ^ (w - 1)) mod 2 ^ w < 2 ^ w" by auto
  ultimately show ?thesis by (simp add: wrap_s_def)
qed

lemma wrap_u_id: "0 \<le> x \<Longrightarrow> x < 2 ^ w \<Longrightarrow> wrap_u w x = x"
  by (simp add: wrap_u_def)

section \<open>Reading what was written\<close>

lemma of_digit_char: "n < 10 \<Longrightarrow> (of_char (digit_char n) :: nat) = 48 + n"
  by (simp add: digit_char_def of_char_of)

lemma is_digit_char: "n < 10 \<Longrightarrow> is_digit (digit_char n)"
  by (simp add: is_digit_def of_digit_char)

lemma digit_not_sign: "is_digit c \<Longrightarrow> c \<noteq> CHR ''-'' \<and> c \<noteq> CHR ''+'' \<and> \<not> is_space c"
  by (auto simp: is_digit_def is_space_def)

lemma read_nat_snoc: "read_nat (s @ [c]) = 10 * read_nat s + (of_char c - 48)"
  by (simp add: read_nat_def)

lemma show_nat_facts: "list_all is_digit (show_nat n) \<and> show_nat n \<noteq> [] \<and> read_nat (show_nat n) = n"
proof (induction n rule: show_nat.induct)
  case (1 n)
  show ?case
  proof (cases "n < 10")
    case True
    then show ?thesis by (subst (1 2 3) show_nat.simps) (simp add: is_digit_char read_nat_def of_digit_char)
  next
    case False
    then show ?thesis using 1
      by (subst (1 2 3) show_nat.simps) (simp add: is_digit_char read_nat_snoc of_digit_char)
  qed
qed

lemma takeWhile_digits: "list_all is_digit s \<Longrightarrow> takeWhile is_digit s = s"
  by (induction s) auto

lemma show_nat_hd: "\<exists>c cs. show_nat n = c # cs \<and> is_digit c"
  using show_nat_facts[of n] by (cases "show_nat n") auto

lemma strtol_show_nat: "strtol (show_nat n) = min 2147483647 (int n)"
proof -
  obtain c cs where c: "show_nat n = c # cs" "is_digit c" using show_nat_hd by blast
  then have "sign_of (dropWhile is_space (show_nat n)) = (False, show_nat n)"
    using digit_not_sign[OF c(2)] by (simp add: sign_of_def)
  then show ?thesis using show_nat_facts[of n] by (simp add: strtol_def takeWhile_digits)
qed

lemma strtol_minus: "strtol (CHR ''-'' # show_nat n) = max (- 2147483648) (- int n)"
  using show_nat_facts[of n] by (simp add: strtol_def sign_of_def takeWhile_digits is_space_def)

lemma strtol_show_int: "- 2147483648 \<le> i \<Longrightarrow> i \<le> 2147483647 \<Longrightarrow> strtol (show_int i) = i"
  by (simp add: show_int_def strtol_show_nat strtol_minus)

end
