(* ===== verification/Model225.thy ===== *)
theory Model225
  imports M225_Tables Decimal
begin

text \<open>
  The Model 225 indicator actor (main/195_Actor.c, main/ble/m225_methods.c, main/ble/nxp_bridge.c): reading and writing
  a configuration property by name in the current menu context, the limits some properties are held to and the
  message about it, the copy kept in flash, the GET and SET commands of the console, and the methods of the menus.
\<close>

section \<open>State\<close>

text \<open>s_actor_ctx is a pointer: to a constant, to the destination name inside the message the actor's task works
  on, or to the actor name in the text of a command from the application, which is gone once the command is done.\<close>

datatype ctx_ptr = Constant string | Message_dest | Command_act

record 'f m225 =
  s_m225 :: "string \<Rightarrow> 'f fval option"
  s_actor_ctx :: ctx_ptr
  rx_dest :: string
  command_act :: "string option"
  s_clamped :: bool
  s_clamp_msg :: string
  nvs_state :: "(string \<Rightarrow> 'f fval option) option"

definition m225_boot :: "'f float_lib \<Rightarrow> 'f m225" where
  "m225_boot lib = \<lparr>s_m225 = map_of (s_m225_init lib), s_actor_ctx = Constant [], rx_dest = [], command_act = None,
     s_clamped = False, s_clamp_msg = [], nvs_state = None\<rparr>"

text \<open>The text the context pointer designates; reading through a dangling pointer has no value.\<close>

definition ctx_value :: "'f m225 \<Rightarrow> string option" where
  "ctx_value m = (case s_actor_ctx m of Constant c \<Rightarrow> Some c | Message_dest \<Rightarrow> Some (rx_dest m) | Command_act \<Rightarrow> command_act m)"

definition m225_set_menu_ctx :: "ctx_ptr \<Rightarrow> 'f m225 \<Rightarrow> 'f m225" where
  "m225_set_menu_ctx c m = m\<lparr>s_actor_ctx := c\<rparr>"

section \<open>The notes about limits and the copy in flash\<close>

definition m225_clamp_begin :: "'f m225 \<Rightarrow> 'f m225" where
  "m225_clamp_begin m = m\<lparr>s_clamped := False, s_clamp_msg := []\<rparr>"

definition m225_clamp_note :: "string \<Rightarrow> string \<Rightarrow> 'f m225 \<Rightarrow> 'f m225" where
  "m225_clamp_note prop applied m = m\<lparr>s_clamped := True, s_clamp_msg := take 127 (prop @ '' clamped to '' @ applied)\<rparr>"

text \<open>Whether the name space can be opened is an input; the results of the later calls are ignored by the code.\<close>

definition m225_nvs_save :: "bool \<Rightarrow> 'f m225 \<Rightarrow> 'f m225" where
  "m225_nvs_save nvs_ok m = (if nvs_ok then m\<lparr>nvs_state := Some (s_m225 m)\<rparr> else m)"

definition m225_nvs_init :: "bool \<Rightarrow> 'f m225 \<Rightarrow> 'f m225" where
  "m225_nvs_init nvs_ok m = (if nvs_ok then (case nvs_state m of None \<Rightarrow> m | Some f \<Rightarrow> m\<lparr>s_m225 := f\<rparr>) else m)"

text \<open>A restart: the variables get their initial values and the copy is read back.\<close>

definition m225_restart :: "'f float_lib \<Rightarrow> bool \<Rightarrow> 'f m225 \<Rightarrow> 'f m225" where
  "m225_restart lib nvs_ok m = m225_nvs_init nvs_ok ((m225_boot lib)\<lparr>nvs_state := nvs_state m\<rparr>)"

section \<open>Reading a property\<close>

definition show_field :: "'f float_lib \<Rightarrow> getter \<Rightarrow> (string \<Rightarrow> 'f fval option) \<Rightarrow> string" where
  "show_field lib g fs = (case g of
     G_BOOL f \<Rightarrow> (case fs f of Some (Bool b) \<Rightarrow> (if b then ''true'' else ''false'') | _ \<Rightarrow> [])
   | G_U8 f \<Rightarrow> (case fs f of Some (U8 w) \<Rightarrow> show_nat (unat w) | _ \<Rightarrow> [])
   | G_U16 f \<Rightarrow> (case fs f of Some (U16 w) \<Rightarrow> show_nat (unat w) | _ \<Rightarrow> [])
   | G_U32 f \<Rightarrow> (case fs f of Some (U32 w) \<Rightarrow> show_nat (unat w) | _ \<Rightarrow> [])
   | G_I32 f \<Rightarrow> (case fs f of Some (I32 w) \<Rightarrow> show_int (sint w) | _ \<Rightarrow> [])
   | G_FLOAT f \<Rightarrow> (case fs f of Some (Flt x) \<Rightarrow> show_g lib x | _ \<Rightarrow> [])
   | G_STR f \<Rightarrow> (case fs f of Some (Str s) \<Rightarrow> s | _ \<Rightarrow> [])
   | G_NA \<Rightarrow> ''N/A'')"

text \<open>None stands for a read through a dangling context pointer.\<close>

definition m225_actor_get :: "'f float_lib \<Rightarrow> string \<Rightarrow> nat \<Rightarrow> 'f m225 \<Rightarrow> (bool \<times> string) option" where
  "m225_actor_get lib name max_len m =
    (if max_len = 0 then Some (False, [])
     else case ctx_value m of None \<Rightarrow> None
      | Some ctx \<Rightarrow> Some (case lookup get_ctx get_flat ctx name of None \<Rightarrow> (False, [])
          | Some g \<Rightarrow> (True, take (max_len - 1) (show_field lib g (s_m225 m)))))"

section \<open>Writing a property\<close>

definition field_size :: "string \<Rightarrow> nat" where
  "field_size f = (case map_of m225_fields f of Some (TChars n) \<Rightarrow> n | _ \<Rightarrow> 0)"

definition put_field :: "string \<Rightarrow> 'f fval \<Rightarrow> 'f m225 \<Rightarrow> 'f m225" where
  "put_field f v m = m\<lparr>s_m225 := (s_m225 m)(f \<mapsto> v)\<rparr>"

definition bump_counter :: "'f m225 \<Rightarrow> 'f m225" where
  "bump_counter m = (case s_m225 m ''configuration_counter'' of
     Some (U32 w) \<Rightarrow> put_field ''configuration_counter'' (U32 (w + 1)) m | _ \<Rightarrow> m)"

definition put_clamped :: "string \<Rightarrow> string \<Rightarrow> int \<Rightarrow> int \<Rightarrow> int \<Rightarrow> 'f m225 \<Rightarrow> 'f m225" where
  "put_clamped name f lo hi v m = (let
     (cv, m1) = (if v < lo then (lo, m225_clamp_note name (show_int lo) m)
                 else if hi < v then (hi, m225_clamp_note name (show_int hi) m) else (v, m)) in
     bump_counter (put_field f (U8 (word_of_int cv)) m1))"

definition run_setter :: "'f float_lib \<Rightarrow> string \<Rightarrow> string \<Rightarrow> setter \<Rightarrow> 'f m225 \<Rightarrow> 'f m225" where
  "run_setter lib name val s m = (case s of
     S_STR f \<Rightarrow> put_field f (Str (take (field_size f - 1) val)) m
   | S_BOOL f \<Rightarrow> put_field f (Bool (val = ''true'' \<or> val = ''1'')) m
   | S_U8 f \<Rightarrow> put_field f (U8 (word_of_int (strtol val))) m
   | S_U16 f \<Rightarrow> put_field f (U16 (word_of_int (strtol val))) m
   | S_U32 f \<Rightarrow> put_field f (U32 (word_of_int (strtol val))) m
   | S_I32 f \<Rightarrow> put_field f (I32 (word_of_int (strtol val))) m
   | S_FLT f \<Rightarrow> put_field f (Flt (atof lib val)) m
   | S_U8_CLAMP f lo hi \<Rightarrow> put_clamped name f lo hi (strtol val) m)"

definition m225_set_property :: "'f float_lib \<Rightarrow> string \<Rightarrow> string \<Rightarrow> 'f m225 \<Rightarrow> 'f m225 option" where
  "m225_set_property lib name val m = (case ctx_value m of None \<Rightarrow> None
     | Some ctx \<Rightarrow> Some (case lookup set_ctx set_flat ctx name of None \<Rightarrow> m | Some s \<Rightarrow> run_setter lib name val s m))"

definition m225_actor_set :: "'f float_lib \<Rightarrow> bool \<Rightarrow> string \<Rightarrow> string \<Rightarrow> 'f m225 \<Rightarrow> (bool \<times> 'f m225) option" where
  "m225_actor_set lib nvs_ok name val m =
    map_option (\<lambda>m1. (True, m225_nvs_save nvs_ok m1)) (m225_set_property lib name val (m225_clamp_begin m))"

section \<open>The console's commands\<close>

text \<open>The task copies each message into its buffer first, so the destination name in that buffer changes with every message.
  The payload is given as what the JSON library makes of it: the names asked for (None for one that is not a string), or the pairs.\<close>

datatype m225_payload = Bad_json | Names "string option list" | Pairs "(string \<times> string option) list"

fun get_names :: "'f float_lib \<Rightarrow> string option list \<Rightarrow> 'f m225 \<Rightarrow> (string \<times> string) list" where
  "get_names lib [] m = []"
| "get_names lib (None # ns) m = get_names lib ns m"
| "get_names lib (Some n # ns) m =
     (n, case m225_actor_get lib n 256 m of Some (ok, v) \<Rightarrow> v | None \<Rightarrow> []) # get_names lib ns m"

definition do_get :: "'f float_lib \<Rightarrow> m225_payload \<Rightarrow> 'f m225 \<Rightarrow> 'f m225 \<times> (string \<times> string) list" where
  "do_get lib p m = (let m1 = m225_set_menu_ctx Message_dest m in
     (m1, case p of Names ns \<Rightarrow> get_names lib ns m1 | _ \<Rightarrow> []))"

fun set_pairs :: "'f float_lib \<Rightarrow> (string \<times> string option) list \<Rightarrow> 'f m225 \<Rightarrow> 'f m225" where
  "set_pairs lib [] m = m"
| "set_pairs lib ((n, None) # ps) m = set_pairs lib ps m"
| "set_pairs lib ((n, Some v) # ps) m =
     set_pairs lib ps (case m225_set_property lib n v m of Some m1 \<Rightarrow> m1 | None \<Rightarrow> m)"

definition do_set :: "'f float_lib \<Rightarrow> m225_payload \<Rightarrow> 'f m225 \<Rightarrow> 'f m225" where
  "do_set lib p m = (let m1 = m225_set_menu_ctx Message_dest m in
     case p of Pairs ps \<Rightarrow> set_pairs lib ps m1 | _ \<Rightarrow> m1)"

text \<open>One turn of the task: a message for a destination with a command name; the answer lists the pairs of a GET.  The message is
  cleared before the task waits for the next one, and with it the name a context pointer may designate.\<close>

definition monitor_turn :: "'f float_lib \<Rightarrow> 'f m225 \<Rightarrow> string \<times> string \<times> m225_payload \<Rightarrow> 'f m225 \<times> (string \<times> string) list list" where
  "monitor_turn lib m msg = (case msg of (dest, cmd, p) \<Rightarrow> let m1 = m\<lparr>rx_dest := dest\<rparr> in
     if cmd = ''GET'' then (let (m2, ans) = do_get lib p m1 in (m2\<lparr>rx_dest := []\<rparr>, [ans]))
     else if cmd = ''SET'' then ((do_set lib p m1)\<lparr>rx_dest := []\<rparr>, [[]])
     else (m1\<lparr>rx_dest := []\<rparr>, [[]]))"

section \<open>Methods\<close>

text \<open>The bridge to the indicator's processor is a stub: it is never ready and answers every method itself.\<close>

definition nxp_bridge_init :: bool where "nxp_bridge_init = False"

definition nxp_bridge_get :: "bool \<Rightarrow> 'f float_lib \<Rightarrow> string \<Rightarrow> nat \<Rightarrow> 'f m225 \<Rightarrow> (bool \<times> string) option" where
  "nxp_bridge_get ready lib name max_len m = (if ready then Some (False, []) else m225_actor_get lib name max_len m)"

definition nxp_bridge_set :: "bool \<Rightarrow> 'f float_lib \<Rightarrow> bool \<Rightarrow> string \<Rightarrow> string \<Rightarrow> 'f m225 \<Rightarrow> (bool \<times> 'f m225) option" where
  "nxp_bridge_set ready lib nvs_ok name val m = (if ready then Some (False, m) else m225_actor_set lib nvs_ok name val m)"

definition nxp_bridge_method :: "bool \<Rightarrow> string \<Rightarrow> string \<Rightarrow> bool \<times> string" where
  "nxp_bridge_method ready actor method =
    (if ready then (False, []) else (True, take 127 (''local:'' @ actor @ ''.'' @ method)))"

definition m225_dispatch_method :: "bool \<Rightarrow> string \<Rightarrow> string \<Rightarrow> string option" where
  "m225_dispatch_method ready actor method = (let (done, result) = nxp_bridge_method ready actor method in
     if done then Some result
     else if actor = ''ScaleCalibration'' \<and> method \<in> {''Zero'', ''Span'', ''Reset'', ''Test'', ''CalibrateSpan'', ''SpanAdjustment''}
       then Some ''ok''
     else if actor = ''IndicatorSetup'' \<and> method \<in> {''ResetCounters'', ''FactoryReset''} then Some ''ok''
     else if actor = ''ScaleSetup'' \<and> method = ''ApplyDefaults'' then Some ''ok''
     else if actor = ''PrinterSetup'' \<and> method = ''TestPrint'' then Some ''ok''
     else if actor = ''ReviewMenu'' \<and> method = ''Refresh'' then Some ''ok''
     else if (actor = ''NTP'' \<or> actor = ''SYSTEM'') \<and> method = ''SetTime'' then Some ''ok''
     else None)"

section \<open>Well-formed configurations\<close>

text \<open>Every field of the struct holds a value of its type (a string with room for its terminator) and the limited
  properties are within their limits.\<close>

fun fits :: "ftype \<Rightarrow> 'f fval \<Rightarrow> bool" where
  "fits TBool (Bool b) = True" | "fits TU8 (U8 w) = True" | "fits TU16 (U16 w) = True" | "fits TU32 (U32 w) = True"
| "fits TI32 (I32 w) = True" | "fits TFloat (Flt x) = True" | "fits (TChars n) (Str s) = (length s < n)" | "fits t v = False"

definition limits :: "(string \<times> int \<times> int) list" where
  "limits = [(''sample_rate'', 1, 16), (''motion_range'', 1, 10), (''stable_count'', 1, 20), (''filter_level'', 0, 9),
     (''filter_break'', 0, 9), (''decimal_place'', 0, 4), (''prelim_filter_count'', 0, 255)]"

definition within :: "int \<Rightarrow> int \<Rightarrow> 'f fval \<Rightarrow> bool" where
  "within lo hi v = (case v of U8 w \<Rightarrow> lo \<le> uint w \<and> uint w \<le> hi | _ \<Rightarrow> False)"

definition config_ok :: "(string \<Rightarrow> 'f fval option) \<Rightarrow> bool" where
  "config_ok fs \<longleftrightarrow> (\<forall>f t. map_of m225_fields f = Some t \<longrightarrow> (\<exists>v. fs f = Some v \<and> fits t v)) \<and>
     (\<forall>f lo hi. map_of limits f = Some (lo, hi) \<longrightarrow> (\<exists>v. fs f = Some v \<and> within lo hi v))"

lemma fits_iff:
  "fits TBool v \<longleftrightarrow> (\<exists>b. v = Bool b)" "fits TU8 v \<longleftrightarrow> (\<exists>w. v = U8 w)" "fits TU16 v \<longleftrightarrow> (\<exists>w. v = U16 w)"
  "fits TU32 v \<longleftrightarrow> (\<exists>w. v = U32 w)" "fits TI32 v \<longleftrightarrow> (\<exists>w. v = I32 w)" "fits TFloat v \<longleftrightarrow> (\<exists>x. v = Flt x)"
  "fits (TChars n) v \<longleftrightarrow> (\<exists>s. v = Str s \<and> length s < n)"
  by (cases v; simp)+

lemma init_names: "map fst (s_m225_init lib) = map fst m225_fields"
  by (simp add: s_m225_init_def s_m225_init1_def s_m225_init2_def s_m225_init3_def s_m225_init4_def
      m225_fields_def m225_fields1_def m225_fields2_def m225_fields3_def m225_fields4_def)

lemma init_fits1: "list_all2 (\<lambda>(f, t) (g, v). fits t v) m225_fields1 (s_m225_init1 lib)"
  by (simp add: m225_fields1_def s_m225_init1_def)
lemma init_fits2: "list_all2 (\<lambda>(f, t) (g, v). fits t v) m225_fields2 (s_m225_init2 lib)"
  by (simp add: m225_fields2_def s_m225_init2_def)
lemma init_fits3: "list_all2 (\<lambda>(f, t) (g, v). fits t v) m225_fields3 (s_m225_init3 lib)"
  by (simp add: m225_fields3_def s_m225_init3_def)
lemma init_fits4: "list_all2 (\<lambda>(f, t) (g, v). fits t v) m225_fields4 (s_m225_init4 lib)"
  by (simp add: m225_fields4_def s_m225_init4_def)

lemma list_all2_map_of:
  "list_all2 (\<lambda>(f, t) (g, v). P t v) xs ys \<Longrightarrow> map fst ys = map fst xs \<Longrightarrow> map_of xs f = Some t \<Longrightarrow>
    \<exists>v. map_of ys f = Some v \<and> P t v"
  by (induction rule: list_all2_induct) (auto split: if_splits)

lemma init_fits: "list_all2 (\<lambda>(f, t) (g, v). fits t v) m225_fields (s_m225_init lib)"
  unfolding m225_fields_def s_m225_init_def
  by (intro list_all2_appendI init_fits1 init_fits2 init_fits3 init_fits4)

lemma init_limits: "list_all (\<lambda>(f, lo, hi). case map_of (s_m225_init1 lib) f of Some v \<Rightarrow> within lo hi v | None \<Rightarrow> False) limits"
  by (simp add: limits_def s_m225_init1_def within_def)

lemma config_ok_boot: "config_ok (s_m225 (m225_boot lib))"
proof -
  have "\<exists>v. map_of (s_m225_init lib) f = Some v \<and> within lo hi v" if "map_of limits f = Some (lo, hi)" for f lo hi
  proof -
    have "(f, lo, hi) \<in> set limits" using that by (rule map_of_SomeD)
    then obtain v where "map_of (s_m225_init1 lib) f = Some v" "within lo hi v"
      using init_limits[of lib] by (fastforce simp: list_all_iff split: option.splits)
    then show ?thesis by (simp add: s_m225_init_def map_add_find_right)
  qed
  then show ?thesis
    using list_all2_map_of[OF init_fits init_names] by (auto simp: config_ok_def m225_boot_def)
qed

lemma config_ok_put:
  assumes "config_ok fs" "map_of m225_fields f = Some t" "fits t v"
    "\<And>lo hi. map_of limits f = Some (lo, hi) \<Longrightarrow> within lo hi v"
  shows "config_ok (fs(f \<mapsto> v))"
  using assms by (auto simp: config_ok_def)

text \<open>The limited properties can only be written by the macro that limits them.\<close>

definition limited :: "setter \<Rightarrow> bool" where
  "limited s = (case map_of limits (fst (setter_field s)) of None \<Rightarrow> True | Some (lo, hi) \<Rightarrow>
     s = S_U8_CLAMP (fst (setter_field s)) lo hi)"

lemma flat_limited1: "list_all (\<lambda>(n, s). limited s) set_flat1" by code_simp
lemma flat_limited2: "list_all (\<lambda>(n, s). limited s) set_flat2" by code_simp
lemma flat_limited3: "list_all (\<lambda>(n, s). limited s) set_flat3" by code_simp
lemma flat_limited4: "list_all (\<lambda>(n, s). limited s) set_flat4" by code_simp
lemma ctx_limited: "list_all (\<lambda>(c, tab). list_all (\<lambda>(n, s). limited s) tab) set_ctx" by code_simp

lemma setter_limited: "lookup set_ctx set_flat ctx name = Some s \<Longrightarrow> limited s"
proof -
  assume a: "lookup set_ctx set_flat ctx name = Some s"
  have flat: "map_of set_flat name = Some s \<Longrightarrow> limited s"
    using flat_limited1 flat_limited2 flat_limited3 flat_limited4 map_of_SomeD[of set_flat name s]
    by (auto simp: set_flat_def list_all_iff)
  have ctx: "map_of set_ctx ctx = Some tab \<Longrightarrow> map_of tab name = Some s \<Longrightarrow> limited s" for tab
    using ctx_limited map_of_SomeD[of set_ctx ctx tab] map_of_SomeD[of tab name s] by (force simp: list_all_iff)
  show ?thesis using a flat ctx by (auto simp: lookup_def split: option.splits)
qed

lemma limits_range: "map_of limits f = Some (lo, hi) \<Longrightarrow> 0 \<le> lo \<and> lo \<le> hi \<and> hi < 256"
  by (auto simp: limits_def split: if_splits)

lemma counter_unlimited: "map_of limits ''configuration_counter'' = None"
  by (simp add: limits_def)

lemma counter_type: "map_of m225_fields ''configuration_counter'' = Some TU32"
proof -
  have "(''configuration_counter'', TU32) \<in> set m225_fields" by (simp add: m225_fields_def m225_fields4_def)
  then show ?thesis using fields_distinct by simp
qed

lemma s_m225_notes [simp]: "s_m225 (m225_clamp_begin m) = s_m225 m" "s_m225 (m225_clamp_note p a m) = s_m225 m"
  "s_m225 (m225_nvs_save ok m) = s_m225 m" "s_m225 (m225_set_menu_ctx c m) = s_m225 m"
  by (simp_all add: m225_clamp_begin_def m225_clamp_note_def m225_nvs_save_def m225_set_menu_ctx_def)

text \<open>What one macro stores in its field, beside the counter of the limiting macro.\<close>

definition stored :: "'f float_lib \<Rightarrow> string \<Rightarrow> setter \<Rightarrow> 'f fval" where
  "stored lib val s = (case s of
     S_STR f \<Rightarrow> Str (take (field_size f - 1) val) | S_BOOL f \<Rightarrow> Bool (val = ''true'' \<or> val = ''1'')
   | S_U8 f \<Rightarrow> U8 (word_of_int (strtol val)) | S_U16 f \<Rightarrow> U16 (word_of_int (strtol val))
   | S_U32 f \<Rightarrow> U32 (word_of_int (strtol val)) | S_I32 f \<Rightarrow> I32 (word_of_int (strtol val))
   | S_FLT f \<Rightarrow> Flt (atof lib val) | S_U8_CLAMP f lo hi \<Rightarrow> U8 (word_of_int (if strtol val < lo then lo else min hi (strtol val))))"

definition bumped :: "(string \<Rightarrow> 'f fval option) \<Rightarrow> string \<Rightarrow> 'f fval option" where
  "bumped fs = (case fs ''configuration_counter'' of Some (U32 w) \<Rightarrow> fs(''configuration_counter'' \<mapsto> U32 (w + 1)) | _ \<Rightarrow> fs)"

definition counts :: "setter \<Rightarrow> bool" where
  "counts s = (case s of S_U8_CLAMP f lo hi \<Rightarrow> True | _ \<Rightarrow> False)"

lemma bump_counter_fields: "s_m225 (bump_counter m) = bumped (s_m225 m)"
  by (auto simp: bump_counter_def bumped_def put_field_def split: option.splits fval.splits)

lemma bumped_other: "f \<noteq> ''configuration_counter'' \<Longrightarrow> bumped fs f = fs f"
  by (auto simp: bumped_def split: option.splits fval.splits)

lemma config_ok_bumped: "config_ok fs \<Longrightarrow> config_ok (bumped fs)"
  by (auto simp: bumped_def counter_unlimited counter_type intro!: config_ok_put split: option.splits fval.splits)

lemma run_setter_fields:
  "s_m225 (run_setter lib name val s m) =
    (let fs = (s_m225 m)(fst (setter_field s) \<mapsto> stored lib val s) in if counts s then bumped fs else fs)"
  by (cases s) (auto simp: run_setter_def put_clamped_def stored_def put_field_def counts_def bump_counter_fields Let_def min_def)

lemma strings_have_room: "list_all (\<lambda>(f, t). t \<noteq> TChars 0) m225_fields"
  by (simp add: m225_fields_def m225_fields1_def m225_fields2_def m225_fields3_def m225_fields4_def)

lemma stored_fits:
  assumes "map_of m225_fields (fst (setter_field s)) = Some t" "kind_of t = snd (setter_field s)" "t \<noteq> TChars 0"
  shows "fits t (stored lib val s)"
  using assms by (cases s; cases t) (auto simp: stored_def field_size_def)

lemma stored_within: "limited s \<Longrightarrow> map_of limits (fst (setter_field s)) = Some (lo, hi) \<Longrightarrow> within lo hi (stored lib val s)"
proof (cases s)
  case (S_U8_CLAMP f l h)
  assume "limited s" "map_of limits (fst (setter_field s)) = Some (lo, hi)"
  then have eq: "l = lo" "h = hi" and r: "0 \<le> lo" "lo \<le> hi" "hi < 256"
    using limits_range by (auto simp: S_U8_CLAMP limited_def)
  let ?x = "if strtol val < lo then lo else min hi (strtol val)"
  have x: "lo \<le> ?x" "?x \<le> hi" using r by auto
  have "uint (word_of_int ?x :: u8) = ?x" using x r by (subst uint_word_of_int) (simp add: mod_pos_pos_trivial)
  then show ?thesis using x eq by (simp add: S_U8_CLAMP stored_def within_def)
qed (auto simp: limited_def)

lemma set_property_ok:
  assumes "m225_set_property lib name val m = Some m1" "config_ok (s_m225 m)"
  shows "config_ok (s_m225 m1)"
proof -
  obtain ctx where ctx: "ctx_value m = Some ctx" using assms(1) by (auto simp: m225_set_property_def split: option.splits)
  show ?thesis
  proof (cases "lookup set_ctx set_flat ctx name")
    case None
    then show ?thesis using assms ctx by (simp add: m225_set_property_def)
  next
    case (Some s)
    then have m1: "m1 = run_setter lib name val s m" using assms(1) ctx by (simp add: m225_set_property_def)
    obtain t where t: "map_of m225_fields (fst (setter_field s)) = Some t" "kind_of t = snd (setter_field s)"
      using setter_kind[OF Some] by (cases "setter_field s") auto
    have room: "t \<noteq> TChars 0" using strings_have_room map_of_SomeD[OF t(1)] by (auto simp: list_all_iff)
    have "config_ok ((s_m225 m)(fst (setter_field s) \<mapsto> stored lib val s))"
      by (rule config_ok_put[OF assms(2) t(1) stored_fits[OF t room] stored_within[OF setter_limited[OF Some]]])
    then show ?thesis by (simp add: m1 run_setter_fields Let_def config_ok_bumped)
  qed
qed

lemma set_pairs_ok: "config_ok (s_m225 m) \<Longrightarrow> config_ok (s_m225 (set_pairs lib ps m))"
proof (induction lib ps m rule: set_pairs.induct)
  case (3 lib n v ps m)
  then show ?case using set_property_ok[of lib n v m] by (cases "m225_set_property lib n v m") auto
qed auto

section \<open>Every reachable configuration is well formed\<close>

text \<open>What can happen to the store: a SET of the application in some context, a change of context, a message of the console,
  the end of a command, a restart of the controller.\<close>

datatype m225_event =
    App_set bool string string | Menu_ctx ctx_ptr "string option" | Console_message string string m225_payload | Restarted bool

definition m225_step :: "'f float_lib \<Rightarrow> 'f m225 \<Rightarrow> m225_event \<Rightarrow> 'f m225 \<times> (string \<times> string) list list" where
  "m225_step lib m e = (case e of
     App_set nvs_ok name val \<Rightarrow> (case m225_actor_set lib nvs_ok name val m of Some (ok, m1) \<Rightarrow> (m1, []) | None \<Rightarrow> (m, []))
   | Menu_ctx c act \<Rightarrow> (m225_set_menu_ctx c (m\<lparr>command_act := act\<rparr>), [])
   | Console_message dest cmd p \<Rightarrow> monitor_turn lib m (dest, cmd, p)
   | Restarted nvs_ok \<Rightarrow> (m225_restart lib nvs_ok m, []))"

definition m225_inv :: "'f m225 \<Rightarrow> bool" where
  "m225_inv m \<longleftrightarrow> config_ok (s_m225 m) \<and> (case nvs_state m of None \<Rightarrow> True | Some fs \<Rightarrow> config_ok fs)"

lemma m225_frame [simp]:
  "nvs_state (put_field f v m) = nvs_state m" "ctx_value (put_field f v m) = ctx_value m"
  "nvs_state (m225_clamp_note p a m) = nvs_state m" "ctx_value (m225_clamp_note p a m) = ctx_value m"
  "nvs_state (m225_clamp_begin m) = nvs_state m" "ctx_value (m225_clamp_begin m) = ctx_value m"
  "ctx_value (m225_nvs_save ok m) = ctx_value m"
  by (simp_all add: put_field_def m225_clamp_note_def m225_clamp_begin_def m225_nvs_save_def ctx_value_def split: ctx_ptr.split)

lemma bump_frame [simp]: "nvs_state (bump_counter m) = nvs_state m" "ctx_value (bump_counter m) = ctx_value m"
  by (simp_all add: bump_counter_def split: option.splits fval.splits)

lemma run_setter_frame [simp]:
  "nvs_state (run_setter lib name val s m) = nvs_state m" "ctx_value (run_setter lib name val s m) = ctx_value m"
  by (cases s; simp add: run_setter_def put_clamped_def Let_def)+

lemma set_property_nvs: "m225_set_property lib name val m = Some m1 \<Longrightarrow> nvs_state m1 = nvs_state m \<and> ctx_value m1 = ctx_value m"
  by (auto simp: m225_set_property_def split: option.splits)

lemma set_pairs_nvs: "nvs_state (set_pairs lib ps m) = nvs_state m"
proof (induction lib ps m rule: set_pairs.induct)
  case (3 lib n v ps m)
  then show ?case using set_property_nvs[of lib n v m] by (cases "m225_set_property lib n v m") auto
qed auto

lemma actor_set_inv:
  assumes "m225_inv m" "m225_actor_set lib nvs_ok name val m = Some (ok, m1)"
  shows "m225_inv m1"
proof -
  obtain m2 where m2: "m225_set_property lib name val (m225_clamp_begin m) = Some m2" "m1 = m225_nvs_save nvs_ok m2"
    using assms(2) by (auto simp: m225_actor_set_def)
  have "config_ok (s_m225 m2)" using set_property_ok[OF m2(1)] assms(1) by (simp add: m225_inv_def)
  moreover have "nvs_state m2 = nvs_state m" using set_property_nvs[OF m2(1)] by simp
  ultimately show ?thesis using assms(1) by (auto simp: m2(2) m225_inv_def m225_nvs_save_def)
qed

lemma monitor_turn_inv: "m225_inv m \<Longrightarrow> m225_inv (fst (monitor_turn lib m msg))"
  by (auto simp: set_pairs_ok set_pairs_nvs monitor_turn_def do_get_def do_set_def m225_inv_def m225_set_menu_ctx_def Let_def split: prod.splits m225_payload.splits)

interpretation m225: event_machine "m225_step lib" m225_inv "\<lambda>e. True" for lib :: "'f float_lib"
proof unfold_locales
  fix m :: "'f m225" and e assume inv: "m225_inv m"
  show "m225_inv (fst (m225_step lib m e))"
  proof (cases e)
    case (App_set nvs_ok name val)
    then show ?thesis using inv actor_set_inv[OF inv] by (auto simp: m225_step_def split: option.splits)
  next
    case (Console_message dest cmd p)
    then show ?thesis using monitor_turn_inv[OF inv] by (simp add: m225_step_def)
  next
    case (Restarted nvs_ok)
    then show ?thesis using inv config_ok_boot[of lib]
      by (auto simp: m225_step_def m225_restart_def m225_nvs_init_def m225_inv_def m225_boot_def split: option.splits)
  qed (use inv in \<open>auto simp: m225_step_def m225_inv_def m225_set_menu_ctx_def\<close>)
qed

lemma m225_inv_boot: "m225_inv (m225_boot lib)"
  using config_ok_boot[of lib] by (simp add: m225_inv_def) (simp add: m225_boot_def)

text \<open>C24: However properties are set, by the application, by console messages, with whatever names and values and in
  whatever context, and through restarts that read the copy back: every field of the configuration keeps a value
  of its C type, every string has room for its terminator, and sample rate, motion range, stable count, filter level
  and break, decimal place and preliminary filter count stay within their limits.\<close>

theorem configuration_well_formed:
  "config_ok (s_m225 (fst (run_events (m225_step lib) (m225_boot lib) es)))"
  using m225.run_inv[OF m225_inv_boot[of lib], of es] by (simp add: m225_inv_def list_all_iff)

section \<open>Setting and reading back\<close>

text \<open>The texts a property reads back unchanged: truth values, numbers in the range of the field (an unsigned 32-bit number
  only up to the largest signed one, which atol saturates at), strings that fit, floats that print as they were given.\<close>

definition canonical :: "'f float_lib \<Rightarrow> setter \<Rightarrow> string \<Rightarrow> bool" where
  "canonical lib s v = (case s of
     S_STR f \<Rightarrow> length v < field_size f
   | S_BOOL f \<Rightarrow> v = ''true'' \<or> v = ''false''
   | S_U8 f \<Rightarrow> v = show_int (strtol v) \<and> 0 \<le> strtol v \<and> strtol v < 256
   | S_U16 f \<Rightarrow> v = show_int (strtol v) \<and> 0 \<le> strtol v \<and> strtol v < 65536
   | S_U32 f \<Rightarrow> v = show_int (strtol v) \<and> 0 \<le> strtol v
   | S_I32 f \<Rightarrow> v = show_int (strtol v)
   | S_FLT f \<Rightarrow> v = show_g lib (atof lib v)
   | S_U8_CLAMP f lo hi \<Rightarrow> v = show_int (strtol v) \<and> lo \<le> strtol v \<and> strtol v \<le> hi \<and> 0 \<le> lo \<and> hi < 256)"

lemma strtol_range: "- 2147483648 \<le> strtol s \<and> strtol s \<le> 2147483647"
  by (auto simp: strtol_def Let_def split: prod.splits)

lemma show_word: "0 \<le> i \<Longrightarrow> i < 2 ^ LENGTH('a::len) \<Longrightarrow> show_nat (unat (word_of_int i :: 'a word)) = show_int i"
proof -
  assume i: "0 \<le> i" "i < 2 ^ LENGTH('a)"
  have "uint (word_of_int i :: 'a word) = i" using i by (simp add: uint_word_of_int mod_pos_pos_trivial)
  then have "unat (word_of_int i :: 'a word) = nat i" by (metis nat_uint_eq)
  then show ?thesis using i by (simp add: show_int_def)
qed

lemma sint_word_of_int_32: "- 2147483648 \<le> i \<Longrightarrow> i \<le> 2147483647 \<Longrightarrow> sint (word_of_int i :: u32) = i"
  by (simp add: sint_sbintrunc' signed_take_bit_int_eq_self)

lemma show_stored:
  assumes "canonical lib s v" "getter_field g = Some (setter_field s)" "fs (fst (setter_field s)) = Some (stored lib v s)"
  shows "show_field lib g fs = v"
  using assms strtol_range[of v]
  by (cases s; cases g)
    (auto simp: canonical_def show_field_def stored_def show_word sint_word_of_int_32 min_def)

lemma actor_set_fields:
  assumes "ctx_value m = Some ctx" "lookup set_ctx set_flat ctx name = Some s"
  shows "\<exists>m1. m225_actor_set lib nvs_ok name v m = Some (True, m1) \<and> ctx_value m1 = Some ctx \<and>
    s_m225 m1 = (let fs = (s_m225 m)(fst (setter_field s) \<mapsto> stored lib v s) in if counts s then bumped fs else fs)"
  using assms by (simp add: m225_actor_set_def m225_set_property_def run_setter_fields)

text \<open>What a set leaves alone, and what a get then answers.\<close>

lemma set_frame:
  "\<not> s_clamped (m225_clamp_begin m)" "command_act (m225_clamp_begin m) = command_act m" "s_actor_ctx (m225_clamp_begin m) = s_actor_ctx m"
  "command_act (m225_nvs_save ok m) = command_act m" "s_actor_ctx (m225_nvs_save ok m) = s_actor_ctx m"
  "s_clamped (m225_nvs_save ok m) = s_clamped m" "s_clamped (put_field f v m) = s_clamped m"
  "command_act (put_field f v m) = command_act m" "s_actor_ctx (put_field f v m) = s_actor_ctx m"
  "command_act (m225_clamp_note a b m) = command_act m" "s_actor_ctx (m225_clamp_note a b m) = s_actor_ctx m"
  "s_clamped (bump_counter m) = s_clamped m" "command_act (bump_counter m) = command_act m" "s_actor_ctx (bump_counter m) = s_actor_ctx m"
  by (simp_all add: m225_clamp_begin_def m225_nvs_save_def put_field_def m225_clamp_note_def bump_counter_def
      split: option.splits fval.splits)

lemma actor_set_frame:
  "m225_actor_set lib saved n v m = Some (ok, m1) \<Longrightarrow> command_act m1 = command_act m \<and> s_actor_ctx m1 = s_actor_ctx m"
proof -
  have "command_act (run_setter lib n v s m) = command_act m \<and> s_actor_ctx (run_setter lib n v s m) = s_actor_ctx m" for s m
    by (cases s) (auto simp: run_setter_def put_clamped_def Let_def set_frame)
  then show "m225_actor_set lib saved n v m = Some (ok, m1) \<Longrightarrow> ?thesis"
    by (auto simp: m225_actor_set_def m225_set_property_def set_frame split: option.splits)
qed

lemma stored_reads_back:
  assumes "ctx_value m = Some ctx" "lookup set_ctx set_flat ctx name = Some s" "canonical lib s v" "length v < max_len"
  shows "\<exists>m1. m225_actor_set lib saved name v m = Some (True, m1) \<and> m225_actor_get lib name max_len m1 = Some (True, v) \<and>
    ctx_value m1 = Some ctx \<and> \<not> s_clamped m1"
proof -
  obtain m1 where m1: "m225_actor_set lib saved name v m = Some (True, m1)" "ctx_value m1 = Some ctx"
    "s_m225 m1 = (let fs = (s_m225 m)(fst (setter_field s) \<mapsto> stored lib v s) in if counts s then bumped fs else fs)"
    using actor_set_fields[OF assms(1,2)] by blast
  obtain g where g: "lookup get_ctx get_flat ctx name = Some g" "getter_field g = Some (setter_field s)"
    using setter_has_getter[OF assms(2)] by blast
  have "s_m225 m1 (fst (setter_field s)) = Some (stored lib v s)"
    using counter_not_set[OF assms(2)] by (auto simp: m1(3) Let_def bumped_other)
  then have "show_field lib g (s_m225 m1) = v" by (rule show_stored[OF assms(3) g(2)])
  moreover have "\<not> s_clamped (run_setter lib name v s (m225_clamp_begin m))"
    using assms(3) by (cases s) (auto simp: run_setter_def put_clamped_def canonical_def set_frame Let_def m225_clamp_begin_def)
  then have "\<not> s_clamped m1"
    using m1(1) assms(1,2) by (auto simp: m225_actor_set_def m225_set_property_def set_frame)
  ultimately show ?thesis using m1(1,2) g(1) assms(4) by (simp add: m225_actor_get_def)
qed

text \<open>A property that can be set in a menu context reads back, in that context, exactly the text that was set, for every
  property of every menu and every text its field can hold.\<close>

theorem set_then_get:
  assumes "ctx_value m = Some ctx" "lookup set_ctx set_flat ctx name = Some s" "canonical lib s v" "length v < max_len"
  shows "\<exists>m1. m225_actor_set lib nvs_ok name v m = Some (True, m1) \<and> m225_actor_get lib name max_len m1 = Some (True, v)"
  using stored_reads_back[OF assms] by blast

definition demo_lib :: "string float_lib" where
  "demo_lib = \<lparr>atof = (\<lambda>s. s), show_g = (\<lambda>s. s)\<rparr>"

theorem set_then_get_witness:
  "\<exists>m1. m225_actor_set demo_lib True ''GateTimer'' ''250'' ((m225_boot demo_lib)\<lparr>s_actor_ctx := Constant ''Batcher''\<rparr>) = Some (True, m1) \<and>
    m225_actor_get demo_lib ''GateTimer'' 256 m1 = Some (True, ''250'')"
proof -
  have l: "lookup set_ctx set_flat ''Batcher'' ''GateTimer'' = Some (S_U16 ''batcher_gate_timer'')"
    by (simp add: lookup_def set_ctx_def set_ctx2_def set_ctx3_def set_ctx4_def)
  have c: "canonical demo_lib (S_U16 ''batcher_gate_timer'') ''250''"
    by code_simp
  show ?thesis by (rule set_then_get[OF _ l c]) (simp_all add: ctx_value_def)
qed

text \<open>C25: Setting a property changes no other one: every other property, read in any context, answers the same as before, and so
  does the property of the same name that another menu keeps for itself (the counter of configuration changes apart, which the
  limited properties advance).\<close>

theorem set_changes_nothing_else:
  assumes "m225_actor_set lib nvs_ok name v m = Some (ok, m1)" "ctx_value m = Some ctx"
    and "other \<noteq> name \<or> lookup get_ctx get_flat c other \<noteq> lookup get_ctx get_flat ctx name" "other \<noteq> ''ConfigurationCounter''"
  shows "m225_actor_get lib other max_len (m225_set_menu_ctx (Constant c) m1) =
    m225_actor_get lib other max_len (m225_set_menu_ctx (Constant c) m)"
proof -
  note ctx = assms(2)
  have same: "show_field lib g (s_m225 m1) = show_field lib g (s_m225 m)" if g: "lookup get_ctx get_flat c other = Some g" for g
  proof (cases "lookup set_ctx set_flat ctx name")
    case None
    then show ?thesis using assms(1) ctx by (auto simp: m225_actor_set_def m225_set_property_def)
  next
    case (Some s)
    let ?f = "fst (setter_field s)"
    obtain g' where g': "lookup get_ctx get_flat ctx name = Some g'" "getter_field g' = Some (setter_field s)"
      using setter_has_getter[OF Some] by blast
    have counter: "(''ConfigurationCounter'', G_U32 ''configuration_counter'') \<in> set all_getters"
      by (simp add: all_getters_def get_flat_def get_flat4_def)
    have keep: "s_m225 m1 f = s_m225 m f" if "getter_field g = Some (f, t)" for f t
    proof -
      have "f \<noteq> ?f" using lookup_other_field[OF g g'(1) _ that] assms(3) g g'  by (cases "setter_field s") auto
      moreover have "f \<noteq> ''configuration_counter''"
        using getter_entry_unique[OF getter_fields_distinct lookup_get_mem[OF g] counter that] assms(4) by auto
      ultimately show ?thesis
        using actor_set_fields[OF ctx Some, of lib nvs_ok v] assms(1) by (auto simp: Let_def bumped_other split: if_splits)
    qed
    show ?thesis by (cases g) (auto simp: show_field_def keep)
  qed
  show ?thesis
    using same by (auto simp: m225_actor_get_def m225_set_menu_ctx_def ctx_value_def split: option.splits)
qed

lemma set_changes_nothing_else_example:
  "lookup set_ctx set_flat [] ''SampleRate'' = Some (S_U8_CLAMP ''sample_rate'' 1 16)"
  by (simp add: lookup_def set_ctx_def set_ctx2_def set_ctx3_def set_ctx4_def set_flat_def set_flat1_def)

theorem set_changes_nothing_else_witness:
  "let m = (m225_boot demo_lib)\<lparr>s_actor_ctx := Constant ''Batcher''\<rparr> in
    \<exists>m1. m225_actor_set demo_lib True ''GateTimer'' ''250'' m = Some (True, m1) \<and>
      m225_actor_get demo_lib ''GateTimer'' 256 (m225_set_menu_ctx (Constant ''DFC'') m1) =
      m225_actor_get demo_lib ''GateTimer'' 256 (m225_set_menu_ctx (Constant ''DFC'') m)"
proof -
  let ?m = "(m225_boot demo_lib)\<lparr>s_actor_ctx := Constant ''Batcher''\<rparr>"
  have l: "lookup set_ctx set_flat ''Batcher'' ''GateTimer'' = Some (S_U16 ''batcher_gate_timer'')"
    "lookup get_ctx get_flat ''Batcher'' ''GateTimer'' = Some (G_U16 ''batcher_gate_timer'')"
    "lookup get_ctx get_flat ''DFC'' ''GateTimer'' = Some (G_U16 ''gate_timer'')"
    by (simp_all add: lookup_def set_ctx_def set_ctx2_def set_ctx3_def set_ctx4_def get_ctx_def get_ctx2_def get_ctx3_def get_ctx4_def)
  have c: "ctx_value ?m = Some ''Batcher''" by (simp add: ctx_value_def)
  then obtain m1 where m1: "m225_actor_set demo_lib True ''GateTimer'' ''250'' ?m = Some (True, m1)"
    using actor_set_fields[OF c l(1)] by blast
  from set_changes_nothing_else[OF m1 c, of "''GateTimer''" "''DFC''"] show ?thesis unfolding Let_def using m1 l by auto
qed

section \<open>Limits\<close>

text \<open>A value outside the limits of a limited property is replaced by the nearer limit, the application is told so by the flag
  and a message that names the property and the limit, the counter of configuration changes advances, and
  a value within the limits is stored as it is with no message.\<close>

theorem limited_property_clamped:
  assumes "ctx_value m = Some ctx" "lookup set_ctx set_flat ctx name = Some (S_U8_CLAMP f lo hi)" "0 \<le> lo" "lo \<le> hi" "hi < 256"
    and "s_m225 m ''configuration_counter'' = Some (U32 n)" "f \<noteq> ''configuration_counter''"
  shows "\<exists>m1. m225_actor_set lib nvs_ok name v m = Some (True, m1) \<and>
    s_m225 m1 f = Some (U8 (word_of_int (max lo (min hi (strtol v))))) \<and>
    s_m225 m1 ''configuration_counter'' = Some (U32 (n + 1)) \<and>
    (s_clamped m1 \<longleftrightarrow> \<not> (lo \<le> strtol v \<and> strtol v \<le> hi)) \<and>
    s_clamp_msg m1 = (if lo \<le> strtol v \<and> strtol v \<le> hi then []
      else take 127 (name @ '' clamped to '' @ show_int (max lo (min hi (strtol v)))))"
proof -
  have r: "m225_set_property lib name v (m225_clamp_begin m) = Some (put_clamped name f lo hi (strtol v) (m225_clamp_begin m))"
    using assms(1,2) by (simp add: m225_set_property_def run_setter_def)
  have mm: "max lo (min hi (strtol v)) = (if strtol v < lo then lo else if hi < strtol v then hi else strtol v)"
    using assms(4) by auto
  show ?thesis
    unfolding m225_actor_set_def r mm using assms(4,6,7)
    by (auto simp: put_clamped_def bump_counter_def put_field_def m225_clamp_begin_def m225_clamp_note_def m225_nvs_save_def Let_def)
qed

theorem limited_property_clamped_witness:
  "\<exists>m1. m225_actor_set demo_lib True ''SampleRate'' ''99'' (m225_boot demo_lib) = Some (True, m1) \<and>
    s_m225 m1 ''sample_rate'' = Some (U8 16) \<and> s_clamped m1 \<and> s_clamp_msg m1 = ''SampleRate clamped to 16''"
proof -
  have c: "ctx_value (m225_boot demo_lib) = Some []" by (simp add: ctx_value_def m225_boot_def)
  obtain v where v: "s_m225 (m225_boot demo_lib) ''configuration_counter'' = Some v" "fits TU32 v"
    using config_ok_boot[of demo_lib] counter_type unfolding config_ok_def by blast
  then obtain n where n: "s_m225 (m225_boot demo_lib) ''configuration_counter'' = Some (U32 n)" by (auto simp: fits_iff)
  have "strtol ''99'' = 99" "show_int 16 = ''16''" by code_simp+
  then show ?thesis
    using limited_property_clamped[OF c set_changes_nothing_else_example _ _ _ n, of demo_lib True "''99''"] by simp blast
qed

text \<open>The number of scales has a limiting entry too, but an unlimited one of the same name comes first.\<close>

lemma number_of_scales_entries:
  "lookup set_ctx set_flat ctx ''NumberOfScales'' = Some (S_U8 ''number_of_scales'')"
  "(''NumberOfScales'', S_U8_CLAMP ''number_of_scales'' 1 3) \<in> set set_flat"
proof -
  have c: "list_all (\<lambda>(c, tab). map_of tab ''NumberOfScales'' = None) set_ctx" by code_simp
  have f: "map_of set_flat ''NumberOfScales'' = Some (S_U8 ''number_of_scales'')"
    by (simp add: set_flat_def set_flat1_def)
  show "lookup set_ctx set_flat ctx ''NumberOfScales'' = Some (S_U8 ''number_of_scales'')"
  proof (cases "map_of set_ctx ctx")
    case (Some tab)
    then have "map_of tab ''NumberOfScales'' = None" using c map_of_SomeD[OF Some] by (auto simp: list_all_iff)
    then show ?thesis using Some f by (simp add: lookup_def)
  qed (simp add: lookup_def f)
  show "(''NumberOfScales'', S_U8_CLAMP ''number_of_scales'' 1 3) \<in> set set_flat"
    by (simp add: set_flat_def set_flat1_def)
qed

text \<open>The number of scales is never held to its limits 1 to 3: whatever number is sent is stored modulo 256 without any message,
  although the chain of setters contains the limiting entry.\<close>

theorem number_of_scales_not_limited:
  "(''NumberOfScales'', S_U8_CLAMP ''number_of_scales'' 1 3) \<in> set set_flat \<and>
   m225_actor_set lib nvs_ok ''NumberOfScales'' v (m225_set_menu_ctx (Constant c) m) =
     Some (True, m225_nvs_save nvs_ok (put_field ''number_of_scales'' (U8 (word_of_int (strtol v)))
       (m225_clamp_begin (m225_set_menu_ctx (Constant c) m))))"
proof -
  have "ctx_value (m225_set_menu_ctx (Constant c) m) = Some c" by (simp add: ctx_value_def m225_set_menu_ctx_def)
  then show ?thesis
    using number_of_scales_entries by (simp add: m225_actor_set_def m225_set_property_def run_setter_def)
qed

text \<open>A menu value that does not fit its field: the port types are offered with the value Disabled but have eight bytes.\<close>

text \<open>Setting the port type of the Ethernet or WiFi menu to Disabled stores Disable: the field has eight bytes and the
  terminator takes the last.\<close>

theorem port_type_disabled_truncated:
  assumes "c = ''Ethernet'' \<or> c = ''WiFi''"
  shows "\<exists>m1. m225_actor_set lib nvs_ok ''PortType'' ''Disabled'' (m225_set_menu_ctx (Constant c) m) = Some (True, m1) \<and>
    m225_actor_get lib ''PortType'' 256 m1 = Some (True, ''Disable'')"
proof -
  have sz: "field_size ''eth_port_type'' = 8" "field_size ''wifi_port_type'' = 8"
    by (simp_all add: field_size_def m225_fields_def m225_fields1_def m225_fields2_def)
  show ?thesis
    using assms sz
    by (auto simp: m225_actor_set_def m225_set_property_def run_setter_def m225_actor_get_def lookup_def put_field_def show_field_def
        m225_set_menu_ctx_def ctx_value_def m225_clamp_begin_def m225_nvs_save_def
        set_ctx_def set_ctx2_def get_ctx_def get_ctx2_def)
qed

theorem port_type_disabled_truncated_witness:
  "\<exists>m1. m225_actor_set demo_lib True ''PortType'' ''Disabled'' (m225_set_menu_ctx (Constant ''WiFi'') (m225_boot demo_lib)) = Some (True, m1) \<and>
    m225_actor_get demo_lib ''PortType'' 256 m1 = Some (True, ''Disable'')"
  by (rule port_type_disabled_truncated) simp

section \<open>Persistence\<close>

text \<open>What the application sets survives a restart when flash can be opened: every property reads the same afterwards.  What
  a console message sets does not: the configuration after the restart is the one saved before.\<close>

theorem application_settings_survive:
  assumes "m225_actor_set lib True name v m = Some (ok, m1)"
  shows "s_m225 (m225_restart lib True m1) = s_m225 m1 \<and>
    s_m225 (m225_restart lib True (fst (monitor_turn lib m1 msg))) = s_m225 m1"
proof -
  have n: "nvs_state m1 = Some (s_m225 m1)" using assms by (auto simp: m225_actor_set_def m225_nvs_save_def)
  have "nvs_state (fst (monitor_turn lib m1 msg)) = nvs_state m1"
    by (auto simp: set_pairs_nvs monitor_turn_def do_get_def do_set_def m225_set_menu_ctx_def Let_def split: prod.splits m225_payload.splits)
  then show ?thesis using n by (simp add: m225_restart_def m225_nvs_init_def)
qed

theorem application_settings_survive_witness:
  "\<exists>m1. m225_actor_set demo_lib True ''SampleRate'' ''8'' (m225_boot demo_lib) = Some (True, m1) \<and>
    s_m225 (m225_restart demo_lib True (fst (monitor_turn demo_lib m1 (''ScaleSetup'', ''SET'', Pairs [(''SampleRate'', Some ''5'')])))) = s_m225 m1"
proof -
  have "ctx_value (m225_boot demo_lib) = Some []" by (simp add: ctx_value_def m225_boot_def)
  then obtain m1 where "m225_actor_set demo_lib True ''SampleRate'' ''8'' (m225_boot demo_lib) = Some (True, m1)"
    using actor_set_fields[OF _ set_changes_nothing_else_example] by blast
  then show ?thesis using application_settings_survive by blast
qed

text \<open>With the bridge as it is, every method of every actor is answered as done, so the table of known methods is never consulted
  and no call is ever refused.\<close>

theorem every_method_answered:
  "m225_dispatch_method nxp_bridge_init actor method = Some (take 127 (''local:'' @ actor @ ''.'' @ method))"
  by (simp add: m225_dispatch_method_def nxp_bridge_method_def nxp_bridge_init_def)

end
