(* ===== verification/Json_Data.thy ===== *)
theory Json_Data
  imports Decimal Complex_Main
begin

text \<open>
  JSON values as the command handler of main/BLE_Actor.c and the menus of main/ble/menu_builder.c build and read them through
  the JSON library, and the conversions of numbers the handler makes: the cast to an integer and the format %g.  A number
  is the rational number its double stands for.
\<close>

datatype json = JNull | JBool bool | JNum rat | JStr string | JArr "json list" | JObj "(string \<times> json) list"

definition is_string :: "json \<Rightarrow> bool" where "is_string j = (case j of JStr s \<Rightarrow> True | _ \<Rightarrow> False)"
definition is_array :: "json \<Rightarrow> bool" where "is_array j = (case j of JArr s \<Rightarrow> True | _ \<Rightarrow> False)"
definition is_object :: "json \<Rightarrow> bool" where "is_object j = (case j of JObj s \<Rightarrow> True | _ \<Rightarrow> False)"

definition number_of :: "json option \<Rightarrow> rat option" where
  "number_of j = (case j of Some (JNum x) \<Rightarrow> Some x | _ \<Rightarrow> None)"

definition string_of :: "json option \<Rightarrow> string option" where
  "string_of j = (case j of Some (JStr s) \<Rightarrow> Some s | _ \<Rightarrow> None)"

text \<open>The integral part of a double: the fraction is cut off.\<close>

definition trunc :: "rat \<Rightarrow> int" where
  "trunc x = (if x < 0 then - floor (- x) else floor x)"

text \<open>The integer the library keeps of a number: cut off, within 32 bits.\<close>

definition value_int :: "rat \<Rightarrow> int" where
  "value_int x = max (- 2147483648) (min 2147483647 (trunc x))"

text \<open>The casts of a double to the integer types of 32 bits.  The language defines them for numbers whose integral part the type can hold;
  beyond that the runtime of the compiler for this processor takes the nearest bound.\<close>

definition cast_int :: "rat \<Rightarrow> int" where
  "cast_int x = max (- 2147483648) (min 2147483647 (trunc x))"

definition cast_uint32 :: "rat \<Rightarrow> 32 word" where
  "cast_uint32 x = word_of_int (max 0 (min 4294967295 (trunc x)))"

lemma cast_int_in_range: "- 2147483648 \<le> trunc x \<Longrightarrow> trunc x \<le> 2147483647 \<Longrightarrow> cast_int x = trunc x"
  by (simp add: cast_int_def)

type_synonym item = "json \<Rightarrow> string \<Rightarrow> json option"

definition number_in :: "item \<Rightarrow> json \<Rightarrow> string \<Rightarrow> int option" where
  "number_in item j k = map_option value_int (number_of (item j k))"

text \<open>What the JSON library documents: the lookup by name takes the first member whose name agrees up to the case of letters; the
  other one compares exactly.\<close>

definition lower_char :: "char \<Rightarrow> char" where
  "lower_char c = (let n = of_char c :: nat in if 65 \<le> n \<and> n \<le> 90 then char_of (n + 32) else c)"

definition lower :: "string \<Rightarrow> string" where "lower = map lower_char"

definition ci_item :: item where
  "ci_item j k = (case j of JObj ms \<Rightarrow> map_option snd (List.find (\<lambda>(n, v). lower n = lower k) ms) | _ \<Rightarrow> None)"

definition cs_item :: item where
  "cs_item j k = (case j of JObj ms \<Rightarrow> map_of ms k | _ \<Rightarrow> None)"

lemma value_int_pos: "1 \<le> x \<Longrightarrow> 0 < value_int x"
proof -
  assume "1 \<le> x"
  then have "1 \<le> floor x" by (simp add: le_floor_iff)
  then show ?thesis using \<open>1 \<le> x\<close> by (simp add: value_int_def trunc_def)
qed

lemma value_int_of_int: "- 2147483648 \<le> i \<Longrightarrow> i \<le> 2147483647 \<Longrightarrow> value_int (of_int i) = i"
  by (simp add: value_int_def trunc_def)

section \<open>The format %g\<close>

definition round_even :: "rat \<Rightarrow> nat" where
  "round_even x = (let n = nat (floor x); r = x - of_int (floor x) in
     if r < 1 / 2 then n else if 1 / 2 < r then n + 1 else if even n then n else n + 1)"

definition strip_zeros :: "string \<Rightarrow> string" where
  "strip_zeros s = rev (dropWhile (\<lambda>c. c = CHR ''0'') (rev s))"

definition with_fraction :: "string \<Rightarrow> string \<Rightarrow> string" where
  "with_fraction ip fr = (let f = strip_zeros fr in if f = [] then ip else ip @ ''.'' @ f)"

text \<open>The decimal exponent of a positive number: that of the digit before the point, or how often the number must be
  multiplied by ten to reach one; 400 steps are more than any double needs.\<close>

fun small_exp :: "nat \<Rightarrow> rat \<Rightarrow> int" where
  "small_exp 0 x = 0"
| "small_exp (Suc k) x = (if 1 \<le> x then 0 else small_exp k (10 * x) - 1)"

definition dec_exp :: "rat \<Rightarrow> int" where
  "dec_exp x = (if 1 \<le> x then int (length (show_nat (nat (floor x)))) - 1 else small_exp 400 x)"

definition two_digits :: "nat \<Rightarrow> string" where
  "two_digits n = (if n < 10 then CHR ''0'' # show_nat n else show_nat n)"

definition g_positive :: "rat \<Rightarrow> string" where
  "g_positive x = (let
     e0 = dec_exp x;
     m0 = round_even (if e0 \<le> 5 then x * 10 ^ nat (5 - e0) else x / 10 ^ nat (e0 - 5));
     (m, e) = (if m0 = 1000000 then (100000, e0 + 1) else (m0, e0));
     d = show_nat m in
     if - 4 \<le> e \<and> e < 6 then
       (if 0 \<le> e then with_fraction (take (nat e + 1) d) (drop (nat e + 1) d)
        else with_fraction ''0'' (replicate (nat (- e) - 1) CHR ''0'' @ d))
     else with_fraction (take 1 d) (drop 1 d) @ (if e < 0 then ''e-'' else ''e+'') @ two_digits (nat \<bar>e\<bar>))"

definition printf_g :: "rat \<Rightarrow> string" where
  "printf_g x = (if x = 0 then ''0'' else if x < 0 then CHR ''-'' # g_positive (- x) else g_positive x)"

lemma digit_zero: "digit_char 0 = CHR ''0''" "digit_char 1 = CHR ''1''" "digit_char 6 = CHR ''6''"
  by code_simp+

lemma round_even_nat: "round_even (of_nat n) = n"
  by (simp add: round_even_def)

lemma printf_g_million: "printf_g 1000000 = ''1e+06''"
  by (simp add: printf_g_def g_positive_def dec_exp_def round_even_def show_nat.simps with_fraction_def strip_zeros_def
      two_digits_def digit_zero digit_zero(2)[simplified])

lemma length_show_nat: "0 < n \<Longrightarrow> 10 ^ (length (show_nat n) - 1) \<le> n \<and> n < 10 ^ length (show_nat n)"
proof (induction n rule: show_nat.induct)
  case (1 n)
  show ?case
  proof (cases "n < 10")
    case True
    then show ?thesis using 1 by (subst (1 2) show_nat.simps) simp
  next
    case False
    then have ih: "10 ^ (length (show_nat (n div 10)) - 1) \<le> n div 10" "n div 10 < 10 ^ length (show_nat (n div 10))"
      using 1 by auto
    have l: "length (show_nat n) = Suc (length (show_nat (n div 10)))"
      using False by (subst show_nat.simps) simp
    have p: "0 < length (show_nat (n div 10))" using show_nat_facts[of "n div 10"] by simp
    have "(10::nat) ^ length (show_nat (n div 10)) = 10 * 10 ^ (length (show_nat (n div 10)) - 1)"
      using p by (metis Suc_diff_1 power_Suc)
    then have "10 ^ length (show_nat (n div 10)) \<le> 10 * (n div 10)" using ih(1) by simp
    then have "10 ^ length (show_nat (n div 10)) \<le> n" by linarith
    then show ?thesis using l ih(2) by auto
  qed
qed

lemma show_nat_shift: "0 < n \<Longrightarrow> show_nat (n * 10 ^ k) = show_nat n @ replicate k (CHR ''0'')"
proof (induction k)
  case (Suc k)
  have "show_nat (n * 10 ^ Suc k) = show_nat (n * 10 ^ k) @ [digit_char 0]"
    using Suc.prems by (subst show_nat.simps) (simp add: mult.left_commute)
  then show ?case using Suc by (simp add: digit_zero replicate_append_same)
qed simp

lemma strip_replicate: "strip_zeros (replicate k (CHR ''0'')) = []"
  by (simp add: strip_zeros_def)

lemma g_positive_nat:
  assumes "0 < n" "n < 1000000"
  shows "g_positive (of_nat n) = show_nat n"
proof -
  let ?l = "length (show_nat n)"
  have l0: "0 < ?l" using show_nat_facts[of n] by simp
  have "(10::nat) ^ (?l - 1) < 10 ^ 6" using length_show_nat[of n] assms by simp
  then have l6: "?l \<le> 6" using power_less_imp_less_exp[of "10::nat" "?l - 1" 6] by simp
  have e: "dec_exp (of_nat n) = int ?l - 1" using assms by (simp add: dec_exp_def)
  have k: "nat (5 - (int ?l - 1)) = 6 - ?l" and c: "int ?l - 1 \<le> 5" using l6 l0 by linarith+
  have m: "round_even (of_nat n * 10 ^ (6 - ?l)) = n * 10 ^ (6 - ?l)"
    using round_even_nat[of "n * 10 ^ (6 - ?l)"] by simp
  have "n * 10 ^ (6 - ?l) < 10 ^ ?l * 10 ^ (6 - ?l)" using length_show_nat[of n] assms by simp
  then have lt: "n * 10 ^ (6 - ?l) < 1000000" using l6 by (simp add: power_add[symmetric])
  have d: "show_nat (n * 10 ^ (6 - ?l)) = show_nat n @ replicate (6 - ?l) (CHR ''0'')"
    using assms by (intro show_nat_shift)
  have "nat (int ?l - 1) + 1 = ?l" using l0 by linarith
  moreover have "- 4 \<le> int ?l - 1 \<and> int ?l - 1 < 6" "0 \<le> int ?l - 1" using l0 l6 by linarith+
  ultimately show ?thesis
    using lt by (simp only: g_positive_def Let_def e k c if_True m) (simp add: d with_fraction_def strip_replicate)
qed

text \<open>Integers of up to six digits are printed in full; larger ones are rounded to six digits.\<close>

lemma printf_g_int:
  assumes "\<bar>i\<bar> < 1000000"
  shows "printf_g (of_int i) = show_int i"
proof -
  consider "i = 0" | "0 < i" | "i < 0" by linarith
  then show ?thesis
  proof cases
    case 1
    have "show_nat 0 = ''0''" by (subst show_nat.simps) (simp add: digit_zero)
    then show ?thesis using 1 by (simp add: printf_g_def show_int_def)
  next
    case 2
    then show ?thesis using assms g_positive_nat[of "nat i"] by (simp add: printf_g_def show_int_def)
  next
    case 3
    then have "(- of_int i :: rat) = of_nat (nat (- i))" by simp
    then show ?thesis using 3 assms g_positive_nat[of "nat (- i)"] by (simp add: printf_g_def show_int_def)
  qed
qed

end
