(* ===== verification/Menu_Tables.thy ===== *)
theory Menu_Tables
  imports Model225 Json_Data
begin

text \<open>
  The menus the application discovers (main/ble/menu_builder.c): each menu function as the context it sets, the getter its
  items read, and its items in order; the helpers that turn an item into a JSON object; and the dispatch by name.
\<close>

section \<open>Items\<close>

datatype menu_item =
    S_item string string string string
  | S_str_item string string string int
  | S_int_item string string string int int
  | S_bool_item string string string
  | S_enum_item string string string "string list"
  | S_ro_item string string string
  | S_typed_item string string string string
  | S_typed_range string string string string rat rat
  | S_folder string string
  | S_method string string json json
  | Add_cond menu_item string

datatype actor_getter = No_getter | M225_getter | Actor_getter string

datatype menu = Menu (menu_ctx: "string option") (menu_getter: actor_getter) (menu_items: "menu_item list")

text \<open>The text a getter leaves in the buffer of 256 bytes; None stands for a read through a dangling context pointer.  The
  getters of the other actors are the argument peer.\<close>

definition getter_value ::
  "'f float_lib \<Rightarrow> (string \<Rightarrow> string \<Rightarrow> 'p \<Rightarrow> string) \<Rightarrow> 'f m225 \<Rightarrow> 'p \<Rightarrow> actor_getter \<Rightarrow> string \<Rightarrow> string option" where
  "getter_value lib peer m p g name = (case g of No_getter \<Rightarrow> Some []
     | M225_getter \<Rightarrow> map_option snd (m225_actor_get lib name 256 m)
     | Actor_getter a \<Rightarrow> Some (peer a name p))"

definition s_item :: "(string \<Rightarrow> string option) \<Rightarrow> string \<Rightarrow> string \<Rightarrow> string \<Rightarrow> string \<Rightarrow> (string \<times> json) list option" where
  "s_item g name tip dt access = map_option (\<lambda>v.
     [(''name'', JStr name), (''tip'', JStr tip), (''type'', JStr (if access = ''RW'' then ''Variable'' else ''readOnlyVariable'')),
      (''dataType'', JStr dt), (''value'', JStr v)]) (g name)"

definition s_str_item :: "(string \<Rightarrow> string option) \<Rightarrow> string \<Rightarrow> string \<Rightarrow> string \<Rightarrow> int \<Rightarrow> (string \<times> json) list option" where
  "s_str_item g name tip access max_len =
     map_option (\<lambda>fs. fs @ [(''maxLength'', JNum (of_int max_len))]) (s_item g name tip ''string'' access)"

definition s_int_item :: "(string \<Rightarrow> string option) \<Rightarrow> string \<Rightarrow> string \<Rightarrow> string \<Rightarrow> int \<Rightarrow> int \<Rightarrow> (string \<times> json) list option" where
  "s_int_item g name tip access mn mx =
     map_option (\<lambda>fs. fs @ [(''min'', JNum (of_int mn)), (''max'', JNum (of_int mx))]) (s_item g name tip ''uint32'' access)"

definition s_bool_item :: "(string \<Rightarrow> string option) \<Rightarrow> string \<Rightarrow> string \<Rightarrow> string \<Rightarrow> (string \<times> json) list option" where
  "s_bool_item g name tip access = s_item g name tip ''bool'' access"

definition s_enum_item :: "(string \<Rightarrow> string option) \<Rightarrow> string \<Rightarrow> string \<Rightarrow> string \<Rightarrow> string list \<Rightarrow> (string \<times> json) list option" where
  "s_enum_item g name tip access vals =
     map_option (\<lambda>fs. fs @ [(''values'', JArr (map JStr vals))]) (s_item g name tip ''enum'' access)"

definition add_cond :: "string \<Rightarrow> (string \<times> json) list \<Rightarrow> (string \<times> json) list" where
  "add_cond c fs = (if c = [] then fs else fs @ [(''condition'', JStr c)])"

definition s_method :: "string \<Rightarrow> string \<Rightarrow> json \<Rightarrow> json \<Rightarrow> (string \<times> json) list" where
  "s_method name tip params response =
     [(''name'', JStr name), (''tip'', JStr tip), (''type'', JStr ''method''), (''params'', params), (''response'', response)]"

definition s_ro_item :: "(string \<Rightarrow> string option) \<Rightarrow> string \<Rightarrow> string \<Rightarrow> string \<Rightarrow> (string \<times> json) list option" where
  "s_ro_item g name tip dt = map_option (\<lambda>v.
     [(''name'', JStr name), (''tip'', JStr tip), (''type'', JStr ''readOnlyVariable''), (''dataType'', JStr dt), (''value'', JStr v)])
     (g name)"

definition s_typed_item :: "(string \<Rightarrow> string option) \<Rightarrow> string \<Rightarrow> string \<Rightarrow> string \<Rightarrow> string \<Rightarrow> (string \<times> json) list option" where
  "s_typed_item g name tip dt access = map_option (\<lambda>v.
     [(''name'', JStr name), (''tip'', JStr tip), (''type'', JStr (if access = ''RW'' then ''Variable'' else ''readOnlyVariable'')),
      (''dataType'', JStr dt), (''value'', JStr v)]) (g name)"

definition s_typed_range ::
  "(string \<Rightarrow> string option) \<Rightarrow> string \<Rightarrow> string \<Rightarrow> string \<Rightarrow> string \<Rightarrow> rat \<Rightarrow> rat \<Rightarrow> (string \<times> json) list option" where
  "s_typed_range g name tip dt access mn mx =
     map_option (\<lambda>fs. fs @ (''min'', JNum mn) # (if mn < mx then [(''max'', JNum mx)] else [])) (s_typed_item g name tip dt access)"

definition s_folder :: "string \<Rightarrow> string \<Rightarrow> (string \<times> json) list" where
  "s_folder name tip = [(''name'', JStr name), (''type'', JStr ''menuItem''), (''tip'', JStr tip)]"

fun build_item :: "(string \<Rightarrow> string option) \<Rightarrow> menu_item \<Rightarrow> (string \<times> json) list option" where
  "build_item g (S_item n t d a) = s_item g n t d a"
| "build_item g (S_str_item n t a k) = s_str_item g n t a k"
| "build_item g (S_int_item n t a mn mx) = s_int_item g n t a mn mx"
| "build_item g (S_bool_item n t a) = s_bool_item g n t a"
| "build_item g (S_enum_item n t a vs) = s_enum_item g n t a vs"
| "build_item g (S_ro_item n t d) = s_ro_item g n t d"
| "build_item g (S_typed_item n t d a) = s_typed_item g n t d a"
| "build_item g (S_typed_range n t d a mn mx) = s_typed_range g n t d a mn mx"
| "build_item g (S_folder n t) = Some (s_folder n t)"
| "build_item g (S_method n t ps r) = Some (s_method n t ps r)"
| "build_item g (Add_cond it c) = map_option (add_cond c) (build_item g it)"

section \<open>The menus\<close>

definition menu_root :: menu where
  "menu_root = Menu None (No_getter) (map (\<lambda>(n, t). S_folder n t) [
     (''BLE'', ''Bluetooth LE configuration''),
     (''WIFI'', ''Wi-Fi network settings''),
     (''ETH'', ''Ethernet settings''),
     (''NTP'', ''Time sync settings''),
     (''UART'', ''Serial port settings''),
     (''SYSTEM'', ''System information''),
     (''195Menu'', (''Model 225 Indicator '' @ [CHR 0xE2, CHR 0x80, CHR 0x94] @ '' full settings menu''))])"

definition menu_195_menu :: menu where
  "menu_195_menu = Menu (Some ''ScaleSetup'') (M225_getter) ([S_item ''ScaleType'' ''Scale hardware type'' ''enum'' ''R''] @ map (\<lambda>(n, t, c). case c of None \<Rightarrow> S_folder n t | Some cd \<Rightarrow> Add_cond (S_folder n t) cd) [
     (''IndicatorSetup'', ''Indicator configuration, clock, and mode settings'', None),
     (''ScaleSetup'', ''Scale measurement and filter settings'', None),
     (''ScaleCalibration'', ''Span, zero, and load cell calibration'', None),
     (''LoadCellAssignments'', ''DLC load cell assignment and trim'', Some ''ScaleType=DLC''),
     (''ComSetup'', ''Serial, Ethernet, and Wi-Fi communication settings'', None),
     (''PrinterSetup'', ''Ticket printer port and print tab configuration'', None),
     (''SystemConfig'', ''Accumulators, password, DAC, key lockout, badge reader'', None),
     (''ModeConfig'', ''Settings for the active mode of operation'', None),
     (''DLCSetup'', ''DLC cell diagnostics and SNAP communication'', Some ''ScaleType=DLC''),
     (''ReviewMenu'', ''Scale ID and read-only calibration counters'', None)])"

definition menu_ble :: menu where
  "menu_ble = Menu None (Actor_getter ''BLE'') ([
     S_int_item ''PKT_SIZE'' ''BSP packet size in bytes'' ''R'' 0 65535,
     S_bool_item ''CONN_STATUS'' ''BLE connection status'' ''R'',
     S_str_item ''DEVICE_NAME'' ''Advertised BLE device name'' ''R'' 32,
     S_str_item ''UUID'' ''BLE service UUID'' ''RW'' 64,
     S_bool_item ''ADVERT_MODE'' ''Advertising active'' ''R'',
     S_bool_item ''CONN_MODE'' ''Connection mode'' ''RW'',
     S_bool_item ''ONLINE_STATUS'' ''Device online status'' ''RW'',
     S_bool_item ''CRED_STATUS'' ''Credential status'' ''RW''])"

definition menu_wifi :: menu where
  "menu_wifi = Menu None (Actor_getter ''WIFI'') ([
     S_int_item ''STATUS'' (''WiFi connection status (0'' @ [CHR 0xE2, CHR 0x80, CHR 0x93] @ ''3)'') ''R'' 0 3,
     S_bool_item ''AUTO_CONNECT'' ''Auto-connect on startup'' ''RW'',
     S_enum_item ''MODE'' ''WiFi operating mode'' ''R'' [''STA'', ''AP'', ''STA+AP''],
     S_str_item ''SSID1'' ''Primary WiFi SSID'' ''RW'' 64,
     S_str_item ''PASS1'' ''Primary WiFi password'' ''RW'' 64,
     S_str_item ''SSID2'' ''Secondary WiFi SSID'' ''RW'' 64,
     S_str_item ''PASS2'' ''Secondary WiFi password'' ''RW'' 64,
     S_str_item ''SSID3'' ''Tertiary WiFi SSID'' ''RW'' 64,
     S_str_item ''PASS3'' ''Tertiary WiFi password'' ''RW'' 64,
     S_str_item ''RESCUE_SSID'' ''Rescue WiFi SSID'' ''RW'' 64,
     S_str_item ''RESCUE_PASS'' ''Rescue WiFi password'' ''RW'' 64,
     S_str_item ''CONNECTED_SSID'' ''Currently connected SSID'' ''R'' 64,
     S_str_item ''SSID_AP'' ''Access-point SSID'' ''RW'' 64,
     S_str_item ''PASS_AP'' ''Access-point password'' ''RW'' 64,
     S_str_item ''MAC_ADD'' ''WiFi module MAC address'' ''R'' 18,
     S_bool_item ''DHCP'' ''DHCP enable'' ''RW'',
     S_str_item ''STA_IP_ADDR'' ''Station static IP address'' ''RW'' 16,
     S_str_item ''STA_GW_ADDR'' ''Station gateway IP'' ''RW'' 16,
     S_str_item ''STA_SM_ADDR'' ''Station subnet mask'' ''RW'' 16,
     S_str_item ''AP_IP_ADDR'' ''Access-point IP address'' ''R'' 16,
     S_str_item ''AP_GW_ADDR'' ''Access-point gateway'' ''RW'' 16,
     S_str_item ''AP_SM_ADDR'' ''Access-point subnet mask'' ''RW'' 16,
     S_str_item ''WIFI_GATEWAY_MAC_ADDR'' ''Gateway MAC address'' ''R'' 18])"

definition menu_ethernet :: menu where
  "menu_ethernet = Menu None (Actor_getter ''ETH'') ([
     S_bool_item ''STATUS'' ''Ethernet link status'' ''R'',
     S_bool_item ''DHCP'' ''DHCP enable'' ''RW'',
     S_str_item ''IP'' ''Ethernet IP address'' ''RW'' 16,
     S_str_item ''SM'' ''Subnet mask'' ''RW'' 16,
     S_str_item ''GW'' ''Gateway IP address'' ''RW'' 16,
     S_str_item ''DNS1'' ''Primary DNS server'' ''RW'' 16,
     S_str_item ''DNS2'' ''Secondary DNS server'' ''RW'' 16,
     S_str_item ''PINGS1'' ''Ping test server'' ''RW'' 64,
     S_str_item ''MAC_ADD'' ''Ethernet MAC address'' ''R'' 18,
     S_str_item ''ETH_GATEWAY_MAC_ADDR'' ''Gateway MAC address'' ''R'' 18])"

definition menu_ntp :: menu where
  "menu_ntp = Menu None (Actor_getter ''NTP'') ([
     S_str_item ''URL'' ''NTP server hostname'' ''RW'' 128,
     S_str_item ''TIME_ZONE'' ''POSIX time-zone string'' ''RW'' 64,
     S_int_item ''SYNC_INTERVAL'' ''NTP sync interval (seconds)'' ''R'' 60 86400,
     S_bool_item ''RTC_STATUS'' ''RTC sync status'' ''R'',
     S_bool_item ''NTP_MODE'' ''NTP mode (0=WiFi, 1=Ethernet)'' ''R''])"

definition menu_uart :: menu where
  "menu_uart = Menu None (Actor_getter ''UART'') ([
     S_int_item ''BAUD_RATE'' ''Serial baud rate'' ''RW'' 300 921600,
     S_int_item ''DATA_BITS'' (''Data bits (5'' @ [CHR 0xE2, CHR 0x80, CHR 0x93] @ ''8)'') ''RW'' 5 8,
     S_int_item ''PARITY'' ''Parity (0=none,1=odd,2=even)'' ''RW'' 0 2,
     S_int_item ''STOP_BITS'' ''Stop bits (1=1bit,2=2bits)'' ''RW'' 1 2])"

definition menu_system :: menu where
  "menu_system = Menu None (Actor_getter ''SYSTEM'') ([
     S_str_item ''MANUFACTURER_NAME'' ''Manufacturer name'' ''R'' 64,
     S_str_item ''MODEL_NAME'' ''Device model name'' ''R'' 64,
     S_str_item ''FIRMWARE'' ''Firmware version string'' ''R'' 32,
     S_str_item ''BOOTLOADER_VERSION'' ''Bootloader version'' ''R'' 32,
     S_str_item ''HARDWARE'' ''Hardware revision'' ''R'' 32,
     S_str_item ''DEVICEID'' ''Unique device identifier'' ''R'' 64,
     S_str_item ''MANUFACTURER_DATE'' ''Manufacture date'' ''R'' 32,
     S_bool_item ''AUTO_EXEC'' ''Auto-execute on boot'' ''RW'',
     S_str_item ''API_KEY'' ''Cloud API key'' ''RW'' 128,
     S_str_item ''DEVICE_ANNOUNCE_URL'' ''Device announcement URL'' ''RW'' 256])"

definition menu_indicator_setup :: menu where
  "menu_indicator_setup = Menu None (M225_getter) ([
     S_bool_item ''USA'' ''Enable USA legal-for-trade mode'' ''RW'',
     S_ro_item ''NSC'' ''National Scale Count (always N/A)'' ''string'',
     S_bool_item ''LFT'' ''Legal For Trade'' ''RW'',
     Add_cond (S_bool_item ''OIML'' ''OIML compliance mode'' ''RW'') ''USA=false'',
     S_enum_item ''TimeFormat'' ''Clock display format'' ''RW'' [''12H'', ''24H''],
     S_enum_item ''DateFormat'' ''Date display format'' ''RW'' [''MM-DD-YYYY'', ''DD-MM-YYYY''],
     S_typed_range ''ConsecutiveNumber'' ''Starting consecutive ticket number'' ''uint32'' ''RW'' 0 0,
     Add_cond (S_bool_item ''ClearTare'' ''Clear tare on power up'' ''RW'') ''CalSealed=YES, USA=YES, LFT=NO'',
     Add_cond (S_bool_item ''ClearID'' ''Clear ID on power up'' ''RW'') ''CalSealed=YES, USA=YES, LFT=NO'',
     Add_cond (S_typed_range ''NumberOfScales'' ''Number of active scales'' ''uint8'' ''RW'' 1 3) ''ScaleCard != SingleScaleAnalog'',
     Add_cond (S_bool_item ''Totalizer'' ''Enable multi-scale totalizer'' ''RW'') ''NumberOfScales > 1'',
     S_enum_item ''ModeOfOperation'' ''Active weighing mode'' ''RW'' [''Normal'', ''IDStorage'', ''Batcher'', ''DFC'', ''PackageWeigher'', ''AxleWeigher'', ''CheckWeigher'', ''PWC'', ''Livestock''],
     S_method ''SetTime'' ''Set the indicator real-time clock'' (JObj [(''time'', JObj [(''dataType'', JStr ''string''), (''format'', JStr ''HH:MM:SS'')])]) (JObj [(''time'', JObj [(''dataType'', JStr ''string'')])]),
     S_method ''SetDate'' ''Set the indicator date'' (JObj [(''date'', JObj [(''dataType'', JStr ''string''), (''format'', JStr ''MM-DD-YYYY'')])]) (JObj [(''date'', JObj [(''dataType'', JStr ''string'')])])])"

definition menu_scale_setup :: menu where
  "menu_scale_setup = Menu None (M225_getter) ([
     S_enum_item ''PrimaryUnits'' ''Primary weighing unit'' ''RW'' [''lb'', ''kg''],
     S_enum_item ''SecondaryUnits'' ''Secondary weighing unit'' ''RW'' [''lb'', ''kg''],
     S_enum_item ''ZeroTracking'' ''Auto zero tracking range in disp. divs'' ''RW'' [''0.0d'', ''0.5d'', ''1.0d'', ''2.0d'', ''3.0d''],
     S_bool_item ''ZeroLimit'' ''Restrict zero key to 2% of capacity'' ''RW'',
     S_bool_item ''PowerUpZero'' ''Automatically zero on power up'' ''RW'',
     S_typed_range ''SampleRate'' ''A/D conversions per second'' ''uint8'' ''RW'' 1 16,
     S_typed_range ''MotionRange'' ''Motion detection threshold in disp. divs'' ''uint8'' ''RW'' 1 99,
     S_typed_range ''StableCount'' ''Consecutive stable readings required'' ''uint8'' ''RW'' 1 99,
     S_typed_range ''WeightIntervals'' ''Single or dual range weighing'' ''uint8'' ''RW'' 1 2,
     S_enum_item ''ScaleType'' ''Scale hardware type'' ''RW'' [''Analog'', ''DLC'', ''Remote''],
     S_enum_item ''FilterType'' ''Digital filter algorithm'' ''RW'' [''None'', ''Average'', ''Median''],
     S_typed_range ''FilterLevel'' ''Filter strength'' ''uint8'' ''RW'' 1 9,
     S_typed_range ''FilterBreak'' ''Filter break range in display divisions'' ''uint8'' ''RW'' 1 9,
     Add_cond (S_typed_range ''Interval'' ''Display graduation size (single range)'' ''uint32'' ''RW'' 1 0) ''WeightIntervals=1'',
     Add_cond (S_typed_range ''DecimalPlace'' ''Display decimal position (single range)'' ''uint8'' ''RW'' 0 4) ''WeightIntervals=1'',
     Add_cond (S_typed_range ''Capacity'' ''Maximum scale capacity (single range)'' ''uint32'' ''RW'' 1 0) ''WeightIntervals=1'',
     Add_cond (S_typed_range ''LowInterval'' ''Low range graduation size'' ''uint32'' ''RW'' 1 0) ''WeightIntervals=2'',
     Add_cond (S_typed_range ''LowDecimalPlace'' ''Low range decimal position'' ''uint8'' ''RW'' 0 4) ''WeightIntervals=2'',
     Add_cond (S_typed_range ''LowCapacity'' ''Low range capacity'' ''uint32'' ''RW'' 1 0) ''WeightIntervals=2'',
     Add_cond (S_typed_range ''HighInterval'' ''High range graduation size'' ''uint32'' ''RW'' 1 0) ''WeightIntervals=2'',
     Add_cond (S_typed_range ''HighDecimalPlace'' ''High range decimal position'' ''uint8'' ''RW'' 0 4) ''WeightIntervals=2'',
     Add_cond (S_typed_range ''HighCapacity'' ''High range capacity'' ''uint32'' ''RW'' 1 0) ''WeightIntervals=2'',
     Add_cond (S_typed_range ''PrelimFilterCount'' ''Preliminary filter sample count (DLC)'' ''uint8'' ''RW'' 0 0) ''ScaleType=DLC''])"

definition menu_scale_calibration :: menu where
  "menu_scale_calibration = Menu (Some ''ScaleCalibration'') (M225_getter) ([
     Add_cond (S_typed_range ''SpanWeight'' ''Known reference weight for span cal (Analog)'' ''float'' ''RW'' 0 0) ''ScaleType=Analog'',
     Add_cond (S_ro_item ''SpanCount'' ''A/D count at span weight (read only)'' ''uint32'') ''ScaleType=Analog'',
     Add_cond (S_ro_item ''ZeroCount'' ''A/D count at zero (read only)'' ''uint32'') ''ScaleType=Analog'',
     Add_cond (S_typed_item ''LC1'' ''Load cell 1 A/D count'' ''uint32'' ''RW'') ''ScaleType=Analog, WeightIntervals=1'',
     Add_cond (S_typed_item ''LC2'' ''Load cell 2 A/D count'' ''uint32'' ''RW'') ''ScaleType=Analog, WeightIntervals=1'',
     Add_cond (S_typed_item ''LC3'' ''Load cell 3 A/D count'' ''uint32'' ''RW'') ''ScaleType=Analog, WeightIntervals=1'',
     Add_cond (S_typed_item ''LC4'' ''Load cell 4 A/D count'' ''uint32'' ''RW'') ''ScaleType=Analog, WeightIntervals=1'',
     Add_cond (S_method ''CalibrateSpan'' ''Perform analog span calibration'' (JObj [(''span_weight'', JObj [(''dataType'', JStr ''float''), (''unit'', JStr ''lb''), (''min'', JNum 1), (''max'', JNum 50000), (''default'', JNum 50)])]) (JObj [(''span_count'', JObj [(''dataType'', JStr ''uint32'')]), (''zero_count'', JObj [(''dataType'', JStr ''uint32'')]), (''status'', JObj [(''dataType'', JStr ''string'')])])) ''ScaleType=Analog'',
     Add_cond (S_method ''SmartCalibration'' ''Interactive DLC calibration wizard'' (JObj []) (JObj [(''status'', JObj [(''dataType'', JStr ''string'')])])) ''ScaleType=DLC'',
     Add_cond (S_method ''ZeroCalibration'' ''Perform DLC zero calibration'' (JObj []) (JObj [(''zero_count'', JObj [(''dataType'', JStr ''uint32'')]), (''status'', JObj [(''dataType'', JStr ''string'')])])) ''ScaleType=DLC'',
     Add_cond (S_typed_range ''CellTrimming'' ''Per-cell trim factor (DLC)'' ''float'' ''RW'' (1 / 10) 10) ''ScaleType=DLC'',
     Add_cond (S_method ''SpanAdjustment'' ''Interactive DLC span adjustment'' (JObj [(''span_weight'', JObj [(''dataType'', JStr ''float''), (''min'', JNum 1), (''max'', JNum 50000), (''default'', JNum 50)])]) (JObj [(''correction'', JObj [(''dataType'', JStr ''float'')]), (''status'', JObj [(''dataType'', JStr ''string'')])])) ''ScaleType=DLC''])"

definition menu_load_cell_assignments :: menu where
  "menu_load_cell_assignments = Menu None (M225_getter) ([
     S_typed_range ''CellID'' ''Load cell hardware identifier'' ''uint8'' ''RW'' 0 0,
     S_enum_item ''CellToScale'' ''Scale assignment for this cell'' ''RW'' [''Scale1'', ''Scale2'', ''Scale3''],
     S_typed_range ''CellsPerScale'' ''Number of cells assigned to scale'' ''uint8'' ''RW'' 0 0,
     S_typed_range ''CellTrim'' ''Individual cell trim factor'' ''float'' ''RW'' (1 / 10) 10])"

definition menu_com_setup :: menu where
  "menu_com_setup = Menu None (No_getter) ([
     S_folder ''SerialPorts'' ''COM1, COM2, USB-B, OPC1, OPC2 serial port settings'',
     S_folder ''Ethernet'' ''Ethernet network settings'',
     S_folder ''WiFi'' ''Wi-Fi network settings'',
     S_folder ''BankMode'' ''Bank mode configuration'',
     Add_cond (S_folder ''ISiteIP'' ''iSite IP settings (DLC only)'') ''ScaleType=DLC'',
     Add_cond (S_folder ''SendGross'' ''Send gross weight output (non-DLC only)'') ''ScaleType!=DLC''])"

definition menu_bank_mode :: menu where
  "menu_bank_mode = Menu None (No_getter) ([])"

definition menu_serial_ports :: menu where
  "menu_serial_ports = Menu (Some ''SerialPorts'') (M225_getter) ([
     S_enum_item ''Type'' ''Serial protocol type'' ''RW'' [''SMA'', ''SB600'', ''Continuous'', ''Disabled''],
     S_enum_item ''BaudRate'' ''Serial baud rate'' ''RW'' [''1200'', ''2400'', ''4800'', ''9600'', ''19200'', ''38400'', ''57600'', ''115200''],
     S_enum_item ''DataBits'' ''Number of data bits'' ''RW'' [''7'', ''8''],
     S_enum_item ''StopBits'' ''Number of stop bits'' ''RW'' [''1'', ''2''],
     S_enum_item ''Parity'' ''Parity bit setting'' ''RW'' [''None'', ''Even'', ''Odd''],
     S_enum_item ''TransferCondition'' ''When to transmit data'' ''RW'' [''Continuous'', ''OnPrint'', ''OnStable'', ''OnDemand''],
     S_enum_item ''Scale'' ''Scale channel to transmit'' ''RW'' [''CurrentSelected'', ''Scale1'', ''Scale2'', ''Scale3''],
     S_bool_item ''GrossOnly'' ''Transmit gross weight only'' ''RW'',
     S_bool_item ''ManualMode'' ''Enable manual print mode'' ''RW'',
     S_enum_item ''MessageSlot'' ''Assigned message slot'' ''RW'' [''Disabled'', ''Slot1'', ''Slot2'', ''Slot3''],
     Add_cond (S_enum_item ''ElectricalInterface'' ''Electrical interface standard (COM2 only)'' ''RW'' [''RS232'', ''RS485'', ''RS422'']) ''Port=COM2'',
     S_typed_range ''SBHighThreshold'' ''SB-series high threshold'' ''uint32'' ''RW'' 0 0])"

definition menu_ethernet_225 :: menu where
  "menu_ethernet_225 = Menu (Some ''Ethernet'') (M225_getter) ([
     S_bool_item ''EthernetEnable'' ''Enable Ethernet interface'' ''RW'',
     S_bool_item ''DHCP'' ''Use DHCP for IP address assignment'' ''RW'',
     Add_cond (S_str_item ''IPAddress'' ''Static IP address'' ''RW'' 16) ''DHCP=false'',
     Add_cond (S_str_item ''Gateway'' ''Default gateway address'' ''RW'' 16) ''DHCP=false'',
     Add_cond (S_str_item ''Subnet'' ''Subnet mask'' ''RW'' 16) ''DHCP=false'',
     S_typed_range ''ServerPortA'' ''Server port A'' ''uint16'' ''RW'' 1 65535,
     S_typed_range ''ServerPortB'' ''Server port B'' ''uint16'' ''RW'' 1 65535,
     S_typed_range ''ServerPortC'' ''Server port C'' ''uint16'' ''RW'' 1 65535,
     S_typed_range ''ClientServerPort'' ''Client server port'' ''uint16'' ''RW'' 1 65535,
     S_enum_item ''PortType'' ''Protocol type for all Ethernet ports'' ''RW'' [''SB600'', ''SMA'', ''Disabled''],
     S_typed_range ''PortThreshold'' ''SB-series threshold'' ''uint32'' ''RW'' 0 0,
     S_enum_item ''MessageSlot'' ''Assigned message slot'' ''RW'' [''Disabled'', ''Slot1'', ''Slot2'', ''Slot3'']])"

definition menu_wifi_225 :: menu where
  "menu_wifi_225 = Menu (Some ''WiFi'') (M225_getter) ([
     S_bool_item ''WiFiEnable'' ''Enable Wi-Fi interface'' ''RW'',
     S_bool_item ''DHCP'' ''Use DHCP'' ''RW'',
     S_str_item ''SSID'' ''Wi-Fi network name'' ''RW'' 32,
     S_str_item ''Password'' ''Wi-Fi network password'' ''RW'' 32,
     S_enum_item ''PortType'' ''Protocol type for all Wi-Fi ports'' ''RW'' [''SB600'', ''SMA'', ''Disabled''],
     S_typed_range ''PortThreshold'' ''SB-series threshold'' ''uint32'' ''RW'' 0 0,
     S_enum_item ''MessageSlot'' ''Assigned message slot'' ''RW'' [''Disabled'', ''Slot1'', ''Slot2'', ''Slot3'']])"

definition menu_isite_ip :: menu where
  "menu_isite_ip = Menu (Some ''ISiteIP'') (M225_getter) ([
     S_str_item ''SiteOrder'' ''Site/Order identifier'' ''RW'' 32,
     S_bool_item ''DHCP'' ''Use DHCP'' ''RW'',
     Add_cond (S_str_item ''IPAddress'' ''Static IP address'' ''RW'' 16) ''DHCP=false'',
     Add_cond (S_str_item ''Subnet'' ''Subnet mask'' ''RW'' 16) ''DHCP=false'',
     Add_cond (S_str_item ''Gateway'' ''Default gateway'' ''RW'' 16) ''DHCP=false'',
     S_str_item ''DNS1'' ''Primary DNS server'' ''RW'' 16,
     S_str_item ''DNS2'' ''Secondary DNS server'' ''RW'' 16,
     S_bool_item ''EnableDNS'' ''Enable DNS resolution'' ''RW''])"

definition menu_send_gross :: menu where
  "menu_send_gross = Menu None (M225_getter) ([
     S_bool_item ''SendGrossEnable'' ''Enable gross weight output'' ''RW'',
     S_enum_item ''GrossWeightPort'' ''Port for gross weight output'' ''RW'' [''Com1'', ''Com2'', ''USB'', ''OPC1'', ''OPC2'']])"

definition menu_printer_setup :: menu where
  "menu_printer_setup = Menu None (M225_getter) ([
     S_enum_item ''Port'' ''Printer output port'' ''RW'' [''Com1'', ''Com2'', ''USB'', ''OPC1'', ''OPC2''],
     S_bool_item ''AutoLF'' ''Auto add line feed after each line'' ''RW'',
     S_typed_range ''EndingLF'' ''Line feeds at end of ticket'' ''uint8'' ''RW'' 0 99,
     S_str_item ''EndOfLine'' ''Line terminator character (hex)'' ''RW'' 4,
     S_str_item ''StartOfTicket'' ''String sent at start of ticket'' ''RW'' 32,
     S_str_item ''EndOfTicket'' ''String sent at end of ticket'' ''RW'' 32,
     S_typed_range ''EndOfTicketLineFeeds'' ''Line feeds appended at end of ticket'' ''uint8'' ''RW'' 0 99,
     S_typed_range ''PrintSlot'' ''Active print tab slot'' ''uint8'' ''RW'' 0 0,
     S_typed_item ''TimeTab'' ''Print tab: time field (RR.CC = row.col)'' ''float'' ''RW'',
     S_typed_item ''DateTab'' ''Print tab: date field'' ''float'' ''RW'',
     S_typed_item ''ConsecutiveTab'' ''Print tab: consecutive number field'' ''float'' ''RW'',
     S_typed_item ''GrossTab'' ''Print tab: gross weight field'' ''float'' ''RW'',
     S_typed_item ''TareTab'' ''Print tab: tare field'' ''float'' ''RW'',
     S_typed_item ''NetTab'' ''Print tab: net weight field'' ''float'' ''RW'',
     S_typed_item ''GrossAccumTab'' ''Print tab: gross accumulator'' ''float'' ''RW'',
     S_typed_item ''NetAccumTab'' ''Print tab: net accumulator'' ''float'' ''RW'',
     S_typed_item ''IDTab'' ''Print tab: ID field'' ''float'' ''RW''])"

definition menu_system_config :: menu where
  "menu_system_config = Menu None (No_getter) ([
     S_folder ''Accumulators'' ''Gross and net accumulators per scale'',
     S_folder ''DACOutput'' ''Analog DAC output configuration'',
     S_folder ''KeyLockout'' ''Individual key lockout settings'',
     S_folder ''BadgeReader'' ''Badge reader port and type settings'',
     S_folder ''WINVRS'' ''WINVRS computer interface settings''])"

definition menu_accumulators :: menu where
  "menu_accumulators = Menu (Some ''Accumulators'') (M225_getter) ([
     S_bool_item ''GenAccums'' ''Enable gross accumulator'' ''RW'',
     S_ro_item ''AccumulatorScale1'' ''Accumulated weight for Scale 1 (read only)'' ''float'',
     Add_cond (S_ro_item ''AccumulatorScale2'' ''Accumulated weight for Scale 2'' ''float'') ''NumberOfScales >= 2'',
     Add_cond (S_ro_item ''AccumulatorScale3'' ''Accumulated weight for Scale 3'' ''float'') ''NumberOfScales >= 3'',
     Add_cond (S_ro_item ''TotalizerAccumulator'' ''Multi-scale totalizer accumulator'' ''float'') ''Totalizer=true'',
     S_str_item ''Password'' ''Setup menu access password'' ''RW'' 32,
     Add_cond (S_enum_item ''LRPort'' ''Remote scale communication port'' ''RW'' [''Com1'', ''Com2'', ''USB'', ''OPC1'', ''OPC2'']) ''ScaleType=Remote'',
     S_method ''ClearAccumulators'' ''Clear all accumulator values'' (JObj []) (JObj [(''cleared'', JObj [(''dataType'', JStr ''bool'')])])])"

definition menu_dac_output :: menu where
  "menu_dac_output = Menu None (M225_getter) ([
     S_bool_item ''DACGross'' ''Output gross weight (vs net)'' ''RW'',
     S_typed_item ''DACLowWeight'' ''Weight value at DAC minimum output'' ''float'' ''RW'',
     S_typed_item ''DACHighWeight'' ''Weight value at DAC maximum output'' ''float'' ''RW'',
     S_typed_range ''DACVoltOutput'' ''Maximum DAC voltage output'' ''float'' ''RW'' 0 10,
     S_typed_item ''AdjustHigh'' ''DAC high-end trim adjustment'' ''int32'' ''RW'',
     S_typed_item ''AdjustLow'' ''DAC low-end trim adjustment'' ''int32'' ''RW'',
     S_enum_item ''DACScale'' ''Scale channel for DAC output'' ''RW'' [''Scale1'', ''Scale2'', ''Scale3'']])"

definition menu_key_lockout :: menu where
  "menu_key_lockout = Menu None (M225_getter) (map (\<lambda>(n, t). S_bool_item n t ''RW'') [
     (''ZeroKeyLock'', ''Lock Zero key''),
     (''TareKeyLock'', ''Lock Tare key''),
     (''NetKeyLock'', ''Lock Net key''),
     (''PrintKeyLock'', ''Lock Print key''),
     (''UnitKeyLock'', ''Lock Unit key''),
     (''GreenKeyLock'', ''Lock Green key''),
     (''KeypadLock'', ''Lock entire keypad''),
     (''IDKeyLock'', ''Lock ID key''),
     (''CountKeyLock'', ''Lock Count key''),
     (''MemKeyLock'', ''Lock Memory key''),
     (''PresetKeyLock'', ''Lock Preset key''),
     (''DeleteKeyLock'', ''Lock Delete key''),
     (''StartKeyLock'', ''Lock Start key''),
     (''DropKeyLock'', ''Lock Drop key''),
     (''PauseKeyLock'', ''Lock Pause key''),
     (''StopKeyLock'', ''Lock Stop key''),
     (''RestartKeyLock'', ''Lock Restart key''),
     (''DumpKeyLock'', ''Lock Dump key'')])"

definition menu_badge_reader :: menu where
  "menu_badge_reader = Menu (Some ''BadgeReader'') (M225_getter) ([
     S_enum_item ''Reader1Port'' ''Port for badge reader 1'' ''RW'' [''Com1'', ''Com2'', ''USB'', ''OPC1'', ''OPC2''],
     S_enum_item ''Reader1Type'' ''Badge reader 1 type'' ''RW'' [''None'', ''AWID'', ''HID'', ''Proximity''],
     S_enum_item ''Reader2Port'' ''Port for badge reader 2'' ''RW'' [''Com1'', ''Com2'', ''USB'', ''OPC1'', ''OPC2''],
     S_enum_item ''Reader2Type'' ''Badge reader 2 type'' ''RW'' [''None'', ''AWID'', ''HID'', ''Proximity''],
     S_typed_range ''ThresholdWeight'' ''Min weight to trigger badge read'' ''float'' ''RW'' 0 0,
     Add_cond (S_bool_item ''SiteID'' ''Include site ID in badge output'' ''RW'') ''Reader1Type=AWID or Reader2Type=AWID''])"

definition menu_winvrs :: menu where
  "menu_winvrs = Menu None (M225_getter) ([
     S_enum_item ''Computer1Port'' ''Communication port for Computer 1'' ''RW'' [''Com1'', ''Com2'', ''USB'', ''OPC1'', ''OPC2''],
     S_enum_item ''Computer1Mode'' ''Computer 1 operating mode'' ''RW'' [''Disabled'', ''Enabled'', ''Continuous'', ''Terminal''],
     S_enum_item ''Computer2Port'' ''Communication port for Computer 2'' ''RW'' [''Com1'', ''Com2'', ''USB'', ''OPC1'', ''OPC2''],
     S_enum_item ''Computer2Mode'' ''Computer 2 operating mode'' ''RW'' [''Disabled'', ''Remote''],
     S_bool_item ''PrintPassthrough'' ''Pass print output through to Computer 2'' ''RW'',
     S_enum_item ''TrafficMode'' ''Traffic light control mode'' ''RW'' [''Off'', ''RGR'', ''GRG''],
     S_typed_range ''TrafficOnThreshold'' ''Weight to activate traffic signal'' ''float'' ''RW'' 0 0,
     S_typed_range ''TrafficOffThreshold'' ''Weight to deactivate traffic signal'' ''float'' ''RW'' 0 0,
     S_typed_range ''TrafficOffDelay'' ''Delay before traffic signal deactivates'' ''uint8'' ''RW'' 0 0,
     S_str_item ''EnterRelayCommand'' ''Relay command sent on vehicle entry'' ''RW'' 8,
     S_str_item ''ExitRelayCommand'' ''Relay command sent on vehicle exit'' ''RW'' 8,
     S_bool_item ''TrafficDisplay'' ''Show traffic status on indicator display'' ''RW'',
     S_bool_item ''DFCEnable'' ''Enable Digital Fill Control in WINVRS'' ''RW''])"

definition menu_mode_config :: menu where
  "menu_mode_config = Menu None (No_getter) (map (\<lambda>(n, t, c). Add_cond (S_folder n t) c) [
     (''IDStorage'', ''ID storage mode settings'', ''ModeOfOperation=IDStorage''),
     (''DFC'', ''Digital fill control settings'', ''ModeOfOperation=DFC''),
     (''Batcher'', ''Batcher mode settings'', ''ModeOfOperation=Batcher''),
     (''PackageWeigher'', ''Package weigher settings'', ''ModeOfOperation=PackageWeigher''),
     (''AxleWeigher'', ''Axle weigher settings'', ''ModeOfOperation=AxleWeigher''),
     (''CheckWeigher'', ''Check weigher zone and color settings'', ''ModeOfOperation=CheckWeigher''),
     (''PWC'', ''Preset weight comparator settings'', ''ModeOfOperation=PWC''),
     (''Livestock'', ''Livestock inclinometer settings'', ''ModeOfOperation=Livestock'')])"

definition menu_id_storage :: menu where
  "menu_id_storage = Menu (Some ''IDStorage'') (M225_getter) ([
     S_bool_item ''WeightAlarm'' ''Enable weight alarm'' ''RW'',
     S_typed_item ''AlarmThreshold'' ''Weight alarm trigger threshold'' ''float'' ''RW'',
     S_typed_range ''AlarmTimeOn'' ''Alarm on duration in seconds'' ''uint8'' ''RW'' 0 99,
     S_typed_range ''IDCount'' ''Number of ID prompts'' ''uint8'' ''RW'' 1 3,
     S_str_item ''Prompt1'' ''Label for ID prompt 1'' ''RW'' 16,
     S_str_item ''Prompt2'' ''Label for ID prompt 2'' ''RW'' 16,
     S_str_item ''Prompt3'' ''Label for ID prompt 3'' ''RW'' 16])"

definition menu_dfc :: menu where
  "menu_dfc = Menu (Some ''DFC'') (M225_getter) ([
     S_enum_item ''Speed'' ''Fill speed mode'' ''RW'' [''SingleSpeed'', ''DualSpeed''],
     S_enum_item ''GateSequence'' ''Gate actuation sequence'' ''RW'' [''ABB'', ''ABA'', ''ABBA''],
     S_bool_item ''AutoTrim'' ''Enable automatic trim'' ''RW'',
     S_bool_item ''AutoPrint'' ''Print ticket automatically'' ''RW'',
     S_bool_item ''MultiDrop'' ''Enable multi-drop mode'' ''RW'',
     S_bool_item ''DumpGate'' ''Enable dump gate'' ''RW'',
     S_bool_item ''AutoDump'' ''Automatically actuate dump gate'' ''RW'',
     S_bool_item ''Decumulate'' ''Enable decumulate mode'' ''RW'',
     S_bool_item ''AutoTare'' ''Automatically tare before fill'' ''RW'',
     S_bool_item ''JogToCutoff'' ''Jog gate to cutoff point'' ''RW'',
     S_typed_item ''FastCutoff'' ''Fast speed cutoff weight'' ''float'' ''RW'',
     S_typed_item ''FillWeight'' ''Target fill weight'' ''float'' ''RW'',
     S_typed_item ''SlowCutoff'' ''Slow speed cutoff weight'' ''float'' ''RW'',
     S_typed_item ''Trim'' ''Fill trim correction'' ''float'' ''RW'',
     S_typed_item ''DropCount'' ''Number of drops per cycle'' ''uint8'' ''RW'',
     S_typed_item ''ZeroTolerance'' ''Zero acceptance tolerance'' ''float'' ''RW'',
     S_typed_item ''GateTimer'' ''Gate actuation timer in ms'' ''uint16'' ''RW'',
     S_typed_item ''Chatter'' ''Gate chatter compensation'' ''float'' ''RW''])"

definition menu_batcher :: menu where
  "menu_batcher = Menu (Some ''Batcher'') (M225_getter) ([
     S_enum_item ''Speed'' ''Batcher speed mode'' ''RW'' [''SingleSpeed'', ''DualSpeed''],
     S_enum_item ''GateSequence'' ''Gate actuation sequence'' ''RW'' [''ABB'', ''ABA'', ''ABBA''],
     S_bool_item ''AutoTrim'' ''Enable automatic trim'' ''RW'',
     S_typed_range ''BinCount'' ''Number of bins'' ''uint8'' ''RW'' 1 8,
     S_bool_item ''AutoPrint'' ''Print ticket automatically'' ''RW'',
     S_bool_item ''DumpGate'' ''Enable dump gate'' ''RW'',
     S_bool_item ''AutoDump'' ''Automatically actuate dump'' ''RW'',
     S_bool_item ''Decumulate'' ''Enable decumulate mode'' ''RW'',
     S_typed_item ''BatchCount'' ''Number of batches to run'' ''uint32'' ''RW'',
     S_typed_item ''ZeroTolerance'' ''Zero acceptance tolerance'' ''float'' ''RW'',
     S_typed_item ''GateTimer'' ''Gate actuation timer in ms'' ''uint16'' ''RW'',
     S_typed_item ''SettleTimer'' ''Settle timer in ms'' ''uint16'' ''RW''])"

definition menu_package_weigher :: menu where
  "menu_package_weigher = Menu (Some ''PackageWeigher'') (M225_getter) ([
     S_typed_range ''IDCount'' ''Number of ID prompts'' ''uint8'' ''RW'' 1 3,
     S_str_item ''Prompt1'' ''Label for prompt 1'' ''RW'' 16,
     S_str_item ''Prompt2'' ''Label for prompt 2'' ''RW'' 16,
     S_str_item ''Prompt3'' ''Label for prompt 3'' ''RW'' 16,
     S_bool_item ''RetainID'' ''Retain ID between weighments'' ''RW''])"

definition menu_axle_weigher :: menu where
  "menu_axle_weigher = Menu (Some ''AxleWeigher'') (M225_getter) ([
     S_enum_item ''AWMode'' ''Axle detection mode'' ''RW'' [''Auto'', ''Manual''],
     S_bool_item ''AxlePads'' ''Enable axle pad inputs'' ''RW'',
     S_typed_range ''ThresholdWeight'' ''Minimum weight to detect axle'' ''float'' ''RW'' 0 0,
     S_typed_item ''StopDelay'' ''Stop delay in ms'' ''uint16'' ''RW'',
     S_typed_item ''TotalDelay'' ''Total delay in ms'' ''uint16'' ''RW'',
     S_typed_range ''AxleCounter'' ''Starting axle count'' ''uint32'' ''RW'' 1 0])"

definition menu_check_weigher :: menu where
  "menu_check_weigher = Menu (Some ''CheckWeigher'') (M225_getter) ([
     S_typed_range ''Outputs'' ''Number of output zones'' ''uint8'' ''RW'' 1 5,
     S_bool_item ''AutoPrint'' ''Print ticket automatically'' ''RW'',
     S_typed_item ''UnderThreshold'' ''Under zone upper boundary'' ''float'' ''RW'',
     S_typed_item ''LowOKThreshold'' ''Low OK zone upper boundary'' ''float'' ''RW'',
     S_typed_item ''HighOKThreshold'' ''High OK zone upper boundary'' ''float'' ''RW'',
     S_typed_item ''OverThreshold'' ''Over zone lower boundary'' ''float'' ''RW'',
     S_enum_item ''ColorUnder'' ''Display color for Under zone'' ''RW'' [''Red'', ''Yellow'', ''Green'', ''Blue'', ''Pink'', ''White''],
     S_enum_item ''ColorLowOK'' ''Display color for Low OK zone'' ''RW'' [''Red'', ''Yellow'', ''Green'', ''Blue'', ''Pink'', ''White''],
     S_enum_item ''ColorHighOK'' ''Display color for High OK zone'' ''RW'' [''Red'', ''Yellow'', ''Green'', ''Blue'', ''Pink'', ''White''],
     S_enum_item ''ColorAcceptOK'' ''Display color for Accept zone'' ''RW'' [''Red'', ''Yellow'', ''Green'', ''Blue'', ''Pink'', ''White''],
     S_enum_item ''ColorOver'' ''Display color for Over zone'' ''RW'' [''Red'', ''Yellow'', ''Green'', ''Blue'', ''Pink'', ''White'']])"

definition menu_pwc :: menu where
  "menu_pwc = Menu (Some ''PWC'') (M225_getter) ([
     S_typed_range ''NumberOfOutputs'' ''Number of comparator outputs'' ''uint8'' ''RW'' 1 0,
     S_bool_item ''BalanceOnPrint'' ''Balance outputs on print'' ''RW'',
     S_bool_item ''MonitorZero'' ''Monitor zero between weighments'' ''RW'',
     S_typed_item ''Threshold'' ''Per-output trip threshold (array)'' ''float'' ''RW'',
     S_typed_item ''Trim'' ''Per-output trim correction (array)'' ''float'' ''RW'',
     S_enum_item ''OutputScale'' ''Scale channel for each output'' ''RW'' [''Scale1'', ''Scale2'', ''Scale3'']])"

definition menu_livestock :: menu where
  "menu_livestock = Menu None (M225_getter) ([
     S_bool_item ''Inclinometer'' ''Enable inclinometer tilt compensation'' ''RW'',
     S_typed_item ''SetPitch'' ''Tilt pitch angle in degrees'' ''float'' ''RW'',
     S_typed_item ''SetRoll'' ''Tilt roll angle in degrees'' ''float'' ''RW'',
     S_method ''DefaultAngleCalibration'' ''Run default angle calibration procedure'' (JObj []) (JObj [(''pitch'', JObj [(''dataType'', JStr ''float'')]), (''roll'', JObj [(''dataType'', JStr ''float'')]), (''status'', JObj [(''dataType'', JStr ''string'')])])])"

definition menu_dlc_setup :: menu where
  "menu_dlc_setup = Menu None (M225_getter) ([
     S_method ''CellDiagnostics'' ''Real-time load cell diagnostic readings'' (JObj []) (JObj [(''cell_data'', JObj [(''dataType'', JStr ''string'')])]),
     S_bool_item ''SnapMediabox'' ''Enable SNAP Mediabox communication'' ''RW'',
     S_typed_range ''SnapID'' ''SNAP network node ID'' ''uint8'' ''RW'' 0 0,
     S_typed_range ''Channel'' ''SNAP communication channel'' ''uint8'' ''RW'' 0 15])"

definition menu_review_menu :: menu where
  "menu_review_menu = Menu None (M225_getter) ([
     S_typed_range ''ScaleID'' ''Scale identification number'' ''uint8'' ''RW'' 0 0,
     S_ro_item ''CalibrationCounter'' ''Calibration event count (auto-increments)'' ''uint32'',
     S_ro_item ''ConfigurationCounter'' ''Configuration event count (auto-increments)'' ''uint32''])"

section \<open>Dispatch\<close>

definition menu_table :: "(string \<times> menu) list" where
  "menu_table = [
    (''Root'', menu_root),
    (''BLE'', menu_ble),
    (''WIFI'', menu_wifi),
    (''ETH'', menu_ethernet),
    (''NTP'', menu_ntp),
    (''UART'', menu_uart),
    (''SYSTEM'', menu_system),
    (''195Menu'', menu_195_menu),
    (''IndicatorSetup'', menu_indicator_setup),
    (''ScaleSetup'', menu_scale_setup),
    (''ScaleCalibration'', menu_scale_calibration),
    (''LoadCellAssignments'', menu_load_cell_assignments),
    (''ComSetup'', menu_com_setup),
    (''SerialPorts'', menu_serial_ports),
    (''Ethernet'', menu_ethernet_225),
    (''WiFi'', menu_wifi_225),
    (''BankMode'', menu_bank_mode),
    (''ISiteIP'', menu_isite_ip),
    (''SendGross'', menu_send_gross),
    (''PrinterSetup'', menu_printer_setup),
    (''SystemConfig'', menu_system_config),
    (''Accumulators'', menu_accumulators),
    (''DACOutput'', menu_dac_output),
    (''KeyLockout'', menu_key_lockout),
    (''BadgeReader'', menu_badge_reader),
    (''WINVRS'', menu_winvrs),
    (''ModeConfig'', menu_mode_config),
    (''IDStorage'', menu_id_storage),
    (''DFC'', menu_dfc),
    (''Batcher'', menu_batcher),
    (''PackageWeigher'', menu_package_weigher),
    (''AxleWeigher'', menu_axle_weigher),
    (''CheckWeigher'', menu_check_weigher),
    (''PWC'', menu_pwc),
    (''Livestock'', menu_livestock),
    (''DLCSetup'', menu_dlc_setup),
    (''ReviewMenu'', menu_review_menu)]"

definition menu_dispatch :: "string \<Rightarrow> menu option" where
  "menu_dispatch name = map_of menu_table name"

text \<open>Running a menu function: it may set the context for the getter, then builds its items in order; None when an item is
  read through a dangling context pointer.\<close>

definition run_menu ::
  "'f float_lib \<Rightarrow> (string \<Rightarrow> string \<Rightarrow> 'p \<Rightarrow> string) \<Rightarrow> 'f m225 \<Rightarrow> 'p \<Rightarrow> menu \<Rightarrow> 'f m225 \<times> json list option" where
  "run_menu lib peer m p mn = (let
     m1 = (case menu_ctx mn of None \<Rightarrow> m | Some c \<Rightarrow> m225_set_menu_ctx (Constant c) m) in
     (m1, those (map (\<lambda>it. map_option JObj (build_item (getter_value lib peer m1 p (menu_getter mn)) it)) (menu_items mn))))"

end
