(* ===== verification/Menu.thy ===== *)
theory Menu
  imports Menu_Tables
begin

text \<open>
  What the menus of main/ble/menu_builder.c promise the application, against the configuration store of main/195_Actor.c: every
  variable a menu of the indicator lists can be read and, when it is offered for writing, set; the value shown is the
  one a get command returns; the texts, choices and ranges offered, against what the store keeps.
\<close>

section \<open>What a menu lists\<close>

text \<open>The variables of a menu with whether they are offered for writing, its texts with their greatest length, its choices, and
  its ranges, as far as they are offered for writing.\<close>

fun item_variables :: "menu_item \<Rightarrow> (string \<times> bool) list" where
  "item_variables (S_item n t d a) = [(n, a = ''RW'')]"
| "item_variables (S_str_item n t a k) = [(n, a = ''RW'')]"
| "item_variables (S_int_item n t a mn mx) = [(n, a = ''RW'')]"
| "item_variables (S_bool_item n t a) = [(n, a = ''RW'')]"
| "item_variables (S_enum_item n t a vs) = [(n, a = ''RW'')]"
| "item_variables (S_ro_item n t d) = [(n, False)]"
| "item_variables (S_typed_item n t d a) = [(n, a = ''RW'')]"
| "item_variables (S_typed_range n t d a mn mx) = [(n, a = ''RW'')]"
| "item_variables (S_folder n t) = []"
| "item_variables (S_method n t ps r) = []"
| "item_variables (Add_cond it c) = item_variables it"

fun item_texts :: "menu_item \<Rightarrow> (string \<times> int) list" where
  "item_texts (S_str_item n t a k) = (if a = ''RW'' then [(n, k)] else [])"
| "item_texts (Add_cond it c) = item_texts it"
| "item_texts it = []"

fun item_choices :: "menu_item \<Rightarrow> (string \<times> string list) list" where
  "item_choices (S_enum_item n t a vs) = (if a = ''RW'' then [(n, vs)] else [])"
| "item_choices (Add_cond it c) = item_choices it"
| "item_choices it = []"

fun item_ranges :: "menu_item \<Rightarrow> (string \<times> rat \<times> rat) list" where
  "item_ranges (S_typed_range n t d a mn mx) = (if a = ''RW'' then [(n, mn, mx)] else [])"
| "item_ranges (Add_cond it c) = item_ranges it"
| "item_ranges it = []"

definition listed :: "(menu_item \<Rightarrow> 'a list) \<Rightarrow> menu \<Rightarrow> 'a list" where
  "listed f mn = concat (map f (menu_items mn))"

text \<open>The menus of the indicator.\<close>

definition m225_menus :: "(string \<times> menu) list" where
  "m225_menus = filter (\<lambda>(act, mn). menu_getter mn = M225_getter) menu_table"

section \<open>The getters of the variables\<close>

text \<open>For each menu the table entry that answers for each of its variables, by the part of the store it belongs to.\<close>

definition menu_getters1 :: "(string \<times> (string \<times> getter) list) list" where
  "menu_getters1 = [
    (''195Menu'', [
      (''ScaleType'', G_STR ''scale_type'')]),
    (''IndicatorSetup'', [
      (''USA'', G_BOOL ''usa''), (''NSC'', G_NA), (''LFT'', G_BOOL ''lft''), (''OIML'', G_BOOL ''oiml''),
      (''TimeFormat'', G_STR ''time_format''), (''DateFormat'', G_STR ''date_format''),
      (''ConsecutiveNumber'', G_U32 ''consecutive_number''), (''ClearTare'', G_BOOL ''clear_tare''),
      (''ClearID'', G_BOOL ''clear_id''), (''NumberOfScales'', G_U8 ''number_of_scales''),
      (''Totalizer'', G_BOOL ''totalizer''), (''ModeOfOperation'', G_STR ''mode_of_operation'')]),
    (''ScaleSetup'', [
      (''PrimaryUnits'', G_STR ''primary_units''), (''SecondaryUnits'', G_STR ''secondary_units''),
      (''ZeroTracking'', G_STR ''zero_tracking''), (''ZeroLimit'', G_BOOL ''zero_limit''),
      (''PowerUpZero'', G_BOOL ''power_up_zero''), (''SampleRate'', G_U8 ''sample_rate''),
      (''MotionRange'', G_U8 ''motion_range''), (''StableCount'', G_U8 ''stable_count''),
      (''WeightIntervals'', G_U8 ''weight_intervals''), (''ScaleType'', G_STR ''scale_type''),
      (''FilterType'', G_STR ''filter_type''), (''FilterLevel'', G_U8 ''filter_level''),
      (''FilterBreak'', G_U8 ''filter_break''), (''Interval'', G_U32 ''interval''),
      (''DecimalPlace'', G_U8 ''decimal_place''), (''Capacity'', G_U32 ''capacity''),
      (''LowInterval'', G_U32 ''low_interval''), (''LowDecimalPlace'', G_U8 ''low_decimal_place''),
      (''LowCapacity'', G_U32 ''low_capacity''), (''HighInterval'', G_U32 ''high_interval''),
      (''HighDecimalPlace'', G_U8 ''high_decimal_place''), (''HighCapacity'', G_U32 ''high_capacity''),
      (''PrelimFilterCount'', G_U8 ''prelim_filter_count'')]),
    (''ScaleCalibration'', [
      (''SpanWeight'', G_FLOAT ''span_weight''), (''SpanCount'', G_U32 ''span_count''),
      (''ZeroCount'', G_U32 ''zero_count''), (''LC1'', G_U32 ''lc1''), (''LC2'', G_U32 ''lc2''),
      (''LC3'', G_U32 ''lc3''), (''LC4'', G_U32 ''lc4''), (''CellTrimming'', G_FLOAT ''cell_trimming'')]),
    (''LoadCellAssignments'', [
      (''CellID'', G_U8 ''cell_id''), (''CellToScale'', G_STR ''cell_to_scale''),
      (''CellsPerScale'', G_U8 ''cells_per_scale''), (''CellTrim'', G_FLOAT ''cell_trim'')])]"

definition menu_getters2 :: "(string \<times> (string \<times> getter) list) list" where
  "menu_getters2 = [
    (''SerialPorts'', [
      (''Type'', G_STR ''serial_type''), (''BaudRate'', G_STR ''baud_rate''), (''DataBits'', G_STR ''data_bits''),
      (''StopBits'', G_STR ''stop_bits''), (''Parity'', G_STR ''parity''),
      (''TransferCondition'', G_STR ''transfer_condition''), (''Scale'', G_STR ''serial_scale''),
      (''GrossOnly'', G_BOOL ''gross_only''), (''ManualMode'', G_BOOL ''manual_mode''),
      (''MessageSlot'', G_STR ''message_slot''), (''ElectricalInterface'', G_STR ''electrical_interface''),
      (''SBHighThreshold'', G_U32 ''sb_high_threshold'')]),
    (''Ethernet'', [
      (''EthernetEnable'', G_BOOL ''ethernet_enable''), (''DHCP'', G_BOOL ''eth_dhcp''),
      (''IPAddress'', G_STR ''eth_ip''), (''Gateway'', G_STR ''eth_gateway''), (''Subnet'', G_STR ''eth_subnet''),
      (''ServerPortA'', G_U16 ''server_port_a''), (''ServerPortB'', G_U16 ''server_port_b''),
      (''ServerPortC'', G_U16 ''server_port_c''), (''ClientServerPort'', G_U16 ''client_server_port''),
      (''PortType'', G_STR ''eth_port_type''), (''PortThreshold'', G_U32 ''eth_port_threshold''),
      (''MessageSlot'', G_STR ''eth_message_slot'')]),
    (''WiFi'', [
      (''WiFiEnable'', G_BOOL ''wifi_enable''), (''DHCP'', G_BOOL ''wifi_dhcp''), (''SSID'', G_STR ''wifi_ssid''),
      (''Password'', G_STR ''wifi_password''), (''PortType'', G_STR ''wifi_port_type''),
      (''PortThreshold'', G_U32 ''wifi_port_threshold''), (''MessageSlot'', G_STR ''wifi_message_slot'')]),
    (''ISiteIP'', [
      (''SiteOrder'', G_STR ''site_order''), (''DHCP'', G_BOOL ''isite_dhcp''),
      (''IPAddress'', G_STR ''isite_ip''), (''Subnet'', G_STR ''isite_subnet''),
      (''Gateway'', G_STR ''isite_gateway''), (''DNS1'', G_STR ''dns1''), (''DNS2'', G_STR ''dns2''),
      (''EnableDNS'', G_BOOL ''enable_dns'')]),
    (''SendGross'', [
      (''SendGrossEnable'', G_BOOL ''send_gross_enable''), (''GrossWeightPort'', G_STR ''gross_weight_port'')])]"

definition menu_getters3 :: "(string \<times> (string \<times> getter) list) list" where
  "menu_getters3 = [
    (''PrinterSetup'', [
      (''Port'', G_STR ''printer_port''), (''AutoLF'', G_BOOL ''auto_lf''), (''EndingLF'', G_U8 ''ending_lf''),
      (''EndOfLine'', G_STR ''end_of_line''), (''StartOfTicket'', G_STR ''start_of_ticket''),
      (''EndOfTicket'', G_STR ''end_of_ticket''), (''EndOfTicketLineFeeds'', G_U8 ''end_of_ticket_lf''),
      (''PrintSlot'', G_U8 ''print_slot''), (''TimeTab'', G_FLOAT ''time_tab''),
      (''DateTab'', G_FLOAT ''date_tab''), (''ConsecutiveTab'', G_FLOAT ''consecutive_tab''),
      (''GrossTab'', G_FLOAT ''gross_tab''), (''TareTab'', G_FLOAT ''tare_tab''),
      (''NetTab'', G_FLOAT ''net_tab''), (''GrossAccumTab'', G_FLOAT ''gross_accum_tab''),
      (''NetAccumTab'', G_FLOAT ''net_accum_tab''), (''IDTab'', G_FLOAT ''id_tab'')]),
    (''Accumulators'', [
      (''GenAccums'', G_BOOL ''gen_accums''), (''AccumulatorScale1'', G_FLOAT ''accumulator_scale1''),
      (''AccumulatorScale2'', G_FLOAT ''accumulator_scale2''),
      (''AccumulatorScale3'', G_FLOAT ''accumulator_scale3''),
      (''TotalizerAccumulator'', G_FLOAT ''totalizer_accumulator''), (''Password'', G_STR ''password''),
      (''LRPort'', G_STR ''lr_port'')]),
    (''DACOutput'', [
      (''DACGross'', G_BOOL ''dac_gross''), (''DACLowWeight'', G_FLOAT ''dac_low_weight''),
      (''DACHighWeight'', G_FLOAT ''dac_high_weight''), (''DACVoltOutput'', G_FLOAT ''dac_volt_output''),
      (''AdjustHigh'', G_I32 ''adjust_high''), (''AdjustLow'', G_I32 ''adjust_low''),
      (''DACScale'', G_STR ''dac_scale'')]),
    (''KeyLockout'', [
      (''ZeroKeyLock'', G_BOOL ''zero_key_lock''), (''TareKeyLock'', G_BOOL ''tare_key_lock''),
      (''NetKeyLock'', G_BOOL ''net_key_lock''), (''PrintKeyLock'', G_BOOL ''print_key_lock''),
      (''UnitKeyLock'', G_BOOL ''unit_key_lock''), (''GreenKeyLock'', G_BOOL ''green_key_lock''),
      (''KeypadLock'', G_BOOL ''keypad_lock''), (''IDKeyLock'', G_BOOL ''id_key_lock''),
      (''CountKeyLock'', G_BOOL ''count_key_lock''), (''MemKeyLock'', G_BOOL ''mem_key_lock''),
      (''PresetKeyLock'', G_BOOL ''preset_key_lock''), (''DeleteKeyLock'', G_BOOL ''delete_key_lock''),
      (''StartKeyLock'', G_BOOL ''start_key_lock''), (''DropKeyLock'', G_BOOL ''drop_key_lock''),
      (''PauseKeyLock'', G_BOOL ''pause_key_lock''), (''StopKeyLock'', G_BOOL ''stop_key_lock''),
      (''RestartKeyLock'', G_BOOL ''restart_key_lock''), (''DumpKeyLock'', G_BOOL ''dump_key_lock'')]),
    (''BadgeReader'', [
      (''Reader1Port'', G_STR ''reader1_port''), (''Reader1Type'', G_STR ''reader1_type''),
      (''Reader2Port'', G_STR ''reader2_port''), (''Reader2Type'', G_STR ''reader2_type''),
      (''ThresholdWeight'', G_FLOAT ''threshold_weight''), (''SiteID'', G_BOOL ''site_id'')]),
    (''WINVRS'', [
      (''Computer1Port'', G_STR ''computer1_port''), (''Computer1Mode'', G_STR ''computer1_mode''),
      (''Computer2Port'', G_STR ''computer2_port''), (''Computer2Mode'', G_STR ''computer2_mode''),
      (''PrintPassthrough'', G_BOOL ''print_passthrough''), (''TrafficMode'', G_STR ''traffic_mode''),
      (''TrafficOnThreshold'', G_FLOAT ''traffic_on_threshold''),
      (''TrafficOffThreshold'', G_FLOAT ''traffic_off_threshold''),
      (''TrafficOffDelay'', G_U8 ''traffic_off_delay''), (''EnterRelayCommand'', G_STR ''enter_relay_command''),
      (''ExitRelayCommand'', G_STR ''exit_relay_command''), (''TrafficDisplay'', G_BOOL ''traffic_display''),
      (''DFCEnable'', G_BOOL ''winvrs_dfc_enable'')])]"

definition menu_getters4 :: "(string \<times> (string \<times> getter) list) list" where
  "menu_getters4 = [
    (''IDStorage'', [
      (''WeightAlarm'', G_BOOL ''weight_alarm''), (''AlarmThreshold'', G_FLOAT ''alarm_threshold''),
      (''AlarmTimeOn'', G_U8 ''alarm_time_on''), (''IDCount'', G_U8 ''id_count''),
      (''Prompt1'', G_STR ''prompt1''), (''Prompt2'', G_STR ''prompt2''), (''Prompt3'', G_STR ''prompt3'')]),
    (''DFC'', [
      (''Speed'', G_STR ''dfc_speed''), (''GateSequence'', G_STR ''gate_sequence''),
      (''AutoTrim'', G_BOOL ''auto_trim''), (''AutoPrint'', G_BOOL ''dfc_auto_print''),
      (''MultiDrop'', G_BOOL ''multi_drop''), (''DumpGate'', G_BOOL ''dump_gate''),
      (''AutoDump'', G_BOOL ''auto_dump''), (''Decumulate'', G_BOOL ''decumulate''),
      (''AutoTare'', G_BOOL ''auto_tare''), (''JogToCutoff'', G_BOOL ''jog_to_cutoff''),
      (''FastCutoff'', G_FLOAT ''fast_cutoff''), (''FillWeight'', G_FLOAT ''fill_weight''),
      (''SlowCutoff'', G_FLOAT ''slow_cutoff''), (''Trim'', G_FLOAT ''dfc_trim''),
      (''DropCount'', G_U8 ''drop_count''), (''ZeroTolerance'', G_FLOAT ''zero_tolerance''),
      (''GateTimer'', G_U16 ''gate_timer''), (''Chatter'', G_FLOAT ''chatter'')]),
    (''Batcher'', [
      (''Speed'', G_STR ''batcher_speed''), (''GateSequence'', G_STR ''batcher_gate_seq''),
      (''AutoTrim'', G_BOOL ''batcher_auto_trim''), (''BinCount'', G_U8 ''bin_count''),
      (''AutoPrint'', G_BOOL ''batcher_auto_print''), (''DumpGate'', G_BOOL ''batcher_dump_gate''),
      (''AutoDump'', G_BOOL ''batcher_auto_dump''), (''Decumulate'', G_BOOL ''batcher_decumulate''),
      (''BatchCount'', G_U32 ''batch_count''), (''ZeroTolerance'', G_FLOAT ''batcher_zero_tolerance''),
      (''GateTimer'', G_U16 ''batcher_gate_timer''), (''SettleTimer'', G_U16 ''settle_timer'')]),
    (''PackageWeigher'', [
      (''IDCount'', G_U8 ''pkg_id_count''), (''Prompt1'', G_STR ''pkg_prompt1''),
      (''Prompt2'', G_STR ''pkg_prompt2''), (''Prompt3'', G_STR ''pkg_prompt3''),
      (''RetainID'', G_BOOL ''retain_id'')]),
    (''AxleWeigher'', [
      (''AWMode'', G_STR ''aw_mode''), (''AxlePads'', G_BOOL ''axle_pads''),
      (''ThresholdWeight'', G_FLOAT ''axle_threshold''), (''StopDelay'', G_U16 ''stop_delay''),
      (''TotalDelay'', G_U16 ''total_delay''), (''AxleCounter'', G_U32 ''axle_counter'')]),
    (''CheckWeigher'', [
      (''Outputs'', G_U8 ''cw_outputs''), (''AutoPrint'', G_BOOL ''cw_auto_print''),
      (''UnderThreshold'', G_FLOAT ''under_threshold''), (''LowOKThreshold'', G_FLOAT ''low_ok_threshold''),
      (''HighOKThreshold'', G_FLOAT ''high_ok_threshold''), (''OverThreshold'', G_FLOAT ''over_threshold''),
      (''ColorUnder'', G_STR ''color_under''), (''ColorLowOK'', G_STR ''color_low_ok''),
      (''ColorHighOK'', G_STR ''color_high_ok''), (''ColorAcceptOK'', G_STR ''color_accept_ok''),
      (''ColorOver'', G_STR ''color_over'')]),
    (''PWC'', [
      (''NumberOfOutputs'', G_U8 ''number_of_pwc_outputs''), (''BalanceOnPrint'', G_BOOL ''balance_on_print''),
      (''MonitorZero'', G_BOOL ''monitor_zero''), (''Threshold'', G_FLOAT ''pwc_threshold''),
      (''Trim'', G_FLOAT ''pwc_trim''), (''OutputScale'', G_STR ''output_scale'')]),
    (''Livestock'', [
      (''Inclinometer'', G_BOOL ''inclinometer''), (''SetPitch'', G_FLOAT ''set_pitch''),
      (''SetRoll'', G_FLOAT ''set_roll'')]),
    (''DLCSetup'', [
      (''SnapMediabox'', G_BOOL ''snap_mediabox''), (''SnapID'', G_U8 ''snap_id''),
      (''Channel'', G_U8 ''snap_channel'')]),
    (''ReviewMenu'', [
      (''ScaleID'', G_U8 ''scale_id''), (''CalibrationCounter'', G_U32 ''calibration_counter''),
      (''ConfigurationCounter'', G_U32 ''configuration_counter'')])]"

definition menu_getters :: "(string \<times> (string \<times> getter) list) list" where
  "menu_getters = menu_getters1 @ menu_getters2 @ menu_getters3 @ menu_getters4"

definition ctx_block :: "(string \<times> (string \<times> 'a) list) list \<Rightarrow> string \<Rightarrow> (string \<times> 'a) list" where
  "ctx_block blocks ctx = (case map_of blocks ctx of None \<Rightarrow> [] | Some tab \<Rightarrow> tab)"

lemma lookup_block:
  "lookup blocks flat ctx n = (case map_of (ctx_block blocks ctx) n of None \<Rightarrow> map_of flat n | Some a \<Rightarrow> Some a)"
  by (simp add: lookup_def ctx_block_def split: option.splits)

definition block_agrees :: "(string \<times> 'a) list \<Rightarrow> (string \<times> 'a) list \<Rightarrow> bool" where
  "block_agrees b es = list_all (\<lambda>(n, g). case map_of b n of None \<Rightarrow> True | Some h \<Rightarrow> h = g) es"

definition outside_block :: "(string \<times> 'b) list \<Rightarrow> (string \<times> 'a) list \<Rightarrow> (string \<times> 'a) list" where
  "outside_block b es = filter (\<lambda>(n, g). map_of b n = None) es"

definition flat_entries :: "(string \<times> (string \<times> getter) list) list \<Rightarrow> (string \<times> getter) list" where
  "flat_entries ms = concat (map (\<lambda>(act, es). outside_block (ctx_block get_ctx act) es) ms)"

lemma getters_in_blocks1: "list_all (\<lambda>(act, es). block_agrees (ctx_block get_ctx act) es) menu_getters1"
  by code_simp
lemma getters_in_blocks2: "list_all (\<lambda>(act, es). block_agrees (ctx_block get_ctx act) es) menu_getters2"
  by code_simp
lemma getters_in_blocks3: "list_all (\<lambda>(act, es). block_agrees (ctx_block get_ctx act) es) menu_getters3"
  by code_simp
lemma getters_in_blocks4: "list_all (\<lambda>(act, es). block_agrees (ctx_block get_ctx act) es) menu_getters4"
  by code_simp

lemma getters_in_flat1: "set (flat_entries menu_getters1) \<subseteq> set get_flat1"
  by (rule passes_subset[of 3]) code_simp
lemma getters_in_flat2: "set (flat_entries menu_getters2) \<subseteq> set get_flat2"
  by (rule passes_subset[of 1]) code_simp
lemma getters_in_flat3: "set (flat_entries menu_getters3) \<subseteq> set get_flat3"
  by (rule passes_subset[of 1]) code_simp
lemma getters_in_flat4: "set (flat_entries menu_getters4) \<subseteq> set get_flat4"
  by (rule passes_subset[of 1]) code_simp

lemma getters_are_listed:
  "map (\<lambda>(act, es). (act, map fst es)) menu_getters = map (\<lambda>(act, mn). (act, map fst (listed item_variables mn))) m225_menus"
  by code_simp

lemma flat_entries_append: "flat_entries (a @ b) = flat_entries a @ flat_entries b"
  by (simp add: flat_entries_def)

lemma flat_getter: "(n, g) \<in> set get_flat \<Longrightarrow> map_of get_flat n = Some g"
  using get_flat_distinct by simp

lemma menu_getter_found:
  assumes "(act, es) \<in> set menu_getters" "(n, g) \<in> set es"
  shows "lookup get_ctx get_flat act n = Some g"
proof -
  have "block_agrees (ctx_block get_ctx act) es"
    using assms(1) getters_in_blocks1 getters_in_blocks2 getters_in_blocks3 getters_in_blocks4
    by (auto simp: menu_getters_def list_all_iff)
  moreover have "map_of get_flat n = Some g" if "map_of (ctx_block get_ctx act) n = None"
  proof -
    have "(n, g) \<in> set (flat_entries menu_getters)"
      using assms that by (force simp: flat_entries_def outside_block_def)
    moreover have "set (flat_entries menu_getters) \<subseteq> set get_flat"
      unfolding menu_getters_def get_flat_def flat_entries_append set_append
      by (intro Un_mono getters_in_flat1 getters_in_flat2 getters_in_flat3 getters_in_flat4)
    ultimately show ?thesis by (intro flat_getter) blast
  qed
  ultimately show ?thesis using assms(2) by (fastforce simp: lookup_block block_agrees_def list_all_iff split: option.splits)
qed

text \<open>A listed variable has its entry.\<close>

lemma listed_getter:
  assumes "(act, mn) \<in> set m225_menus" "(n, rw) \<in> set (listed item_variables mn)"
  shows "\<exists>g es. (act, es) \<in> set menu_getters \<and> (n, g) \<in> set es \<and> lookup get_ctx get_flat act n = Some g"
proof -
  have "(act, map fst (listed item_variables mn)) \<in> set (map (\<lambda>(act, es). (act, map fst es)) menu_getters)"
    unfolding getters_are_listed using assms(1) by force
  then obtain es where es: "(act, es) \<in> set menu_getters" "map fst es = map fst (listed item_variables mn)" by auto
  have "n \<in> set (map fst es)" unfolding es(2) using assms(2) by force
  then obtain g where "(n, g) \<in> set es" by auto
  then show ?thesis using menu_getter_found es(1) by blast
qed

section \<open>Their setters\<close>

definition flat_names :: "(string \<times> menu) list \<Rightarrow> string list" where
  "flat_names ms = concat (map (\<lambda>(act, mn). map fst (outside_block (ctx_block set_ctx act) (filter snd (listed item_variables mn)))) ms)"

lemma setters_in_flat: "set (flat_names m225_menus) \<subseteq> set (map fst set_flat)"
proof -
  have app: "flat_names (a @ b) = flat_names a @ flat_names b" for a b by (simp add: flat_names_def)
  have split: "flat_names m225_menus = flat_names (take 5 m225_menus) @ flat_names (take 7 (drop 5 m225_menus)) @
      flat_names (drop 7 (drop 5 m225_menus))"
    by (simp only: app[symmetric] append_take_drop_id)
  have "passes 5 (map fst (set_flat1 @ set_flat2)) (flat_names (take 5 m225_menus))" by code_simp
  then have 1: "set (flat_names (take 5 m225_menus)) \<subseteq> set (map fst (set_flat1 @ set_flat2))" by (rule passes_subset)
  have "passes 2 (map fst (set_flat2 @ set_flat3)) (flat_names (take 7 (drop 5 m225_menus)))" by code_simp
  then have 2: "set (flat_names (take 7 (drop 5 m225_menus))) \<subseteq> set (map fst (set_flat2 @ set_flat3))" by (rule passes_subset)
  have "passes 2 (map fst (set_flat3 @ set_flat4)) (flat_names (drop 7 (drop 5 m225_menus)))" by code_simp
  then have 3: "set (flat_names (drop 7 (drop 5 m225_menus))) \<subseteq> set (map fst (set_flat3 @ set_flat4))" by (rule passes_subset)
  show ?thesis unfolding split set_flat_def using 1 2 3 by auto
qed

lemma listed_setter:
  assumes "(act, mn) \<in> set m225_menus" "(n, True) \<in> set (listed item_variables mn)"
  shows "\<exists>s. lookup set_ctx set_flat act n = Some s"
proof (cases "map_of (ctx_block set_ctx act) n")
  case None
  have "(n, True) \<in> set (outside_block (ctx_block set_ctx act) (filter snd (listed item_variables mn)))"
    using assms(2) None by (simp add: outside_block_def)
  then have "n \<in> set (map fst (outside_block (ctx_block set_ctx act) (filter snd (listed item_variables mn))))"
    by (metis fst_conv image_eqI set_map)
  then have "n \<in> set (flat_names m225_menus)" 
    unfolding flat_names_def set_concat set_map image_image by (intro UN_I[OF assms(1)]) simp
  then have "n \<in> fst ` set set_flat" using setters_in_flat by auto
  then have "map_of set_flat n \<noteq> None" by (simp add: map_of_eq_None_iff)
  then show ?thesis using None by (auto simp: lookup_block)
qed (simp add: lookup_block)

section \<open>Discovery shows what a get returns\<close>

definition block_names :: "string list" where
  "block_names = concat (map (\<lambda>(c, tab). map fst tab) get_ctx)"

definition context_free :: "menu \<Rightarrow> bool" where
  "context_free mn = list_all (\<lambda>(n, rw). n \<notin> set block_names) (listed item_variables mn)"

definition context_fits :: "string \<Rightarrow> menu \<Rightarrow> bool" where
  "context_fits act mn = (if menu_ctx mn = Some act then True else context_free mn)"

lemma contexts_fit: "list_all (\<lambda>(act, mn). context_fits act mn) m225_menus"
  by code_simp

lemma context_lookup:
  assumes "(act, mn) \<in> set m225_menus" "(n, rw) \<in> set (listed item_variables mn)" "menu_ctx mn = None \<or> menu_ctx mn = Some c"
  shows "lookup get_ctx get_flat c n = lookup get_ctx get_flat act n"
proof (cases "menu_ctx mn = Some act")
  case False
  then have "n \<notin> set block_names"
  proof -
    have "context_fits act mn" using assms(1) contexts_fit unfolding list_all_iff by blast
    then have "context_free mn" using False by (simp add: context_fits_def)
    then show ?thesis using assms(2) unfolding context_free_def list_all_iff by blast
  qed
  then have "map_of tab n = None" if "(d, tab) \<in> set get_ctx" for d tab
  proof -
    have "set (map fst (snd (d, tab))) \<subseteq> set block_names"
      unfolding block_names_def set_concat set_map image_image case_prod_unfold by (rule UN_upper[OF that])
    then show ?thesis using \<open>n \<notin> set block_names\<close> by (auto simp: map_of_eq_None_iff)
  qed
  then have "map_of (ctx_block get_ctx d) n = None" for d
    by (cases "map_of get_ctx d") (auto simp: ctx_block_def dest: map_of_SomeD)
  then show ?thesis by (simp add: lookup_block)
qed (use assms(3) in auto)

text \<open>The values a built menu shows.\<close>

fun shown_value :: "json \<Rightarrow> (string \<times> string) list" where
  "shown_value (JObj fs) = (case (map_of fs ''name'', map_of fs ''value'') of (Some (JStr n), Some (JStr v)) \<Rightarrow> [(n, v)] | _ \<Rightarrow> [])"
| "shown_value j = []"

lemmas item_builders = s_item_def s_str_item_def s_int_item_def s_bool_item_def s_enum_item_def s_ro_item_def
  s_typed_item_def s_typed_range_def s_folder_def s_method_def add_cond_def

lemma build_item_total: "list_all (\<lambda>(n, rw). g n \<noteq> None) (item_variables it) \<Longrightarrow> build_item g it \<noteq> None"
  by (induction it) (auto simp: item_builders)

lemma build_item_shown:
  "build_item g it = Some fs \<Longrightarrow> shown_value (JObj fs) = map (\<lambda>(n, rw). (n, the (g n))) (item_variables it)"
proof (induction it arbitrary: fs)
  case (Add_cond it c)
  then obtain fs0 where fs0: "build_item g it = Some fs0" "fs = add_cond c fs0" by auto
  have "map_of fs k = map_of fs0 k" if "k \<noteq> ''condition''" for k
    using that by (auto simp: fs0(2) add_cond_def map_add_def split: option.splits)
  then show ?case using Add_cond.IH[OF fs0(1)] by simp
qed (auto simp: item_builders)

lemma those_map: "list_all (\<lambda>x. f x \<noteq> None) xs \<Longrightarrow> those (map f xs) = Some (map (\<lambda>x. the (f x)) xs)"
  by (induction xs) auto

lemma build_items:
  assumes "list_all (\<lambda>(n, rw). g n \<noteq> None) (listed item_variables mn)"
  shows "\<exists>js. those (map (\<lambda>it. map_option JObj (build_item g it)) (menu_items mn)) = Some js \<and>
    concat (map shown_value js) = map (\<lambda>(n, rw). (n, the (g n))) (listed item_variables mn)"
proof -
  let ?f = "\<lambda>it. map_option JObj (build_item g it)"
  have ok: "build_item g it \<noteq> None" if "it \<in> set (menu_items mn)" for it
    using assms that by (intro build_item_total) (force simp: listed_def list_all_iff)
  have "those (map ?f (menu_items mn)) = Some (map (\<lambda>it. the (?f it)) (menu_items mn))"
    using ok by (intro those_map) (auto simp: list_all_iff)
  moreover have "map (\<lambda>it. shown_value (the (?f it))) (menu_items mn) =
      map (\<lambda>it. map (\<lambda>(n, rw). (n, the (g n))) (item_variables it)) (menu_items mn)"
    using ok build_item_shown by (intro map_cong refl) fastforce
  then have "concat (map shown_value (map (\<lambda>it. the (?f it)) (menu_items mn))) = map (\<lambda>(n, rw). (n, the (g n))) (listed item_variables mn)"
    by (simp only: listed_def map_concat map_map comp_def)
  ultimately show ?thesis by blast
qed

lemma actor_get_cong:
  "ctx_value m = Some c \<Longrightarrow> ctx_value m1 = Some c1 \<Longrightarrow> s_m225 m = s_m225 m1 \<Longrightarrow>
    lookup get_ctx get_flat c n = lookup get_ctx get_flat c1 n \<Longrightarrow> m225_actor_get lib n k m = m225_actor_get lib n k m1"
  by (simp add: m225_actor_get_def split: option.splits)

text \<open>C38: While the pointer to the menu context does not point into a message that has been released, a menu of the indicator shows,
  for each of its variables, the value a get command for that menu and variable returns: menus that set no context show only variables that mean the same in every context, and the others set the context
  in which the application addresses them.\<close>

theorem discovery_shows_current_values:
  assumes "menu_dispatch act = Some mn" "menu_getter mn = M225_getter" "ctx_value m = Some c"
  shows "\<exists>js. snd (run_menu lib peer m p mn) = Some js \<and>
    concat (map shown_value js) = map (\<lambda>(n, rw).
      (n, snd (the (m225_actor_get lib n 256 (m225_set_menu_ctx (Constant act) m))))) (listed item_variables mn)"
proof -
  let ?m1 = "case menu_ctx mn of None \<Rightarrow> m | Some c \<Rightarrow> m225_set_menu_ctx (Constant c) m"
  let ?g = "getter_value lib peer ?m1 p M225_getter"
  have mem: "(act, mn) \<in> set m225_menus"
    using assms(1, 2) by (auto simp: menu_dispatch_def m225_menus_def dest: map_of_SomeD)
  obtain c1 where c1: "ctx_value ?m1 = Some c1" "menu_ctx mn = None \<or> menu_ctx mn = Some c1" "s_m225 ?m1 = s_m225 m"
    using assms(3) by (cases "menu_ctx mn") (auto simp: m225_set_menu_ctx_def ctx_value_def)
  have same: "?g n = map_option snd (m225_actor_get lib n 256 (m225_set_menu_ctx (Constant act) m)) \<and> ?g n \<noteq> None"
    if "(n, rw) \<in> set (listed item_variables mn)" for n rw
  proof -
    have a: "ctx_value (m225_set_menu_ctx (Constant act) m) = Some act" by (simp add: ctx_value_def m225_set_menu_ctx_def)
    have "m225_actor_get lib n 256 ?m1 = m225_actor_get lib n 256 (m225_set_menu_ctx (Constant act) m)"
      using c1(3) by (intro actor_get_cong[OF c1(1) a _ context_lookup[OF mem that c1(2)]]) simp
    then show ?thesis using a by (simp add: getter_value_def) (simp add: m225_actor_get_def)
  qed
  then have "list_all (\<lambda>(n, rw). ?g n \<noteq> None) (listed item_variables mn)" by (auto simp: list_all_iff)
  from build_items[OF this] obtain js where js:
    "those (map (\<lambda>it. map_option JObj (build_item ?g it)) (menu_items mn)) = Some js"
    "concat (map shown_value js) = map (\<lambda>(n, rw). (n, the (?g n))) (listed item_variables mn)" by blast
  have eq: "the (?g n) = snd (the (m225_actor_get lib n 256 (m225_set_menu_ctx (Constant act) m)))"
    if "(n, rw) \<in> set (listed item_variables mn)" for n rw
    using same[OF that] by (cases "m225_actor_get lib n 256 (m225_set_menu_ctx (Constant act) m)") auto
  have "map (\<lambda>(n, rw). (n, the (?g n))) (listed item_variables mn) = map (\<lambda>(n, rw).
      (n, snd (the (m225_actor_get lib n 256 (m225_set_menu_ctx (Constant act) m))))) (listed item_variables mn)"
    using eq by (intro map_cong refl) (auto split: prod.splits)
  then show ?thesis using js assms(2) by (simp add: run_menu_def)
qed

section \<open>Texts and choices\<close>

text \<open>The character fields the menus' variables are kept in.\<close>

definition string_fields1 :: "(string \<times> ftype) list" where
  "string_fields1 = [
    (''time_format'', TChars 4), (''date_format'', TChars 12), (''mode_of_operation'', TChars 20),
    (''primary_units'', TChars 4), (''secondary_units'', TChars 4), (''zero_tracking'', TChars 6),
    (''scale_type'', TChars 8), (''filter_type'', TChars 8), (''cell_to_scale'', TChars 8)]"

definition string_fields2 :: "(string \<times> ftype) list" where
  "string_fields2 = [
    (''serial_type'', TChars 12), (''baud_rate'', TChars 8), (''data_bits'', TChars 2),
    (''stop_bits'', TChars 2), (''parity'', TChars 6), (''transfer_condition'', TChars 12),
    (''serial_scale'', TChars 16), (''message_slot'', TChars 12), (''electrical_interface'', TChars 6),
    (''eth_ip'', TChars 16), (''eth_gateway'', TChars 16), (''eth_subnet'', TChars 16),
    (''eth_port_type'', TChars 8), (''eth_message_slot'', TChars 12), (''wifi_ssid'', TChars 32),
    (''wifi_password'', TChars 32), (''wifi_port_type'', TChars 8), (''wifi_message_slot'', TChars 12),
    (''site_order'', TChars 32), (''isite_ip'', TChars 16), (''isite_subnet'', TChars 16),
    (''isite_gateway'', TChars 16), (''dns1'', TChars 16), (''dns2'', TChars 16),
    (''gross_weight_port'', TChars 8)]"

definition string_fields3 :: "(string \<times> ftype) list" where
  "string_fields3 = [
    (''printer_port'', TChars 8), (''end_of_line'', TChars 4), (''start_of_ticket'', TChars 32),
    (''end_of_ticket'', TChars 32), (''password'', TChars 32), (''lr_port'', TChars 8),
    (''dac_scale'', TChars 8), (''reader1_port'', TChars 8), (''reader1_type'', TChars 12),
    (''reader2_port'', TChars 8), (''reader2_type'', TChars 12), (''computer1_port'', TChars 8),
    (''computer1_mode'', TChars 12), (''computer2_port'', TChars 8), (''computer2_mode'', TChars 12),
    (''traffic_mode'', TChars 4), (''enter_relay_command'', TChars 8), (''exit_relay_command'', TChars 8)]"

definition string_fields4 :: "(string \<times> ftype) list" where
  "string_fields4 = [
    (''prompt1'', TChars 16), (''prompt2'', TChars 16), (''prompt3'', TChars 16), (''dfc_speed'', TChars 12),
    (''gate_sequence'', TChars 6), (''batcher_speed'', TChars 12), (''batcher_gate_seq'', TChars 6),
    (''pkg_prompt1'', TChars 16), (''pkg_prompt2'', TChars 16), (''pkg_prompt3'', TChars 16),
    (''aw_mode'', TChars 8), (''color_under'', TChars 8), (''color_low_ok'', TChars 8),
    (''color_high_ok'', TChars 8), (''color_accept_ok'', TChars 8), (''color_over'', TChars 8),
    (''output_scale'', TChars 8)]"

definition string_fields :: "(string \<times> ftype) list" where
  "string_fields = string_fields1 @ string_fields2 @ string_fields3 @ string_fields4"

lemma string_fields_in1: "set string_fields1 \<subseteq> set m225_fields1"
  by (rule passes_subset[of 1]) code_simp
lemma string_fields_in2: "set string_fields2 \<subseteq> set m225_fields2"
  by (rule passes_subset[of 1]) code_simp
lemma string_fields_in3: "set string_fields3 \<subseteq> set m225_fields3"
  by (rule passes_subset[of 1]) code_simp
lemma string_fields_in4: "set string_fields4 \<subseteq> set m225_fields4"
  by (rule passes_subset[of 1]) code_simp

lemma string_field: "map_of string_fields f = Some t \<Longrightarrow> map_of m225_fields f = Some t"
proof -
  assume "map_of string_fields f = Some t"
  then have "(f, t) \<in> set string_fields" by (rule map_of_SomeD)
  moreover have "set string_fields \<subseteq> set m225_fields"
    unfolding string_fields_def m225_fields_def set_append
    by (intro Un_mono string_fields_in1 string_fields_in2 string_fields_in3 string_fields_in4)
  ultimately show ?thesis using fields_distinct by auto
qed

definition offered :: "(menu_item \<Rightarrow> 'a list) \<Rightarrow> (string \<times> 'a) list" where
  "offered f = concat (map (\<lambda>(act, mn). map (\<lambda>x. (act, x)) (listed f mn)) m225_menus)"

definition room :: "string \<Rightarrow> string \<Rightarrow> nat option" where
  "room act n = (case map_of (ctx_block menu_getters act) n of
     Some (G_STR f) \<Rightarrow> (case map_of string_fields f of Some (TChars k) \<Rightarrow> Some k | _ \<Rightarrow> None) | _ \<Rightarrow> None)"

lemma texts_room: "list_all (\<lambda>(act, n, k). room act n = Some (nat k)) (offered item_texts)"
  by code_simp

fun unfit :: "string list \<Rightarrow> nat option \<Rightarrow> string list" where
  "unfit vs None = vs"
| "unfit vs (Some k) = filter (\<lambda>v. k \<le> length v) vs"

lemma choices_room:
  "filter (\<lambda>(act, n, bad). bad \<noteq> []) (map (\<lambda>(act, n, vs). (act, n, unfit vs (room act n))) (offered item_choices)) =
    [(''Ethernet'', ''PortType'', [''Disabled'']), (''WiFi'', ''PortType'', [''Disabled''])]"
  by code_simp

lemma choices_short: "list_all (\<lambda>(act, n, vs). list_all (\<lambda>v. length v < 256) vs) (offered item_choices)"
  by code_simp

lemma port_types: "map fst (filter (\<lambda>(act, n, vs). n = ''PortType'') (offered item_choices)) = [''Ethernet'', ''WiFi'']"
  by code_simp

lemma port_type_room: "room ''Ethernet'' ''PortType'' = Some 8" "room ''WiFi'' ''PortType'' = Some 8"
  by code_simp+

lemma listed_offered: "(act, x) \<in> set (offered f) \<Longrightarrow> \<exists>mn. (act, mn) \<in> set m225_menus \<and> x \<in> set (listed f mn)"
  by (auto simp: offered_def)

lemma item_writable:
  "(n, k) \<in> set (item_texts it) \<Longrightarrow> (n, True) \<in> set (item_variables it)"
  "(n, vs) \<in> set (item_choices it) \<Longrightarrow> (n, True) \<in> set (item_variables it)"
  by (induction it) (auto split: if_splits)

lemma listed_writable:
  "(n, k) \<in> set (listed item_texts mn) \<Longrightarrow> (n, True) \<in> set (listed item_variables mn)"
  "(n, vs) \<in> set (listed item_choices mn) \<Longrightarrow> (n, True) \<in> set (listed item_variables mn)"
  using item_writable by (fastforce simp: listed_def)+

lemma offeredI:
  "(act, mn) \<in> set menu_table \<Longrightarrow> menu_getter mn = M225_getter \<Longrightarrow> x \<in> set (listed f mn) \<Longrightarrow> (act, x) \<in> set (offered f)"
  by (force simp: offered_def m225_menus_def)

text \<open>A writable variable with room for k bytes keeps the first k - 1 characters of what is set.\<close>

lemma set_reads_back:
  assumes "(act, mn) \<in> set m225_menus" "(n, True) \<in> set (listed item_variables mn)" "room act n = Some k"
    and "ctx_value m = Some act" "length v < 256"
  shows "\<exists>m1. m225_actor_set lib nvs_ok n v m = Some (True, m1) \<and> m225_actor_get lib n 256 m1 = Some (True, take (k - 1) v)"
proof -
  obtain f where f: "map_of (ctx_block menu_getters act) n = Some (G_STR f)" "map_of string_fields f = Some (TChars k)"
    using assms(3) by (auto simp: room_def split: option.splits getter.splits ftype.splits)
  have g: "lookup get_ctx get_flat act n = Some (G_STR f)"
    using f(1) by (intro menu_getter_found[of act "ctx_block menu_getters act"])
      (auto simp: ctx_block_def dest: map_of_SomeD split: option.splits)
  obtain s where s: "lookup set_ctx set_flat act n = Some s" using listed_setter[OF assms(1, 2)] by blast
  then have "getter_field (G_STR f) = Some (setter_field s)" using setter_has_getter[OF s] g by simp
  then have sf: "s = S_STR f" by (cases s) auto
  obtain m1 where m1: "m225_actor_set lib nvs_ok n v m = Some (True, m1)" "ctx_value m1 = Some act"
    "s_m225 m1 = (let fs = (s_m225 m)(fst (setter_field s) \<mapsto> stored lib v s) in if counts s then bumped fs else fs)"
    using actor_set_fields[OF assms(4) s] by blast
  have "s_m225 m1 f = Some (Str (take (k - 1) v))"
    using m1(3) string_field[OF f(2)] by (simp add: sf stored_def counts_def field_size_def)
  moreover have "take 255 (take (k - 1) v) = take (k - 1) v"
    using assms(5) by (intro take_all) simp
  ultimately show ?thesis using m1(1, 2) g by (simp add: m225_actor_get_def show_field_def)
qed

text \<open>the greatest length a menu gives for a text is one more than the indicator keeps: what is set is read back without its
  last character when it has that length, and whole when it is shorter.\<close>

theorem longest_text_loses_last:
  assumes "(act, n, k) \<in> set (offered item_texts)" "ctx_value m = Some act" "length v \<le> nat k" "k \<le> 255"
  shows "\<exists>m1. m225_actor_set lib nvs_ok n v m = Some (True, m1) \<and>
    m225_actor_get lib n 256 m1 = Some (True, if length v = nat k then butlast v else v)"
proof -
  obtain mn where mn: "(act, mn) \<in> set m225_menus" "(n, k) \<in> set (listed item_texts mn)"
    using listed_offered[OF assms(1)] by blast
  have "room act n = Some (nat k)" using texts_room assms(1) unfolding list_all_iff by blast
  moreover have "take (nat k - 1) v = (if length v = nat k then butlast v else v)" using assms(3) by (auto simp: butlast_conv_take)
  ultimately show ?thesis
    using set_reads_back[OF mn(1) listed_writable(1)[OF mn(2)] _ assms(2), of "nat k" v] assms(3, 4) by auto
qed

text \<open>every choice a menu of the indicator offers is kept as it is when it is set, except that Disabled as the port type of
  the Ethernet and WiFi menus becomes Disable.\<close>

theorem offered_choices_kept:
  assumes "(act, n, vs) \<in> set (offered item_choices)" "v \<in> set vs" "ctx_value m = Some act"
  shows "\<exists>m1. m225_actor_set lib nvs_ok n v m = Some (True, m1) \<and>
    m225_actor_get lib n 256 m1 = Some (True, if n = ''PortType'' \<and> v = ''Disabled'' then ''Disable'' else v)"
proof -
  obtain mn where mn: "(act, mn) \<in> set m225_menus" "(n, vs) \<in> set (listed item_choices mn)"
    using listed_offered[OF assms(1)] by blast
  have short: "length v < 256" using assms(1, 2) choices_short by (auto simp: list_all_iff)
  let ?bad = "unfit vs (room act n)"
  have bad: "(act, n, ?bad) \<in> {(''Ethernet'', ''PortType'', [''Disabled'']), (''WiFi'', ''PortType'', [''Disabled''])}" if "?bad \<noteq> []"
  proof -
    have "(act, n, ?bad) \<in> set (filter (\<lambda>(act, n, bad). bad \<noteq> []) (map (\<lambda>(act, n, vs). (act, n, unfit vs (room act n))) (offered item_choices)))"
      using assms(1) that by force
    then show ?thesis unfolding choices_room by simp
  qed
  obtain k where k: "room act n = Some k"
  proof (cases "room act n")
    case None
    then have "vs \<noteq> []" "?bad = vs" using assms(2) by auto
    then show ?thesis using bad port_type_room None by auto
  qed
  have kept: "take (k - 1) v = (if n = ''PortType'' \<and> v = ''Disabled'' then ''Disable'' else v)"
  proof (cases "n = ''PortType''")
    case True
    have "act \<in> set (map fst (filter (\<lambda>(act, n, vs). n = ''PortType'') (offered item_choices)))"
      using assms(1) True by force
    then have k8: "k = 8" using k port_type_room True unfolding port_types by auto
    have "v = ''Disabled''" if "8 \<le> length v"
    proof -
      have "v \<in> set ?bad" using that assms(2) k k8 by simp
      then show ?thesis using bad by (cases "?bad = []") auto
    qed
    then show ?thesis using True k8 by (cases "8 \<le> length v") auto
  next
    case False
    then have "?bad = []" using bad by auto
    then have "length v < k" using k assms(2) by (auto simp: filter_empty_conv)
    then show ?thesis using False by simp
  qed
  show ?thesis using set_reads_back[OF mn(1) listed_writable(2)[OF mn(2)] k assms(3) short] unfolding kept by simp
qed

theorem offered_choices_kept_witness:
  "\<exists>m1. m225_actor_set demo_lib True ''ModeOfOperation'' ''PackageWeigher''
      ((m225_boot demo_lib)\<lparr>s_actor_ctx := Constant ''IndicatorSetup''\<rparr>) = Some (True, m1) \<and>
    m225_actor_get demo_lib ''ModeOfOperation'' 256 m1 = Some (True, ''PackageWeigher'')"
proof -
  have "(''IndicatorSetup'', ''ModeOfOperation'', [''Normal'', ''IDStorage'', ''Batcher'', ''DFC'', ''PackageWeigher'',
      ''AxleWeigher'', ''CheckWeigher'', ''PWC'', ''Livestock'']) \<in> set (offered item_choices)"
    by (rule offeredI[of _ menu_indicator_setup]) (simp_all add: menu_table_def menu_indicator_setup_def listed_def)
  from offered_choices_kept[OF this, of "''PackageWeigher''"
      "(m225_boot demo_lib)\<lparr>s_actor_ctx := Constant ''IndicatorSetup''\<rparr>" demo_lib True]
  show ?thesis by (simp add: ctx_value_def)
qed

theorem longest_text_loses_last_witness:
  "\<exists>m1. m225_actor_set demo_lib True ''EnterRelayCommand'' ''OPEN-ALL''
      ((m225_boot demo_lib)\<lparr>s_actor_ctx := Constant ''WINVRS''\<rparr>) = Some (True, m1) \<and>
    m225_actor_get demo_lib ''EnterRelayCommand'' 256 m1 = Some (True, ''OPEN-AL'')"
proof -
  have "(''WINVRS'', ''EnterRelayCommand'', 8) \<in> set (offered item_texts)"
    by (rule offeredI[of _ menu_winvrs]) (simp_all add: menu_table_def menu_winvrs_def listed_def)
  from longest_text_loses_last[OF this, of "(m225_boot demo_lib)\<lparr>s_actor_ctx := Constant ''WINVRS''\<rparr>" "''OPEN-ALL''" demo_lib True]
  show ?thesis by (simp add: ctx_value_def)
qed

theorem discovery_shows_current_values_witness:
  "\<exists>js. snd (run_menu demo_lib (\<lambda>a n p. []) (m225_boot demo_lib) () menu_send_gross) = Some js \<and>
    map fst (concat (map shown_value js)) = [''SendGrossEnable'', ''GrossWeightPort'']"
proof -
  have d: "menu_dispatch ''SendGross'' = Some menu_send_gross" by (simp add: menu_dispatch_def menu_table_def)
  have "menu_getter menu_send_gross = M225_getter" "ctx_value (m225_boot demo_lib) = Some []"
    by (simp_all add: menu_send_gross_def ctx_value_def m225_boot_def)
  from discovery_shows_current_values[OF d this, of demo_lib "\<lambda>a n p. []" "()"]
  show ?thesis by (auto simp: listed_def menu_send_gross_def)
qed

section \<open>Ranges\<close>

lemma limited_scale_setters:
  "(n, f, hi) \<in> {(''MotionRange'', ''motion_range'', 10), (''StableCount'', ''stable_count'', 20)} \<Longrightarrow>
    lookup set_ctx set_flat ''ScaleSetup'' n = Some (S_U8_CLAMP f 1 hi)"
proof -
  have "map_of set_flat1 ''MotionRange'' = Some (S_U8_CLAMP ''motion_range'' 1 10)"
    "map_of set_flat1 ''StableCount'' = Some (S_U8_CLAMP ''stable_count'' 1 20)"
    by (simp_all add: set_flat1_def)
  moreover have "map_of set_ctx ''ScaleSetup'' = None"
    by (simp add: set_ctx_def set_ctx2_def set_ctx3_def set_ctx4_def)
  ultimately show "(n, f, hi) \<in> {(''MotionRange'', ''motion_range'', 10), (''StableCount'', ''stable_count'', 20)} \<Longrightarrow>
      lookup set_ctx set_flat ''ScaleSetup'' n = Some (S_U8_CLAMP f 1 hi)"
    by (auto simp: lookup_def set_flat_def map_add_find_right)
qed

text \<open>the menu offers motion ranges and stable counts up to 99, but the indicator replaces those above 10 and 20 by these limits.\<close>

theorem offered_range_not_kept:
  assumes "(n, f, hi) \<in> {(''MotionRange'', ''motion_range'', 10), (''StableCount'', ''stable_count'', 20)}"
    and "hi < v" "v \<le> 99" "ctx_value m = Some ''ScaleSetup''"
  shows "(''ScaleSetup'', n, 1, 99) \<in> set (offered item_ranges) \<and>
    (\<exists>m1. m225_actor_set lib nvs_ok n (show_int v) m = Some (True, m1) \<and>
      m225_actor_get lib n 256 m1 = Some (True, show_int hi) \<and> s_clamped m1)"
proof -
  have off: "(''ScaleSetup'', n, 1, 99) \<in> set (offered item_ranges)"
  proof (rule offeredI[of _ menu_scale_setup])
    show "(''ScaleSetup'', menu_scale_setup) \<in> set menu_table" by (simp add: menu_table_def)
    show "menu_getter menu_scale_setup = M225_getter" by (simp add: menu_scale_setup_def)
    have "(''MotionRange'', 1, 99) \<in> set (listed item_ranges menu_scale_setup)"
      "(''StableCount'', 1, 99) \<in> set (listed item_ranges menu_scale_setup)"
      by (simp_all add: listed_def menu_scale_setup_def)
    then show "(n, 1, 99) \<in> set (listed item_ranges menu_scale_setup)" using assms(1) by auto
  qed
  have st: "lookup set_ctx set_flat ''ScaleSetup'' n = Some (S_U8_CLAMP f 1 hi)"
    using assms(1) limited_scale_setters by blast
  have gt: "lookup get_ctx get_flat ''ScaleSetup'' n = Some (G_U8 f)"
  proof -
    obtain g where "lookup get_ctx get_flat ''ScaleSetup'' n = Some g" "getter_field g = Some (f, TU8)"
      using setter_has_getter[OF st] by auto
    then show ?thesis by (cases g) auto
  qed
  have hi: "hi = 10 \<or> hi = 20" and f: "f \<noteq> ''configuration_counter''" using assms(1) by auto
  have v: "strtol (show_int v) = v" using hi assms(2, 3) by (intro strtol_show_int) auto
  have r: "m225_set_property lib n (show_int v) (m225_clamp_begin m) = Some (put_clamped n f 1 hi v (m225_clamp_begin m))"
    using assms(4) st v by (simp add: m225_set_property_def run_setter_def)
  obtain m1 where m1: "m225_actor_set lib nvs_ok n (show_int v) m = Some (True, m1)" "ctx_value m1 = Some ''ScaleSetup''"
    "s_m225 m1 = bumped ((s_m225 m)(f \<mapsto> stored lib (show_int v) (S_U8_CLAMP f 1 hi)))"
    using actor_set_fields[OF assms(4) st, of lib nvs_ok "show_int v"] by (auto simp: counts_def Let_def)
  have fld: "s_m225 m1 f = Some (U8 (word_of_int hi))"
    using f hi assms(2) by (auto simp: m1(3) bumped_other stored_def v)
  have "s_clamped (put_clamped n f 1 hi v (m225_clamp_begin m))"
    using hi assms(2)
    by (auto simp: put_clamped_def bump_counter_def put_field_def m225_clamp_note_def split: option.splits fval.splits)
  then have "s_clamped m1" using m1(1) by (auto simp: m225_actor_set_def r m225_nvs_save_def)
  moreover have "show_nat (unat (word_of_int hi :: u8)) = show_int hi" using hi by (intro show_word) auto
  moreover have "show_int 10 = ''10''" "show_int 20 = ''20''" by code_simp+
  then have "length (show_int hi) \<le> 255" using hi by auto
  ultimately show ?thesis using off m1(1, 2) fld by (simp add: m225_actor_get_def gt show_field_def)
qed

theorem offered_range_not_kept_witness:
  "\<exists>m1. m225_actor_set demo_lib True ''MotionRange'' ''50'' ((m225_boot demo_lib)\<lparr>s_actor_ctx := Constant ''ScaleSetup''\<rparr>) = Some (True, m1) \<and>
      m225_actor_get demo_lib ''MotionRange'' 256 m1 = Some (True, ''10'') \<and> s_clamped m1"
proof -
  have "show_int 50 = ''50''" "show_int 10 = ''10''" by code_simp+
  then show ?thesis
    using offered_range_not_kept[of "''MotionRange''" "''motion_range''" 10 50
      "(m225_boot demo_lib)\<lparr>s_actor_ctx := Constant ''ScaleSetup''\<rparr>" demo_lib True]
    by (simp add: ctx_value_def)
qed

text \<open>every variable a menu of the indicator lists is known to the store under the menu's name, and every variable offered for
  writing can be set there.\<close>

theorem discovered_variables_known:
  "list_all (\<lambda>(act, mn).
      list_all (\<lambda>(n, rw). \<exists>g. lookup get_ctx get_flat act n = Some g) (listed item_variables mn) \<and>
      list_all (\<lambda>(n, rw). \<exists>s. lookup set_ctx set_flat act n = Some s) (filter snd (listed item_variables mn))) m225_menus"
proof -
  have "list_all (\<lambda>(n, rw). \<exists>g. lookup get_ctx get_flat act n = Some g) (listed item_variables mn) \<and>
      list_all (\<lambda>(n, rw). \<exists>s. lookup set_ctx set_flat act n = Some s) (filter snd (listed item_variables mn))"
    if "(act, mn) \<in> set m225_menus" for act mn
    using listed_getter[OF that] listed_setter[OF that] by (auto simp: list_all_iff) blast
  then show ?thesis unfolding list_all_iff[of _ m225_menus] by blast
qed

end
