(* ===== verification/Ble_Ota.thy ===== *)
theory Ble_Ota
  imports Prelude "HOL-Library.Sublist"
begin

text \<open>
  Firmware update over the application's link (OTA.Chunk in main/BLE_Actor.c): decoding of the hexadecimal data, the
  session that accepts chunks in order, its acknowledgements, and the switch to the new image.  The update library of
  the platform is outside: its results are inputs, its calls are outputs.
\<close>

section \<open>Hexadecimal data\<close>

definition hex_value :: "char \<Rightarrow> int" where
  "hex_value c = (let n = of_char c :: int in
     if 48 \<le> n \<and> n \<le> 57 then n - 48 else if 97 \<le> n \<and> n \<le> 102 then n - 97 + 10
     else if 65 \<le> n \<and> n \<le> 70 then n - 65 + 10 else - 1)"

fun hex_pairs :: "string \<Rightarrow> bytes option" where
  "hex_pairs (a # b # s) =
    (if hex_value a < 0 \<or> hex_value b < 0 then None
     else case hex_pairs s of None \<Rightarrow> None | Some bs \<Rightarrow> Some (word_of_int (hex_value a * 16 + hex_value b) # bs))"
| "hex_pairs _ = Some []"

definition s_hex_decode :: "string \<Rightarrow> nat \<Rightarrow> bytes option" where
  "s_hex_decode hex limit =
    (if odd (length hex) then None else if limit < length hex div 2 then None else hex_pairs hex)"

section \<open>The session\<close>

record ota_st =
  s_ota_active :: bool
  s_ota_seq_expected :: int
  s_ota_partition :: bool

definition ota_init :: ota_st where
  "ota_init = \<lparr>s_ota_active = False, s_ota_seq_expected = 0, s_ota_partition = False\<rparr>"

text \<open>What the platform answers while one chunk is handled: whether there is a partition to update, and the results of
  beginning, writing and ending.\<close>

record ota_env =
  next_partition :: bool
  begin_ok :: bool
  write_ok :: bool
  end_ok :: bool

datatype ota_out = Ota_abort | Ota_begin bool | Ota_write bytes bool | Ota_ack int "string option" | Ota_end | Ota_set_boot | Ota_delay nat | Ota_restart

definition OTA_CHUNK_MAX :: nat where "OTA_CHUNK_MAX = 200"

text \<open>Chunk 0 opens a session.\<close>

definition ota_open :: "ota_env \<Rightarrow> ota_st \<Rightarrow> ota_st \<times> ota_out list \<times> string option" where
  "ota_open env st = (let
     (st1, o1) = (if s_ota_active st then (st\<lparr>s_ota_active := False\<rparr>, [Ota_abort]) else (st, []));
     st2 = st1\<lparr>s_ota_partition := next_partition env\<rparr> in
     if \<not> next_partition env then (st2, o1, Some ''No OTA partition'')
     else if \<not> begin_ok env then (st2, o1 @ [Ota_begin False], Some ''esp_ota_begin failed'')
     else (st2\<lparr>s_ota_active := True, s_ota_seq_expected := 0\<rparr>, o1 @ [Ota_begin True], None))"

definition ota_accept :: "ota_env \<Rightarrow> int \<Rightarrow> string \<Rightarrow> ota_st \<Rightarrow> ota_st \<times> ota_out list \<times> string option" where
  "ota_accept env seq data st =
    (if \<not> s_ota_active st then (st, [], Some ''OTA session not active'')
     else if seq \<noteq> s_ota_seq_expected st then (st, [], Some ''OTA seq out of order'')
     else case s_hex_decode data OTA_CHUNK_MAX of
       None \<Rightarrow> (st, [], Some ''Hex decode failed'')
     | Some bs \<Rightarrow> if \<not> write_ok env then (st, [Ota_write bs False], Some ''esp_ota_write failed'')
         else (st\<lparr>s_ota_seq_expected := s_ota_seq_expected st + 1\<rparr>, [Ota_write bs True], None))"

text \<open>The three fields of a chunk, each absent when it is missing or has the wrong type; numbers are cut to integers.\<close>

type_synonym ota_chunk = "int option \<times> int option \<times> string option"

definition ota_chunk :: "ota_env \<Rightarrow> ota_chunk \<Rightarrow> ota_st \<Rightarrow> ota_st \<times> ota_out list" where
  "ota_chunk env c st = (case c of
     (Some seq, Some tot, Some data) \<Rightarrow> (let
       (st1, o1, e1) = (if seq = 0 then ota_open env st else (st, [], None));
       (st2, o2, e2) = (if e1 = None then ota_accept env seq data st1 else (st1, [], e1));
       st3 = (if e2 \<noteq> None then st2\<lparr>s_ota_active := False\<rparr> else st2);
       o3 = o1 @ o2 @ [Ota_ack seq e2] in
       if e2 = None \<and> seq = tot - 1 then
         (if end_ok env \<and> s_ota_partition st3 then (st3, o3 @ [Ota_end, Ota_set_boot, Ota_delay 500, Ota_restart])
          else (st3\<lparr>s_ota_active := False\<rparr>, o3 @ [Ota_end]))
       else (st3, o3))
   | _ \<Rightarrow> (st, []))"

text \<open>After a restart the variables are initial again; a run of chunks ends there.\<close>

definition ota_step :: "ota_st \<Rightarrow> ota_env \<times> ota_chunk \<Rightarrow> ota_st \<times> ota_out list" where
  "ota_step st c = (let (st1, out) = ota_chunk (fst c) (snd c) st in
     (if Ota_restart \<in> set out then ota_init else st1, out))"

section \<open>Decoding\<close>

definition hex_digit :: "nat \<Rightarrow> char" where
  "hex_digit n = char_of (if n < 10 then 48 + n else 87 + n)"

definition hex_of :: "bytes \<Rightarrow> string" where
  "hex_of bs = concat (map (\<lambda>b. [hex_digit (unat b div 16), hex_digit (unat b mod 16)]) bs)"

lemma hex_value_table: "list_all (\<lambda>n. hex_value (hex_digit n) = int n) [0..<16]"
  by code_simp

lemma hex_value_digit: "n < 16 \<Longrightarrow> hex_value (hex_digit n) = int n"
  using hex_value_table by (auto simp: list_all_iff simp del: upt_rec_numeral)

lemma hex_pairs_hex_of: "hex_pairs (hex_of bs) = Some bs"
proof (induction bs)
  case (Cons b bs)
  have b: "unat b div 16 < 16" using unsigned_less[of b, where 'a=nat] by (simp add: less_mult_imp_div_less)
  have "int (unat b div 16) * 16 + int (unat b mod 16) = int (unat b)"
    by (metis div_mult_mod_eq of_nat_add of_nat_mult of_nat_numeral)
  then show ?case
    using Cons b by (simp add: hex_of_def hex_value_digit)
qed (simp add: hex_of_def)

lemma length_hex_of: "length (hex_of bs) = 2 * length bs"
  by (induction bs) (simp_all add: hex_of_def)

lemma hex_roundtrip: "length bs \<le> limit \<Longrightarrow> s_hex_decode (hex_of bs) limit = Some bs"
  by (simp add: s_hex_decode_def length_hex_of hex_pairs_hex_of)

section \<open>A complete update\<close>

text \<open>The chunks of an image, numbered from k of n.\<close>

fun chunks_from :: "int \<Rightarrow> int \<Rightarrow> bytes list \<Rightarrow> ota_chunk list" where
  "chunks_from k n [] = []"
| "chunks_from k n (b # bs) = (Some k, Some n, Some (hex_of b)) # chunks_from (k + 1) n bs"

definition good_env :: "ota_env \<Rightarrow> bool" where
  "good_env env \<longleftrightarrow> next_partition env \<and> begin_ok env \<and> write_ok env \<and> end_ok env"

fun writes :: "ota_out list \<Rightarrow> bytes list" where
  "writes [] = []" | "writes (Ota_write b ok # os) = b # writes os" | "writes (_ # os) = writes os"

fun write_acks :: "int \<Rightarrow> bytes list \<Rightarrow> ota_out list" where
  "write_acks k [] = []"
| "write_acks k (b # bs) = Ota_write b True # Ota_ack k None # write_acks (k + 1) bs"

lemma ota_step_next:
  assumes "s_ota_active st" "s_ota_seq_expected st = k" "k \<noteq> 0" "length b \<le> 200" "k < n - 1" "good_env env"
  shows "ota_step st (env, Some k, Some n, Some (hex_of b)) = (st\<lparr>s_ota_seq_expected := k + 1\<rparr>, [Ota_write b True, Ota_ack k None])"
  using assms by (simp add: ota_step_def ota_chunk_def ota_accept_def hex_roundtrip OTA_CHUNK_MAX_def good_env_def)

lemma ota_step_last:
  assumes "s_ota_active st" "s_ota_seq_expected st = k" "k \<noteq> 0" "length b \<le> 200" "k = n - 1" "good_env env" "s_ota_partition st"
  shows "ota_step st (env, Some k, Some n, Some (hex_of b)) =
    (ota_init, [Ota_write b True, Ota_ack k None, Ota_end, Ota_set_boot, Ota_delay 500, Ota_restart])"
  using assms by (simp add: ota_step_def ota_chunk_def ota_accept_def hex_roundtrip OTA_CHUNK_MAX_def good_env_def)

lemma ota_rest:
  assumes "s_ota_active st" "s_ota_partition st" "s_ota_seq_expected st = k" "0 < k" "list_all (\<lambda>b. length b \<le> 200) bs"
    "bs \<noteq> []" "n = k + int (length bs)" "list_all good_env envs" "length envs = length bs"
  shows "run_events ota_step st (zip envs (chunks_from k n bs)) =
    (ota_init, write_acks k bs @
      [Ota_end, Ota_set_boot, Ota_delay 500, Ota_restart])"
  using assms
proof (induction bs arbitrary: st k envs)
  case (Cons b bs)
  obtain env envs' where e: "envs = env # envs'" "good_env env" "list_all good_env envs'" "length envs' = length bs"
    using Cons.prems by (cases envs) auto
  show ?case
  proof (cases "bs = []")
    case True
    have "ota_step st (env, Some k, Some n, Some (hex_of b)) =
      (ota_init, [Ota_write b True, Ota_ack k None, Ota_end, Ota_set_boot, Ota_delay 500, Ota_restart])"
      using Cons.prems e True by (intro ota_step_last) auto
    then show ?thesis using True e(1, 4) by simp
  next
    case False
    let ?st = "st\<lparr>s_ota_seq_expected := k + 1\<rparr>"
    have "run_events ota_step ?st (zip envs' (chunks_from (k + 1) n bs)) =
      (ota_init, write_acks (k + 1) bs @
      [Ota_end, Ota_set_boot, Ota_delay 500, Ota_restart])"
      using Cons.prems e False by (intro Cons.IH) auto
    moreover have "ota_step st (env, Some k, Some n, Some (hex_of b)) = (?st, [Ota_write b True, Ota_ack k None])"
      using Cons.prems e False by (intro ota_step_next) auto
    ultimately show ?thesis by (simp add: e(1))
  qed
qed simp

text \<open>C15: whatever state the session is in, the chunks of an image sent in order, each with at most 200 bytes, begin one
  session (aborting an open one), write exactly the image, acknowledge every chunk without an error, and only after
  the last acknowledgement end the session, switch the boot partition and restart.\<close>

theorem update_complete:
  assumes "bs \<noteq> []" "list_all (\<lambda>b. length b \<le> 200) bs" "list_all good_env envs" "length envs = length bs"
  shows "run_events ota_step st (zip envs (chunks_from 0 (int (length bs)) bs)) =
    (ota_init, (if s_ota_active st then [Ota_abort] else []) @ Ota_begin True # write_acks 0 bs @
      [Ota_end, Ota_set_boot, Ota_delay 500, Ota_restart])"
proof -
  obtain b bs' where b: "bs = b # bs'" "length b \<le> 200" "list_all (\<lambda>b. length b \<le> 200) bs'"
    using assms(1, 2) by (cases bs) auto
  obtain env envs' where e: "envs = env # envs'" "good_env env" "list_all good_env envs'" "length envs' = length bs'"
    using assms(3, 4) b(1) by (cases envs) auto
  let ?pre = "(if s_ota_active st then [Ota_abort] else []) @ [Ota_begin True, Ota_write b True, Ota_ack 0 None]"
  have first: "ota_step st (env, Some 0, Some n, Some (hex_of b)) =
      (if n = 1 then (ota_init, ?pre @ [Ota_end, Ota_set_boot, Ota_delay 500, Ota_restart])
       else (st\<lparr>s_ota_active := True, s_ota_seq_expected := 1, s_ota_partition := True\<rparr>, ?pre))" for n
    using e(2) b(2)
    by (simp add: ota_step_def ota_chunk_def ota_open_def ota_accept_def hex_roundtrip OTA_CHUNK_MAX_def good_env_def)
  show ?thesis
  proof (cases "bs' = []")
    case True
    then show ?thesis using b(1) e(1, 4) first[of 1] by simp
  next
    case False
    let ?st = "st\<lparr>s_ota_active := True, s_ota_seq_expected := 1, s_ota_partition := True\<rparr>"
    have "run_events ota_step ?st (zip envs' (chunks_from 1 (1 + int (length bs')) bs')) =
      (ota_init, write_acks 1 bs' @ [Ota_end, Ota_set_boot, Ota_delay 500, Ota_restart])"
      using False b(3) e(3, 4) by (intro ota_rest) auto
    then show ?thesis using False b(1) e(1) first[of "1 + int (length bs')"] by simp
  qed
qed

section \<open>The device as the application sees it\<close>

text \<open>The partition under update holds the blocks written since the session began.  An observer sees the replies and,
  when the boot partition is switched, the image that it holds.\<close>

datatype update_out = Replied int bool | Booted bytes

fun observe :: "bytes list \<Rightarrow> ota_out list \<Rightarrow> bytes list \<times> update_out list" where
  "observe bl [] = (bl, [])"
| "observe bl (Ota_begin True # os) = observe [] os"
| "observe bl (Ota_write b True # os) = observe (bl @ [b]) os"
| "observe bl (Ota_ack seq e # os) = (let (bl1, o1) = observe bl os in (bl1, Replied seq (e = None) # o1))"
| "observe bl (Ota_set_boot # os) = (let (bl1, o1) = observe bl os in (bl1, Booted (concat bl) # o1))"
| "observe bl (_ # os) = observe bl os"

definition device_step :: "ota_st \<times> bytes list \<Rightarrow> ota_env \<times> ota_chunk \<Rightarrow> (ota_st \<times> bytes list) \<times> update_out list" where
  "device_step d c = (let (st1, os) = ota_step (fst d) c; (bl, seen) = observe (snd d) os in ((st1, bl), seen))"

text \<open>What an update promises: the blocks received so far, or no session.  A chunk is good when it is the next one,
  decodes, and is stored; anything else ends the session.\<close>

definition update_step :: "bytes list option \<Rightarrow> ota_env \<times> ota_chunk \<Rightarrow> bytes list option \<times> update_out list" where
  "update_step s c = (case c of
     (env, Some seq, Some tot, Some data) \<Rightarrow>
       (case ((if seq = 0 then (if next_partition env \<and> begin_ok env then Some [] else None) else s), s_hex_decode data 200) of
          (Some bl, Some b) \<Rightarrow>
            if seq = int (length bl) \<and> write_ok env then
              (if seq = tot - 1 then (None, Replied seq True # (if end_ok env then [Booted (concat (bl @ [b]))] else []))
               else (Some (bl @ [b]), [Replied seq True]))
            else (None, [Replied seq False])
        | _ \<Rightarrow> (None, [Replied seq False]))
   | _ \<Rightarrow> (s, []))"

definition device_ok :: "ota_st \<times> bytes list \<Rightarrow> bool" where
  "device_ok d = (s_ota_active (fst d) \<longrightarrow> s_ota_seq_expected (fst d) = int (length (snd d)) \<and> s_ota_partition (fst d))"

definition device_view :: "ota_st \<times> bytes list \<Rightarrow> bytes list option" where
  "device_view d = (if s_ota_active (fst d) then Some (snd d) else None)"

lemmas ota_defs = device_step_def ota_step_def ota_chunk_def ota_open_def ota_accept_def OTA_CHUNK_MAX_def

lemma device_simulates:
  assumes "device_ok d"
  shows "device_ok (fst (device_step d c)) \<and>
    update_step (device_view d) c = (device_view (fst (device_step d c)), snd (device_step d c))"
proof -
  obtain env s t v where ch: "c = (env, s, t, v)" by (cases c)
  show ?thesis
  proof (cases "s = None \<or> t = None \<or> v = None")
  case True
  then have "update_step (device_view d) c = (device_view d, [])" "ota_step (fst d) c = (fst d, [])"
    unfolding ch by (auto simp: update_step_def ota_step_def ota_chunk_def split: option.splits)
  then show ?thesis using assms by (simp add: device_step_def)
next
  case False
  then obtain seq tot data where c: "c = (env, Some seq, Some tot, Some data)" using ch by auto
  obtain st bl where d: "d = (st, bl)" by (cases d)
  show ?thesis
    using assms unfolding c d
    by (cases "seq = 0"; cases "s_hex_decode data 200"; cases "s_ota_active st"; cases "next_partition env"; cases "begin_ok env";
        cases "write_ok env")
       (auto simp: ota_defs update_step_def device_ok_def device_view_def ota_init_def Let_def)
qed
qed

interpretation ota: refined_machine device_step device_ok "\<lambda>c. True" device_view "\<lambda>os. os" update_step
  by unfold_locales (use device_simulates in auto)

text \<open>C12: seen from outside, the chunk handler is an update session: from any reachable state and for every sequence of
  chunks and platform results its replies and the images it boots are those of update_step, which collects the
  blocks of one session and boots exactly their concatenation.\<close>

theorem chunks_refine_update:
  "run_events update_step (device_view (ota_init, bl)) es =
    (device_view (fst (run_events device_step (ota_init, bl) es)), snd (run_events device_step (ota_init, bl) es))"
  by (rule ota.run_simulates) (auto simp: device_ok_def ota_init_def list_all_iff)

section \<open>Only complete images boot\<close>

definition complete_chunk :: "ota_chunk \<Rightarrow> bool" where
  "complete_chunk c \<longleftrightarrow> fst c \<noteq> None \<and> fst (snd c) \<noteq> None \<and> snd (snd c) \<noteq> None"

definition chunk_bytes :: "ota_chunk \<Rightarrow> bytes option" where
  "chunk_bytes c = Option.bind (snd (snd c)) (\<lambda>h. s_hex_decode h 200)"

definition carries :: "ota_chunk list \<Rightarrow> bytes list \<Rightarrow> bool" where
  "carries cs bl \<longleftrightarrow> map fst cs = map (Some \<circ> int) [0..<length bl] \<and> map chunk_bytes cs = map Some bl"

lemma carries_snoc:
  "carries cs bl \<Longrightarrow> fst c = Some (int (length bl)) \<Longrightarrow> chunk_bytes c = Some b \<Longrightarrow> carries (cs @ [c]) (bl @ [b])"
  by (simp add: carries_def)

lemma carries_nil: "carries [] []"
  by (simp add: carries_def)

text \<open>One step of the session: it goes on with the chunk, or starts with it, or is over.\<close>

lemma update_step_cases:
  assumes "update_step s (env, c) = (s1, out)" "s1 = Some bl1 \<or> Booted img \<in> set out"
  shows "s1 = s \<and> out = [] \<and> \<not> complete_chunk c \<or>
    (\<exists>bl b. (s = Some bl \<or> bl = []) \<and> fst c = Some (int (length bl)) \<and> complete_chunk c \<and> chunk_bytes c = Some b \<and>
      (s1 = Some (bl @ [b]) \<and> (\<forall>i. Booted i \<notin> set out) \<or>
       img = concat (bl @ [b]) \<and> s1 = None \<and> fst (snd c) = Some (int (length (bl @ [b])))))"
proof -
  obtain q t v where c: "c = (q, t, v)" by (cases c)
  show ?thesis
  proof (cases "q = None \<or> t = None \<or> v = None")
    case True
    then show ?thesis using assms unfolding c
      by (auto simp: update_step_def complete_chunk_def split: option.splits)
  next
    case False
    then obtain seq tot data where "q = Some seq" "t = Some tot" "v = Some data" by auto
    then have c1: "c = (Some seq, Some tot, Some data)" by (simp add: c)
    define s0 where "s0 = (if seq = 0 then (if next_partition env \<and> begin_ok env then Some [] else None) else s)"
    have st: "update_step s (env, c) = (case (s0, s_hex_decode data 200) of
          (Some bl, Some b) \<Rightarrow>
            if seq = int (length bl) \<and> write_ok env then
              (if seq = tot - 1 then (None, Replied seq True # (if end_ok env then [Booted (concat (bl @ [b]))] else []))
               else (Some (bl @ [b]), [Replied seq True]))
            else (None, [Replied seq False])
        | _ \<Rightarrow> (None, [Replied seq False]))"
      by (simp add: update_step_def c1 s0_def)
    obtain bl b where b: "s0 = Some bl" "s_hex_decode data 200 = Some b" "seq = int (length bl)" "write_ok env"
      using assms unfolding st by (auto split: option.splits if_splits)
    have "s = Some bl \<or> bl = []" using b(1) by (auto simp: s0_def split: if_splits)
    moreover have "s1 = Some (bl @ [b]) \<and> (\<forall>i. Booted i \<notin> set out) \<or>
        img = concat (bl @ [b]) \<and> s1 = None \<and> tot = int (length (bl @ [b]))"
      using assms b(3, 4) unfolding st b(1, 2) by (auto split: if_splits)
    ultimately show ?thesis using b by (auto simp: c1 complete_chunk_def chunk_bytes_def)
  qed
qed

lemma session_history:
  "(\<forall>bl. fst (run_events update_step None es) = Some bl \<longrightarrow>
      (\<exists>cs. suffix cs (filter complete_chunk (map snd es)) \<and> carries cs bl)) \<and>
   (\<forall>img. Booted img \<in> set (snd (run_events update_step None es)) \<longrightarrow>
      (\<exists>cs bl. sublist cs (filter complete_chunk (map snd es)) \<and> carries cs bl \<and> bl \<noteq> [] \<and> img = concat bl \<and>
        fst (snd (last cs)) = Some (int (length bl))))"
proof (induction es rule: rev_induct)
  case (snoc e es)
  obtain env c where e: "e = (env, c)" by (cases e)
  obtain s out where r: "run_events update_step None es = (s, out)" by fastforce
  obtain s1 out1 where st: "update_step s (env, c) = (s1, out1)" by fastforce
  have r1: "run_events update_step None (es @ [e]) = (s1, out @ out1)"
    using r st e by (simp add: run_events_append)
  let ?h = "filter complete_chunk (map snd es)"
  have old: "\<exists>cs. suffix cs ?h \<and> carries cs bl" if "s = Some bl \<or> bl = []" for bl
    using snoc.IH that r carries_nil by (auto intro: exI[of _ "[]"])
  show ?case unfolding r1 fst_conv snd_conv
  proof (intro conjI allI impI)
    fix bl1 assume 1: "s1 = Some bl1"
    consider "s = Some bl1" "\<not> complete_chunk c"
      | bl b where "s = Some bl \<or> bl = []" "fst c = Some (int (length bl))" "complete_chunk c" "chunk_bytes c = Some b" "bl1 = bl @ [b]"
      using update_step_cases[OF st, of bl1] 1 by auto
    then show "\<exists>cs. suffix cs (filter complete_chunk (map snd (es @ [e]))) \<and> carries cs bl1"
    proof cases
      case 1
      then show ?thesis using old e by simp
    next
      case (2 bl b)
      then obtain cs where "suffix cs ?h" "carries cs bl" using old by blast
      then have "suffix (cs @ [c]) (?h @ [c]) \<and> carries (cs @ [c]) bl1"
        using 2 by (auto simp: suffix_def intro: carries_snoc)
      then show ?thesis using 2 e by auto
    qed
  next
    fix img assume "Booted img \<in> set (out @ out1)"
    then consider "Booted img \<in> set out" | "Booted img \<in> set out1" by auto
    then show "\<exists>cs bl. sublist cs (filter complete_chunk (map snd (es @ [e]))) \<and> carries cs bl \<and> bl \<noteq> [] \<and> img = concat bl \<and>
        fst (snd (last cs)) = Some (int (length bl))"
    proof cases
      case 1
      then obtain cs bl where "sublist cs ?h" "carries cs bl" "bl \<noteq> []" "img = concat bl"
        "fst (snd (last cs)) = Some (int (length bl))" using snoc.IH r by auto
      then show ?thesis by (intro exI[of _ cs] exI[of _ bl]) (auto simp: sublist_append)
    next
      case 2
      then obtain bl b where b: "s = Some bl \<or> bl = []" "fst c = Some (int (length bl))" "complete_chunk c"
        "chunk_bytes c = Some b" "img = concat (bl @ [b])" "fst (snd c) = Some (int (length (bl @ [b])))"
        using update_step_cases[OF st, of _ img] by auto
      then obtain cs where "suffix cs ?h" "carries cs bl" using old by blast
      then have "suffix (cs @ [c]) (?h @ [c])" "carries (cs @ [c]) (bl @ [b])"
        using b by (auto simp: suffix_def intro: carries_snoc)
      then show ?thesis using b e
        by (intro exI[of _ "cs @ [c]"] exI[of _ "bl @ [b]"]) (auto intro: suffix_imp_sublist)
    qed
  qed
qed simp

text \<open>C3: an image that the device boots was sent whole: among the complete chunks received there is an uninterrupted
  stretch numbered from 0, as long as its last chunk says, whose decoded data, put together, is the image; no
  sequence of lost, repeated or damaged chunks and no failure of the platform makes it boot anything else.\<close>

theorem booted_image_sent:
  assumes "Booted img \<in> set (snd (run_events device_step (ota_init, []) es))"
  shows "\<exists>cs bl. sublist cs (filter complete_chunk (map snd es)) \<and> carries cs bl \<and> bl \<noteq> [] \<and> img = concat bl \<and>
    fst (snd (last cs)) = Some (int (length bl))"
proof -
  have "snd (run_events update_step None es) = snd (run_events device_step (ota_init, []) es)"
    using ota.run_simulates[of "(ota_init, [])" es] by (simp add: device_ok_def device_view_def ota_init_def list_all_iff)
  then show ?thesis using session_history[of es] assms by auto
qed

definition all_good :: ota_env where
  "all_good = \<lparr>next_partition = True, begin_ok = True, write_ok = True, end_ok = True\<rparr>"

theorem booted_image_sent_witness:
  "\<exists>cs bl. sublist cs [(Some 0, Some 2, Some ''0a''), (Some 1, Some 2, Some ''FF'')] \<and> carries cs bl \<and> bl \<noteq> [] \<and>
    [10, 255] = concat bl \<and> fst (snd (last cs)) = Some (int (length bl))"
proof -
  have "Booted [10, 255] \<in> set (snd (run_events device_step (ota_init, [])
      [(all_good, Some 0, Some 2, Some ''0a''), (all_good, None, Some 2, None), (all_good, Some 1, Some 2, Some ''FF'')]))"
    by code_simp
  from booted_image_sent[OF this] show ?thesis by (simp add: complete_chunk_def)
qed

theorem update_complete_witness:
  "run_events ota_step ota_init (zip [all_good, all_good] (chunks_from 0 2 [[1, 2], [3]])) =
    (ota_init, [Ota_begin True, Ota_write [1, 2] True, Ota_ack 0 None, Ota_write [3] True, Ota_ack 1 None,
      Ota_end, Ota_set_boot, Ota_delay 500, Ota_restart])"
  using update_complete[of "[[1, 2], [3]]" "[all_good, all_good]" ota_init]
  by (simp add: all_good_def good_env_def ota_init_def)

section \<open>Failed sessions\<close>

text \<open>a chunk that is answered with an error ends the session: every later chunk except a number 0 is answered with
  the same error, nothing more is written and nothing is booted, until a chunk 0 opens a new session.\<close>

theorem failed_session_stays_closed:
  assumes "Ota_ack seq (Some err) \<in> set (snd (ota_step st c))"
    and "list_all (\<lambda>d. \<exists>k. k \<noteq> 0 \<and> fst (snd d) = Some k \<and> complete_chunk (snd d)) es"
  shows "run_events ota_step (fst (ota_step st c)) es =
    (fst (ota_step st c), map (\<lambda>d. Ota_ack (the (fst (snd d))) (Some ''OTA session not active'')) es)"
proof -
  have closed: "\<not> s_ota_active (fst (ota_step st c))"
    using assms(1)
    by (auto simp: ota_step_def ota_chunk_def ota_init_def ota_open_def ota_accept_def Let_def
          split: option.splits if_splits prod.splits)
  have "run_events ota_step st es = (st, map (\<lambda>d. Ota_ack (the (fst (snd d))) (Some ''OTA session not active'')) es)"
    if "\<not> s_ota_active st" for st
    using assms(2) that
  proof (induction es)
    case (Cons d es)
    obtain env k tot data where d: "d = (env, Some k, Some tot, Some data)" "k \<noteq> 0"
      using Cons.prems by (cases d) (auto simp: complete_chunk_def)
    have "ota_step st d = (st, [Ota_ack k (Some ''OTA session not active'')])"
      using d Cons.prems by (simp add: ota_step_def ota_chunk_def ota_accept_def)
    then show ?case using Cons d by simp
  qed simp
  with closed show ?thesis by blast
qed

theorem failed_session_stays_closed_witness:
  "snd (run_events ota_step \<lparr>s_ota_active = True, s_ota_seq_expected = 1, s_ota_partition = True\<rparr>
      [(all_good, Some 2, Some 3, Some ''00''), (all_good, Some 1, Some 3, Some ''00'')]) =
    [Ota_ack 2 (Some ''OTA seq out of order''), Ota_ack 1 (Some ''OTA session not active'')]"
proof -
  let ?st = "\<lparr>s_ota_active = True, s_ota_seq_expected = 1, s_ota_partition = True\<rparr>"
  have one: "snd (ota_step ?st (all_good, Some 2, Some 3, Some ''00'')) = [Ota_ack 2 (Some ''OTA seq out of order'')]"
    by code_simp
  have "run_events ota_step (fst (ota_step ?st (all_good, Some 2, Some 3, Some ''00''))) [(all_good, Some 1, Some 3, Some ''00'')] =
    (fst (ota_step ?st (all_good, Some 2, Some 3, Some ''00'')), [Ota_ack 1 (Some ''OTA session not active'')])"
    using failed_session_stays_closed[of 2 "''OTA seq out of order''" ?st "(all_good, Some 2, Some 3, Some ''00'')"
      "[(all_good, Some 1, Some 3, Some ''00'')]"] one by (simp add: complete_chunk_def)
  then show ?thesis using one by (simp add: case_prod_beta Let_def)
qed

text \<open>Sessions that are opened and not released: the platform keeps a record of each until it is ended or aborted.\<close>

primrec handles_open :: "ota_out list \<Rightarrow> int" where
  "handles_open [] = 0"
| "handles_open (x # xs) = (if x = Ota_begin True then 1 else if x = Ota_abort \<or> x = Ota_end then - 1 else 0) + handles_open xs"

lemma handles_open_append: "handles_open (xs @ ys) = handles_open xs + handles_open ys"
  by (induction xs) simp_all

text \<open>an error drops the session without aborting it, so an application that starts an update and then skips a chunk,
  n times, leaves n update handles of the platform open.\<close>

theorem failed_updates_leak:
  "handles_open (snd (run_events ota_step ota_init
     (concat (replicate n [(all_good, Some 0, Some 3, Some ''00''), (all_good, Some 2, Some 3, Some ''00'')])))) = int n"
proof -
  let ?r = "[(all_good, Some 0, Some 3, Some ''00''), (all_good, Some 2, Some 3, Some ''00'')]"
  have one: "snd (run_events ota_step st ?r) = [Ota_begin True, Ota_write [0] True, Ota_ack 0 None, Ota_ack 2 (Some ''OTA seq out of order'')]"
    and closed: "\<not> s_ota_active (fst (run_events ota_step st ?r))" if "\<not> s_ota_active st" for st
    using that by (simp_all add: ota_step_def ota_chunk_def ota_open_def ota_accept_def all_good_def s_hex_decode_def
      hex_value_def Let_def OTA_CHUNK_MAX_def)
  have "handles_open (snd (run_events ota_step st (concat (replicate n ?r)))) = int n" if "\<not> s_ota_active st" for st
    using that
  proof (induction n arbitrary: st)
    case (Suc n)
    have "handles_open (snd (run_events ota_step st (?r @ concat (replicate n ?r)))) =
        handles_open (snd (run_events ota_step st ?r)) +
        handles_open (snd (run_events ota_step (fst (run_events ota_step st ?r)) (concat (replicate n ?r))))"
      by (simp add: run_events_append[of _ _ ?r] Let_def case_prod_beta handles_open_append del: run_events.simps append_Cons append.simps)
    then show ?case using Suc.IH[OF closed[OF Suc.prems]] one[OF Suc.prems] by simp
  qed simp
  then show ?thesis by (simp add: ota_init_def)
qed

end
