(* ===== verification/Ble_Json.thy ===== *)
theory Ble_Json
  imports Menu Ble_Ota BSP_Crc
begin

text \<open>
  The application's commands (main/BLE_Actor.c): the JSON records of the byte link.  A command names an actor and asks for
  properties to be read or set, a menu, the device's identity, a speed test, a piece of a firmware update or a method; the
  reply carries the number the command came with.  What the model leaves open is an argument: the JSON library
  (parsing, looking an item up, whether printing succeeds) and the getters and setters of the other actors.
\<close>

section \<open>State\<close>

record bench_st =
  rx_bytes :: u32
  bench_crc :: u32
  expected_bytes :: u32
  armed :: bool
  bench_active :: bool

record ('f, 'p) ble_st =
  indicator :: "'f m225"
  ota :: ota_st
  g_bsp_bench :: bench_st
  peers :: 'p
  device_name :: string
  Device_Fw_Ver :: string

text \<open>The getters of the other actors leave a text in the buffer; the setters change the other actors' state.\<close>

record ('f, 'p) ble_lib =
  floats :: "'f float_lib"
  json_parse :: "string \<Rightarrow> json option"
  json_item :: "json \<Rightarrow> string \<Rightarrow> json option"
  json_prints :: "json \<Rightarrow> bool"
  peer_get :: "string \<Rightarrow> string \<Rightarrow> 'p \<Rightarrow> bool \<times> string"
  peer_set :: "string \<Rightarrow> string \<Rightarrow> string \<Rightarrow> 'p \<Rightarrow> bool \<times> 'p"

text \<open>What happens outside during one command: memory for the text, the name space in flash, the update library.\<close>

record cmd_env =
  alloc_ok :: bool
  nvs_ok :: bool
  ota_results :: ota_env

text \<open>A reply is sent as a record of the JSON channel; a command can be passed on to the console; the update library is called;
  Dangling stands for a read through a pointer into a text that is gone.\<close>

datatype ble_out = Reply json | Forward string | Update ota_out | Dangling

type_synonym ('f, 'p) progress = "('f, 'p) ble_st \<times> ble_out list \<times> bool"

definition send_reply :: "('f, 'p) ble_lib \<Rightarrow> json \<Rightarrow> ble_out list" where
  "send_reply lib j = (if json_prints lib j then [Reply j] else [])"

definition with_mid :: "string \<Rightarrow> json \<Rightarrow> int \<Rightarrow> json" where
  "with_mid kind body mid = JObj [(kind, body), (''mID'', JNum (of_int mid))]"

definition warn_obj :: "string \<Rightarrow> string \<Rightarrow> string \<times> json" where
  "warn_obj severity text = (''warn'', JObj [(''severity'', JStr severity), (''string'', JStr text)])"

section \<open>Reading and setting properties\<close>

definition is_m225_sub_actor :: "string \<Rightarrow> bool" where
  "is_m225_sub_actor act \<longleftrightarrow> act \<in> set [
     ''IndicatorSetup'', ''ScaleSetup'', ''ScaleCalibration'', ''LoadCellAssignments'',
     ''ComSetup'', ''SerialPorts'', ''Ethernet'', ''WiFi'', ''ISiteIP'', ''SendGross'', ''BankMode'',
     ''PrinterSetup'', ''SystemConfig'', ''Accumulators'', ''DACOutput'', ''KeyLockout'',
     ''BadgeReader'', ''WINVRS'', ''ModeConfig'', ''IDStorage'', ''DFC'', ''Batcher'',
     ''PackageWeigher'', ''AxleWeigher'', ''CheckWeigher'', ''PWC'', ''Livestock'',
     ''DLCSetup'', ''ReviewMenu'', ''195Menu'', ''Model225'']"

datatype route = Peer string | Indicator | Unknown

definition actor_route :: "string \<Rightarrow> route" where
  "actor_route act = (if act \<in> set [''BLE'', ''WIFI'', ''ETH'', ''NTP'', ''UART'', ''SYSTEM''] then Peer act
     else if is_m225_sub_actor act then Indicator else Unknown)"

text \<open>The context pointer is set to the actor's name inside the command's text.\<close>

definition set_command_ctx :: "string \<Rightarrow> ('f, 'p) ble_st \<Rightarrow> ('f, 'p) ble_st" where
  "set_command_ctx act st = st\<lparr>indicator := (m225_set_menu_ctx Command_act (indicator st))\<lparr>command_act := Some act\<rparr>\<rparr>"

definition read_name :: "('f, 'p) ble_lib \<Rightarrow> route \<Rightarrow> string \<Rightarrow> ('f, 'p) ble_st \<Rightarrow> bool \<times> string" where
  "read_name lib r k st = (case r of Peer a \<Rightarrow> peer_get lib a k (peers st)
     | Indicator \<Rightarrow> (case m225_actor_get (floats lib) k 256 (indicator st) of Some res \<Rightarrow> res | None \<Rightarrow> (False, []))
     | Unknown \<Rightarrow> (False, []))"

definition write_name ::
  "('f, 'p) ble_lib \<Rightarrow> cmd_env \<Rightarrow> route \<Rightarrow> string \<Rightarrow> string \<Rightarrow> ('f, 'p) ble_st \<Rightarrow> bool \<times> ('f, 'p) ble_st" where
  "write_name lib env r k v st = (case r of
     Peer a \<Rightarrow> (let (ok, p) = peer_set lib a k v (peers st) in (ok, st\<lparr>peers := p\<rparr>))
   | Indicator \<Rightarrow> (case m225_actor_set (floats lib) (nvs_ok env) k v (indicator st) of
       Some (ok, m) \<Rightarrow> (ok, st\<lparr>indicator := m\<rparr>) | None \<Rightarrow> (False, st))
   | Unknown \<Rightarrow> (False, st))"

fun get_values :: "('f, 'p) ble_lib \<Rightarrow> route \<Rightarrow> ('f, 'p) ble_st \<Rightarrow> json list \<Rightarrow> (string \<times> json) list" where
  "get_values lib r st [] = []"
| "get_values lib r st (JStr k # ks) = (k, JStr (snd (read_name lib r k st))) # get_values lib r st ks"
| "get_values lib r st (j # ks) = get_values lib r st ks"

definition value_text :: "json \<Rightarrow> string" where
  "value_text j = (case j of JStr s \<Rightarrow> take 255 s | JNum x \<Rightarrow> printf_g x | JBool b \<Rightarrow> (if b then ''1'' else ''0'') | _ \<Rightarrow> [])"

definition add_warn :: "string \<Rightarrow> string \<Rightarrow> string" where
  "add_warn msgs w = take 511 (if msgs = [] then w else msgs @ ''; '' @ w)"

definition set_value :: "('f, 'p) ble_lib \<Rightarrow> cmd_env \<Rightarrow> string \<Rightarrow> string \<Rightarrow> json \<Rightarrow> ('f, 'p) ble_st \<Rightarrow> string \<Rightarrow>
    ('f, 'p) ble_st \<times> (string \<times> json) \<times> string" where
  "set_value lib env act k j st msgs = (let
     r = actor_route act; v = value_text j;
     (ok, st1) = write_name lib env r k v st;
     (known, applied) = read_name lib r k st1;
     msgs1 = (if \<not> ok then add_warn msgs (take 127 (act @ ''.'' @ k @ '' read-only or unknown''))
       else if is_m225_sub_actor act \<and> s_clamped (indicator st1) then add_warn msgs (s_clamp_msg (indicator st1)) else msgs) in
     (st1, (k, JStr (if known then applied else v)), msgs1))"

fun set_values :: "('f, 'p) ble_lib \<Rightarrow> cmd_env \<Rightarrow> string \<Rightarrow> (string \<times> json) list \<Rightarrow> ('f, 'p) ble_st \<Rightarrow> string \<Rightarrow>
    ('f, 'p) ble_st \<times> (string \<times> json) list \<times> string" where
  "set_values lib env act [] st msgs = (st, [], msgs)"
| "set_values lib env act ((k, j) # kvs) st msgs = (let
     (st1, res, msgs1) = set_value lib env act k j st msgs;
     (st2, ress, msgs2) = set_values lib env act kvs st1 msgs1 in (st2, res # ress, msgs2))"

text \<open>The get and set part of a command; set_part gives the answers of a set object and the warnings so far.\<close>

definition set_part :: "('f, 'p) ble_lib \<Rightarrow> cmd_env \<Rightarrow> string \<Rightarrow> json option \<Rightarrow> ('f, 'p) ble_st \<Rightarrow>
    ('f, 'p) ble_st \<times> (string \<times> json) list \<times> string" where
  "set_part lib env act set_j st = (case set_j of
     Some (JObj kvs) \<Rightarrow> (let
       st1 = (if is_m225_sub_actor act then st\<lparr>indicator := m225_clamp_begin (indicator st)\<rparr> else st);
       (st2, res, msgs) = set_values lib env act kvs st1 [] in (st2, [(''set'', JObj res)], msgs))
   | _ \<Rightarrow> (st, [], []))"

definition phase_getset :: "('f, 'p) ble_lib \<Rightarrow> cmd_env \<Rightarrow> string \<Rightarrow> json \<Rightarrow> int \<Rightarrow> ('f, 'p) ble_st \<Rightarrow> ('f, 'p) progress" where
  "phase_getset lib env act cmd mid st = (let
     get_j = json_item lib cmd ''get''; set_j = json_item lib cmd ''set'';
     r = actor_route act;
     st0 = (if r = Indicator then set_command_ctx act st else st);
     has_getset = (case get_j of Some (JArr ks) \<Rightarrow> True | _ \<Rightarrow> False) \<or> (case set_j of Some (JObj kvs) \<Rightarrow> True | _ \<Rightarrow> False) in
     if has_getset \<and> r \<noteq> Unknown then (let
       gets = (case get_j of Some (JArr ks) \<Rightarrow> [(''get'', JObj (get_values lib r st0 ks))] | _ \<Rightarrow> []);
       (st1, sets, msgs) = set_part lib env act set_j st0;
       warn = (if msgs \<noteq> [] then [warn_obj ''warn'' msgs]
         else if is_m225_sub_actor act \<and> s_clamped (indicator st1) then [warn_obj ''warn'' (s_clamp_msg (indicator st1))] else []) in
       (st1, send_reply lib (with_mid ''ack'' (JObj ((''act'', JStr act) # gets @ sets @ warn)) mid), True))
     else if has_getset \<and> r = Unknown \<and> act \<noteq> ''Device'' \<and> act \<noteq> ''MENU'' \<and> act \<noteq> ''SpeedTest'' then
       (st0, send_reply lib (with_mid ''ack'' (JObj [(''act'', JStr act),
          warn_obj ''error'' (take 127 (''actor '' @ [CHR 0x27] @ act @ [CHR 0x27] @ '' not supported for get/set''))]) mid), True)
     else (st0, [], False))"

section \<open>Menus\<close>

definition first_key :: "string list \<Rightarrow> json \<Rightarrow> (string \<times> json) option" where
  "first_key skip cmd = (case cmd of JObj kvs \<Rightarrow> find (\<lambda>(k, j). k \<notin> set skip) kvs | _ \<Rightarrow> None)"

definition phase_menu :: "('f, 'p) ble_lib \<Rightarrow> string \<Rightarrow> json \<Rightarrow> int \<Rightarrow> ('f, 'p) progress \<Rightarrow> ('f, 'p) progress" where
  "phase_menu lib act cmd mid = (\<lambda>(st, outs, handled).
     if handled \<or> act \<noteq> ''MENU'' then (st, outs, handled)
     else case first_key [''act''] cmd of None \<Rightarrow> (st, outs, handled)
     | Some (name, j) \<Rightarrow> (case menu_dispatch name of
         Some mn \<Rightarrow> (let (m1, items) = run_menu (floats lib) (\<lambda>a n p. snd (peer_get lib a n p)) (indicator st) (peers st) mn in
           (st\<lparr>indicator := m1\<rparr>, outs @ (case items of None \<Rightarrow> [Dangling]
              | Some js \<Rightarrow> send_reply lib (with_mid ''ack'' (JObj [(''act'', JStr ''MENU''), (name, JArr js)]) mid)), True))
       | None \<Rightarrow> (st, outs @ send_reply lib (with_mid ''ack'' (JObj [(''act'', JStr ''MENU''), (name, JArr []),
           warn_obj ''warn'' (take 127 (''MENU actor '' @ [CHR 0x27] @ name @ [CHR 0x27] @ '' not found''))]) mid), True)))"

section \<open>Identity, speed test, update\<close>

definition DEVICE_FULL_NAME :: string where "DEVICE_FULL_NAME = ''Cardinal A-Link''"

definition identity :: "('f, 'p) ble_lib \<Rightarrow> ('f, 'p) ble_st \<Rightarrow> json" where
  "identity lib st = JObj [(''protocolVersion'', JStr ''1.0''),
     (''deviceName'', JStr (if device_name st = [] then DEVICE_FULL_NAME else device_name st)),
     (''firmwareVersion'', JStr (if Device_Fw_Ver st = [] then ''unknown'' else Device_Fw_Ver st)),
     (''ethernetMAC'', JStr (snd (peer_get lib ''ETH'' ''MAC_ADD'' (peers st)))),
     (''wifiMAC'', JStr (snd (peer_get lib ''WIFI'' ''MAC_ADD'' (peers st))))]"

definition speed_test :: "('f, 'p) ble_lib \<Rightarrow> json \<Rightarrow> string \<Rightarrow> int \<Rightarrow> bench_st \<Rightarrow> bench_st \<times> json option" where
  "speed_test lib cmd op mid b = (let plain = Some (with_mid ''ack'' (JObj []) mid) in
     if op = ''start'' then (b\<lparr>rx_bytes := 0, bench_crc := 0, armed := False, bench_active := True,
       expected_bytes := (case number_of (json_item lib cmd ''size'') of None \<Rightarrow> 0 | Some x \<Rightarrow> cast_uint32 x)\<rparr>, plain)
     else if op = ''disarm'' then (b\<lparr>armed := False\<rparr>, plain)
     else if op = ''arm'' then (b\<lparr>armed := True\<rparr>, plain)
     else if op = ''end'' then (b\<lparr>armed := False, bench_active := False\<rparr>,
       Some (JObj [(''ack'', JBool True), (''rx_bytes'', JNum (of_nat (unat (rx_bytes b)))),
         (''crc_match'', JBool (expected_bytes b = 0 \<or> rx_bytes b = expected_bytes b)),
         (''crc32'', JNum (of_nat (unat (bench_crc b)))), (''mID'', JNum (of_int mid))]))
     else (b, None))"

definition ota_ack :: "int \<Rightarrow> int \<Rightarrow> string option \<Rightarrow> json" where
  "ota_ack mid seq err = with_mid ''ack'' (JObj ([(''act'', JStr ''OTA''), (''Chunk'', JObj [(''seq'', JNum (of_int seq))])] @
     (case err of None \<Rightarrow> [] | Some e \<Rightarrow> [warn_obj ''error'' e]))) mid"

definition ota_fields :: "('f, 'p) ble_lib \<Rightarrow> json \<Rightarrow> ota_chunk" where
  "ota_fields lib chunk = (map_option cast_int (number_of (json_item lib chunk ''seq'')),
     map_option cast_int (number_of (json_item lib chunk ''total'')), string_of (json_item lib chunk ''data''))"

definition ota_outs :: "('f, 'p) ble_lib \<Rightarrow> int \<Rightarrow> ota_out list \<Rightarrow> ble_out list" where
  "ota_outs lib mid os = concat (map (\<lambda>x. case x of Ota_ack seq err \<Rightarrow> send_reply lib (ota_ack mid seq err) | _ \<Rightarrow> [Update x]) os)"

definition phase_device :: "('f, 'p) ble_lib \<Rightarrow> cmd_env \<Rightarrow> string \<Rightarrow> json \<Rightarrow> int \<Rightarrow> ('f, 'p) progress \<Rightarrow> ('f, 'p) progress" where
  "phase_device lib env act cmd mid = (\<lambda>(st, outs, handled).
     if \<not> handled \<and> act = ''Device'' then
       (if json_item lib cmd ''Identify'' = None then (st, outs, handled)
        else (st, outs @ send_reply lib (with_mid ''ack'' (JObj [(''act'', JStr ''Device''), (''Identify'', identity lib st)]) mid), True))
     else if act = ''SpeedTest'' then (case string_of (json_item lib cmd ''op'') of None \<Rightarrow> (st, outs, handled)
       | Some op \<Rightarrow> (let (b, resp) = speed_test lib cmd op mid (g_bsp_bench st) in
           (st\<lparr>g_bsp_bench := b\<rparr>, outs @ (case resp of None \<Rightarrow> [] | Some j \<Rightarrow> send_reply lib j), resp \<noteq> None)))
     else if act = ''OTA'' then (case json_item lib cmd ''Chunk'' of None \<Rightarrow> (st, outs, handled)
       | Some chunk \<Rightarrow> (let (u, os) = ota_chunk (ota_results env) (ota_fields lib chunk) (ota st) in
           (st\<lparr>ota := u\<rparr>, outs @ ota_outs lib mid os, True)))
     else (st, outs, handled))"

section \<open>Methods and the rest\<close>

definition phase_method :: "('f, 'p) ble_lib \<Rightarrow> string \<Rightarrow> json \<Rightarrow> int \<Rightarrow> ('f, 'p) progress \<Rightarrow> ('f, 'p) progress" where
  "phase_method lib act cmd mid = (\<lambda>(st, outs, handled).
     if handled \<or> mid = 0 \<or> \<not> is_m225_sub_actor act then (st, outs, handled)
     else case first_key [''act'', ''get'', ''set''] cmd of None \<Rightarrow> (st, outs, handled)
     | Some (name, params) \<Rightarrow> (let st1 = set_command_ctx act st in
         case m225_dispatch_method nxp_bridge_init act name of None \<Rightarrow> (st1, outs, False)
         | Some result \<Rightarrow> (st1, outs @ send_reply lib (with_mid ''ack''
             (JObj [(''act'', JStr act), (name, JObj [(''result'', JStr result)])]) mid), True)))"

definition phase_not_found :: "('f, 'p) ble_lib \<Rightarrow> string \<Rightarrow> int \<Rightarrow> ('f, 'p) progress \<Rightarrow> ('f, 'p) progress" where
  "phase_not_found lib act mid = (\<lambda>(st, outs, handled).
     if handled \<or> mid = 0 then (st, outs, handled)
     else (st, outs @ send_reply lib (with_mid ''err'' (JObj [(''act'', JStr act), (''errorCode'', JNum 404),
       (''reason'', JStr ''actor or method not found'')]) mid), True))"

definition handle_cmd :: "('f, 'p) ble_lib \<Rightarrow> cmd_env \<Rightarrow> json \<Rightarrow> int \<Rightarrow> ('f, 'p) ble_st \<Rightarrow> ('f, 'p) progress" where
  "handle_cmd lib env cmd mid st = (if \<not> is_object cmd then (st, [], False)
     else case string_of (json_item lib cmd ''act'') of None \<Rightarrow> (st, [], False)
     | Some act \<Rightarrow> phase_not_found lib act mid (phase_method lib act cmd mid (phase_device lib env act cmd mid
         (phase_menu lib act cmd mid (phase_getset lib env act cmd mid st)))))"

text \<open>One record of the JSON channel: its bytes as a text, which ends at the first zero byte.  When the command is done its text
  is freed, and with it the actor's name the context pointer may designate.\<close>

definition record_text :: "bytes \<Rightarrow> string" where
  "record_text payload = takeWhile (\<lambda>c. c \<noteq> CHR 0x00) (map (\<lambda>b. char_of (unat b)) payload)"

definition handle_root :: "('f, 'p) ble_lib \<Rightarrow> cmd_env \<Rightarrow> string \<Rightarrow> json \<Rightarrow> ('f, 'p) ble_st \<Rightarrow> ('f, 'p) ble_st \<times> ble_out list" where
  "handle_root lib env text doc st = (let
     mid = (case number_of (json_item lib doc ''mID'') of None \<Rightarrow> 0 | Some x \<Rightarrow> cast_int x);
     cmd = json_item lib doc ''cmd'';
     (st1, outs, handled) = (case cmd of None \<Rightarrow> (st, [], False) | Some c \<Rightarrow> handle_cmd lib env c mid st);
     (outs2, handled2) = (if \<not> handled \<and> json_item lib doc ''identifyDevice'' \<noteq> None
       then (outs @ send_reply lib (JObj [(''Identity'', identity lib st1)]), True) else (outs, handled));
     outs3 = (if \<not> handled2 \<and> cmd \<noteq> None then outs2 @ [Forward text] else outs2) in
     (st1\<lparr>indicator := (indicator st1)\<lparr>command_act := None\<rparr>\<rparr>, outs3))"

definition bsp_handle_json :: "('f, 'p) ble_lib \<Rightarrow> cmd_env \<Rightarrow> bytes \<Rightarrow> ('f, 'p) ble_st \<Rightarrow> ('f, 'p) ble_st \<times> ble_out list" where
  "bsp_handle_json lib env payload st =
    (if payload = [] \<or> \<not> alloc_ok env then (st, [])
     else case json_parse lib (record_text payload) of None \<Rightarrow> (st, [])
       | Some doc \<Rightarrow> handle_root lib env (record_text payload) doc st)"

text \<open>One record of the bench channel.\<close>

definition bsp_handle_bench :: "bytes \<Rightarrow> bench_st \<Rightarrow> bench_st" where
  "bsp_handle_bench payload b = (if \<not> armed b \<or> payload = [] then b
     else b\<lparr>rx_bytes := rx_bytes b + of_nat (length payload), bench_crc := crc32_buf (bench_crc b) payload\<rparr>)"

section \<open>Every command is answered\<close>

definition answers :: "int \<Rightarrow> json \<Rightarrow> bool" where
  "answers mid j = (case j of JObj fs \<Rightarrow> map_of fs ''mID'' = Some (JNum (of_int mid)) | _ \<Rightarrow> False)"

definition one_answer :: "int \<Rightarrow> ble_out list \<Rightarrow> bool" where
  "one_answer mid outs = (case outs of [Reply j] \<Rightarrow> answers mid j | _ \<Rightarrow> False)"

text \<open>Before and after each phase: nothing was sent while the command is not handled, and one answer once it is.\<close>

definition on_track :: "int \<Rightarrow> ('f, 'p) progress \<Rightarrow> bool" where
  "on_track mid x = (case x of (st, outs, handled) \<Rightarrow> if handled then one_answer mid outs else outs = [])"

definition prints_all :: "('f, 'p) ble_lib \<Rightarrow> bool" where
  "prints_all lib \<longleftrightarrow> (\<forall>j. json_prints lib j)"

lemma one_reply: "prints_all lib \<Longrightarrow> answers mid j \<Longrightarrow> one_answer mid (send_reply lib j)"
  by (simp add: send_reply_def one_answer_def prints_all_def)

lemma answers_with_mid: "kind \<noteq> ''mID'' \<Longrightarrow> answers mid (with_mid kind body mid)"
  by (simp add: answers_def with_mid_def)

definition acked :: "('f, 'p) ble_lib \<Rightarrow> int \<Rightarrow> ('f, 'p) progress \<Rightarrow> bool" where
  "acked lib mid x \<longleftrightarrow> (\<exists>st1 body. x = (st1, send_reply lib (with_mid ''ack'' body mid), True)) \<or> (\<exists>st1. x = (st1, [], False))"

lemma acked_intros:
  "acked lib mid (st1, send_reply lib (with_mid ''ack'' body mid), True)" "acked lib mid (st1, [], False)"
  "acked lib mid x \<Longrightarrow> acked lib mid y \<Longrightarrow> acked lib mid (if b then x else y)"
  by (auto simp: acked_def)

lemma getset_shape: "acked lib mid (phase_getset lib env act cmd mid st)"
  unfolding phase_getset_def Let_def case_prod_beta by (intro acked_intros)

lemma getset_on_track: "prints_all lib \<Longrightarrow> on_track mid (phase_getset lib env act cmd mid st)"
  using getset_shape[of lib mid env act cmd st] by (auto simp: acked_def on_track_def intro!: one_reply answers_with_mid)

lemma getset_ctx:
  "ctx_value (indicator st) \<noteq> None \<Longrightarrow> act = ''MENU'' \<Longrightarrow> ctx_value (indicator (fst (phase_getset lib env act cmd mid st))) \<noteq> None"
  by (simp add: phase_getset_def actor_route_def is_m225_sub_actor_def Let_def)

lemma run_menu_total: "ctx_value m \<noteq> None \<Longrightarrow> snd (run_menu lib peer m p mn) \<noteq> None"
proof -
  assume c: "ctx_value m \<noteq> None"
  let ?m1 = "case menu_ctx mn of None \<Rightarrow> m | Some c \<Rightarrow> m225_set_menu_ctx (Constant c) m"
  have "ctx_value ?m1 \<noteq> None"
    using c by (cases "menu_ctx mn") (auto simp: m225_set_menu_ctx_def ctx_value_def)
  then have "getter_value lib peer ?m1 p (menu_getter mn) n \<noteq> None" for n
    by (cases "menu_getter mn") (auto simp: getter_value_def m225_actor_get_def)
  then have "list_all (\<lambda>(n, rw). getter_value lib peer ?m1 p (menu_getter mn) n \<noteq> None) (listed item_variables mn)"
    by (auto simp: list_all_iff)
  from build_items[OF this] show ?thesis by (auto simp: run_menu_def)
qed

lemma menu_on_track:
  assumes "prints_all lib" "on_track mid x" "act = ''MENU'' \<Longrightarrow> ctx_value (indicator (fst x)) \<noteq> None"
  shows "on_track mid (phase_menu lib act cmd mid x)"
proof -
  obtain st outs h where x: "x = (st, outs, h)" by (cases x)
  show ?thesis
  proof (cases "h \<or> act \<noteq> ''MENU'' \<or> first_key [''act''] cmd = None")
    case True
    then show ?thesis using assms(2) by (auto simp: x phase_menu_def)
  next
    case False
    then obtain name j where k: "first_key [''act''] cmd = Some (name, j)" "\<not> h" "act = ''MENU''" by auto
    then have o: "outs = []" using assms(2) by (simp add: x on_track_def)
    show ?thesis
    proof (cases "menu_dispatch name")
      case None
      then show ?thesis using k o assms(1)
        by (auto simp: x phase_menu_def on_track_def intro!: one_reply answers_with_mid)
    next
      case (Some mn)
      obtain m1 items where r: "run_menu (floats lib) (\<lambda>a n p. snd (peer_get lib a n p)) (indicator st) (peers st) mn = (m1, items)"
        by fastforce
      then have "items \<noteq> None" using run_menu_total[of "indicator st"] assms(3) k(3) x by (metis fst_conv snd_conv)
      then show ?thesis using k o assms(1) Some r
        by (auto simp: x phase_menu_def on_track_def intro!: one_reply answers_with_mid)
    qed
  qed
qed

lemma speed_test_answers: "speed_test lib cmd op mid b = (b1, Some j) \<Longrightarrow> answers mid j"
  by (auto simp: speed_test_def answers_with_mid Let_def split: if_splits) (simp add: answers_def)

lemma device_on_track:
  assumes "prints_all lib" "on_track mid x" "act = ''SpeedTest'' \<Longrightarrow> \<not> snd (snd x)" "act \<noteq> ''OTA''"
  shows "on_track mid (phase_device lib env act cmd mid x)"
proof -
  obtain st outs h where x: "x = (st, outs, h)" by (cases x)
  show ?thesis
    using assms
    by (auto simp: x phase_device_def on_track_def Let_def intro!: one_reply answers_with_mid dest: speed_test_answers
        split: option.splits prod.splits)
qed

lemma method_on_track: "prints_all lib \<Longrightarrow> on_track mid x \<Longrightarrow> on_track mid (phase_method lib act cmd mid x)"
  by (cases x) (auto simp: phase_method_def on_track_def Let_def intro!: one_reply answers_with_mid split: option.splits)

lemma not_found_on_track:
  "prints_all lib \<Longrightarrow> on_track mid x \<Longrightarrow> mid \<noteq> 0 \<Longrightarrow>
    on_track mid (phase_not_found lib act mid x) \<and> snd (snd (phase_not_found lib act mid x))"
  by (cases x) (auto simp: phase_not_found_def on_track_def intro!: one_reply answers_with_mid)

lemma speed_test_waits: "\<not> snd (snd (phase_menu lib ''SpeedTest'' cmd mid (phase_getset lib env ''SpeedTest'' cmd mid st)))"
  by (simp add: phase_menu_def phase_getset_def actor_route_def is_m225_sub_actor_def Let_def case_prod_beta)

lemma cmd_answered:
  assumes "prints_all lib" "is_object cmd" "string_of (json_item lib cmd ''act'') = Some act" "mid \<noteq> 0" "act \<noteq> ''OTA''"
    and "ctx_value (indicator st) \<noteq> None"
  shows "on_track mid (handle_cmd lib env cmd mid st) \<and> snd (snd (handle_cmd lib env cmd mid st))"
proof -
  have 1: "on_track mid (phase_menu lib act cmd mid (phase_getset lib env act cmd mid st))"
    using getset_ctx[OF assms(6)] by (intro menu_on_track assms(1) getset_on_track) auto
  have "on_track mid (phase_device lib env act cmd mid (phase_menu lib act cmd mid (phase_getset lib env act cmd mid st)))"
    using speed_test_waits[of lib cmd mid env st] assms(5) by (intro device_on_track assms(1) 1) auto
  from not_found_on_track[OF assms(1) method_on_track[OF assms(1) this] assms(4)]
  show ?thesis using assms(2, 3) by (simp add: handle_cmd_def)
qed

text \<open>C2: a command with a number, whatever actor it names and whatever it asks for, is answered by exactly one record with
  that number and is not passed on to the console, as long as the number fits the 32 bits of an int, printing succeeds and the
  context pointer is not dangling (firmware updates apart).\<close>

theorem command_answered_once:
  assumes "json_parse lib (record_text payload) = Some doc" "payload \<noteq> []" "alloc_ok env" "prints_all lib"
    and "json_item lib doc ''cmd'' = Some cmd" "is_object cmd" "string_of (json_item lib cmd ''act'') = Some act" "act \<noteq> ''OTA''"
    and "number_of (json_item lib doc ''mID'') = Some x" "trunc x \<noteq> 0" "- 2147483648 \<le> trunc x" "trunc x \<le> 2147483647"
    and "ctx_value (indicator st) \<noteq> None"
  shows "one_answer (trunc x) (snd (bsp_handle_json lib env payload st))"
proof -
  note n = cast_int_in_range[OF assms(11, 12)]
  obtain st1 outs h where c: "handle_cmd lib env cmd (trunc x) st = (st1, outs, h)" by (cases "handle_cmd lib env cmd (trunc x) st")
  have "h" "one_answer (trunc x) outs"
    using cmd_answered[OF assms(4, 6, 7, 10, 8, 13), of env] by (auto simp: c on_track_def)
  then show ?thesis using assms(1-3, 5, 9) c n by (simp add: bsp_handle_json_def handle_root_def)
qed

section \<open>Examples of the outside\<close>

text \<open>The library looks items up without regard to case and prints everything, and no other actor knows any property.\<close>

definition low_char :: "char \<Rightarrow> char" where
  "low_char c = (let n = of_char c :: nat in if 65 \<le> n \<and> n \<le> 90 then char_of (n + 32) else c)"

definition same_name :: "string \<Rightarrow> string \<Rightarrow> bool" where
  "same_name a b \<longleftrightarrow> map low_char a = map low_char b"

definition item_of :: "json \<Rightarrow> string \<Rightarrow> json option" where
  "item_of j k = (case j of JObj kvs \<Rightarrow> map_option snd (find (\<lambda>(n, v). same_name n k) kvs) | _ \<Rightarrow> None)"

definition demo_ble :: "(string \<Rightarrow> json option) \<Rightarrow> (string, unit) ble_lib" where
  "demo_ble parse = \<lparr>floats = demo_lib, json_parse = parse, json_item = item_of, json_prints = (\<lambda>j. True),
     peer_get = (\<lambda>a n p. (False, [])), peer_set = (\<lambda>a n v p. (False, p))\<rparr>"

definition bench_idle :: bench_st where
  "bench_idle = \<lparr>rx_bytes = 0, bench_crc = 0, expected_bytes = 0, armed = False, bench_active = False\<rparr>"

definition demo_st :: "(string, unit) ble_st" where
  "demo_st = \<lparr>indicator = m225_boot demo_lib, ota = ota_init, g_bsp_bench = bench_idle, peers = (), device_name = [],
     Device_Fw_Ver = ''1.2''\<rparr>"

definition demo_env :: cmd_env where
  "demo_env = \<lparr>alloc_ok = True, nvs_ok = True, ota_results = all_good\<rparr>"

theorem command_answered_once_witness:
  "one_answer 7 (snd (bsp_handle_json (demo_ble (\<lambda>s. Some (JObj [(''cmd'', JObj [(''act'', JStr ''Device''), (''Identify'', JObj [])]),
      (''mID'', JNum 7)]))) demo_env [1] demo_st))"
proof -
  let ?cmd = "JObj [(''act'', JStr ''Device''), (''Identify'', JObj [])]"
  let ?doc = "JObj [(''cmd'', ?cmd), (''mID'', JNum 7)]"
  have "item_of ?doc ''cmd'' = Some ?cmd" "string_of (item_of ?cmd ''act'') = Some ''Device''" "number_of (item_of ?doc ''mID'') = Some 7"
    by code_simp+
  then show ?thesis
    using command_answered_once[of "demo_ble (\<lambda>s. Some ?doc)" "[1]" ?doc demo_env ?cmd "''Device''" 7 demo_st]
    by (simp add: demo_ble_def demo_env_def demo_st_def prints_all_def is_object_def trunc_def ctx_value_def m225_boot_def)
qed

section \<open>Setting and reading back\<close>

definition set_doc :: "string \<Rightarrow> (string \<times> json) list \<Rightarrow> int \<Rightarrow> json" where
  "set_doc act kvs mid = JObj [(''cmd'', JObj [(''act'', JStr act), (''set'', JObj kvs)]), (''mID'', JNum (of_int mid))]"

definition get_doc :: "string \<Rightarrow> string list \<Rightarrow> int \<Rightarrow> json" where
  "get_doc act ns mid = JObj [(''cmd'', JObj [(''act'', JStr act), (''get'', JArr (map JStr ns))]), (''mID'', JNum (of_int mid))]"

text \<open>What the JSON library is documented to do: look up the first item of an object by name, without regard to case.\<close>

definition looks_up :: "('f, 'p) ble_lib \<Rightarrow> bool" where
  "looks_up lib \<longleftrightarrow> (\<forall>kvs k. json_item lib (JObj kvs) k = map_option snd (find (\<lambda>(n, v). same_name n k) kvs))"

lemma command_names:
  "same_name ''cmd'' ''cmd''" "same_name ''act'' ''act''" "same_name ''get'' ''get''" "same_name ''set'' ''set''" "same_name ''mID'' ''mID''"
  "\<not> same_name ''act'' ''get''" "\<not> same_name ''act'' ''set''" "\<not> same_name ''cmd'' ''mID''" "\<not> same_name ''get'' ''set''"
  "\<not> same_name ''set'' ''get''" "\<not> same_name ''cmd'' ''identifyDevice''" "\<not> same_name ''mID'' ''identifyDevice''"
  by code_simp+

text \<open>The number of a command as the code keeps it, in 32 bits.\<close>

definition id32 :: "int \<Rightarrow> int" where "id32 mid = cast_int (of_int mid)"

lemma id32_fits [simp]: "- 2147483648 \<le> mid \<Longrightarrow> mid \<le> 2147483647 \<Longrightarrow> id32 mid = mid"
  by (simp add: id32_def cast_int_def trunc_def)

lemma small_ids: "id32 3 = 3" "id32 4 = 4" "id32 5 = 5" "id32 6 = 6"
  by simp_all

lemma set_doc_items:
  assumes "looks_up lib"
  shows "json_item lib (set_doc act kvs mid) ''mID'' = Some (JNum (of_int mid))"
    "json_item lib (set_doc act kvs mid) ''cmd'' = Some (JObj [(''act'', JStr act), (''set'', JObj kvs)])"
    "json_item lib (JObj [(''act'', JStr act), (''set'', JObj kvs)]) ''act'' = Some (JStr act)"
    "json_item lib (JObj [(''act'', JStr act), (''set'', JObj kvs)]) ''get'' = None"
    "json_item lib (JObj [(''act'', JStr act), (''set'', JObj kvs)]) ''set'' = Some (JObj kvs)"
  using assms command_names by (simp_all add: looks_up_def set_doc_def)

lemma get_doc_items:
  assumes "looks_up lib"
  shows "json_item lib (get_doc act ns mid) ''mID'' = Some (JNum (of_int mid))"
    "json_item lib (get_doc act ns mid) ''cmd'' = Some (JObj [(''act'', JStr act), (''get'', JArr (map JStr ns))])"
    "json_item lib (JObj [(''act'', JStr act), (''get'', JArr (map JStr ns))]) ''act'' = Some (JStr act)"
    "json_item lib (JObj [(''act'', JStr act), (''get'', JArr (map JStr ns))]) ''get'' = Some (JArr (map JStr ns))"
    "json_item lib (JObj [(''act'', JStr act), (''get'', JArr (map JStr ns))]) ''set'' = None"
  using assms command_names by (simp_all add: looks_up_def get_doc_def)

lemma sub_actor_route: "is_m225_sub_actor act \<Longrightarrow> actor_route act = Indicator \<and> act \<noteq> ''MENU'' \<and> act \<noteq> ''Device'' \<and> act \<noteq> ''SpeedTest'' \<and> act \<noteq> ''OTA''"
proof -
  assume a: "is_m225_sub_actor act"
  have "\<not> is_m225_sub_actor n" if "n \<in> set [''BLE'', ''WIFI'', ''ETH'', ''NTP'', ''UART'', ''SYSTEM'', ''MENU'', ''Device'', ''SpeedTest'', ''OTA'']" for n
    using that by (simp add: is_m225_sub_actor_def) (elim disjE; simp)
  then have "act \<notin> set [''BLE'', ''WIFI'', ''ETH'', ''NTP'', ''UART'', ''SYSTEM'', ''MENU'', ''Device'', ''SpeedTest'', ''OTA'']"
    using a by blast
  then show ?thesis using a by (simp add: actor_route_def)
qed

text \<open>A command the get and set part has handled goes through the other parts unchanged.\<close>

lemma handled_through:
  assumes "phase_getset lib env act cmd mid st = (st1, outs, True)" "act \<noteq> ''SpeedTest''" "act \<noteq> ''OTA''" "is_object cmd"
    "json_item lib cmd ''act'' = Some (JStr act)"
  shows "handle_cmd lib env cmd mid st = (st1, outs, True)"
  using assms by (simp add: handle_cmd_def string_of_def phase_menu_def phase_device_def phase_method_def phase_not_found_def)

definition forget :: "('f, 'p) ble_st \<Rightarrow> ('f, 'p) ble_st" where
  "forget st = st\<lparr>indicator := (indicator st)\<lparr>command_act := None\<rparr>\<rparr>"

text \<open>A set command to the indicator.\<close>

lemma indicator_set:
  assumes "json_parse lib (record_text payload) = Some (set_doc act kvs mid)" "payload \<noteq> []" "alloc_ok env" "prints_all lib"
    and "looks_up lib" "is_m225_sub_actor act"
    and "set_values lib env act kvs (let st0 = set_command_ctx act st in st0\<lparr>indicator := m225_clamp_begin (indicator st0)\<rparr>) [] =
      (st1, res, msgs)"
  shows "bsp_handle_json lib env payload st = (forget st1, [Reply (with_mid ''ack'' (JObj ((''act'', JStr act) # (''set'', JObj res) #
    (if msgs \<noteq> [] then [warn_obj ''warn'' msgs]
     else if s_clamped (indicator st1) then [warn_obj ''warn'' (s_clamp_msg (indicator st1))] else []))) (id32 mid))])"
proof -
  let ?cmd = "JObj [(''act'', JStr act), (''set'', JObj kvs)]"
  note r = sub_actor_route[OF assms(6)]
  have "phase_getset lib env act ?cmd (id32 mid) st = (st1, [Reply (with_mid ''ack'' (JObj ((''act'', JStr act) # (''set'', JObj res) #
    (if msgs \<noteq> [] then [warn_obj ''warn'' msgs]
     else if s_clamped (indicator st1) then [warn_obj ''warn'' (s_clamp_msg (indicator st1))] else []))) (id32 mid))], True)"
    using assms(4, 6, 7) r by (simp add: phase_getset_def set_doc_items[OF assms(5)] set_part_def Let_def send_reply_def prints_all_def)
  from handled_through[OF this _ _ _ set_doc_items(3)[OF assms(5)]] r
  have "handle_cmd lib env ?cmd (id32 mid) st = (st1, [Reply (with_mid ''ack'' (JObj ((''act'', JStr act) # (''set'', JObj res) #
    (if msgs \<noteq> [] then [warn_obj ''warn'' msgs]
     else if s_clamped (indicator st1) then [warn_obj ''warn'' (s_clamp_msg (indicator st1))] else []))) (id32 mid))], True)"
    by (simp add: is_object_def)
  then show ?thesis
    using assms(1-3) by (simp add: bsp_handle_json_def handle_root_def set_doc_items[OF assms(5)] number_of_def id32_def[symmetric] forget_def)
qed

text \<open>A get command to the indicator.\<close>

lemma indicator_get:
  assumes "json_parse lib (record_text payload) = Some (get_doc act ns mid)" "payload \<noteq> []" "alloc_ok env" "prints_all lib"
    and "looks_up lib" "is_m225_sub_actor act"
  shows "bsp_handle_json lib env payload st = (forget (set_command_ctx act st), [Reply (with_mid ''ack'' (JObj ((''act'', JStr act) #
    (''get'', JObj (get_values lib Indicator (set_command_ctx act st) (map JStr ns))) #
    (if s_clamped (indicator st) then [warn_obj ''warn'' (s_clamp_msg (indicator st))] else []))) (id32 mid))])"
proof -
  let ?cmd = "JObj [(''act'', JStr act), (''get'', JArr (map JStr ns))]"
  note r = sub_actor_route[OF assms(6)]
  have c: "s_clamped (indicator (set_command_ctx act st)) = s_clamped (indicator st)"
    "s_clamp_msg (indicator (set_command_ctx act st)) = s_clamp_msg (indicator st)"
    by (simp_all add: set_command_ctx_def m225_set_menu_ctx_def)
  have "phase_getset lib env act ?cmd (id32 mid) st = (set_command_ctx act st, [Reply (with_mid ''ack'' (JObj ((''act'', JStr act) #
    (''get'', JObj (get_values lib Indicator (set_command_ctx act st) (map JStr ns))) #
    (if s_clamped (indicator st) then [warn_obj ''warn'' (s_clamp_msg (indicator st))] else []))) (id32 mid))], True)"
    using assms(4, 6) r by (simp add: phase_getset_def get_doc_items[OF assms(5)] set_part_def Let_def send_reply_def prints_all_def c)
  from handled_through[OF this _ _ _ get_doc_items(3)[OF assms(5)]] r
  have "handle_cmd lib env ?cmd (id32 mid) st = (set_command_ctx act st, [Reply (with_mid ''ack'' (JObj ((''act'', JStr act) #
    (''get'', JObj (get_values lib Indicator (set_command_ctx act st) (map JStr ns))) #
    (if s_clamped (indicator st) then [warn_obj ''warn'' (s_clamp_msg (indicator st))] else []))) (id32 mid))], True)"
    by (simp add: is_object_def)
  then show ?thesis
    using assms(1-3) by (simp add: bsp_handle_json_def handle_root_def get_doc_items[OF assms(5)] number_of_def id32_def[symmetric] forget_def)
qed

lemma indicator_in_command:
  "ctx_value (indicator (set_command_ctx act st)) = Some act" "s_m225 (indicator (set_command_ctx act st)) = s_m225 (indicator st)"
  by (simp_all add: set_command_ctx_def m225_set_menu_ctx_def ctx_value_def)

lemma set_value_canonical:
  assumes "is_m225_sub_actor act" "ctx_value (indicator st) = Some act" "lookup set_ctx set_flat act n = Some s"
    and "canonical (floats lib) s (value_text j)" "length (value_text j) < 256"
  shows "\<exists>st1. set_value lib env act n j st msgs = (st1, (n, JStr (value_text j)), msgs) \<and> \<not> s_clamped (indicator st1) \<and>
    ctx_value (indicator st1) = Some act \<and> m225_actor_get (floats lib) n 256 (indicator st1) = Some (True, value_text j)"
proof -
  obtain m1 where m1: "m225_actor_set (floats lib) (nvs_ok env) n (value_text j) (indicator st) = Some (True, m1)"
    "m225_actor_get (floats lib) n 256 m1 = Some (True, value_text j)" "ctx_value m1 = Some act" "\<not> s_clamped m1"
    using stored_reads_back[OF assms(2-5)] by blast
  then show ?thesis using sub_actor_route[OF assms(1)]
    by (simp add: set_value_def write_name_def read_name_def)
qed

text \<open>C11: setting a property of the indicator by command and asking for it by a later command: the reply to the set shows the text
  that was set and no warning, and the reply to the get shows the same text, for every property of every menu and every
  text its field can hold, and also for numbers, which are sent in full up to six digits.  Each reply carries the number of its
  command, as the 32-bit integer the code keeps of it.\<close>

theorem set_command_reads_back:
  assumes "json_parse lib (record_text p1) = Some (set_doc act [(n, j)] k1)" "json_parse lib (record_text p2) = Some (get_doc act [n] k2)"
    and "p1 \<noteq> []" "p2 \<noteq> []" "alloc_ok env1" "alloc_ok env2" "prints_all lib" "looks_up lib" "is_m225_sub_actor act"
    and "lookup set_ctx set_flat act n = Some s" "canonical (floats lib) s v" "length v < 256"
    and "j = JStr v \<or> (\<exists>i. j = JNum (of_int i) \<and> \<bar>i\<bar> < 1000000 \<and> v = show_int i)"
  shows "\<exists>st1. bsp_handle_json lib env1 p1 st =
      (st1, [Reply (with_mid ''ack'' (JObj [(''act'', JStr act), (''set'', JObj [(n, JStr v)])]) (id32 k1))]) \<and>
    snd (bsp_handle_json lib env2 p2 st1) =
      [Reply (with_mid ''ack'' (JObj [(''act'', JStr act), (''get'', JObj [(n, JStr v)])]) (id32 k2))]"
proof -
  have v: "value_text j = v" using assms(12, 13) printf_g_int by (auto simp: value_text_def)
  let ?st0 = "let st0 = set_command_ctx act st in st0\<lparr>indicator := m225_clamp_begin (indicator st0)\<rparr>"
  have c0: "ctx_value (indicator ?st0) = Some act" by (simp add: Let_def indicator_in_command)
  obtain st1 where st1: "set_value lib env1 act n j ?st0 [] = (st1, (n, JStr v), [])" "\<not> s_clamped (indicator st1)"
    "m225_actor_get (floats lib) n 256 (indicator st1) = Some (True, v)" "ctx_value (indicator st1) = Some act"
    using set_value_canonical[OF assms(9) c0 assms(10), of lib j env1 "[]"] assms(11, 12) v by auto
  have vals: "set_values lib env1 act [(n, j)] ?st0 [] = (st1, [(n, JStr v)], [])" by (simp add: st1(1))
  have 1: "bsp_handle_json lib env1 p1 st = (forget st1, [Reply (with_mid ''ack'' (JObj [(''act'', JStr act), (''set'', JObj [(n, JStr v)])]) (id32 k1))])"
    using indicator_set[OF assms(1, 3, 5, 7, 8, 9) vals] st1(2) by simp
  have "m225_actor_get (floats lib) n 256 (indicator (set_command_ctx act (forget st1))) = Some (True, v)"
    unfolding st1(3)[symmetric] by (rule actor_get_cong[OF _ st1(4)]) (simp_all add: indicator_in_command forget_def)
  then have 2: "snd (bsp_handle_json lib env2 p2 (forget st1)) =
      [Reply (with_mid ''ack'' (JObj [(''act'', JStr act), (''get'', JObj [(n, JStr v)])]) (id32 k2))]"
    using indicator_get[OF assms(2, 4, 6, 7, 8, 9), of "forget st1"] st1(2) by (simp add: read_name_def forget_def)
  show ?thesis using 1 2 by blast
qed

lemma demo_laws: "looks_up (demo_ble parse)" "prints_all (demo_ble parse)"
  by (simp_all add: looks_up_def prints_all_def demo_ble_def item_of_def)

theorem set_command_reads_back_witness:
  "\<exists>lib st1. bsp_handle_json lib demo_env [1] demo_st =
      (st1, [Reply (with_mid ''ack'' (JObj [(''act'', JStr ''Batcher''), (''set'', JObj [(''GateTimer'', JStr ''250'')])]) 4)]) \<and>
    snd (bsp_handle_json lib demo_env [2] st1) =
      [Reply (with_mid ''ack'' (JObj [(''act'', JStr ''Batcher''), (''get'', JObj [(''GateTimer'', JStr ''250'')])]) 5)]"
proof -
  define lib where "lib = demo_ble (\<lambda>s. if s = [CHR 0x01] then Some (set_doc ''Batcher'' [(''GateTimer'', JNum (of_int 250))] 4)
      else Some (get_doc ''Batcher'' [''GateTimer''] 5))"
  have l: "lookup set_ctx set_flat ''Batcher'' ''GateTimer'' = Some (S_U16 ''batcher_gate_timer'')"
    by (simp add: lookup_def set_ctx_def set_ctx2_def set_ctx3_def set_ctx4_def)
  have c: "canonical (floats lib) (S_U16 ''batcher_gate_timer'') ''250''" unfolding lib_def demo_ble_def by code_simp
  have r: "record_text [1] = [CHR 0x01]" "record_text [2] = [CHR 0x02]" "show_int 250 = ''250''" by code_simp+
  have p: "json_parse lib (record_text [1]) = Some (set_doc ''Batcher'' [(''GateTimer'', JNum (of_int 250))] 4)"
    "json_parse lib (record_text [2]) = Some (get_doc ''Batcher'' [''GateTimer''] 5)"
    by (simp_all add: r lib_def demo_ble_def)
  have "\<exists>st1. bsp_handle_json lib demo_env [1] demo_st =
      (st1, [Reply (with_mid ''ack'' (JObj [(''act'', JStr ''Batcher''), (''set'', JObj [(''GateTimer'', JStr ''250'')])]) 4)]) \<and>
    snd (bsp_handle_json lib demo_env [2] st1) =
      [Reply (with_mid ''ack'' (JObj [(''act'', JStr ''Batcher''), (''get'', JObj [(''GateTimer'', JStr ''250'')])]) 5)]"
    by (rule set_command_reads_back[OF p _ _ _ _ _ _ _ l c, unfolded small_ids])
      (simp_all add: demo_env_def demo_laws lib_def is_m225_sub_actor_def r(3) exI[of _ 250])
  then show ?thesis by blast
qed

section \<open>Numbers, limits and unknown names\<close>

lemma indicator_value:
  assumes "is_m225_sub_actor act" "ctx_value (indicator st) = Some act"
  shows "\<exists>m1. m225_actor_set (floats lib) (nvs_ok env) n v (indicator st) = Some (True, m1) \<and> ctx_value m1 = Some act \<and>
    write_name lib env (actor_route act) n v st = (True, st\<lparr>indicator := m1\<rparr>) \<and>
    s_m225 m1 = (case lookup set_ctx set_flat act n of None \<Rightarrow> s_m225 (indicator st) | Some s \<Rightarrow>
      (let fs = (s_m225 (indicator st))(fst (setter_field s) \<mapsto> stored (floats lib) v s) in if counts s then bumped fs else fs)) \<and>
    (s_clamped m1 \<longleftrightarrow> (case lookup set_ctx set_flat act n of Some (S_U8_CLAMP f lo hi) \<Rightarrow> strtol v < lo \<or> hi < strtol v | _ \<Rightarrow> False)) \<and>
    (case lookup set_ctx set_flat act n of Some (S_U8_CLAMP f lo hi) \<Rightarrow>
      (if strtol v < lo then s_clamp_msg m1 = take 127 (n @ '' clamped to '' @ show_int lo)
       else if hi < strtol v then s_clamp_msg m1 = take 127 (n @ '' clamped to '' @ show_int hi) else True) | _ \<Rightarrow> True)"
proof -
  let ?m = "m225_clamp_begin (indicator st)"
  have msg: "s_clamp_msg (m225_nvs_save ok x) = s_clamp_msg x" "s_clamp_msg (put_field f w x) = s_clamp_msg x"
    "s_clamp_msg (bump_counter x) = s_clamp_msg x" for ok f w and x :: "'a m225"
    by (simp_all add: m225_nvs_save_def put_field_def bump_counter_def split: option.splits fval.splits)
  show ?thesis
  proof (cases "lookup set_ctx set_flat act n")
    case None
    then show ?thesis using assms sub_actor_route[OF assms(1)]
      by (simp add: m225_actor_set_def m225_set_property_def write_name_def set_frame)
  next
    case (Some s)
    have "s_clamped (run_setter (floats lib) n v s ?m) \<longleftrightarrow> (case s of S_U8_CLAMP f lo hi \<Rightarrow> strtol v < lo \<or> hi < strtol v | _ \<Rightarrow> False)"
      by (cases s) (auto simp: run_setter_def put_clamped_def set_frame Let_def m225_clamp_begin_def m225_clamp_note_def)
    moreover have "case s of S_U8_CLAMP f lo hi \<Rightarrow>
      (if strtol v < lo then s_clamp_msg (run_setter (floats lib) n v s ?m) = take 127 (n @ '' clamped to '' @ show_int lo)
       else if hi < strtol v then s_clamp_msg (run_setter (floats lib) n v s ?m) = take 127 (n @ '' clamped to '' @ show_int hi) else True) | _ \<Rightarrow> True"
      by (cases s) (auto simp: run_setter_def put_clamped_def msg Let_def m225_clamp_note_def)
    ultimately show ?thesis using assms Some sub_actor_route[OF assms(1)]
      by (auto simp: m225_actor_set_def m225_set_property_def run_setter_fields write_name_def set_frame msg split: setter.splits)
  qed
qed

text \<open>a JSON number of a million or more is printed with an exponent before it is stored, so that setting the capacity, or any
  other whole-number property without limits, to 1000000 sets it to 1, and the reply shows 1 without a warning.\<close>

theorem million_becomes_one:
  assumes "json_parse lib (record_text payload) = Some (set_doc act [(n, JNum 1000000)] mid)" "payload \<noteq> []" "alloc_ok env"
    and "prints_all lib" "looks_up lib" "is_m225_sub_actor act"
    and "lookup set_ctx set_flat act n = Some s" "s = S_U8 f \<or> s = S_U16 f \<or> s = S_U32 f"
  shows "snd (bsp_handle_json lib env payload st) =
    [Reply (with_mid ''ack'' (JObj [(''act'', JStr act), (''set'', JObj [(n, JStr ''1'')])]) (id32 mid))]"
proof -
  let ?st0 = "let st0 = set_command_ctx act st in st0\<lparr>indicator := m225_clamp_begin (indicator st0)\<rparr>"
  have v: "value_text (JNum 1000000) = ''1e+06''" by (simp add: value_text_def printf_g_million)
  have one: "strtol ''1e+06'' = 1" "show_nat 1 = ''1''" by code_simp+
  have c0: "ctx_value (indicator ?st0) = Some act" by (simp add: Let_def indicator_in_command)
  obtain m1 where m1: "write_name lib env (actor_route act) n ''1e+06'' ?st0 = (True, ?st0\<lparr>indicator := m1\<rparr>)" "ctx_value m1 = Some act"
    "s_m225 m1 = (let fs = (s_m225 (indicator ?st0))(fst (setter_field s) \<mapsto> stored (floats lib) ''1e+06'' s) in if counts s then bumped fs else fs)"
    "\<not> s_clamped m1"
    using indicator_value[OF assms(6) c0, of lib env n "''1e+06''"] assms(7, 8) by (auto split: setter.splits)
  obtain g where g: "lookup get_ctx get_flat act n = Some g" "getter_field g = Some (setter_field s)"
    using setter_has_getter[OF assms(7)] by blast
  have "m225_actor_get (floats lib) n 256 m1 = Some (True, ''1'')"
    using m1(2, 3) g assms(8) one
    by (cases g) (auto simp: m225_actor_get_def show_field_def stored_def counts_def)
  then have "set_value lib env act n (JNum 1000000) ?st0 [] = (?st0\<lparr>indicator := m1\<rparr>, (n, JStr ''1''), [])"
    using m1(1, 4) sub_actor_route[OF assms(6)] by (simp add: set_value_def v read_name_def)
  then have "set_values lib env act [(n, JNum 1000000)] ?st0 [] = (?st0\<lparr>indicator := m1\<rparr>, [(n, JStr ''1'')], [])" by simp
  from indicator_set[OF assms(1-6) this] m1(4) show ?thesis by simp
qed

theorem million_becomes_one_witness:
  "snd (bsp_handle_json (demo_ble (\<lambda>s. Some (set_doc ''ScaleSetup'' [(''Capacity'', JNum 1000000)] 3))) demo_env [1] demo_st) =
    [Reply (with_mid ''ack'' (JObj [(''act'', JStr ''ScaleSetup''), (''set'', JObj [(''Capacity'', JStr ''1'')])]) 3)]"
proof -
  have l: "lookup set_ctx set_flat ''ScaleSetup'' ''Capacity'' = Some (S_U32 ''capacity'')"
    by (simp add: lookup_def set_ctx_def set_ctx2_def set_ctx3_def set_ctx4_def set_flat_def set_flat1_def)
  show ?thesis
    by (rule million_becomes_one[where mid = 3, OF _ _ _ _ _ _ l, unfolded small_ids])
      (simp_all add: demo_laws, simp_all add: demo_ble_def demo_env_def is_m225_sub_actor_def)
qed

text \<open>a name the indicator does not know is acknowledged as if it had been set: the reply repeats the value without a warning,
  and the configuration is as before.\<close>

theorem unknown_name_acknowledged:
  assumes "json_parse lib (record_text payload) = Some (set_doc act [(n, JStr v)] mid)" "payload \<noteq> []" "alloc_ok env"
    and "prints_all lib" "looks_up lib" "is_m225_sub_actor act" "length v < 256"
    and "lookup set_ctx set_flat act n = None" "lookup get_ctx get_flat act n = None"
  shows "snd (bsp_handle_json lib env payload st) =
      [Reply (with_mid ''ack'' (JObj [(''act'', JStr act), (''set'', JObj [(n, JStr v)])]) (id32 mid))] \<and>
    s_m225 (indicator (fst (bsp_handle_json lib env payload st))) = s_m225 (indicator st)"
proof -
  let ?st0 = "let st0 = set_command_ctx act st in st0\<lparr>indicator := m225_clamp_begin (indicator st0)\<rparr>"
  have v: "value_text (JStr v) = v" using assms(7) by (simp add: value_text_def)
  have c0: "ctx_value (indicator ?st0) = Some act" by (simp add: Let_def indicator_in_command)
  obtain m1 where m1: "write_name lib env (actor_route act) n v ?st0 = (True, ?st0\<lparr>indicator := m1\<rparr>)" "ctx_value m1 = Some act"
    "s_m225 m1 = s_m225 (indicator ?st0)" "\<not> s_clamped m1"
    using indicator_value[OF assms(6) c0, of lib env n v] assms(8) by auto
  have "m225_actor_get (floats lib) n 256 m1 = Some (False, [])"
    using m1(2) assms(9) by (simp add: m225_actor_get_def)
  then have "set_values lib env act [(n, JStr v)] ?st0 [] = (?st0\<lparr>indicator := m1\<rparr>, [(n, JStr v)], [])"
    using m1(1, 4) sub_actor_route[OF assms(6)] by (simp add: set_value_def v read_name_def)
  from indicator_set[OF assms(1-6) this] m1(3, 4) show ?thesis by (simp add: forget_def Let_def indicator_in_command)
qed

theorem unknown_name_acknowledged_witness:
  "snd (bsp_handle_json (demo_ble (\<lambda>s. Some (set_doc ''Batcher'' [(''NoSuch'', JStr ''5'')] 3))) demo_env [1] demo_st) =
    [Reply (with_mid ''ack'' (JObj [(''act'', JStr ''Batcher''), (''set'', JObj [(''NoSuch'', JStr ''5'')])]) 3)]"
proof -
  have "map_of set_flat ''NoSuch'' = None" "map_of get_flat ''NoSuch'' = None" by code_simp+
  then have l: "lookup set_ctx set_flat ''Batcher'' ''NoSuch'' = None" and g: "lookup get_ctx get_flat ''Batcher'' ''NoSuch'' = None"
    by (simp_all add: lookup_def set_ctx_def set_ctx2_def set_ctx3_def set_ctx4_def get_ctx_def get_ctx2_def get_ctx3_def get_ctx4_def)
  have "snd (bsp_handle_json (demo_ble (\<lambda>s. Some (set_doc ''Batcher'' [(''NoSuch'', JStr ''5'')] 3))) demo_env [1] demo_st) =
      [Reply (with_mid ''ack'' (JObj [(''act'', JStr ''Batcher''), (''set'', JObj [(''NoSuch'', JStr ''5'')])]) 3)] \<and>
    s_m225 (indicator (fst (bsp_handle_json (demo_ble (\<lambda>s. Some (set_doc ''Batcher'' [(''NoSuch'', JStr ''5'')] 3))) demo_env [1] demo_st))) =
      s_m225 (indicator demo_st)"
    by (rule unknown_name_acknowledged[where mid = 3, OF _ _ _ _ _ _ _ l g, unfolded small_ids])
      (simp_all add: demo_laws, simp_all add: demo_ble_def demo_env_def is_m225_sub_actor_def)
  then show ?thesis by blast
qed

text \<open>a warning about a limit outlives its command: after a set outside the limits of a property has been answered with the
  warning, a get of anything in any menu of the indicator is answered with the same warning again.\<close>

theorem limit_warning_repeated:
  assumes "json_parse lib (record_text p1) = Some (set_doc act [(n, JNum (of_int i))] k1)"
    and "json_parse lib (record_text p2) = Some (get_doc act2 ns k2)"
    and "p1 \<noteq> []" "p2 \<noteq> []" "alloc_ok env1" "alloc_ok env2" "prints_all lib" "looks_up lib"
    and "is_m225_sub_actor act" "is_m225_sub_actor act2"
    and "lookup set_ctx set_flat act n = Some (S_U8_CLAMP f lo hi)" "hi < i" "i < 1000000" "0 \<le> lo" "lo \<le> hi"
  shows "\<exists>vals. snd (bsp_handle_json lib env2 p2 (fst (bsp_handle_json lib env1 p1 st))) =
    [Reply (with_mid ''ack'' (JObj [(''act'', JStr act2), (''get'', JObj vals),
      warn_obj ''warn'' (take 127 (n @ '' clamped to '' @ show_int hi))]) (id32 k2))]"
proof -
  let ?st0 = "let st0 = set_command_ctx act st in st0\<lparr>indicator := m225_clamp_begin (indicator st0)\<rparr>"
  have v: "value_text (JNum (of_int i)) = show_int i" "strtol (show_int i) = i"
    using assms(12-15) by (simp_all add: value_text_def printf_g_int strtol_show_int)
  have c0: "ctx_value (indicator ?st0) = Some act" by (simp add: Let_def indicator_in_command)
  obtain m1 where m1: "write_name lib env1 (actor_route act) n (show_int i) ?st0 = (True, ?st0\<lparr>indicator := m1\<rparr>)"
    "s_clamped m1" "s_clamp_msg m1 = take 127 (n @ '' clamped to '' @ show_int hi)"
    using indicator_value[OF assms(9) c0, of lib env1 n "show_int i"] assms(11-15) v(2) by (auto split: if_splits)
  obtain res msgs where "set_values lib env1 act [(n, JNum (of_int i))] ?st0 [] = (?st0\<lparr>indicator := m1\<rparr>, res, msgs)"
  proof -
    have "fst (set_value lib env1 act n (JNum (of_int i)) ?st0 []) = ?st0\<lparr>indicator := m1\<rparr>"
      using m1(1) by (simp add: set_value_def v(1) Let_def case_prod_beta)
    then show ?thesis using that by (cases "set_value lib env1 act n (JNum (of_int i)) ?st0 []") simp
  qed
  from indicator_set[OF assms(1, 3, 5, 7, 8, 9) this] obtain outs where
    "bsp_handle_json lib env1 p1 st = (forget (?st0\<lparr>indicator := m1\<rparr>), outs)" by blast
  moreover define S where "S = forget (?st0\<lparr>indicator := m1\<rparr>)"
  ultimately have S: "fst (bsp_handle_json lib env1 p1 st) = S" by simp
  have c: "s_clamped (indicator S)" "s_clamp_msg (indicator S) = take 127 (n @ '' clamped to '' @ show_int hi)"
    using m1(2, 3) by (simp_all add: S_def forget_def)
  show ?thesis
    unfolding S indicator_get[OF assms(2, 4, 6, 7, 8, 10)] snd_conv c(2) using c(1) by auto
qed

theorem limit_warning_repeated_witness:
  "\<exists>lib vals. snd (bsp_handle_json lib demo_env [2] (fst (bsp_handle_json lib demo_env [1] demo_st))) =
    [Reply (with_mid ''ack'' (JObj [(''act'', JStr ''Batcher''), (''get'', JObj vals),
      warn_obj ''warn'' ''SampleRate clamped to 16'']) 6)]"
proof -
  define lib where "lib = demo_ble (\<lambda>s. if s = [CHR 0x01] then Some (set_doc ''Batcher'' [(''SampleRate'', JNum (of_int 99))] 5)
      else Some (get_doc ''Batcher'' [''Speed''] 6))"
  have "map_of set_flat1 ''SampleRate'' = Some (S_U8_CLAMP ''sample_rate'' 1 16)" by (simp add: set_flat1_def)
  then have l: "lookup set_ctx set_flat ''Batcher'' ''SampleRate'' = Some (S_U8_CLAMP ''sample_rate'' 1 16)"
    by (simp add: lookup_def set_ctx_def set_ctx2_def set_ctx3_def set_ctx4_def set_flat_def map_add_find_right)
  have r: "record_text [1] = [CHR 0x01]" "record_text [2] = [CHR 0x02]" "show_int 16 = ''16''" by code_simp+
  have p: "json_parse lib (record_text [1]) = Some (set_doc ''Batcher'' [(''SampleRate'', JNum (of_int 99))] 5)"
    "json_parse lib (record_text [2]) = Some (get_doc ''Batcher'' [''Speed''] 6)"
    by (simp_all add: r lib_def demo_ble_def)
  have "\<exists>vals. snd (bsp_handle_json lib demo_env [2] (fst (bsp_handle_json lib demo_env [1] demo_st))) =
    [Reply (with_mid ''ack'' (JObj [(''act'', JStr ''Batcher''), (''get'', JObj vals),
      warn_obj ''warn'' (take 127 (''SampleRate'' @ '' clamped to '' @ show_int 16))]) 6)]"
    by (rule limit_warning_repeated[OF p _ _ _ _ _ _ _ _ l, unfolded small_ids])
      (simp_all add: demo_env_def demo_laws lib_def is_m225_sub_actor_def)
  then show ?thesis unfolding r(3) by auto
qed

section \<open>The context pointer after a command\<close>

definition menu_doc :: "string \<Rightarrow> int \<Rightarrow> json" where
  "menu_doc name mid = JObj [(''cmd'', JObj [(''act'', JStr ''MENU''), (name, JObj [])]), (''mID'', JNum (of_int mid))]"

lemma build_item_none: "item_variables it \<noteq> [] \<Longrightarrow> build_item (\<lambda>n. None) it = None"
  by (induction it) (auto simp: item_builders)

lemma those_none: "x \<in> set xs \<Longrightarrow> f x = None \<Longrightarrow> those (map f xs) = None"
  by (induction xs) (auto split: option.splits)

lemma same_indicator: "st\<lparr>indicator := indicator st\<rparr> = st"
  by (cases st) simp

lemma run_menu_dangling:
  assumes "menu_ctx mn = None" "menu_getter mn = M225_getter" "listed item_variables mn \<noteq> []" "ctx_value m = None"
  shows "run_menu lib peer m p mn = (m, None)"
proof -
  obtain it where it: "it \<in> set (menu_items mn)" "item_variables it \<noteq> []"
    using assms(3) by (auto simp: listed_def)
  have g: "getter_value lib peer m p M225_getter = (\<lambda>n. None)"
    using assms(4) by (auto simp: getter_value_def m225_actor_get_def)
  have "those (map (\<lambda>it. map_option JObj (build_item (\<lambda>n. None) it)) (menu_items mn)) = None"
    using build_item_none[OF it(2)] by (intro those_none[OF it(1)]) simp
  then show ?thesis using assms(1, 2) by (simp add: run_menu_def g)
qed

text \<open>a get or set command to the indicator leaves the context pointing into the text of the command, which is then freed: when
  the next command asks for a menu that sets no context of its own, building it reads through the dangling pointer.\<close>

theorem menu_after_command_dangles:
  assumes "json_parse lib (record_text p1) = Some (get_doc act ns k1)"
    and "json_parse lib (record_text p2) = Some (menu_doc name k2)"
    and "p1 \<noteq> []" "p2 \<noteq> []" "alloc_ok env1" "alloc_ok env2" "prints_all lib" "looks_up lib" "is_m225_sub_actor act"
    and "menu_dispatch name = Some mn" "menu_ctx mn = None" "menu_getter mn = M225_getter" "listed item_variables mn \<noteq> []"
    and "\<not> same_name name ''get''" "\<not> same_name name ''set''" "name \<noteq> ''act''"
  shows "snd (bsp_handle_json lib env2 p2 (fst (bsp_handle_json lib env1 p1 st))) = [Dangling]"
proof -
  let ?cmd = "JObj [(''act'', JStr ''MENU''), (name, JObj [])]"
  let ?st = "forget (set_command_ctx act st)"
  have st: "fst (bsp_handle_json lib env1 p1 st) = ?st"
    using indicator_get[OF assms(1, 3, 5, 7, 8, 9)] by simp
  have dang: "ctx_value (indicator ?st) = None"
    by (simp add: forget_def set_command_ctx_def m225_set_menu_ctx_def ctx_value_def)
  have items: "json_item lib (menu_doc name k2) ''mID'' = Some (JNum (of_int k2))" "json_item lib (menu_doc name k2) ''cmd'' = Some ?cmd"
    "json_item lib ?cmd ''act'' = Some (JStr ''MENU'')" "json_item lib ?cmd ''get'' = None" "json_item lib ?cmd ''set'' = None"
    using assms(8, 14, 15) command_names by (simp_all add: looks_up_def menu_doc_def)
  have r: "actor_route ''MENU'' = Unknown" by (simp add: actor_route_def is_m225_sub_actor_def)
  have gs: "phase_getset lib env2 ''MENU'' ?cmd (id32 k2) ?st = (?st, [], False)"
    by (simp add: phase_getset_def items r Let_def)
  have "run_menu (floats lib) (\<lambda>a n p. snd (peer_get lib a n p)) (indicator ?st) (peers ?st) mn = (indicator ?st, None)"
    by (rule run_menu_dangling[OF assms(11-13) dang])
  then have "phase_menu lib ''MENU'' ?cmd (id32 k2) (?st, [], False) = (?st, [Dangling], True)"
    using assms(10, 16) by (simp add: phase_menu_def first_key_def same_indicator)
  then have "handle_cmd lib env2 ?cmd (id32 k2) ?st = (?st, [Dangling], True)"
    by (simp add: handle_cmd_def is_object_def items string_of_def gs phase_device_def phase_method_def phase_not_found_def)
  then show ?thesis
    unfolding st using assms(2, 4, 6) by (simp add: bsp_handle_json_def handle_root_def items number_of_def id32_def[symmetric])
qed

theorem menu_after_command_dangles_witness:
  "\<exists>lib. snd (bsp_handle_json lib demo_env [2] (fst (bsp_handle_json lib demo_env [1] demo_st))) = [Dangling]"
proof -
  define lib where "lib = demo_ble (\<lambda>s. if s = [CHR 0x01] then Some (get_doc ''Batcher'' [''Speed''] 5) else Some (menu_doc ''SendGross'' 6))"
  have r: "record_text [1] = [CHR 0x01]" "record_text [2] = [CHR 0x02]" by code_simp+
  have p: "json_parse lib (record_text [1]) = Some (get_doc ''Batcher'' [''Speed''] 5)"
    "json_parse lib (record_text [2]) = Some (menu_doc ''SendGross'' 6)"
    by (simp_all add: r lib_def demo_ble_def)
  have n: "\<not> same_name ''SendGross'' ''get''" "\<not> same_name ''SendGross'' ''set''" by code_simp+
  have m: "menu_dispatch ''SendGross'' = Some menu_send_gross" "menu_ctx menu_send_gross = None"
    "menu_getter menu_send_gross = M225_getter" "listed item_variables menu_send_gross \<noteq> []"
    by (simp_all add: menu_dispatch_def menu_table_def menu_send_gross_def listed_def)
  have "snd (bsp_handle_json lib demo_env [2] (fst (bsp_handle_json lib demo_env [1] demo_st))) = [Dangling]"
    by (rule menu_after_command_dangles[OF p _ _ _ _ _ _ _ m n])
      (simp_all add: demo_env_def demo_laws lib_def is_m225_sub_actor_def)
  then show ?thesis by blast
qed

section \<open>Speed test\<close>

lemma bench_records:
  "armed b \<Longrightarrow> foldl (\<lambda>b p. bsp_handle_bench p b) b ps =
    b\<lparr>rx_bytes := rx_bytes b + of_nat (length (concat ps)), bench_crc := crc32_buf (bench_crc b) (concat ps)\<rparr>"
proof (induction ps arbitrary: b)
  case (Cons p ps)
  show ?case
  proof (cases "p = []")
    case True
    then show ?thesis using Cons by (simp add: bsp_handle_bench_def)
  next
    case False
    then have "bsp_handle_bench p b = b\<lparr>rx_bytes := rx_bytes b + of_nat (length p), bench_crc := crc32_buf (bench_crc b) p\<rparr>"
      using Cons.prems by (simp add: bsp_handle_bench_def)
    then show ?thesis using Cons by (simp add: crc32_buf_append add.assoc)
  qed
qed simp

text \<open>the report of a speed test: after start and arm, records of data in whatever pieces, and end, it gives the number of bytes
  modulo 2 ^ 32 and the checksum of all of them, and crc_match compares only the number of bytes with the announced size, so
  that damaged data of the right length is reported as matching.\<close>

theorem speed_test_report:
  assumes "number_of (json_item lib cmd ''size'') = Some x"
  shows "snd (speed_test lib cmd2 ''end'' k2 (foldl (\<lambda>b p. bsp_handle_bench p b)
      (fst (speed_test lib cmd1 ''arm'' k1 (fst (speed_test lib cmd ''start'' k b)))) ps)) =
    Some (JObj [(''ack'', JBool True), (''rx_bytes'', JNum (of_nat (length (concat ps) mod 2 ^ 32))),
      (''crc_match'', JBool (let size = cast_uint32 x in size = 0 \<or> of_nat (length (concat ps)) = size)),
      (''crc32'', JNum (of_nat (unat (crc32_buf 0 (concat ps))))), (''mID'', JNum (of_int k2))])"
proof -
  let ?b = "fst (speed_test lib cmd1 ''arm'' k1 (fst (speed_test lib cmd ''start'' k b)))"
  have b: "armed ?b" "rx_bytes ?b = 0" "bench_crc ?b = 0" "expected_bytes ?b = cast_uint32 x"
    using assms by (simp_all add: speed_test_def Let_def)
  show ?thesis
    by (simp only: bench_records[OF b(1)] b(2, 3)) (simp add: speed_test_def b(4)[unfolded speed_test_def, simplified] assms Let_def unat_of_nat)
qed

theorem speed_test_report_witness:
  "snd (speed_test (demo_ble (\<lambda>s. None)) (JObj []) ''end'' 3 (foldl (\<lambda>b p. bsp_handle_bench p b)
      (fst (speed_test (demo_ble (\<lambda>s. None)) (JObj []) ''arm'' 2
        (fst (speed_test (demo_ble (\<lambda>s. None)) (JObj [(''size'', JNum 3)]) ''start'' 1 bench_idle)))) [[1, 2], [3]])) =
    Some (JObj [(''ack'', JBool True), (''rx_bytes'', JNum 3), (''crc_match'', JBool True),
      (''crc32'', JNum (of_nat (unat (crc32_buf 0 [1, 2, 3])))), (''mID'', JNum 3)])"
proof -
  have "json_item (demo_ble (\<lambda>s. None)) (JObj [(''size'', JNum 3)]) ''size'' = Some (JNum 3)"
    by (simp add: demo_ble_def item_of_def same_name_def)
  then have n: "number_of (json_item (demo_ble (\<lambda>s. None)) (JObj [(''size'', JNum 3)]) ''size'') = Some 3"
    by (simp add: number_of_def)
  show ?thesis
    using speed_test_report[OF n, of "JObj []" 3 "JObj []" 2 1 bench_idle "[[1, 2], [3]]"] by (simp add: cast_uint32_def trunc_def)
qed

section \<open>Firmware chunks\<close>

fun is_reply :: "ble_out \<Rightarrow> bool" where
  "is_reply (Reply j) = True" | "is_reply out = False"

fun is_ack :: "ota_out \<Rightarrow> bool" where
  "is_ack (Ota_ack seq err) = True" | "is_ack out = False"

lemma replies_of_chunk: "prints_all lib \<Longrightarrow> length (filter is_reply (ota_outs lib mid os)) = length (filter is_ack os)"
  by (induction os) (auto simp: ota_outs_def send_reply_def prints_all_def split: ota_out.split)

lemma acks_of_chunk: "length (filter is_ack (snd (ota_chunk env c u))) = (if complete_chunk c then 1 else 0)"
proof -
  obtain q t v where c: "c = (q, t, v)" by (cases c)
  show ?thesis
  proof (cases "complete_chunk c")
    case True
    have 1: "filter is_ack (fst (snd (ota_open env u))) = []" for u
      by (simp add: ota_open_def Let_def)
    have 2: "filter is_ack (fst (snd (ota_accept env seq d u))) = []" for seq d u
      by (simp add: ota_accept_def split: option.split)
    show ?thesis using True unfolding c
      by (auto simp: complete_chunk_def ota_chunk_def Let_def case_prod_beta 1 2)
  next
    case False
    then show ?thesis unfolding c by (auto simp: complete_chunk_def ota_chunk_def split: option.split)
  qed
qed

text \<open>a chunk of a firmware update is answered by exactly one record when it has its three fields, but when it lacks one, or
  has one of the wrong type, it is not answered at all, although the code means to acknowledge every chunk.\<close>

theorem chunk_answered_if_complete:
  assumes "json_parse lib (record_text payload) = Some doc" "payload \<noteq> []" "alloc_ok env" "prints_all lib"
    and "json_item lib doc ''cmd'' = Some cmd" "is_object cmd"
    and "json_item lib cmd ''act'' = Some (JStr ''OTA'')" "json_item lib cmd ''get'' = None" "json_item lib cmd ''set'' = None"
    and "json_item lib cmd ''Chunk'' = Some chunk"
  shows "length (filter is_reply (snd (bsp_handle_json lib env payload st))) = (if complete_chunk (ota_fields lib chunk) then 1 else 0)"
proof -
  have r: "actor_route ''OTA'' = Unknown" by (simp add: actor_route_def is_m225_sub_actor_def)
  let ?os = "snd (ota_chunk (ota_results env) (ota_fields lib chunk) (ota st))"
  have "snd (handle_cmd lib env cmd mid st) = (ota_outs lib mid ?os, True)" for mid
    using assms(6-10) by (simp add: handle_cmd_def string_of_def phase_getset_def r Let_def phase_menu_def phase_device_def
        case_prod_beta phase_method_def phase_not_found_def)
  then obtain st1 mid where h: "handle_cmd lib env cmd (case number_of (json_item lib doc ''mID'') of None \<Rightarrow> 0 | Some x \<Rightarrow> cast_int x) st =
      (st1, ota_outs lib mid ?os, True)"
    by (metis prod.collapse)
  show ?thesis
    using assms(1-3, 5) replies_of_chunk[OF assms(4), of mid ?os] acks_of_chunk[of "ota_results env" "ota_fields lib chunk" "ota st"]
    by (simp add: bsp_handle_json_def handle_root_def h)
qed

theorem chunk_answered_if_complete_witness:
  "filter is_reply (snd (bsp_handle_json (demo_ble (\<lambda>s. Some (JObj [(''cmd'', JObj [(''act'', JStr ''OTA''),
      (''Chunk'', JObj [(''seq'', JNum 0), (''total'', JNum 2)])]), (''mID'', JNum 9)]))) demo_env [1] demo_st)) = []"
proof -
  let ?chunk = "JObj [(''seq'', JNum 0), (''total'', JNum 2)]"
  let ?cmd = "JObj [(''act'', JStr ''OTA''), (''Chunk'', ?chunk)]"
  let ?doc = "JObj [(''cmd'', ?cmd), (''mID'', JNum 9)]"
  let ?lib = "demo_ble (\<lambda>s. Some ?doc)"
  have "item_of ?doc ''cmd'' = Some ?cmd" "item_of ?cmd ''act'' = Some (JStr ''OTA'')" "item_of ?cmd ''get'' = None"
    "item_of ?cmd ''set'' = None" "item_of ?cmd ''Chunk'' = Some ?chunk" "item_of ?chunk ''data'' = None"
    by code_simp+
  then show ?thesis
    using chunk_answered_if_complete[of ?lib "[1]" ?doc demo_env ?cmd ?chunk demo_st] demo_laws(2)
    by (simp add: demo_ble_def demo_env_def is_object_def ota_fields_def string_of_def complete_chunk_def)
qed

end
