(* ===== verification/Schedule_Load.thy ===== *)
theory Schedule_Load
  imports Scheduler Json_Data
begin

text \<open>
  Loading the schedule table from the database (Update_Schedule_Table of main/EVENT_Actor.c), the forwarding of the database's
  replies to the queue it reads (receive_response), and the commands that use the table.  The task asks for the size of
  the file, for the least and greatest row number, and for batches of 64 rows; the replies come through one queue.  What the
  database, the file system and the JSON library answer are arguments.
\<close>

section \<open>The code\<close>

datatype query = File_size | Min_max | Rows int int

text \<open>What the task finds in its queue: a text that is parsed (None when it is not JSON), or nothing before the timeout.\<close>

datatype arrival = Late | Msg "json option"

record loader =
  sch_table :: "sched list"
  sch_queue :: "arrival list"
  sch_said :: "string list"

datatype load_end = Loaded | Gave_up | Overflow

definition MAX_EVENT_ORDER :: nat where "MAX_EVENT_ORDER = 400"
definition batch_size :: int where "batch_size = 64"

definition receive :: "loader \<Rightarrow> json option option \<times> loader" where
  "receive l = (case sch_queue l of [] \<Rightarrow> (None, l) | Late # q \<Rightarrow> (None, l\<lparr>sch_queue := q\<rparr>) | Msg m # q \<Rightarrow> (Some m, l\<lparr>sch_queue := q\<rparr>))"

definition ask :: "(query \<Rightarrow> arrival list) \<Rightarrow> query \<Rightarrow> loader \<Rightarrow> loader" where
  "ask answer q l = l\<lparr>sch_queue := sch_queue l @ answer q\<rparr>"

definition say :: "string \<Rightarrow> loader \<Rightarrow> loader" where "say t l = l\<lparr>sch_said := sch_said l @ [t]\<rparr>"

text \<open>The letters of the weekdays, Monday first, as the bits that the scheduler tests.\<close>

definition weekday_bit :: "char \<Rightarrow> int" where
  "weekday_bit c = (if c = CHR ''M'' then 64 else if c = CHR ''T'' then 32 else if c = CHR ''W'' then 16
     else if c = CHR ''R'' then 8 else if c = CHR ''F'' then 4 else if c = CHR ''A'' then 2 else if c = CHR ''S'' then 1 else 0)"

definition weekdays_of :: "string \<Rightarrow> int" where
  "weekdays_of s = fold (\<lambda>c w. w OR weekday_bit c) (rev s) 0"

definition schedule_fields :: "(string \<times> (string \<Rightarrow> sched \<Rightarrow> sched)) list" where
  "schedule_fields =
    [(''EventId'', \<lambda>s. EventId_update (\<lambda>_. wrap_u 32 (strtol s))),
     (''ScriptId'', \<lambda>s. ScriptID_update (\<lambda>_. wrap_u 16 (strtol s))),
     (''DateType'', \<lambda>s. Date_Range_Type_update (\<lambda>_. wrap_u 8 (strtol s))),
     (''StartMonth'', \<lambda>s. Start_month_update (\<lambda>_. wrap_u 8 (strtol s))),
     (''StartDay'', \<lambda>s. Start_day_update (\<lambda>_. wrap_s 8 (strtol s))),
     (''EndMonth'', \<lambda>s. End_month_update (\<lambda>_. wrap_u 8 (strtol s))),
     (''EndDay'', \<lambda>s. End_day_update (\<lambda>_. wrap_s 8 (strtol s))),
     (''WeekDays'', \<lambda>s. WeekDays_update (\<lambda>_. weekdays_of s)),
     (''TimeType'', \<lambda>s. Time_type_update (\<lambda>_. wrap_u 8 (strtol s))),
     (''HolidayStartIndex'', \<lambda>s. HolidayStartIndex_update (\<lambda>_. wrap_u 8 (strtol s))),
     (''HolidayStartOffset'', \<lambda>s. HolidayStartOffset_update (\<lambda>_. wrap_s 8 (strtol s))),
     (''HolidayEndIndex'', \<lambda>s. HolidayEndIndex_update (\<lambda>_. wrap_u 8 (strtol s))),
     (''HolidayEndOffset'', \<lambda>s. HolidayEndOffset_update (\<lambda>_. wrap_s 8 (strtol s))),
     (''OffsetMinutes'', \<lambda>s. OffsetMinutes_update (\<lambda>_. wrap_s 8 (strtol s))),
     (''Hour'', \<lambda>s. Hour_update (\<lambda>_. wrap_u 8 (strtol s))),
     (''Minute'', \<lambda>s. Minute_update (\<lambda>_. wrap_s 16 (strtol s))),
     (''SortOrder'', \<lambda>s. SortOrder_update (\<lambda>_. wrap_u 8 (strtol s))),
     (''OverrideSport'', \<lambda>s. OverrideSport_update (\<lambda>_. wrap_u 8 (strtol s))),
     (''RampTime'', \<lambda>s. RampTime_update (\<lambda>_. wrap_u 32 (strtol s))),
     (''Duration'', \<lambda>s. Duration_update (\<lambda>_. wrap_u 32 (strtol s)))]"

text \<open>The members that the row gives are written; a row that gives none writes nothing.\<close>

definition write_row :: "item \<Rightarrow> json \<Rightarrow> sched \<Rightarrow> sched" where
  "write_row item row e = foldl (\<lambda>e (nm, f). case string_of (item row nm) of None \<Rightarrow> e | Some s \<Rightarrow> f s e) e schedule_fields"

definition gives_field :: "item \<Rightarrow> json \<Rightarrow> bool" where
  "gives_field item row = list_ex (\<lambda>(nm, f). string_of (item row nm) \<noteq> None) schedule_fields"

text \<open>An index outside the table is an overflow of the array.\<close>

definition store_row :: "item \<Rightarrow> json \<Rightarrow> int \<Rightarrow> loader \<Rightarrow> loader option" where
  "store_row item row i l = (if \<not> gives_field item row then Some l
     else if 0 \<le> i \<and> i < int (length (sch_table l)) then
       Some (l\<lparr>sch_table := (sch_table l)[nat i := write_row item row (sch_table l ! nat i)]\<rparr>)
     else None)"

text \<open>The rows of one batch.\<close>

fun fetch :: "item \<Rightarrow> nat \<Rightarrow> int \<Rightarrow> int \<Rightarrow> loader \<Rightarrow> load_end \<times> loader" where
  "fetch item 0 Start_Record records_processed l = (Loaded, l)"
| "fetch item (Suc k) Start_Record records_processed l =
    (case receive l of
       (None, l1) \<Rightarrow> (Gave_up, l1)
     | (Some None, l1) \<Rightarrow> (Gave_up, say ''Invalid Json input'' l1)
     | (Some (Some row), l1) \<Rightarrow>
         (case store_row item row (Start_Record + records_processed - 1) l1 of None \<Rightarrow> (Overflow, l1)
          | Some l2 \<Rightarrow> fetch item k Start_Record (records_processed + 1) l2))"

definition records_to_fetch :: "int \<Rightarrow> int \<Rightarrow> int" where
  "records_to_fetch Start_Record End_Record = (if Start_Record + batch_size - 1 \<le> End_Record then batch_size else End_Record - Start_Record + 1)"

text \<open>The batches; a row number near the end of the 32-bit range overflows the test for a full batch.\<close>

function load_batches :: "item \<Rightarrow> (query \<Rightarrow> arrival list) \<Rightarrow> int \<Rightarrow> int \<Rightarrow> loader \<Rightarrow> load_end \<times> loader" where
  "load_batches item answer Start_Record End_Record l =
    (if End_Record < Start_Record then (Loaded, l)
     else if 2147483647 < Start_Record + batch_size then (Overflow, l)
     else (let n = records_to_fetch Start_Record End_Record in
       case fetch item (nat n) Start_Record 0 (ask answer (Rows Start_Record n) l) of
         (Loaded, l1) \<Rightarrow> load_batches item answer (Start_Record + n) End_Record l1
       | r \<Rightarrow> r))"
  by pat_completeness auto
termination
  by (relation "measure (\<lambda>(item, answer, Start_Record, End_Record, l). nat (End_Record - Start_Record + 1))")
    (auto simp: records_to_fetch_def batch_size_def)

declare load_batches.simps [simp del]

text \<open>Three receptions may fail before the task gives up; the size must be a number, the row numbers are read where they are texts.\<close>

fun wait_size :: "item \<Rightarrow> nat \<Rightarrow> loader \<Rightarrow> int option \<times> loader" where
  "wait_size item 0 l = (None, say ''Failed to get file size after 3 retries'' l)"
| "wait_size item (Suc k) l = (case receive l of
     (None, l1) \<Rightarrow> wait_size item k l1
   | (Some None, l1) \<Rightarrow> (None, say ''Invalid Json input'' l1)
   | (Some (Some j), l1) \<Rightarrow> (case number_of (item j ''FILE_SIZE'') of Some x \<Rightarrow> (Some (value_int x), l1) | None \<Rightarrow> wait_size item k l1))"

fun wait_min_max :: "item \<Rightarrow> nat \<Rightarrow> loader \<Rightarrow> (int \<times> int) option \<times> loader" where
  "wait_min_max item 0 l = (None, say ''Failed to get min/max record IDs after 3 retries'' l)"
| "wait_min_max item (Suc k) l = (case receive l of
     (None, l1) \<Rightarrow> wait_min_max item k l1
   | (Some None, l1) \<Rightarrow> (None, say ''Invalid Json input'' l1)
   | (Some (Some j), l1) \<Rightarrow> (let n = (\<lambda>nm. case string_of (item j nm) of Some s \<Rightarrow> strtol s | None \<Rightarrow> 0) in
       (Some (n ''SCH_MIN_ID'', n ''SCH_MAX_ID''), l1)))"

definition empty_table :: "sched list" where "empty_table = replicate MAX_EVENT_ORDER sched_zero"

definition Update_Schedule_Table :: "item \<Rightarrow> (query \<Rightarrow> arrival list) \<Rightarrow> bool \<Rightarrow> loader \<Rightarrow> load_end \<times> loader" where
  "Update_Schedule_Table item answer Event_Execution_Flag l =
    (if \<not> Event_Execution_Flag then (Gave_up, l)
     else case wait_size item 3 (ask answer File_size l) of
       (None, l1) \<Rightarrow> (Gave_up, l1)
     | (Some file_size, l1) \<Rightarrow>
        if file_size \<le> 0 then (Gave_up, l1)
        else (case wait_min_max item 3 (ask answer Min_max l1) of
           (None, l2) \<Rightarrow> (Gave_up, l2)
         | (Some (Start_Record, End_Record), l2) \<Rightarrow>
             load_batches item answer Start_Record End_Record (l2\<lparr>sch_table := empty_table\<rparr>)))"


section \<open>The types of the members\<close>

text \<open>What the struct's types promise of an entry.\<close>

definition sched_typed :: "sched \<Rightarrow> bool" where
  "sched_typed e \<longleftrightarrow>
     list_all (\<lambda>(x, w). 0 \<le> x \<and> x < (2::int) ^ w)
       [(EventId e, 32), (ScriptID e, 16), (Date_Range_Type e, 8), (Start_month e, 8), (End_month e, 8), (WeekDays e, 7),
        (Time_type e, 8), (HolidayStartIndex e, 8), (HolidayEndIndex e, 8), (Hour e, 8), (SortOrder e, 8),
        (OverrideSport e, 8), (RampTime e, 32), (Duration e, 32)] \<and>
     list_all (\<lambda>(x, w). - ((2::int) ^ w) \<le> x \<and> x < 2 ^ w)
       [(Start_day e, 7), (End_day e, 7), (HolidayStartOffset e, 7), (HolidayEndOffset e, 7), (OffsetMinutes e, 7), (Minute e, 15)]"

lemma weekdays_fold: "0 \<le> w \<Longrightarrow> 0 \<le> fold (\<lambda>c w. w OR weekday_bit c) s w"
  by (induction s arbitrary: w) (auto simp: weekday_bit_def)

lemma weekday_bits: "bit (weekday_bit c) n \<longleftrightarrow> n < 7 \<and> c = ''SAFRWTM'' ! n"
proof -
  have p: "bit (2 ^ k :: int) n \<longleftrightarrow> n = k" for k n by (auto simp: bit_simps)
  have u: "weekday_bit c = (if c = CHR ''M'' then 2 ^ 6 else if c = CHR ''T'' then 2 ^ 5 else if c = CHR ''W'' then 2 ^ 4
     else if c = CHR ''R'' then 2 ^ 3 else if c = CHR ''F'' then 2 ^ 2 else if c = CHR ''A'' then 2 ^ 1
     else if c = CHR ''S'' then 2 ^ 0 else 0)" by (simp add: weekday_bit_def)
  show ?thesis
  proof (cases "n < 7")
    case True
    then have "n = 0 \<or> n = 1 \<or> n = 2 \<or> n = 3 \<or> n = 4 \<or> n = 5 \<or> n = 6" by auto
    then show ?thesis unfolding u if_distrib[of "\<lambda>x. bit x n"] p by (elim disjE) simp_all
  next
    case False
    then show ?thesis unfolding u if_distrib[of "\<lambda>x. bit x n"] p by auto
  qed
qed

lemma weekdays_fold_bits:
  "bit (fold (\<lambda>c w. w OR weekday_bit c) s w) n \<longleftrightarrow> bit w n \<or> n < 7 \<and> ''SAFRWTM'' ! n \<in> set s"
  by (induction s arbitrary: w) (auto simp: bit_or_iff weekday_bits)

lemma weekdays_bit: "bit (weekdays_of s) n \<longleftrightarrow> n < 7 \<and> ''SAFRWTM'' ! n \<in> set s"
  by (simp add: weekdays_of_def weekdays_fold_bits)

lemma weekdays_range: "0 \<le> weekdays_of s \<and> weekdays_of s < 2 ^ 7"
proof -
  have "take_bit 7 (weekdays_of s) = weekdays_of s" by (rule bit_eqI) (auto simp: bit_take_bit_iff weekdays_bit)
  then show ?thesis by (metis take_bit_nonnegative take_bit_int_less_exp)
qed

text \<open>The scheduler tests the bit 7 - w for the weekday w, 1 for Monday.\<close>

lemma weekday_test:
  assumes "1 \<le> w" "w \<le> 7"
  shows "drop_bit w 0x80 AND weekdays_of s \<noteq> 0 \<longleftrightarrow> ''MTWRFAS'' ! (w - 1) \<in> set s"
proof -
  have w: "w = 1 \<or> w = 2 \<or> w = 3 \<or> w = 4 \<or> w = 5 \<or> w = 6 \<or> w = 7" using assms by auto
  have p: "drop_bit w (0x80 :: int) = 2 ^ (7 - w)" using w by (auto simp: drop_bit_eq_div)
  have "drop_bit w 0x80 AND weekdays_of s \<noteq> 0 \<longleftrightarrow> bit (weekdays_of s) (7 - w)"
    unfolding p by (simp add: and_exp_eq_0_iff_not_bit and.commute)
  then show ?thesis using w by (auto simp: weekdays_bit)
qed


lemma sched_typed_zero: "sched_typed sched_zero"
  by (simp add: sched_typed_def sched_zero_def)

lemma member_ranges [simp]:
  "0 \<le> wrap_u w x" "wrap_u 8 x < 256" "wrap_u 16 x < 65536" "wrap_u 32 x < 4294967296"
  "- 128 \<le> wrap_s 8 x" "wrap_s 8 x < 128" "- 32768 \<le> wrap_s 16 x" "wrap_s 16 x < 32768"
  "0 \<le> weekdays_of s" "weekdays_of s < 128"
  using wrap_u_range[of 8 x] wrap_u_range[of 16 x] wrap_u_range[of 32 x] wrap_u_range[of w x] wrap_s_range[of 8 x]
    wrap_s_range[of 16 x] weekdays_range[of s] by simp_all

lemma sched_typed_fields: "list_all (\<lambda>(nm, f). \<forall>s e. sched_typed e \<longrightarrow> sched_typed (f s e)) schedule_fields"
  unfolding schedule_fields_def list.pred_inject prod.case
  by (intro conjI allI impI TrueI) (simp_all add: sched_typed_def)

lemma sched_typed_field: "(nm, f) \<in> set schedule_fields \<Longrightarrow> sched_typed e \<Longrightarrow> sched_typed (f s e)"
  using sched_typed_fields by (fastforce simp: list_all_iff)

lemma write_fields_typed:
  "set ps \<subseteq> set schedule_fields \<Longrightarrow> sched_typed e \<Longrightarrow>
   sched_typed (foldl (\<lambda>e (nm, f). case string_of (item row nm) of None \<Rightarrow> e | Some s \<Rightarrow> f s e) e ps)"
proof (induction ps arbitrary: e)
  case (Cons p ps)
  obtain nm f where p: "p = (nm, f)" by fastforce
  then have "sched_typed (f s e)" for s using sched_typed_field[of nm f e s] Cons.prems by simp
  then show ?case using Cons p by (cases "string_of (item row nm)") simp_all
qed simp

lemma write_row_typed: "sched_typed e \<Longrightarrow> sched_typed (write_row item row e)"
  unfolding write_row_def by (rule write_fields_typed) auto

section \<open>Invariants of the loading\<close>

text \<open>What the table satisfies is kept when rows satisfy it at every index that is written.\<close>

definition keeps :: "item \<Rightarrow> (sched list \<Rightarrow> bool) \<Rightarrow> int \<Rightarrow> bool" where
  "keeps item P i0 \<longleftrightarrow> (\<forall>row i tab. i0 \<le> i \<longrightarrow> P tab \<longrightarrow> 0 \<le> i \<longrightarrow> i < int (length tab) \<longrightarrow>
     P (tab[nat i := write_row item row (tab ! nat i)]))"

lemma receive_table: "receive l = (m, l') \<Longrightarrow> sch_table l' = sch_table l"
  by (auto simp: receive_def split: list.splits arrival.splits)

lemma store_row_keeps:
  "keeps item P i0 \<Longrightarrow> i0 \<le> i \<Longrightarrow> P (sch_table l) \<Longrightarrow> store_row item row i l = Some l' \<Longrightarrow> P (sch_table l')"
  by (auto simp: store_row_def keeps_def split: if_splits)

lemma fetch_keeps:
  "keeps item P i0 \<Longrightarrow> i0 \<le> start + p - 1 \<Longrightarrow> P (sch_table l) \<Longrightarrow> fetch item k start p l = (r, l') \<Longrightarrow> P (sch_table l')"
proof (induction k arbitrary: p l)
  case (Suc k)
  obtain m l1 where r: "receive l = (m, l1)" by fastforce
  then have t: "P (sch_table l1)" using Suc.prems(3) receive_table by metis
  show ?case
  proof (cases "\<exists>row l2. m = Some (Some row) \<and> store_row item row (start + p - 1) l1 = Some l2")
    case True
    then obtain row l2 where m: "m = Some (Some row)" and s: "store_row item row (start + p - 1) l1 = Some l2" by blast
    have "P (sch_table l2)" using store_row_keeps[OF Suc.prems(1,2) t s] .
    then show ?thesis using Suc.IH[of "p + 1" l2] Suc.prems r m s by simp
  next
    case False
    then show ?thesis using Suc.prems(4) r t by (auto simp: say_def split: option.splits)
  qed
qed simp

lemma load_batches_keeps:
  "keeps item P i0 \<Longrightarrow> i0 \<le> start - 1 \<Longrightarrow> P (sch_table l) \<Longrightarrow> load_batches item answer start fin l = (r, l') \<Longrightarrow> P (sch_table l')"
proof (induction item answer start fin l rule: load_batches.induct)
  case (1 item answer start fin l)
  let ?n = "records_to_fetch start fin"
  obtain r1 l1 where f: "fetch item (nat ?n) start 0 (ask answer (Rows start ?n) l) = (r1, l1)" by fastforce
  show ?case
  proof (cases "fin < start \<or> 2147483647 < start + batch_size")
    case True
    then show ?thesis using 1(4,5) by (subst (asm) load_batches.simps) (auto split: if_splits)
  next
    case False
    have a: "sch_table (ask answer (Rows start ?n) l) = sch_table l" by (simp add: ask_def)
    have p: "P (sch_table l1)" using fetch_keeps[OF 1(2) _ _ f] 1(3,4) a by simp
    have n: "0 \<le> ?n" using False by (auto simp: records_to_fetch_def batch_size_def)
    show ?thesis
    proof (cases r1)
      case Loaded
      then have "load_batches item answer (start + ?n) fin l1 = (r, l')"
        using 1(5) False f by (subst (asm) load_batches.simps) simp
      then show ?thesis using 1(1)[OF _ _ refl f[symmetric] Loaded] False 1(2,3) p n by auto
    qed (use 1(5) False f p in \<open>subst (asm) load_batches.simps, auto\<close>)+
  qed
qed


section \<open>What is loaded\<close>

text \<open>The entry a row stands for.\<close>

definition row_entry :: "item \<Rightarrow> json \<Rightarrow> sched" where "row_entry item row = write_row item row sched_zero"

definition deliver :: "json list \<Rightarrow> arrival list" where "deliver = map (Msg \<circ> Some)"

lemma write_row_none: "\<not> gives_field item row \<Longrightarrow> write_row item row e = e"
proof -
  have "\<not> list_ex (\<lambda>(nm, f). string_of (item row nm) \<noteq> None) ps \<Longrightarrow>
    foldl (\<lambda>e (nm, f). case string_of (item row nm) of None \<Rightarrow> e | Some s \<Rightarrow> f s e) e ps = e" for ps
    by (induction ps arbitrary: e) auto
  then show "\<not> gives_field item row \<Longrightarrow> ?thesis" by (simp add: write_row_def gives_field_def)
qed

text \<open>A store within the table writes the row's members over the entry, whether the row has any or not.\<close>

lemma store_row_in:
  "0 \<le> i \<Longrightarrow> i < int (length (sch_table l)) \<Longrightarrow>
   store_row item row i l = Some (l\<lparr>sch_table := (sch_table l)[nat i := write_row item row (sch_table l ! nat i)]\<rparr>)"
  by (simp add: store_row_def write_row_none)

text \<open>A batch that is delivered fills the next entries.\<close>

lemma fetch_rows:
  "sch_queue l = deliver rows @ q \<Longrightarrow> sch_table l = pre @ replicate (length rows + k) sched_zero \<Longrightarrow>
   start + p - 1 = int (length pre) \<Longrightarrow>
   fetch item (length rows) start p l =
     (Loaded, l\<lparr>sch_queue := q, sch_table := pre @ map (row_entry item) rows @ replicate k sched_zero\<rparr>)"
proof (induction rows arbitrary: l pre p)
  case Nil
  then show ?case by (cases l) (simp add: deliver_def)
next
  case (Cons row rows)
  let ?l1 = "l\<lparr>sch_queue := deliver rows @ q\<rparr>"
  let ?l2 = "?l1\<lparr>sch_table := (pre @ [row_entry item row]) @ replicate (length rows + k) sched_zero\<rparr>"
  have r: "receive l = (Some (Some row), ?l1)" using Cons.prems(1) by (simp add: receive_def deliver_def)
  have "store_row item row (start + p - 1) ?l1 = Some ?l2"
    using Cons.prems(2,3) by (subst store_row_in) (simp_all add: nth_append row_entry_def)
  then show ?case using Cons.IH[of ?l2 "pre @ [row_entry item row]" "p + 1"] Cons.prems(3) r by simp
qed

text \<open>Batches that deliver consecutive stretches of a list of rows append the list to the table.\<close>

lemma load_stretches:
  assumes "\<And>s n. start \<le> s \<Longrightarrow> s \<le> fin \<Longrightarrow> answer (Rows s n) = deliver (take (nat n) (drop (nat (s - start)) rows))"
    and "start \<le> s" "s \<le> fin + 1" "fin \<le> 400" "int (length rows) = fin + 1 - start" "int (length pre) = start - 1"
    and "sch_queue l = []"
    and "sch_table l = pre @ map (row_entry item) (take (nat (s - start)) rows) @ replicate (nat (400 - s + 1)) sched_zero"
  shows "load_batches item answer s fin l =
    (Loaded, l\<lparr>sch_table := pre @ map (row_entry item) rows @ replicate (nat (400 - fin)) sched_zero\<rparr>)"
  using assms(2,3,7,8)
proof (induction "nat (fin - s + 1)" arbitrary: s l rule: less_induct)
  case less
  show ?case
  proof (cases "fin < s")
    case True
    then have "s = fin + 1" using less.prems by simp
    then show ?thesis using assms(5) less.prems by (subst load_batches.simps) (cases l, simp)
  next
    case False
    let ?n = "records_to_fetch s fin" and ?done = "take (nat (s - start)) rows"
    let ?rs = "take (nat ?n) (drop (nat (s - start)) rows)"
    let ?l1 = "l\<lparr>sch_table := (pre @ map (row_entry item) ?done) @ map (row_entry item) ?rs @
      replicate (nat (400 - (s + ?n) + 1)) sched_zero\<rparr>"
    have n: "0 < ?n" "s + ?n \<le> fin + 1" using False by (auto simp: records_to_fetch_def batch_size_def)
    have len: "length ?rs = nat ?n" "length ?done = nat (s - start)" using n less.prems(1) assms(5) by auto
    have st: "(s - start) + ?n = s + ?n - start" by simp
    have sp: "nat (400 - s + 1) = nat ?n + nat (400 - (s + ?n) + 1)" using n assms(4) by linarith
    have "fetch item (length ?rs) s 0 (ask answer (Rows s ?n) l) = (Loaded, ?l1)"
      using less.prems assms(1)[OF less.prems(1), of ?n] False assms(6) len sp
      by (subst fetch_rows[where q = "[]" and pre = "pre @ map (row_entry item) ?done"])
        (auto simp: ask_def)
    then have f: "fetch item (nat ?n) s 0 (ask answer (Rows s ?n) l) = (Loaded, ?l1)" using len by simp
    have t: "?done @ ?rs = take (nat (s + ?n - start)) rows"
      using n less.prems(1) by (simp add: take_add[symmetric] nat_add_distrib[symmetric] st)
    have "load_batches item answer s fin l = load_batches item answer (s + ?n) fin ?l1"
      using f False less.prems assms(4) by (subst load_batches.simps) (simp add: batch_size_def Let_def)
    also have "\<dots> = (Loaded, ?l1\<lparr>sch_table := pre @ map (row_entry item) rows @ replicate (nat (400 - fin)) sched_zero\<rparr>)"
      using less.prems n t[symmetric] by (intro less.hyps) (auto simp del: append_assoc simp: append_assoc[symmetric])
    finally show ?thesis by simp
  qed
qed


section \<open>The database\<close>

text \<open>Rows with their numbers, in the order of the numbers: what SELECT with a least number and a limit answers.\<close>

definition sql_rows :: "(int \<times> json) list \<Rightarrow> int \<Rightarrow> int \<Rightarrow> json list" where
  "sql_rows db s n = take (nat n) (map snd (filter (\<lambda>(i, r). s \<le> i) db))"

definition sql_answer :: "(int \<times> json) list \<Rightarrow> json \<Rightarrow> json \<Rightarrow> query \<Rightarrow> arrival list" where
  "sql_answer db sz mm q = (case q of File_size \<Rightarrow> [Msg (Some sz)] | Min_max \<Rightarrow> [Msg (Some mm)]
     | Rows s n \<Rightarrow> deliver (sql_rows db s n))"

text \<open>Replies that give a size and the least and greatest number.\<close>

definition replies :: "item \<Rightarrow> json \<Rightarrow> json \<Rightarrow> int \<Rightarrow> int \<Rightarrow> bool" where
  "replies item sz mm lo hi \<longleftrightarrow>
     (case number_of (item sz ''FILE_SIZE'') of Some x \<Rightarrow> 1 \<le> x | None \<Rightarrow> False) \<and>
     string_of (item mm ''SCH_MIN_ID'') = Some (show_int lo) \<and> string_of (item mm ''SCH_MAX_ID'') = Some (show_int hi)"

lemma load_start:
  assumes "sch_queue l = []" "answer File_size = [Msg (Some sz)]" "answer Min_max = [Msg (Some mm)]"
    and "replies item sz mm lo hi" "\<bar>lo\<bar> < 2 ^ 31" "\<bar>hi\<bar> < 2 ^ 31"
  shows "Update_Schedule_Table item answer True l = load_batches item answer lo hi (l\<lparr>sch_table := empty_table\<rparr>)"
proof -
  obtain x where x: "number_of (item sz ''FILE_SIZE'') = Some x" "1 \<le> x"
    using assms(4) by (auto simp: replies_def split: option.splits)
  have s: "wait_size item 3 (ask answer File_size l) = (Some (value_int x), l)"
    using assms(1,2) x(1) by (cases l) (simp add: numeral_3_eq_3 ask_def receive_def)
  have m: "wait_min_max item 3 (ask answer Min_max l) = (Some (lo, hi), l)"
    using assms by (cases l) (simp add: numeral_3_eq_3 ask_def receive_def replies_def strtol_show_int)
  show ?thesis using s m value_int_pos[OF x(2)] by (simp add: Update_Schedule_Table_def)
qed

lemma rows_from:
  "length rows = nat (b - a + 1) \<Longrightarrow> a \<le> s \<Longrightarrow> map snd (filter (\<lambda>(i, r). s \<le> i) (zip [a..b] rows)) = drop (nat (s - a)) rows"
proof (induction rows arbitrary: a)
  case (Cons r rows)
  have u: "[a..b] = a # [a + 1..b]" using Cons.prems(1) by (simp add: upto_rec1)
  have len: "length rows = nat (b - (a + 1) + 1)" using Cons.prems(1) by simp
  show ?case
  proof (cases "a = s")
    case True
    have "filter (\<lambda>(i, r). s \<le> i) (zip [a + 1..b] rows) = zip [a + 1..b] rows"
      using True by (auto simp: filter_id_conv dest: set_zip_leftD)
    then show ?thesis using True u len by simp
  next
    case False
    then have "nat (s - a) = Suc (nat (s - (a + 1)))" using Cons.prems(2) by simp
    then show ?thesis using False Cons.IH[OF len] Cons.prems(2) u by simp
  qed
qed simp


lemma sql_rows_from:
  "length rows = nat (b - a + 1) \<Longrightarrow> a \<le> s \<Longrightarrow>
   sql_rows (zip [a..b] rows) s n = take (nat n) (drop (nat (s - a)) rows)"
  by (simp add: sql_rows_def rows_from)

lemma schedule_loaded:
  assumes "sch_queue l = []" "1 \<le> length rows" "length rows \<le> 400" "replies item sz mm 1 (int (length rows))"
  shows "Update_Schedule_Table item (sql_answer (zip [1..int (length rows)] rows) sz mm) True l =
    (Loaded, l\<lparr>sch_table := map (row_entry item) rows @ replicate (400 - length rows) sched_zero\<rparr>)"
proof -
  let ?a = "sql_answer (zip [1..int (length rows)] rows) sz mm"
  have "Update_Schedule_Table item ?a True l = load_batches item ?a 1 (int (length rows)) (l\<lparr>sch_table := empty_table\<rparr>)"
    using assms by (intro load_start) (auto simp: sql_answer_def)
  also have "\<dots> = (Loaded, l\<lparr>sch_table := empty_table, sch_table := [] @ map (row_entry item) rows @
      replicate (nat (400 - int (length rows))) sched_zero\<rparr>)"
    using assms
    by (intro load_stretches[where start = 1]) (auto simp: sql_answer_def sql_rows_from empty_table_def MAX_EVENT_ORDER_def)
  also have "nat (400 - int (length rows)) = 400 - length rows" by simp
  finally show ?thesis by simp
qed

text \<open>A missing number up to the 64th: the second batch starts with the row the first one ended with.\<close>

lemma row_loaded_twice:
  assumes "sch_queue l = []" "1 < g" "g \<le> 64" "64 \<le> length rows" "length rows < 400"
    and "replies item sz mm 1 (int (length rows) + 1)"
  shows "Update_Schedule_Table item (sql_answer (zip ([1..g - 1] @ [g + 1..int (length rows) + 1]) rows) sz mm) True l =
    (Loaded, l\<lparr>sch_table := map (row_entry item) (take 64 rows @ drop 63 rows) @ replicate (399 - length rows) sched_zero\<rparr>)"
proof -
  let ?N = "int (length rows) + 1"
  define db where "db = zip ([1..g - 1] @ [g + 1..?N]) rows"
  let ?a = "sql_answer db sz mm" and ?l0 = "l\<lparr>sch_table := empty_table\<rparr>"
  let ?r1 = "take (nat (g - 1)) rows" and ?r2 = "drop (nat (g - 1)) rows"
  let ?l1 = "?l0\<lparr>sch_table := map (row_entry item) (take 64 rows) @ replicate 336 sched_zero\<rparr>"
  have split: "db = zip [1..g - 1] ?r1 @ zip [g + 1..?N] ?r2"
    using assms(2,3,4) by (simp add: db_def zip_append1)
  have l2: "length ?r2 = nat (?N - (g + 1) + 1)" using assms(2,3,4) by auto
  have r1: "filter (\<lambda>(i, r). s \<le> i) (zip [1..g - 1] ?r1) = []" if "g < s" for s
    using that by (auto simp: filter_empty_conv dest: set_zip_leftD)
  have late: "sql_rows db s n = take (nat n) (drop (nat (s - 65)) (drop 63 rows))" if "65 \<le> s" for s n
  proof -
    have "map snd (filter (\<lambda>(i, r). s \<le> i) db) = drop (nat (s - (g + 1))) ?r2"
      using that assms(3) r1[of s] rows_from[OF l2, of s] by (simp add: split)
    moreover have "nat (s - (g + 1)) + nat (g - 1) = nat (s - 65) + 63" using that assms(2,3) by linarith
    ultimately show ?thesis by (simp add: sql_rows_def add.commute)
  qed
  have "\<forall>x\<in>set db. (\<lambda>(i, r). 1 \<le> i) x" using assms(2) by (auto simp: split dest!: set_zip_leftD)
  then have "filter (\<lambda>(i, r). 1 \<le> i) db = db" by simp
  moreover have "map snd db = rows"
  proof -
    have "length [1..g - 1] = length ?r1" using assms(2,3,4) by auto
    moreover have "length [g + 1..?N] = length ?r2" using l2 by simp
    ultimately show ?thesis by (simp only: split map_append map_snd_zip append_take_drop_id)
  qed
  ultimately have first: "sql_rows db 1 64 = take 64 rows" by (simp add: sql_rows_def)
  have f: "fetch item 64 1 0 (ask ?a (Rows 1 64) ?l0) = (Loaded, ?l1)"
    using fetch_rows[of "ask ?a (Rows 1 64) ?l0" "take 64 rows" "[]" "[]" 336 1 0 item] assms(1,4)
    by (simp add: ask_def sql_answer_def first empty_table_def MAX_EVENT_ORDER_def)
  have "Update_Schedule_Table item ?a True l = load_batches item ?a 1 ?N ?l0"
    using assms by (intro load_start) (auto simp: sql_answer_def)
  also have "\<dots> = load_batches item ?a 65 ?N ?l1"
    using f assms(4) by (subst load_batches.simps) (simp add: records_to_fetch_def batch_size_def Let_def)
  also have "\<dots> = (Loaded, ?l1\<lparr>sch_table := map (row_entry item) (take 64 rows) @ map (row_entry item) (drop 63 rows) @
      replicate (nat (400 - ?N)) sched_zero\<rparr>)"
    using assms late by (intro load_stretches[where start = 65]) (auto simp: sql_answer_def)
  also have "nat (400 - ?N) = 399 - length rows" by simp
  finally show ?thesis by (simp add: db_def)
qed


section \<open>Every reply whatever\<close>

text \<open>Whatever arrives: when the least number is above 1, the first entry stays empty, and the scheduler, which stops at the
  first empty entry, has no event at all.\<close>

lemma keeps_first: "keeps item (\<lambda>tab. tab \<noteq> [] \<and> ScriptID (tab ! 0) = 0) 1"
  by (auto simp: keeps_def nth_list_update)

lemma load_batches_first:
  assumes "1 < lo" "sch_table l = empty_table"
  shows "table_len (sch_table (snd (load_batches item answer lo hi l))) = 0"
proof -
  obtain r l' where b: "load_batches item answer lo hi l = (r, l')" by fastforce
  have "sch_table l' \<noteq> [] \<and> ScriptID (sch_table l' ! 0) = 0"
    using assms by (intro load_batches_keeps[OF keeps_first _ _ b]) (auto simp: empty_table_def MAX_EVENT_ORDER_def sched_zero_def)
  then show ?thesis by (cases "sch_table l'") (simp_all add: b table_len_def)
qed

lemma no_entry_no_execution: "table_len (Schedule_table ev) = 0 \<Longrightarrow> scan_execute ev prio ts = []"
  by (simp add: scan_execute_def)

lemma scan_priority_none: "scan_priority sunset sunrise ev prio [] = (ev, prio, [])" by simp

lemma no_entry_no_output:
  assumes "table_len (Schedule_table ev) = 0"
  shows "Execute sc e sp t w \<notin> set (snd (Tasks_EventCheck_turn sunset sunrise now ev))"
proof -
  have sun: "Schedule_table (CalculateSunsetTime f ev') = Schedule_table ev'"
    "Schedule_table (CalculateSunriseTime f ev') = Schedule_table ev'" for f ev'
    by (simp_all add: CalculateSunsetTime_def CalculateSunriseTime_def)
  have set: "Schedule_table (fst (set_clock ev' ms)) = Schedule_table ev' \<and>
      Execute sc e sp t w \<notin> set (snd (set_clock ev' ms))" for ev' ms
    by (auto simp: set_clock_def dst_notice_def Let_def split: if_splits)
  have day: "Execute sc e sp t w \<notin> set (daily_actions ev')" for ev' by (auto simp: daily_actions_def Let_def)
  have min: "Execute sc e sp t w \<notin> set (snd (minute_work sunset sunrise ev'))"
    if "table_len (Schedule_table ev') = 0" for ev'
    using that by (auto simp: minute_work_def Let_def sun scan_execute_def)
  have warp: "Execute sc e sp t w \<notin> set (snd (warp_step ev'))" for ev' by (auto simp: warp_step_def Let_def)
  obtain ev1 o1 where c: "set_clock ev (if startEPOC ev = 0 then now else startEPOC ev) = (ev1, o1)" by fastforce
  obtain ev2 o3 where m: "(if second (UserDateTime ev1) < 6 \<and> \<not> executedThisMinute ev1
      then minute_work sunset sunrise ev1 else (ev1, [])) = (ev2, o3)" by fastforce
  let ?ev3 = "if second (UserDateTime ev2) > 5 then ev2\<lparr>executedThisMinute := False\<rparr> else ev2"
  obtain ev4 o4 where w: "warp_step ?ev3 = (ev4, o4)" by fastforce
  have 1: "table_len (Schedule_table ev1) = 0" "Execute sc e sp t w \<notin> set o1"
    using set[of ev "if startEPOC ev = 0 then now else startEPOC ev"] assms unfolding c by simp_all
  have 2: "Execute sc e sp t w \<notin> set o3" using min[OF 1(1)] m by (auto split: if_splits)
  have 3: "Execute sc e sp t w \<notin> set o4" using warp[of ?ev3] unfolding w by simp
  have "snd (Tasks_EventCheck_turn sunset sunrise now ev) = o1 @ daily_actions ev1 @ o3 @ o4"
    unfolding Tasks_EventCheck_turn_def Let_def c m w prod.case by simp
  then show ?thesis using 1 2 3 day[of ev1] by simp
qed

text \<open>The table has an entry for each of 400 rows; with a row that gives a field for the 401st, the task writes past it.\<close>

lemma fetch_past:
  "sch_queue l = deliver rows @ q \<Longrightarrow> list_all (gives_field item) rows \<Longrightarrow> 0 \<le> start + p - 1 \<Longrightarrow>
   int (length (sch_table l)) < start + p - 1 + int (length rows) \<Longrightarrow> start + p - 1 \<le> int (length (sch_table l)) \<Longrightarrow>
   fst (fetch item (length rows) start p l) = Overflow"
proof (induction rows arbitrary: l p)
  case (Cons row rows)
  let ?l1 = "l\<lparr>sch_queue := deliver rows @ q\<rparr>"
  have r: "receive l = (Some (Some row), ?l1)" using Cons.prems(1) by (simp add: receive_def deliver_def)
  show ?case
  proof (cases "start + p - 1 = int (length (sch_table l))")
    case True
    then show ?thesis using r Cons.prems(2) by (simp add: store_row_def)
  next
    case False
    let ?l2 = "?l1\<lparr>sch_table := (sch_table l)[nat (start + p - 1) := write_row item row (sch_table l ! nat (start + p - 1))]\<rparr>"
    have "store_row item row (start + p - 1) ?l1 = Some ?l2" using False Cons.prems(3,5) by (subst store_row_in) simp_all
    then show ?thesis using r Cons.IH[of ?l2 "p + 1"] False Cons.prems by simp
  qed
qed simp

lemma fetch_within:
  "sch_queue l = deliver rows @ q \<Longrightarrow> 0 \<le> start + p - 1 \<Longrightarrow> start + p - 1 + int (length rows) \<le> int (length (sch_table l)) \<Longrightarrow>
   \<exists>t. length t = length (sch_table l) \<and> fetch item (length rows) start p l = (Loaded, l\<lparr>sch_queue := q, sch_table := t\<rparr>)"
proof (induction rows arbitrary: l p)
  case Nil
  then show ?case by (intro exI[of _ "sch_table l"]) (cases l, simp add: deliver_def)
next
  case (Cons row rows)
  let ?l1 = "l\<lparr>sch_queue := deliver rows @ q\<rparr>"
  let ?l2 = "?l1\<lparr>sch_table := (sch_table l)[nat (start + p - 1) := write_row item row (sch_table l ! nat (start + p - 1))]\<rparr>"
  have r: "receive l = (Some (Some row), ?l1)" using Cons.prems(1) by (simp add: receive_def deliver_def)
  have "store_row item row (start + p - 1) ?l1 = Some ?l2" using Cons.prems(2,3) by (subst store_row_in) simp_all
  then show ?case using r Cons.IH[of ?l2 "p + 1"] Cons.prems(2,3) by simp
qed

lemma load_past:
  assumes "\<And>s n. 1 \<le> s \<Longrightarrow> answer (Rows s n) = deliver (take (nat n) (drop (nat (s - 1)) rows))"
    and "list_all (gives_field item) rows" "400 < length rows"
  shows "1 \<le> s \<Longrightarrow> s \<le> 401 \<Longrightarrow> length (sch_table l) = 400 \<Longrightarrow> sch_queue l = [] \<Longrightarrow>
    fst (load_batches item answer s (int (length rows)) l) = Overflow"
proof (induction "nat (401 - s)" arbitrary: s l rule: less_induct)
  case less
  let ?N = "int (length rows)"
  let ?n = "records_to_fetch s ?N"
  let ?rs = "take (nat ?n) (drop (nat (s - 1)) rows)"
  have N: "s \<le> ?N" using less.prems(2) assms(3) by linarith
  have n: "0 < ?n" "s + ?n \<le> ?N + 1" using N by (auto simp: records_to_fetch_def batch_size_def)
  have len: "length ?rs = nat ?n" using n less.prems(1) by auto
  have g: "list_all (gives_field item) ?rs" using assms(2) by (auto simp: list_all_iff dest: in_set_takeD in_set_dropD)
  have q: "sch_queue (ask answer (Rows s ?n) l) = deliver ?rs @ []" "sch_table (ask answer (Rows s ?n) l) = sch_table l"
    using assms(1)[OF less.prems(1)] less.prems(4) by (simp_all add: ask_def)
  have e: "load_batches item answer s ?N l = (case fetch item (length ?rs) s 0 (ask answer (Rows s ?n) l) of
      (Loaded, l1) \<Rightarrow> load_batches item answer (s + ?n) ?N l1 | r \<Rightarrow> r)"
    using N less.prems(2) len by (subst load_batches.simps) (simp add: batch_size_def Let_def)
  show ?case
  proof (cases "s + ?n \<le> 401")
    case True
    then obtain t where "length t = 400"
      "fetch item (length ?rs) s 0 (ask answer (Rows s ?n) l) = (Loaded, (ask answer (Rows s ?n) l)\<lparr>sch_queue := [], sch_table := t\<rparr>)"
      using fetch_within[OF q(1), of s 0 item] q(2) less.prems(1,3) len n by auto
    then show ?thesis using e less.hyps[of "s + ?n"] True n less.prems by simp
  next
    case False
    then have "fst (fetch item (length ?rs) s 0 (ask answer (Rows s ?n) l)) = Overflow"
      using len n less.prems(1,2,3) by (intro fetch_past[OF q(1) g]) (auto simp: q(2))
    then show ?thesis using e by (auto split: prod.splits load_end.splits)
  qed
qed

section \<open>Commands that use the table\<close>

text \<open>The entry an event number names: the scan stops at the first entry without a number.\<close>

definition find_event :: "sched list \<Rightarrow> int \<Rightarrow> sched option" where
  "find_event tab event_ID = List.find (\<lambda>e. EventId e = event_ID) (takeWhile (\<lambda>e. EventId e \<noteq> 0) tab)"

text \<open>What is put into the queue of the script executor, and whether the command came from an event.\<close>

record scene =
  scriptId :: int
  rampTime :: int
  dwellTime :: int
  eventScene :: bool

datatype scene_result = Queued scene | Refused string

text \<open>A scene from the numbers of its message; they are converted to the widths of the variables.\<close>

definition ExecuteSceneCommand :: "int option \<Rightarrow> int option \<Rightarrow> int option \<Rightarrow> int option \<Rightarrow> scene_result" where
  "ExecuteSceneCommand scr event_scene ramp dwell = (case scr of
     None \<Rightarrow> Refused ''Invalid input, \"scriptId\" key is missing.''
   | Some s \<Rightarrow> (let num = (\<lambda>w x. case x of Some v \<Rightarrow> wrap_u w v | None \<Rightarrow> 0) in
       Queued \<lparr>scriptId = wrap_u 16 s, rampTime = num 32 ramp, dwellTime = num 32 dwell,
         eventScene = (num 16 event_scene \<noteq> 0)\<rparr>))"

text \<open>The numbers of an entry pass through a JSON text, which keeps an integer of 32 bits with a sign.\<close>

definition ExecuteEventIDCommand :: "sched list \<Rightarrow> int option \<Rightarrow> scene_result" where
  "ExecuteEventIDCommand tab eventId = (case eventId of None \<Rightarrow> Refused ''Event ID is not found''
   | Some v \<Rightarrow> (case find_event tab (wrap_u 32 v) of None \<Rightarrow> Refused ''Event ID is not found''
     | Some e \<Rightarrow> (let num = (\<lambda>x. min 2147483647 x) in
         ExecuteSceneCommand (Some (num (ScriptID e))) (Some 1) (Some (num (RampTime e))) (Some (num (Duration e))))))"

text \<open>SETEVTTASKFG: the flag that the task and the executor look at before they start.\<close>

definition Set_Event_Task_Flag :: "int option \<Rightarrow> bool \<Rightarrow> bool" where
  "Set_Event_Task_Flag item flag = (case item of Some v \<Rightarrow> wrap_u 8 v \<noteq> 0 | None \<Rightarrow> flag)"


text \<open>EXECUTEACTION: the index of an action; when the executor is not running and cannot be started, the parsed message is
  freed twice.\<close>

datatype action_result = Queued_action int | No_index | Double_free

definition ExecuteActionCommand :: "bool \<Rightarrow> int option \<Rightarrow> action_result" where
  "ExecuteActionCommand task_there index = (case index of None \<Rightarrow> No_index
   | Some v \<Rightarrow> if task_there then Queued_action (wrap_u 16 v) else Double_free)"

text \<open>The replies of the database are put into the queues of the tasks by the members they have (Analyse_Response).\<close>

datatype rx_queue = Schedule_Record_Que | Script_Execute_Que2 | Action_Record_Que

definition route_reply :: "item \<Rightarrow> json \<Rightarrow> rx_queue list" where
  "route_reply item r = (if \<not> is_object r then [] else
     (if item r ''DateType'' \<noteq> None then [Schedule_Record_Que] else []) @
     (if item r ''Command'' \<noteq> None then [Script_Execute_Que2] else []) @
     (if item r ''COUNT()'' \<noteq> None then [Script_Execute_Que2] else []) @
     (if item r ''SCH_MIN_ID'' \<noteq> None then [Schedule_Record_Que] else []) @
     (if item r ''ACT_MIN_ID'' \<noteq> None then [Action_Record_Que] else []) @
     (if string_of (item r ''RESP'') \<noteq> None then [Schedule_Record_Que, Action_Record_Que] else []))"

text \<open>An error text, whoever asked, reaches the task that loads the schedule and never the one that executes scripts.\<close>

lemma error_goes_astray: "route_reply cs_item (JObj [(''RESP'', JStr t)]) = [Schedule_Record_Que, Action_Record_Que]"
  by (simp add: route_reply_def cs_item_def is_object_def string_of_def)

section \<open>A concrete database\<close>

definition demo_sz :: json where "demo_sz = JObj [(''FILE_SIZE'', JNum 8192)]"

definition demo_mm :: "int \<Rightarrow> int \<Rightarrow> json" where
  "demo_mm lo hi = JObj [(''SCH_MIN_ID'', JStr (show_int lo)), (''SCH_MAX_ID'', JStr (show_int hi))]"

definition demo_row :: json where
  "demo_row = JObj [(''ScriptId'', JStr ''7''), (''WeekDays'', JStr ''MWF''), (''Hour'', JStr ''18'')]"

definition demo_loader :: loader where "demo_loader = \<lparr>sch_table = empty_table, sch_queue = [], sch_said = []\<rparr>"

lemma demo_replies: "replies cs_item demo_sz (demo_mm lo hi) lo hi"
  by (simp add: replies_def cs_item_def demo_sz_def demo_mm_def number_of_def string_of_def)

section \<open>Properties\<close>

text \<open>C6: A database whose rows are numbered 1 to at most 400 without a gap is loaded exactly: entry by entry in the order
  of the rows, the rest of the table empty, in batches of 64 that share one queue.\<close>

theorem schedule_table_is_database:
  assumes "sch_queue l = []" "1 \<le> length rows" "length rows \<le> 400" "replies item sz mm 1 (int (length rows))"
  shows "Update_Schedule_Table item (sql_answer (zip [1..int (length rows)] rows) sz mm) True l =
    (Loaded, l\<lparr>sch_table := map (row_entry item) rows @ replicate (400 - length rows) sched_zero\<rparr>)"
  by (rule schedule_loaded[OF assms])

lemma schedule_table_is_database_witness:
  "Update_Schedule_Table cs_item (sql_answer (zip [1..int (length (replicate 70 demo_row))] (replicate 70 demo_row)) demo_sz
      (demo_mm 1 70)) True demo_loader =
    (Loaded, demo_loader\<lparr>sch_table := map (row_entry cs_item) (replicate 70 demo_row) @
      replicate (400 - length (replicate 70 demo_row)) sched_zero\<rparr>)"
  by (rule schedule_table_is_database) (simp_all add: demo_loader_def demo_replies)

text \<open>Whatever the replies to the batches are: once the row numbered 1 is deleted (the least number the database reports is
  above 1), the first entry of the loaded table is empty, and no turn of the scheduler executes anything.\<close>

theorem nothing_runs_without_row_one:
  assumes "sch_queue l = []" "answer File_size = [Msg (Some sz)]" "answer Min_max = [Msg (Some mm)]"
    and "replies item sz mm lo hi" "1 < lo" "lo < 2 ^ 31" "\<bar>hi\<bar> < 2 ^ 31"
    and "Schedule_table ev = sch_table (snd (Update_Schedule_Table item answer True l))"
  shows "Execute sc e sp t w \<notin> set (snd (Tasks_EventCheck_turn sunset sunrise now ev))"
proof (rule no_entry_no_output)
  have "\<bar>lo\<bar> < 2 ^ 31" using assms(5,6) by simp
  from load_start[OF assms(1-4) this assms(7)] show "table_len (Schedule_table ev) = 0"
    using load_batches_first[of lo "l\<lparr>sch_table := empty_table\<rparr>"] assms(5,8) by simp
qed

lemma nothing_runs_without_row_one_witness:
  "Execute 7 1 0 date_zero None \<notin> set (snd (Tasks_EventCheck_turn (\<lambda>y m d. 0) (\<lambda>y m d. 0) 946684800000
     (demo_ev\<lparr>Schedule_table := sch_table (snd (Update_Schedule_Table cs_item
        (sql_answer (zip [2..5] (replicate 4 demo_row)) demo_sz (demo_mm 2 5)) True demo_loader))\<rparr>)))"
  by (rule nothing_runs_without_row_one[where item = cs_item and l = demo_loader and lo = 2 and hi = 5
        and answer = "sql_answer (zip [2..5] (replicate 4 demo_row)) demo_sz (demo_mm 2 5)" and sz = demo_sz and mm = "demo_mm 2 5"])
    (simp_all add: demo_loader_def demo_replies sql_answer_def)

text \<open>Whatever arrives, the task leaves a table whose members all lie in the ranges of the struct's types.\<close>

theorem loaded_table_typed:
  assumes "list_all sched_typed (sch_table l)"
  shows "list_all sched_typed (sch_table (snd (Update_Schedule_Table item answer flag l)))"
proof -
  have k: "keeps item (list_all sched_typed) (- 2147483649)"
    by (auto simp: keeps_def list_all_length nth_list_update intro: write_row_typed)
  have e: "list_all sched_typed empty_table" by (simp add: empty_table_def list_all_iff sched_typed_zero)
  have s: "sch_table (snd (wait_size item k l)) = sch_table l" for k l
    by (induction k arbitrary: l) (auto simp: say_def dest: receive_table split: prod.splits option.splits)
  have m: "sch_table (snd (wait_min_max item k l)) = sch_table l" for k l
    by (induction k arbitrary: l) (auto simp: say_def Let_def dest: receive_table split: prod.splits option.splits)
  have lo: "- 2147483648 \<le> lo" if "wait_min_max item k l = (Some (lo, hi), l')" for k l lo hi l'
    using that
  proof (induction k arbitrary: l)
    case (Suc k)
    have "- 2147483648 \<le> strtol s" for s by (simp add: strtol_def Let_def split: prod.splits)
    then show ?case using Suc by (auto simp: Let_def split: prod.splits option.splits)
  qed simp
  obtain f l1 where 1: "wait_size item 3 (ask answer File_size l) = (f, l1)" by fastforce
  obtain r l2 where 2: "wait_min_max item 3 (ask answer Min_max l1) = (r, l2)" by fastforce
  have t1: "sch_table l1 = sch_table l" using s[of 3 "ask answer File_size l"] 1 by (simp add: ask_def)
  have t2: "sch_table l2 = sch_table l" using m[of 3 "ask answer Min_max l1"] 2 t1 by (simp add: ask_def)
  show ?thesis
  proof (cases r)
    case (Some p)
    obtain a b where p: "p = (a, b)" by fastforce
    obtain x l3 where b: "load_batches item answer a b (l2\<lparr>sch_table := empty_table\<rparr>) = (x, l3)" by fastforce
    have "list_all sched_typed (sch_table l3)"
      using load_batches_keeps[OF k _ _ b] e lo[OF 2[unfolded Some p]] by simp
    then show ?thesis using 1 2 Some p b t1 assms by (auto simp: Update_Schedule_Table_def split: option.splits)
  qed (use 1 2 t1 t2 assms in \<open>auto simp: Update_Schedule_Table_def split: option.splits\<close>)
qed

lemma loaded_table_typed_witness:
  "list_all sched_typed (sch_table (snd (Update_Schedule_Table cs_item
     (sql_answer (zip [1..2] [demo_row, demo_row]) demo_sz (demo_mm 1 2)) True demo_loader)))"
  by (rule loaded_table_typed) (simp add: demo_loader_def empty_table_def list_all_iff sched_typed_zero)

end
