(* ===== verification/Script_Exec.thy ===== *)
theory Script_Exec
  imports Schedule_Load
begin

text \<open>
  The task that executes scripts (Tasks_ExecuteMethodForEvent of main/EVENT_Actor.c).  A job names a script or one action; the
  task asks the database how many rows the script has, then for the rows, and runs the methods of each row as
  console commands.  It waits for the rows in a loop that only ends when its count reaches zero; the loop is
  a partial function whose value is None when it never returns.  The variables of the task live from job to job.
\<close>

section \<open>Text\<close>

text \<open>The text before and after the first occurrence of another (strstr).\<close>

fun before :: "string \<Rightarrow> string \<Rightarrow> string option" where
  "before sub [] = (if sub = [] then Some [] else None)"
| "before sub (c # cs) = (if take (length sub) (c # cs) = sub then Some []
     else case before sub cs of None \<Rightarrow> None | Some p \<Rightarrow> Some (c # p))"

definition holds :: "string \<Rightarrow> string \<Rightarrow> bool" where
  "holds sub s \<longleftrightarrow> before sub s \<noteq> None"

definition after :: "string \<Rightarrow> string \<Rightarrow> string option" where
  "after sub s = (case before sub s of None \<Rightarrow> None | Some p \<Rightarrow> Some (drop (length p + length sub) s))"

text \<open>A 32-bit number through the format for long, in a buffer of ten characters.\<close>

definition fmt_ld :: "int \<Rightarrow> string option" where
  "fmt_ld x = (let t = show_int (wrap_s 32 x) in if length t < 10 then Some t else None)"

definition sscanf_d :: "string \<Rightarrow> int option" where
  "sscanf_d s = (case sign_of (dropWhile is_space s) of (neg, t) \<Rightarrow> if takeWhile is_digit t = [] then None else Some (strtol s))"

text \<open>New members go in front of the first closing of the arguments; what follows it is cut off.\<close>

definition closing :: string where "closing = ''})''"

definition amend :: "string \<Rightarrow> string option \<Rightarrow> string option" where
  "amend line ins = (case before closing line of None \<Rightarrow> Some line
     | Some p \<Rightarrow> (case ins of None \<Rightarrow> None | Some i \<Rightarrow> Some (p @ i @ closing)))"

definition ramp_key :: string where "ramp_key = '', \"RampTime\":''"
definition duration_key :: string where "duration_key = '', \"Duration\":''"
definition event_key :: string where "event_key = '', \"eventId\":''"
definition defer_key :: string where "defer_key = '', \"DEFER_eventId\":''"
definition scene_key :: string where "scene_key = '', \"EVENT_SCENE\":1''"
definition script_key :: string where "script_key = ''\"scriptId\":''"

definition times_text :: "int \<Rightarrow> int \<Rightarrow> string option" where
  "times_text ramp dwell = (if ramp = 0 \<and> dwell = 0 then Some []
     else case (fmt_ld ramp, fmt_ld dwell) of (Some r, Some d) \<Rightarrow> Some (ramp_key @ r @ duration_key @ d) | _ \<Rightarrow> None)"

section \<open>State\<close>

datatype exec_query = Count int | Script_rows int | Action_rows int

datatype exec_out = Run string | Said string | Event_log int bool string "json list option"

text \<open>The local variables of the task with the global number of the event and the queue of the database's answers; an
  element None of the queue stands for a second without an answer.\<close>

record task =
  u16ScriptID :: int
  u16ScriptID_11 :: int
  u16ActionIndex :: int
  u8ActionIndex_avl_local :: bool
  Deviceid :: string
  u32RampTimeScene :: int
  u32DwellTimeScene :: int
  EventID :: int
  OverrideSportVal :: int
  device_ID_found :: bool
  Event_execute_flag :: bool
  Script_ID_cnt :: int
  Command_Array :: "json list option"
  Global_EventID :: int
  exe_que :: "string option list"
  exe_outs :: "exec_out list"

text \<open>What the task finds around it: the JSON library, the database, the console's verdict on a command, the local time and the
  settings of the actor.\<close>

record world =
  parse :: "string \<Rightarrow> json option"
  item_ci :: item
  item_cs :: item
  db :: "exec_query \<Rightarrow> string option list"
  runs :: "string \<Rightarrow> bool"
  local_ms :: int
  defer_on :: int
  defer_off :: int
  warping :: bool
  execute_com :: bool
  enabled :: bool

datatype 'a flow = Go 'a | Exit 'a | Crash

definition emit :: "exec_out \<Rightarrow> task \<Rightarrow> task" where "emit x t = t\<lparr>exe_outs := exe_outs t @ [x]\<rparr>"

definition send :: "world \<Rightarrow> exec_query \<Rightarrow> task \<Rightarrow> task" where "send W q t = t\<lparr>exe_que := exe_que t @ db W q\<rparr>"

definition get :: "task \<Rightarrow> string option \<times> task" where
  "get t = (case exe_que t of [] \<Rightarrow> (None, t) | m # q \<Rightarrow> (m, t\<lparr>exe_que := q\<rparr>))"

definition count_in :: "world \<Rightarrow> json \<Rightarrow> int" where
  "count_in W j = (case string_of (item_ci W j ''COUNT()'') of Some s \<Rightarrow> strtol s | None \<Rightarrow> 0)"

section \<open>One command\<close>

text \<open>Waiting for the rows of a nested script, only to learn whether one of them would be deferred.\<close>

definition defers :: "world \<Rightarrow> task \<Rightarrow> string \<Rightarrow> bool" where
  "defers W t m \<longleftrightarrow> OverrideSportVal t = 0 \<and>
     (if holds ''LIGHTING.ON'' m then local_ms W < defer_on W else holds ''LIGHTING.OFF'' m \<and> local_ms W < defer_off W)"

partial_function (option) drain :: "world \<Rightarrow> task \<Rightarrow> bool \<Rightarrow> (task \<times> bool) option" where
  "drain W t d = (if Script_ID_cnt t \<le> 0 then Some (t, d)
     else case get t of (None, t1) \<Rightarrow> drain W t1 d
       | (Some m, t1) \<Rightarrow> drain W ((if defers W t m then emit (Said ''EVENT Scene is deferred'') t1 else t1)
             \<lparr>Script_ID_cnt := Script_ID_cnt t1 - 1\<rparr>) (d \<or> defers W t m))"

definition lighting :: "world \<Rightarrow> int \<Rightarrow> string \<Rightarrow> task \<times> bool \<Rightarrow> ((task \<times> bool) \<times> string) flow" where
  "lighting W until line td = (let (t, d) = td;
     late = (until \<noteq> 0 \<and> OverrideSportVal t = 0 \<and> local_ms W < until);
     ev = (if EventID t = 0 then Global_EventID t else EventID t);
     t0 = (if late then emit (Said ''EVENT is deferred'') t else t);
     t1 = (if EventID t = 0 then t0 else t0\<lparr>Global_EventID := 0\<rparr>) in
     case fmt_ld ev of None \<Rightarrow> Crash
     | Some v \<Rightarrow> (case amend line (map_option (\<lambda>x. (if late then defer_key else event_key) @ v @ x)
           (times_text (u32RampTimeScene t) (u32DwellTimeScene t))) of
         None \<Rightarrow> Crash | Some l \<Rightarrow> Go ((t1, d \<or> late), l)))"

text \<open>A command that starts another script: its rows are counted and awaited here.\<close>

definition nested :: "world \<Rightarrow> string \<Rightarrow> task \<times> bool \<Rightarrow> ((task \<times> bool) \<times> string) flow option" where
  "nested W line td = (let (t, d) = td; t1 = t\<lparr>Global_EventID := EventID t\<rparr> in
     case before closing line of None \<Rightarrow> Some (Go ((t1, d), line))
     | Some p \<Rightarrow> (case times_text (u32RampTimeScene t) (u32DwellTimeScene t) of None \<Rightarrow> Some Crash
       | Some x \<Rightarrow> (let l = p @ scene_key @ x @ closing in
         case (case after script_key l of None \<Rightarrow> Some (u16ScriptID t, False)
               | Some r \<Rightarrow> (case sscanf_d r of None \<Rightarrow> None
                 | Some v \<Rightarrow> Some (wrap_u 16 v, wrap_u 16 v = u16ScriptID_11 t))) of
           None \<Rightarrow> Some Crash
         | Some (sc, same) \<Rightarrow> (let t2 = t1\<lparr>u16ScriptID := sc\<rparr> in
           if same then Some (Exit ((emit (Said ''Error! As Scene ID and schedule ID are same, cannot execute the event.'') t2, d), l))
           else if sc = 0 then Some (Go ((t2, d), l))
           else case get ((send W (Count sc) t2)\<lparr>Script_ID_cnt := 0\<rparr>) of
             (None, t3) \<Rightarrow> Some (Go ((t3, d), l))
           | (Some m, t3) \<Rightarrow> (case parse W m of None \<Rightarrow> Some (Exit ((emit (Said ''Invalid Json input'') t3, d), l))
             | Some j \<Rightarrow> (let n = count_in W j; t4 = t3\<lparr>Script_ID_cnt := n\<rparr> in
               if n = 0 then Some (Go ((emit (Said ''Script ID not found in the action table.'') t4, d), l))
               else map_option (\<lambda>td1. Go (td1, l)) (drain W ((send W (Script_rows sc) t4)\<lparr>Command_Array := Some []\<rparr>) d)))))))"

definition prepare :: "world \<Rightarrow> string \<Rightarrow> task \<times> bool \<Rightarrow> ((task \<times> bool) \<times> string) flow option" where
  "prepare W line td = (let (t, d) = td in
     if execute_com W then
       Some (if u32DwellTimeScene t = 0 \<and> u32RampTimeScene t = 0 then Go (td, line)
         else case amend line (times_text (u32RampTimeScene t) (u32DwellTimeScene t)) of None \<Rightarrow> Crash | Some l \<Rightarrow> Go (td, l))
     else if holds ''LIGHTING.ON'' line then Some (lighting W (defer_on W) line td)
     else if holds ''LIGHTING.OFF'' line then Some (lighting W (defer_off W) line td)
     else if holds ''EVENT_ACTOR.EXECUTESCENE'' line then nested W line td
     else Some (Go (td, line)))"

text \<open>A command that succeeds counts as one row; one that fails counts as none.\<close>

definition finish_line :: "json list \<Rightarrow> string \<Rightarrow> bool \<Rightarrow> task \<Rightarrow> task" where
  "finish_line methods line ok t = (if ok then
     (emit (Said line) t)\<lparr>Command_Array := map_option (\<lambda>a. a @ [JArr methods]) (Command_Array t),
       Event_execute_flag := True, Script_ID_cnt := Script_ID_cnt t - 1\<rparr>
     else emit (Said ''Error in executing method'') t)"

definition exec_line :: "world \<Rightarrow> bool \<Rightarrow> json list \<Rightarrow> string \<Rightarrow> task \<times> bool \<Rightarrow> (task \<times> bool) flow option" where
  "exec_line W not_exec methods line td =
    (if not_exec \<or> warping W then Some (Go (finish_line methods line True (fst td), snd td))
     else case prepare W line td of None \<Rightarrow> None
       | Some (Go ((t1, d1), l)) \<Rightarrow> Some (Go (finish_line methods l (runs W l) (emit (Run l) t1), d1))
       | Some (Exit (td1, l)) \<Rightarrow> Some (Exit td1)
       | Some Crash \<Rightarrow> Some Crash)"

fun exec_methods :: "world \<Rightarrow> bool \<Rightarrow> json list \<Rightarrow> json list \<Rightarrow> task \<times> bool \<Rightarrow> (task \<times> bool) flow option" where
  "exec_methods W not_exec methods [] td = Some (Go td)"
| "exec_methods W not_exec methods (e # es) td = (case e of
     JStr s \<Rightarrow> if s = [] then exec_methods W not_exec methods es (emit (Said ''Methods array is empty'') (fst td), snd td)
       else (case exec_line W not_exec methods s td of
         Some (Go td1) \<Rightarrow> exec_methods W not_exec methods es td1 | r \<Rightarrow> r)
   | _ \<Rightarrow> exec_methods W not_exec methods es td)"

section \<open>One row\<close>

text \<open>The methods of a row whose device is this one; a row of another device counts as done.\<close>

definition row_methods :: "world \<Rightarrow> json \<Rightarrow> json list" where
  "row_methods W row = (case string_of (item_cs W row ''Command'') of None \<Rightarrow> []
     | Some c \<Rightarrow> (case parse W c of None \<Rightarrow> [] | Some act \<Rightarrow> (case item_cs W act ''methods'' of Some (JArr ms) \<Rightarrow> ms | _ \<Rightarrow> [])))"

definition exec_row :: "world \<Rightarrow> bool \<Rightarrow> json \<Rightarrow> task \<Rightarrow> (task \<times> bool) flow option" where
  "exec_row W not_exec row t = (case string_of (item_cs W row ''DeviceId'') of
     None \<Rightarrow> Some (Go (t, False))
   | Some dev \<Rightarrow> if dev = Deviceid t
       then exec_methods W not_exec (row_methods W row) (row_methods W row) (t\<lparr>device_ID_found := True\<rparr>, False)
       else Some (Go (t\<lparr>Script_ID_cnt := Script_ID_cnt t - 1\<rparr>, False)))"

text \<open>The report to the server; it is only saved in a time warp.\<close>

definition report :: "int \<Rightarrow> string \<Rightarrow> task \<times> bool \<Rightarrow> task" where
  "report epoch time_local td = (let (t, d) = td in
     if Event_execute_flag t \<and> EventID t \<noteq> 0 then
       (if epoch \<noteq> 0 then emit (Event_log (EventID t) d time_local (Command_Array t)) t else t)
         \<lparr>Event_execute_flag := False, Command_Array := None, EventID := 0\<rparr>
     else t)"

partial_function (option) run_rows :: "world \<Rightarrow> bool \<Rightarrow> int \<Rightarrow> string \<Rightarrow> task \<Rightarrow> task flow option" where
  "run_rows W not_exec epoch time_local t = (if Script_ID_cnt t \<le> 0 then Some (Go t)
     else case get t of (None, t1) \<Rightarrow> run_rows W not_exec epoch time_local t1
       | (Some m, t1) \<Rightarrow> (case parse W m of None \<Rightarrow> Some (Exit (emit (Said ''Invalid Json input'') t1))
         | Some row \<Rightarrow> (case exec_row W not_exec row t1 of None \<Rightarrow> None
           | Some f \<Rightarrow> (case f of Go td \<Rightarrow> run_rows W not_exec epoch time_local (report epoch time_local td)
             | Exit td \<Rightarrow> Some (Exit (fst td)) | Crash \<Rightarrow> Some Crash))))"

section \<open>One action\<close>

text \<open>The commands of an action's row are run as they are.\<close>

fun act_methods :: "world \<Rightarrow> json list \<Rightarrow> task \<Rightarrow> task" where
  "act_methods W [] t = t"
| "act_methods W (e # es) t = (case e of
     JStr s \<Rightarrow> act_methods W es (if s = [] then emit (Said ''Methods array is empty'') t
       else if runs W s then (emit (Said s) (emit (Run s) t))\<lparr>Event_execute_flag := True, Script_ID_cnt := Script_ID_cnt t - 1\<rparr>
       else emit (Said ''Error in executing method'') (emit (Run s) t))
   | _ \<Rightarrow> act_methods W es t)"

definition act_row :: "world \<Rightarrow> json \<Rightarrow> task \<Rightarrow> task" where
  "act_row W row t = (case string_of (item_cs W row ''DeviceId'') of None \<Rightarrow> t
   | Some dev \<Rightarrow> if dev = Deviceid t then act_methods W (row_methods W row) (t\<lparr>device_ID_found := True\<rparr>)
       else t\<lparr>Script_ID_cnt := Script_ID_cnt t - 1\<rparr>)"

partial_function (option) run_action :: "world \<Rightarrow> task \<Rightarrow> task flow option" where
  "run_action W t = (if Script_ID_cnt t \<le> 0 then Some (Go t)
     else case get t of (None, t1) \<Rightarrow> run_action W t1
       | (Some m, t1) \<Rightarrow> (case parse W m of None \<Rightarrow> Some (Exit (emit (Said ''Invalid Json input'') t1))
         | Some row \<Rightarrow> run_action W (act_row W row t1)))"

section \<open>One job\<close>

text \<open>What a job's message leaves alone keeps the value of the job before it.\<close>

definition read_job :: "world \<Rightarrow> json \<Rightarrow> task \<Rightarrow> task flow" where
  "read_job W j t = (let num = number_in (item_ci W) j;
     t1 = (case num ''ScriptID'' of None \<Rightarrow> t | Some v \<Rightarrow>
       t\<lparr>u16ScriptID := wrap_u 16 v, u8ActionIndex_avl_local := False, u16ScriptID_11 := wrap_u 16 v\<rparr>);
     t2 = (case num ''ActionIndex'' of None \<Rightarrow> t1 | Some v \<Rightarrow>
       t1\<lparr>u16ActionIndex := wrap_u 16 v, u8ActionIndex_avl_local := True\<rparr>);
     t3 = (case string_of (item_ci W j ''DEVICEID'') of None \<Rightarrow> t2 | Some s \<Rightarrow> t2\<lparr>Deviceid := s\<rparr>);
     t4 = (case num ''Event_ID'' of None \<Rightarrow> t3 | Some v \<Rightarrow> t3\<lparr>EventID := wrap_u 32 v, u8ActionIndex_avl_local := False\<rparr>);
     t5 = (case num ''RampTime'' of None \<Rightarrow> t4 | Some v \<Rightarrow> t4\<lparr>u32RampTimeScene := wrap_u 32 v, u8ActionIndex_avl_local := False\<rparr>);
     t6 = (case num ''Duration'' of None \<Rightarrow> t5 | Some v \<Rightarrow> t5\<lparr>u32DwellTimeScene := wrap_u 32 v, u8ActionIndex_avl_local := False\<rparr>);
     t7 = (case num ''Override_Sport'' of None \<Rightarrow> t6 | Some v \<Rightarrow> t6\<lparr>OverrideSportVal := wrap_u 8 v, u8ActionIndex_avl_local := False\<rparr>) in
     if 32 \<le> length (Deviceid t7) then Crash else Go t7)"

definition not_to_execute :: "world \<Rightarrow> json \<Rightarrow> bool" where
  "not_to_execute W j = (case number_in (item_ci W) j ''NotToExecute'' of Some v \<Rightarrow> wrap_u 8 v \<noteq> 0 | None \<Rightarrow> False)"

definition start_epoch :: "world \<Rightarrow> json \<Rightarrow> int" where
  "start_epoch W j = (case number_of (item_ci W j ''Start_Epoch'') of Some x \<Rightarrow> trunc x | None \<Rightarrow> 0)"

definition job_time :: "world \<Rightarrow> json \<Rightarrow> string" where
  "job_time W j = (case string_of (item_ci W j ''Local_Time'') of Some s \<Rightarrow> s | None \<Rightarrow> [])"

definition check_device :: "task \<Rightarrow> task" where
  "check_device t = (if device_ID_found t then t\<lparr>device_ID_found := False\<rparr> else emit (Said ''Received method is not for this Device ID'') t)"

definition then_check :: "task flow option \<Rightarrow> task flow option" where
  "then_check r = (case r of Some (Go t) \<Rightarrow> Some (Go (check_device t)) | _ \<Rightarrow> r)"

definition exec_script :: "world \<Rightarrow> json \<Rightarrow> task \<Rightarrow> task flow option" where
  "exec_script W j t = (case get ((send W (Count (u16ScriptID t)) t)\<lparr>Script_ID_cnt := 0\<rparr>) of
     (None, t1) \<Rightarrow> Some (Go t1)
   | (Some m, t1) \<Rightarrow> (case parse W m of None \<Rightarrow> Some (Exit (emit (Said ''Invalid Json input'') t1))
     | Some c \<Rightarrow> (let n = count_in W c; t2 = t1\<lparr>Script_ID_cnt := n\<rparr> in
       if n = 0 then Some (Go (emit (Said ''Script ID not found in the action table.'') t2))
       else then_check (run_rows W (not_to_execute W j) (start_epoch W j) (job_time W j)
              ((send W (Script_rows (u16ScriptID t2)) t2)\<lparr>Command_Array := Some []\<rparr>)))))"

definition execute_job :: "world \<Rightarrow> string \<Rightarrow> task \<Rightarrow> task flow option" where
  "execute_job W msg t = (case parse W msg of None \<Rightarrow> Some (Exit (emit (Said ''Invalid JSON input'') t))
   | Some j \<Rightarrow> (case read_job W j t of Crash \<Rightarrow> Some Crash | Exit t1 \<Rightarrow> Some (Exit t1)
     | Go t1 \<Rightarrow> if Deviceid t1 = [] \<or> u16ScriptID t1 = 0 \<and> u16ActionIndex t1 = 0 then Some (Go t1)
        else (case (if u8ActionIndex_avl_local t1
            then then_check (run_action W (send W (Action_rows (u16ActionIndex t1)) (t1\<lparr>Script_ID_cnt := 1\<rparr>)))
            else exec_script W j t1) of
          Some (Go t2) \<Rightarrow> Some (if enabled W then Go t2 else Exit t2) | r \<Rightarrow> r)))"

text \<open>The jobs in the order of the queue; the task ends with the first that makes it end.\<close>

fun execute_jobs :: "world \<Rightarrow> string list \<Rightarrow> task \<Rightarrow> task flow option" where
  "execute_jobs W [] t = Some (Go t)"
| "execute_jobs W (m # ms) t = (case execute_job W m t of Some (Go t1) \<Rightarrow> execute_jobs W ms t1 | r \<Rightarrow> r)"

text \<open>The messages the scheduler and the scene command put into the queue.  The scheduler adds the ramp time and the duration to
  another object, which is empty by then.\<close>

definition scheduled_job :: "sched \<Rightarrow> string \<Rightarrow> int \<Rightarrow> json" where
  "scheduled_job e time_local startEPOC1 = JObj (
     [(''ScriptId'', JNum (of_int (ScriptID e))), (''Event_ID'', JNum (of_int (EventId e)))] @
     (if startEPOC1 \<noteq> 0 then [(''NotToExecute'', JNum 1), (''Start_Epoch'', JNum (of_int startEPOC1))] else []) @
     [(''Local_Time'', JStr time_local), (''Override_Sport'', JNum (of_int (OverrideSport e)))])"

definition scene_job :: "scene \<Rightarrow> json" where
  "scene_job s = JObj [(''ScriptId'', JNum (of_int (scriptId s))), (''RampTime'', JNum (of_int (rampTime s))),
     (''Duration'', JNum (of_int (dwellTime s)))]"


section \<open>When the loop returns\<close>

text \<open>The specification of the loop for commands that are run as they are: each row takes the successes of its commands off the
  count; the loop ends when the count is used up, and if the rows end first it never does.\<close>

fun rows_done :: "int \<Rightarrow> nat list \<Rightarrow> nat option" where
  "rows_done c [] = (if c \<le> 0 then Some 0 else None)"
| "rows_done c (g # gs) = (if c \<le> 0 then Some 0 else map_option Suc (rows_done (c - int g) gs))"

definition commands :: "world \<Rightarrow> json \<Rightarrow> string list" where
  "commands W row = concat (map (\<lambda>e. case e of JStr s \<Rightarrow> if s = [] then [] else [s] | _ \<Rightarrow> []) (row_methods W row))"

definition gain :: "world \<Rightarrow> json \<Rightarrow> nat" where
  "gain W row = length (filter (runs W) (commands W row))"

definition plain :: "string \<Rightarrow> bool" where
  "plain s \<longleftrightarrow> \<not> holds ''LIGHTING.ON'' s \<and> \<not> holds ''LIGHTING.OFF'' s \<and> \<not> holds ''EVENT_ACTOR.EXECUTESCENE'' s"

definition plain_row :: "world \<Rightarrow> string \<Rightarrow> json \<Rightarrow> bool" where
  "plain_row W dev row \<longleftrightarrow> string_of (item_cs W row ''DeviceId'') = Some dev \<and> list_all plain (commands W row)"

definition ran :: "task \<Rightarrow> string list" where
  "ran t = concat (map (\<lambda>x. case x of Run s \<Rightarrow> [s] | _ \<Rightarrow> []) (exe_outs t))"

lemma ran_emit [simp]: "ran (emit x t) = ran t @ (case x of Run s \<Rightarrow> [s] | _ \<Rightarrow> [])"
  by (simp add: ran_def emit_def)

lemma emit_simps [simp]:
  "Script_ID_cnt (emit x t) = Script_ID_cnt t" "exe_que (emit x t) = exe_que t" "Deviceid (emit x t) = Deviceid t"
  "EventID (emit x t) = EventID t" "Global_EventID (emit x t) = Global_EventID t" "u32RampTimeScene (emit x t) = u32RampTimeScene t"
  "u32DwellTimeScene (emit x t) = u32DwellTimeScene t" "OverrideSportVal (emit x t) = OverrideSportVal t"
  "Event_execute_flag (emit x t) = Event_execute_flag t" "Command_Array (emit x t) = Command_Array t"
  by (simp_all add: emit_def)

lemma ran_updates [simp]:
  "ran (t\<lparr>Script_ID_cnt := a\<rparr>) = ran t" "ran (t\<lparr>exe_que := b\<rparr>) = ran t" "ran (t\<lparr>Command_Array := c\<rparr>) = ran t"
  "ran (t\<lparr>Event_execute_flag := d\<rparr>) = ran t" "ran (t\<lparr>EventID := e\<rparr>) = ran t" "ran (t\<lparr>Global_EventID := e\<rparr>) = ran t"
  "ran (t\<lparr>device_ID_found := d\<rparr>) = ran t"
  by (simp_all add: ran_def)

lemma finish_line_facts [simp]:
  "Script_ID_cnt (finish_line ms l ok t) = Script_ID_cnt t - (if ok then 1 else 0)"
  "exe_que (finish_line ms l ok t) = exe_que t" "Deviceid (finish_line ms l ok t) = Deviceid t"
  "ran (finish_line ms l ok t) = ran t" "EventID (finish_line ms l ok t) = EventID t"
  "Global_EventID (finish_line ms l ok t) = Global_EventID t" "u32RampTimeScene (finish_line ms l ok t) = u32RampTimeScene t"
  "u32DwellTimeScene (finish_line ms l ok t) = u32DwellTimeScene t" "OverrideSportVal (finish_line ms l ok t) = OverrideSportVal t"
  "Event_execute_flag (finish_line ms l ok t) = (ok \<or> Event_execute_flag t)"
  by (simp_all add: finish_line_def)

text \<open>An executor that neither changes commands nor simulates.\<close>

definition direct :: "world \<Rightarrow> bool" where "direct W \<longleftrightarrow> \<not> execute_com W \<and> \<not> warping W"

lemma exec_line_plain:
  "direct W \<Longrightarrow> plain s \<Longrightarrow> exec_line W False ms s td = Some (Go (finish_line ms s (runs W s) (emit (Run s) (fst td)), snd td))"
  by (cases td) (simp add: exec_line_def prepare_def direct_def plain_def)

lemma exec_methods_plain:
  assumes "direct W"
  shows "list_all plain (concat (map (\<lambda>e. case e of JStr s \<Rightarrow> if s = [] then [] else [s] | _ \<Rightarrow> []) es)) \<Longrightarrow>
   \<exists>t'. exec_methods W False ms es (t, d) = Some (Go (t', d)) \<and> exe_que t' = exe_que t \<and> Deviceid t' = Deviceid t \<and>
     Script_ID_cnt t' = Script_ID_cnt t -
       int (length (filter (runs W) (concat (map (\<lambda>e. case e of JStr s \<Rightarrow> if s = [] then [] else [s] | _ \<Rightarrow> []) es)))) \<and>
     ran t' = ran t @ concat (map (\<lambda>e. case e of JStr s \<Rightarrow> if s = [] then [] else [s] | _ \<Rightarrow> []) es)"
proof (induction es arbitrary: t)
  case (Cons e es)
  show ?case
  proof (cases "\<exists>s. e = JStr s \<and> s \<noteq> []")
    case True
    then obtain s where s: "e = JStr s" "s \<noteq> []" by blast
    then show ?thesis
      using Cons.IH[of "finish_line ms s (runs W s) (emit (Run s) t)"] Cons.prems by (auto simp: exec_line_plain[OF assms])
  next
    case False
    then have c: "(case e of JStr s \<Rightarrow> if s = [] then [] else [s] | _ \<Rightarrow> []) = []" by (auto split: json.splits)
    show ?thesis
    proof (cases "e = JStr []")
      case True
      then show ?thesis using Cons.IH[of "emit (Said ''Methods array is empty'') t"] Cons.prems by auto
    next
      case F: False
      then have "exec_methods W False ms (e # es) (t, d) = exec_methods W False ms es (t, d)" using False by (auto split: json.splits)
      then show ?thesis using Cons.IH[of t] Cons.prems c by simp
    qed
  qed
qed auto

lemma report_facts [simp]:
  "Script_ID_cnt (report epoch tm td) = Script_ID_cnt (fst td)" "exe_que (report epoch tm td) = exe_que (fst td)"
  "Deviceid (report epoch tm td) = Deviceid (fst td)" "ran (report epoch tm td) = ran (fst td)"
  by (cases td, simp add: report_def)+

lemma exec_row_plain:
  assumes "direct W" "plain_row W (Deviceid t) row"
  obtains t' d' where "exec_row W False row t = Some (Go (t', d'))" "exe_que t' = exe_que t" "Deviceid t' = Deviceid t"
    "Script_ID_cnt t' = Script_ID_cnt t - int (gain W row)" "ran t' = ran t @ commands W row"
  using exec_methods_plain[OF assms(1), of "row_methods W row" "row_methods W row" "t\<lparr>device_ID_found := True\<rparr>" False] assms(2)
  by (auto simp: exec_row_def plain_row_def commands_def gain_def)

lemma run_rows_stuck:
  assumes "run_rows W ne epoch tm t = Some r"
  shows "Script_ID_cnt t \<le> 0 \<or> exe_que t \<noteq> []"
proof (induction W ne epoch tm t r rule: run_rows.raw_induct)
  case (1 f W ne epoch tm t r)
  show ?case
  proof (rule ccontr)
    assume n: "\<not> (Script_ID_cnt t \<le> 0 \<or> exe_que t \<noteq> [])"
    then have "f W ne epoch tm t = Some r" using 1(2) by (simp add: get_def)
    then show False using 1(1) n by blast
  qed
qed (rule assms)

lemma run_rows_never: "0 < Script_ID_cnt t \<Longrightarrow> exe_que t = [] \<Longrightarrow> run_rows W ne epoch tm t = None"
  using run_rows_stuck[of W ne epoch tm t] by (cases "run_rows W ne epoch tm t") auto

text \<open>The loop implements its specification.\<close>

lemma run_rows_spec:
  assumes "direct W"
  shows "exe_que t = map Some ms \<Longrightarrow> length ms = length rows \<Longrightarrow> list_all2 (\<lambda>m row. parse W m = Some row) ms rows \<Longrightarrow>
    list_all (plain_row W (Deviceid t)) rows \<Longrightarrow>
    (case rows_done (Script_ID_cnt t) (map (gain W) rows) of
       None \<Rightarrow> run_rows W False epoch tm t = None
     | Some k \<Rightarrow> \<exists>t'. run_rows W False epoch tm t = Some (Go t') \<and> exe_que t' = map Some (drop k ms) \<and>
         ran t' = ran t @ concat (map (commands W) (take k rows)))"
proof (induction rows arbitrary: ms t)
  case Nil
  then show ?case using run_rows_never[of t] by (auto simp: run_rows.simps[of _ _ _ _ t])
next
  case (Cons row rows)
  obtain m ms' where ms: "ms = m # ms'" "parse W m = Some row" "list_all2 (\<lambda>m row. parse W m = Some row) ms' rows"
    using Cons.prems(3) by (auto simp: list_all2_Cons2)
  show ?case
  proof (cases "Script_ID_cnt t \<le> 0")
    case True
    then show ?thesis using Cons.prems(1) by (subst run_rows.simps) simp
  next
    case False
    let ?t1 = "t\<lparr>exe_que := map Some ms'\<rparr>"
    have g: "get t = (Some m, ?t1)" using Cons.prems(1) ms by (simp add: get_def)
    have pr: "plain_row W (Deviceid ?t1) row" using Cons.prems(4) by simp
    obtain t' d' where r: "exec_row W False row ?t1 = Some (Go (t', d'))" "exe_que t' = map Some ms'" "Deviceid t' = Deviceid t"
      "Script_ID_cnt t' = Script_ID_cnt t - int (gain W row)" "ran t' = ran t @ commands W row"
      using exec_row_plain[OF assms pr] by auto
    have "run_rows W False epoch tm t = run_rows W False epoch tm (report epoch tm (t', d'))"
      using False g ms(2) r(1) by (subst run_rows.simps) simp
    then show ?thesis
      using Cons.IH[of "report epoch tm (t', d')" ms'] Cons.prems(2,4) ms r False by (auto split: option.splits)
  qed
qed


lemma rows_done_ones: "list_all (\<lambda>g. g = 1) gs \<Longrightarrow> rows_done (int (length gs)) gs = Some (length gs)"
  by (induction gs) auto

lemma rows_done_short: "int (sum_list gs) < c \<Longrightarrow> rows_done c gs = None"
  by (induction gs arbitrary: c) auto

lemma rows_done_first: "0 < c \<Longrightarrow> c \<le> int g \<Longrightarrow> rows_done c (g # gs) = Some 1"
  by (cases gs) auto

section \<open>A script\<close>

text \<open>The database has the rows of the script, each a plain row of this device, and the queue is empty before.\<close>

definition script_in_db :: "world \<Rightarrow> task \<Rightarrow> string list \<Rightarrow> json list \<Rightarrow> bool" where
  "script_in_db W t ms rows \<longleftrightarrow> direct W \<and> exe_que t = [] \<and> rows \<noteq> [] \<and> length ms = length rows \<and>
     list_all2 (\<lambda>m row. parse W m = Some row) ms rows \<and> list_all (plain_row W (Deviceid t)) rows \<and>
     (\<exists>c cj. db W (Count (u16ScriptID t)) = [Some c] \<and> parse W c = Some cj \<and> count_in W cj = int (length rows)) \<and>
     db W (Script_rows (u16ScriptID t)) = map Some ms"

lemma check_device_facts [simp]: "exe_que (check_device t) = exe_que t" "ran (check_device t) = ran t"
  by (simp_all add: check_device_def)

lemma exec_script_rows:
  assumes "script_in_db W t ms rows" "\<not> not_to_execute W j"
  obtains t1 where "exec_script W j t = then_check (run_rows W False (start_epoch W j) (job_time W j) t1)"
    "exe_que t1 = map Some ms" "Script_ID_cnt t1 = int (length rows)" "Deviceid t1 = Deviceid t" "ran t1 = ran t"
proof -
  obtain c cj where c: "db W (Count (u16ScriptID t)) = [Some c]" "parse W c = Some cj" "count_in W cj = int (length rows)"
    using assms(1) by (auto simp: script_in_db_def)
  let ?t1 = "t\<lparr>Script_ID_cnt := int (length rows), exe_que := map Some ms, Command_Array := Some []\<rparr>"
  have "exec_script W j t = then_check (run_rows W False (start_epoch W j) (job_time W j) ?t1)"
    using assms c by (simp add: exec_script_def send_def get_def script_in_db_def Let_def)
  then show ?thesis using that[of ?t1] by simp
qed

lemma exec_script_spec:
  assumes "script_in_db W t ms rows" "\<not> not_to_execute W j"
  shows "case rows_done (int (length rows)) (map (gain W) rows) of
      None \<Rightarrow> exec_script W j t = None
    | Some k \<Rightarrow> \<exists>t'. exec_script W j t = Some (Go t') \<and> exe_que t' = map Some (drop k ms) \<and>
        ran t' = ran t @ concat (map (commands W) (take k rows))"
proof -
  obtain t1 where t1: "exec_script W j t = then_check (run_rows W False (start_epoch W j) (job_time W j) t1)"
    "exe_que t1 = map Some ms" "Script_ID_cnt t1 = int (length rows)" "Deviceid t1 = Deviceid t" "ran t1 = ran t"
    using exec_script_rows[OF assms] by blast
  have "direct W" "length ms = length rows" "list_all2 (\<lambda>m row. parse W m = Some row) ms rows"
    "list_all (plain_row W (Deviceid t1)) rows"
    using assms(1) t1(4) by (auto simp: script_in_db_def)
  from run_rows_spec[OF this(1) t1(2) this(2-4), of "start_epoch W j" "job_time W j"] show ?thesis
    unfolding t1(3) by (auto simp: t1(1,5) then_check_def split: option.splits)
qed

text \<open>The message that follows in the queue is taken for the answer to the count.\<close>

lemma exec_script_no_count:
  assumes "exe_que t = Some m # q" "parse W m = Some r" "item_ci W r ''COUNT()'' = None"
  shows "\<exists>t'. exec_script W j t = Some (Go t') \<and> ran t' = ran t \<and> exe_que t' = q @ db W (Count (u16ScriptID t))"
  using assms by (simp add: exec_script_def send_def get_def count_in_def string_of_def Let_def)

section \<open>The number of the event\<close>

lemma fmt_ld_small: "0 \<le> e \<Longrightarrow> e < 1000000000 \<Longrightarrow> fmt_ld e = Some (show_int e)"
proof -
  assume e: "0 \<le> e" "e < 1000000000"
  have s: "wrap_s 32 e = e" using e by (simp add: wrap_s_def)
  have "length (show_int e) < 10"
  proof (cases "e = 0")
    case True
    moreover have "length (show_nat 0) = 1" by (subst show_nat.simps) simp
    ultimately show ?thesis by (simp add: show_int_def)
  next
    case False
    then have "(10::nat) ^ (length (show_nat (nat e)) - 1) \<le> nat e" using length_show_nat[of "nat e"] e by simp
    also have "\<dots> < 10 ^ 9" using e by simp
    finally have "(10::nat) ^ (length (show_nat (nat e)) - 1) < 10 ^ 9" .
    from power_less_imp_less_exp[OF _ this] have "length (show_nat (nat e)) - 1 < 9" by simp
    then show ?thesis using e by (simp add: show_int_def)
  qed
  then show ?thesis by (simp add: fmt_ld_def s)
qed

lemma fmt_ld_large: "1000000000 \<le> e \<Longrightarrow> e < 2147483648 \<Longrightarrow> fmt_ld e = None"
proof -
  assume e: "1000000000 \<le> e" "e < 2147483648"
  have s: "wrap_s 32 e = e" using e by (simp add: wrap_s_def)
  have "nat e < 10 ^ length (show_nat (nat e))" using length_show_nat[of "nat e"] e by simp
  moreover have "(10::nat) ^ 9 \<le> nat e" using e by simp
  ultimately have "(10::nat) ^ 9 < 10 ^ length (show_nat (nat e))" by linarith
  from power_less_imp_less_exp[OF _ this] have "9 < length (show_nat (nat e))" by simp
  then show ?thesis using e s by (simp add: fmt_ld_def show_int_def)
qed

text \<open>A lighting command at its time, outside any deferral and ramp.\<close>

lemma lighting_on:
  assumes "\<not> execute_com W" "\<not> warping W" "defer_on W = 0" "holds ''LIGHTING.ON'' line" "before closing line = Some p"
    and "u32RampTimeScene t = 0" "u32DwellTimeScene t = 0"
    and "0 \<le> (if EventID t = 0 then Global_EventID t else EventID t)"
    and "(if EventID t = 0 then Global_EventID t else EventID t) < 1000000000"
  defines "l \<equiv> p @ event_key @ show_int (if EventID t = 0 then Global_EventID t else EventID t) @ closing"
  shows "exec_line W False ms line (t, d) = Some (Go (finish_line ms l (runs W l)
    (emit (Run l) (if EventID t = 0 then t else t\<lparr>Global_EventID := 0\<rparr>)), d))"
  using assms(1-7) fmt_ld_small[OF assms(8,9)]
  by (simp add: exec_line_def prepare_def lighting_def amend_def times_text_def l_def Let_def)


text \<open>A row with one lighting command.\<close>

lemma lighting_row:
  assumes "\<not> execute_com W" "\<not> warping W" "defer_on W = 0" "list_all (\<lambda>x. runs W x) [p @ event_key @ show_int ev @ closing]"
    and "string_of (item_cs W row ''DeviceId'') = Some (Deviceid t)" "row_methods W row = [JStr line]"
    and "holds ''LIGHTING.ON'' line" "before closing line = Some p"
    and "u32RampTimeScene t = 0" "u32DwellTimeScene t = 0"
    and "ev = (if EventID t = 0 then Global_EventID t else EventID t)" "0 \<le> ev" "ev < 1000000000"
  obtains t' where "exec_row W False row t = Some (Go (t', False))"
    "ran t' = ran t @ [p @ event_key @ show_int ev @ closing]" "Script_ID_cnt t' = Script_ID_cnt t - 1" "exe_que t' = exe_que t"
    "Deviceid t' = Deviceid t" "u32RampTimeScene t' = 0" "u32DwellTimeScene t' = 0" "EventID t' = EventID t"
    "Global_EventID t' = (if EventID t = 0 then Global_EventID t else 0)" "Event_execute_flag t'"
proof -
  let ?t = "t\<lparr>device_ID_found := True\<rparr>"
  have ne: "line \<noteq> []" using assms(7) by (auto simp: holds_def)
  have "exec_line W False [JStr line] line (?t, False) = Some (Go (finish_line [JStr line] (p @ event_key @ show_int ev @ closing) True
      (emit (Run (p @ event_key @ show_int ev @ closing)) (if EventID t = 0 then ?t else ?t\<lparr>Global_EventID := 0\<rparr>)), False))"
    using lighting_on[OF assms(1-3,7,8), of ?t "[JStr line]" False] assms(4,9-13)
    by (cases "EventID t = 0") simp_all
  then show ?thesis using that assms(5,6,9,10) ne by (simp add: exec_row_def split: if_splits)
qed

lemma second_row_event:
  assumes "\<not> execute_com W" "\<not> warping W" "defer_on W = 0"
    and "runs W (p1 @ event_key @ show_int ev @ closing)" "runs W (p2 @ event_key @ ''0'' @ closing)"
    and "parse W m1 = Some r1" "parse W m2 = Some r2"
    and "string_of (item_cs W r1 ''DeviceId'') = Some (Deviceid t)" "row_methods W r1 = [JStr l1]"
    and "string_of (item_cs W r2 ''DeviceId'') = Some (Deviceid t)" "row_methods W r2 = [JStr l2]"
    and "holds ''LIGHTING.ON'' l1" "before closing l1 = Some p1" "holds ''LIGHTING.ON'' l2" "before closing l2 = Some p2"
    and "u32RampTimeScene t = 0" "u32DwellTimeScene t = 0" "EventID t = ev" "0 < ev" "ev < 1000000000"
    and "Script_ID_cnt t = 2" "exe_que t = [Some m1, Some m2]"
  shows "\<exists>t'. run_rows W False epoch tm t = Some (Go t') \<and>
    ran t' = ran t @ [p1 @ event_key @ show_int ev @ closing, p2 @ event_key @ ''0'' @ closing]"
proof -
  have z: "show_int 0 = ''0''" unfolding show_int_def by (simp, subst show_nat.simps) (simp add: digit_zero)
  let ?t1 = "t\<lparr>exe_que := [Some m2]\<rparr>"
  obtain t1 where a: "exec_row W False r1 ?t1 = Some (Go (t1, False))"
    "ran t1 = ran ?t1 @ [p1 @ event_key @ show_int ev @ closing]" "Script_ID_cnt t1 = Script_ID_cnt ?t1 - 1" "exe_que t1 = exe_que ?t1"
    "Deviceid t1 = Deviceid ?t1" "u32RampTimeScene t1 = 0" "u32DwellTimeScene t1 = 0" "EventID t1 = EventID ?t1"
    "Global_EventID t1 = (if EventID ?t1 = 0 then Global_EventID ?t1 else 0)" "Event_execute_flag t1"
    by (rule lighting_row[of W p1 ev r1 ?t1 l1]) (use assms in simp_all)
  let ?s = "report epoch tm (t1, False)"
  have s: "EventID ?s = 0" "Global_EventID ?s = 0" "u32RampTimeScene ?s = 0" "u32DwellTimeScene ?s = 0" "Deviceid ?s = Deviceid t"
    "exe_que ?s = [Some m2]" "Script_ID_cnt ?s = 1" "ran ?s = ran t @ [p1 @ event_key @ show_int ev @ closing]"
    using a assms by (simp_all add: report_def)
  let ?s1 = "?s\<lparr>exe_que := []\<rparr>"
  obtain t2 where b: "exec_row W False r2 ?s1 = Some (Go (t2, False))"
    "ran t2 = ran ?s1 @ [p2 @ event_key @ show_int 0 @ closing]" "Script_ID_cnt t2 = Script_ID_cnt ?s1 - 1"
    by (rule lighting_row[of W p2 0 r2 ?s1 l2]) (use assms s z in simp_all)
  have "run_rows W False epoch tm t = run_rows W False epoch tm ?s"
    using assms a(1) by (subst run_rows.simps) (simp add: get_def)
  also have "\<dots> = run_rows W False epoch tm (report epoch tm (t2, False))"
    using assms(7) b(1) s by (subst run_rows.simps) (simp add: get_def)
  also have "\<dots> = Some (Go (report epoch tm (t2, False)))" using b(3) s by (subst run_rows.simps) simp
  finally show ?thesis using b(2) s z by simp
qed


section \<open>Looking members up\<close>

lemma lower_keys:
  "lower ''ScriptID'' = ''scriptid''" "lower ''ScriptId'' = ''scriptid''" "lower ''Event_ID'' = ''event_id''"
  "lower ''ActionIndex'' = ''actionindex''" "lower ''DEVICEID'' = ''deviceid''" "lower ''RampTime'' = ''ramptime''"
  "lower ''Duration'' = ''duration''" "lower ''Override_Sport'' = ''override_sport''" "lower ''NotToExecute'' = ''nottoexecute''"
  "lower ''Start_Epoch'' = ''start_epoch''" "lower ''Local_Time'' = ''local_time''"
  by code_simp+

lemma scheduled_job_read:
  assumes "item_ci W = ci_item" "sched_typed e" "EventId e < 2 ^ 31" "length (Deviceid t) < 32"
  shows "read_job W (scheduled_job e tm epoch) t = Go (t\<lparr>u16ScriptID := ScriptID e, u8ActionIndex_avl_local := False,
     u16ScriptID_11 := ScriptID e, EventID := EventId e, OverrideSportVal := OverrideSport e\<rparr>)"
proof -
  have r: "0 \<le> ScriptID e" "ScriptID e < 65536" "0 \<le> EventId e" "0 \<le> OverrideSport e" "OverrideSport e < 256"
    using assms(2) by (simp_all add: sched_typed_def)
  have k: "ci_item (scheduled_job e tm epoch) ''ScriptID'' = Some (JNum (of_int (ScriptID e)))"
    "ci_item (scheduled_job e tm epoch) ''Event_ID'' = Some (JNum (of_int (EventId e)))"
    "ci_item (scheduled_job e tm epoch) ''Override_Sport'' = Some (JNum (of_int (OverrideSport e)))"
    "ci_item (scheduled_job e tm epoch) ''ActionIndex'' = None" "ci_item (scheduled_job e tm epoch) ''DEVICEID'' = None"
    "ci_item (scheduled_job e tm epoch) ''RampTime'' = None" "ci_item (scheduled_job e tm epoch) ''Duration'' = None"
    by (simp_all add: ci_item_def scheduled_job_def lower_keys)
  have v: "value_int (of_int (ScriptID e)) = ScriptID e" "value_int (of_int (EventId e)) = EventId e"
    "value_int (of_int (OverrideSport e)) = OverrideSport e"
    using r assms(3) by (simp_all add: value_int_of_int)
  have u: "wrap_u 16 (ScriptID e) = ScriptID e" "wrap_u 32 (EventId e) = EventId e" "wrap_u 8 (OverrideSport e) = OverrideSport e"
    using r assms(3) by (simp_all add: wrap_u_id)
  show ?thesis using assms(4) by (simp add: read_job_def number_in_def number_of_def string_of_def assms(1) k v u Let_def)
qed

section \<open>A concrete world\<close>

text \<open>Texts of the demonstration: a count, two rows, and the commands of each row.\<close>

definition demo_parse :: "string list \<Rightarrow> string list \<Rightarrow> string \<Rightarrow> json option" where
  "demo_parse cs1 cs2 m = (if m = ''count'' then Some (JObj [(''COUNT()'', JStr ''2'')])
     else if m = ''row1'' then Some (JObj [(''DeviceId'', JStr ''D1''), (''Command'', JStr ''cmd1'')])
     else if m = ''row2'' then Some (JObj [(''DeviceId'', JStr ''D1''), (''Command'', JStr ''cmd2'')])
     else if m = ''cmd1'' then Some (JObj [(''methods'', JArr (map JStr cs1))])
     else if m = ''cmd2'' then Some (JObj [(''methods'', JArr (map JStr cs2))]) else None)"

definition demo_world :: "string list \<Rightarrow> string list \<Rightarrow> world" where
  "demo_world cs1 cs2 = \<lparr>parse = demo_parse cs1 cs2, item_ci = ci_item, item_cs = cs_item,
     db = (\<lambda>q. case q of Count n \<Rightarrow> [Some ''count''] | Script_rows n \<Rightarrow> [Some ''row1'', Some ''row2''] | Action_rows n \<Rightarrow> []),
     runs = (\<lambda>s. s \<noteq> ''BAD({})''), local_ms = 0, defer_on = 0, defer_off = 0, warping = False, execute_com = False, enabled = True\<rparr>"

definition demo_task :: task where
  "demo_task = \<lparr>u16ScriptID = 7, u16ScriptID_11 = 7, u16ActionIndex = 0, u8ActionIndex_avl_local = False, Deviceid = ''D1'',
     u32RampTimeScene = 0, u32DwellTimeScene = 0, EventID = 5, OverrideSportVal = 0, device_ID_found = False,
     Event_execute_flag = False, Script_ID_cnt = 0, Command_Array = None, Global_EventID = 0, exe_que = [], exe_outs = []\<rparr>"

definition demo_rows :: "json list" where
  "demo_rows = [JObj [(''DeviceId'', JStr ''D1''), (''Command'', JStr ''cmd1'')], JObj [(''DeviceId'', JStr ''D1''), (''Command'', JStr ''cmd2'')]]"

lemma demo_row_methods:
  "row_methods (demo_world cs1 cs2) (JObj [(''DeviceId'', JStr ''D1''), (''Command'', JStr ''cmd1'')]) = map JStr cs1"
  "row_methods (demo_world cs1 cs2) (JObj [(''DeviceId'', JStr ''D1''), (''Command'', JStr ''cmd2'')]) = map JStr cs2"
  by (simp_all add: row_methods_def demo_world_def cs_item_def demo_parse_def string_of_def)

lemma demo_commands:
  "list_all (\<lambda>s. s \<noteq> []) cs1 \<Longrightarrow> commands (demo_world cs1 cs2) (demo_rows ! 0) = cs1"
  "list_all (\<lambda>s. s \<noteq> []) cs2 \<Longrightarrow> commands (demo_world cs1 cs2) (demo_rows ! 1) = cs2"
proof -
  have "list_all (\<lambda>s. s \<noteq> []) cs \<Longrightarrow> concat (map (\<lambda>e. case e of JStr s \<Rightarrow> if s = [] then [] else [s] | _ \<Rightarrow> []) (map JStr cs)) = cs" for cs
    by (induction cs) auto
  then show "list_all (\<lambda>s. s \<noteq> []) cs1 \<Longrightarrow> commands (demo_world cs1 cs2) (demo_rows ! 0) = cs1"
    "list_all (\<lambda>s. s \<noteq> []) cs2 \<Longrightarrow> commands (demo_world cs1 cs2) (demo_rows ! 1) = cs2"
    by (simp_all add: commands_def demo_rows_def demo_row_methods)
qed

lemma demo_script:
  assumes "list_all (\<lambda>s. s \<noteq> [] \<and> plain s) cs1" "list_all (\<lambda>s. s \<noteq> [] \<and> plain s) cs2"
  shows "script_in_db (demo_world cs1 cs2) demo_task [''row1'', ''row2''] demo_rows"
proof -
  have n: "list_all (\<lambda>s. s \<noteq> []) cs1" "list_all (\<lambda>s. s \<noteq> []) cs2" "list_all plain cs1" "list_all plain cs2"
    using assms by (auto simp: list_all_iff)
  have c: "count_in (demo_world cs1 cs2) (JObj [(''COUNT()'', JStr ''2'')]) = 2"
  proof -
    have "strtol ''2'' = 2" by code_simp
    moreover have "lower ''COUNT()'' = lower ''COUNT()''" by simp
    ultimately show ?thesis by (simp add: count_in_def demo_world_def ci_item_def string_of_def)
  qed
  have d: "string_of (item_cs (demo_world cs1 cs2) (demo_rows ! i) ''DeviceId'') = Some ''D1''" if "i < 2" for i
    using that by (cases i) (auto simp: demo_world_def cs_item_def demo_rows_def string_of_def less_Suc_eq)
  have "plain_row (demo_world cs1 cs2) ''D1'' (demo_rows ! 0)" "plain_row (demo_world cs1 cs2) ''D1'' (demo_rows ! 1)"
    using d n by (simp_all add: plain_row_def demo_commands del: One_nat_def)
  then have "list_all (plain_row (demo_world cs1 cs2) ''D1'') demo_rows" by (simp add: demo_rows_def)
  then show ?thesis
    using c by (simp add: script_in_db_def direct_def demo_task_def demo_world_def[of cs1 cs2] demo_parse_def) (simp add: demo_rows_def)
qed


section \<open>Properties\<close>

text \<open>C4: Executing a script whose rows are plain commands of this device refines the counting specification: the task runs, in order,
  the commands of the rows it takes until the successes use up the number of rows, leaves the other rows in its queue,
  and never returns when the rows end first.\<close>

theorem script_execution_refines:
  assumes "script_in_db W t ms rows" "\<not> not_to_execute W j"
  shows "case rows_done (int (length rows)) (map (gain W) rows) of
      None \<Rightarrow> exec_script W j t = None
    | Some k \<Rightarrow> \<exists>t'. exec_script W j t = Some (Go t') \<and> exe_que t' = map Some (drop k ms) \<and>
        ran t' = ran t @ concat (map (commands W) (take k rows))"
  by (rule exec_script_spec[OF assms])

lemma plain_demo: "list_all (\<lambda>s. s \<noteq> [] \<and> plain s) [''A({})'', ''B({})'', ''BAD({})'']"
  by code_simp

lemma demo_gain:
  "list_all (\<lambda>s. s \<noteq> []) cs1 \<Longrightarrow> list_all (\<lambda>s. s \<noteq> []) cs2 \<Longrightarrow>
   map (gain (demo_world cs1 cs2)) demo_rows =
     [length (filter (runs (demo_world cs1 cs2)) cs1), length (filter (runs (demo_world cs1 cs2)) cs2)]"
proof -
  have "map f demo_rows = [f (demo_rows ! 0), f (demo_rows ! 1)]" for f :: "json \<Rightarrow> nat" by (simp add: demo_rows_def)
  then show "list_all (\<lambda>s. s \<noteq> []) cs1 \<Longrightarrow> list_all (\<lambda>s. s \<noteq> []) cs2 \<Longrightarrow> ?thesis"
    by (simp add: gain_def demo_commands del: One_nat_def)
qed

lemma script_execution_refines_witness:
  "case rows_done (int (length demo_rows)) (map (gain (demo_world [''A({})''] [''B({})''])) demo_rows) of
      None \<Rightarrow> exec_script (demo_world [''A({})''] [''B({})'']) JNull demo_task = None
    | Some k \<Rightarrow> \<exists>t'. exec_script (demo_world [''A({})''] [''B({})'']) JNull demo_task = Some (Go t') \<and>
        exe_que t' = map Some (drop k [''row1'', ''row2'']) \<and>
        ran t' = ran demo_task @ concat (map (commands (demo_world [''A({})''] [''B({})''])) (take k demo_rows))"
  by (rule script_execution_refines[OF demo_script])
    (use plain_demo in \<open>simp_all add: not_to_execute_def number_in_def number_of_def demo_world_def ci_item_def\<close>)

text \<open>C27: When fewer commands of a script succeed than it has rows (a command fails, or a row has none), the task waits for
  rows that do not come and never returns; it holds the mutex of the scheduler meanwhile.\<close>

theorem failing_command_never_returns:
  assumes "script_in_db W t ms rows" "\<not> not_to_execute W j" "sum_list (map (gain W) rows) < length rows"
  shows "exec_script W j t = None"
proof -
  have "rows_done (int (length rows)) (map (gain W) rows) = None" using assms(3) by (intro rows_done_short) simp
  then show ?thesis using exec_script_spec[OF assms(1,2)] by simp
qed

lemma failing_command_never_returns_witness:
  "exec_script (demo_world [''A({})''] [''BAD({})'']) JNull demo_task = None"
  by (rule failing_command_never_returns[OF demo_script])
    (use plain_demo in \<open>simp_all add: demo_gain, simp_all add: not_to_execute_def number_in_def number_of_def demo_world_def ci_item_def demo_rows_def\<close>)

text \<open>When the first row alone has as many successful commands as the script has rows, the other rows are never run, and the
  next script reads the second row as the answer to its count and runs nothing.\<close>

theorem surplus_command_shifts_answers:
  assumes "script_in_db W t ms rows" "\<not> not_to_execute W j" "rows = r1 # r2 # rs"
    and "length rows \<le> gain W r1" "item_ci W r2 ''COUNT()'' = None"
  shows "\<exists>t1 t2. exec_script W j t = Some (Go t1) \<and> ran t1 = ran t @ commands W r1 \<and>
    exec_script W j' t1 = Some (Go t2) \<and> ran t2 = ran t1"
proof -
  have "rows_done (int (length rows)) (map (gain W) rows) = Some 1" using assms(3,4) by (simp del: One_nat_def add: rows_done_first)
  then obtain t1 where t1: "exec_script W j t = Some (Go t1)" "exe_que t1 = map Some (drop 1 ms)" "ran t1 = ran t @ commands W r1"
    using exec_script_spec[OF assms(1,2)] assms(3) by auto
  obtain m1 m2 ms' where "ms = m1 # m2 # ms'" "parse W m2 = Some r2"
    using assms(1,3) by (auto simp: script_in_db_def list_all2_Cons2)
  then show ?thesis using exec_script_no_count[of t1 m2 _ W r2 j'] t1 assms(5) by auto
qed

lemma surplus_command_shifts_answers_witness:
  "\<exists>t1 t2. exec_script (demo_world [''A({})'', ''B({})''] [''A({})'']) JNull demo_task = Some (Go t1) \<and>
     ran t1 = ran demo_task @ commands (demo_world [''A({})'', ''B({})''] [''A({})'']) (demo_rows ! 0) \<and>
     exec_script (demo_world [''A({})'', ''B({})''] [''A({})'']) JNull t1 = Some (Go t2) \<and> ran t2 = ran t1"
proof -
  have g: "gain (demo_world [''A({})'', ''B({})''] [''A({})'']) (demo_rows ! 0) = 2"
    using demo_gain[of "[''A({})'', ''B({})'']" "[''A({})'']"] by (simp add: demo_rows_def) (simp add: demo_world_def)
  show ?thesis
    by (rule surplus_command_shifts_answers[OF demo_script, where ?r1.0 = "demo_rows ! 0" and ?r2.0 = "demo_rows ! 1" and rs = "[]"])
      (use plain_demo g in \<open>simp_all add: demo_rows_def\<close>,
       simp_all add: not_to_execute_def number_in_def number_of_def demo_world_def ci_item_def lower_def lower_char_def)
qed

text \<open>Of an event whose script has two rows with a lighting command each, only the first command carries the number of the
  event; the second goes out with event number 0.\<close>

theorem second_row_loses_event:
  assumes "\<not> execute_com W" "\<not> warping W" "defer_on W = 0"
    and "runs W (p1 @ event_key @ show_int ev @ closing)" "runs W (p2 @ event_key @ ''0'' @ closing)"
    and "parse W m1 = Some r1" "parse W m2 = Some r2"
    and "string_of (item_cs W r1 ''DeviceId'') = Some (Deviceid t)" "row_methods W r1 = [JStr l1]"
    and "string_of (item_cs W r2 ''DeviceId'') = Some (Deviceid t)" "row_methods W r2 = [JStr l2]"
    and "holds ''LIGHTING.ON'' l1" "before closing l1 = Some p1" "holds ''LIGHTING.ON'' l2" "before closing l2 = Some p2"
    and "u32RampTimeScene t = 0" "u32DwellTimeScene t = 0" "EventID t = ev" "0 < ev" "ev < 1000000000"
    and "Script_ID_cnt t = 2" "exe_que t = [Some m1, Some m2]"
  shows "\<exists>t'. run_rows W False epoch tm t = Some (Go t') \<and>
    ran t' = ran t @ [p1 @ event_key @ show_int ev @ closing, p2 @ event_key @ ''0'' @ closing]"
  by (rule second_row_event[OF assms])

lemma second_row_loses_event_witness:
  "\<exists>t'. run_rows (demo_world [''LIGHTING.ON({})''] [''LIGHTING.ON({\"Z\":2})'']) False 0 []
      (demo_task\<lparr>Script_ID_cnt := 2, exe_que := [Some ''row1'', Some ''row2'']\<rparr>) = Some (Go t') \<and>
    ran t' = ran (demo_task\<lparr>Script_ID_cnt := 2, exe_que := [Some ''row1'', Some ''row2'']\<rparr>) @
      [''LIGHTING.ON({'' @ event_key @ show_int 5 @ closing, ''LIGHTING.ON({\"Z\":2'' @ event_key @ ''0'' @ closing]"
proof -
  have t: "holds ''LIGHTING.ON'' ''LIGHTING.ON({})''" "before closing ''LIGHTING.ON({})'' = Some ''LIGHTING.ON({''"
    "holds ''LIGHTING.ON'' ''LIGHTING.ON({\"Z\":2})''" "before closing ''LIGHTING.ON({\"Z\":2})'' = Some ''LIGHTING.ON({\"Z\":2''"
    by code_simp+
  let ?W = "demo_world [''LIGHTING.ON({})''] [''LIGHTING.ON({\"Z\":2})'']"
  have b: "runs ?W (''LIGHTING.ON({'' @ s)" "runs ?W (''LIGHTING.ON({\"Z\":2'' @ s)" for s by (simp_all add: demo_world_def)
  show ?thesis
    by (rule second_row_loses_event[where ?r1.0 = "demo_rows ! 0" and ?r2.0 = "demo_rows ! 1" and ?l1.0 = "''LIGHTING.ON({})''"
          and ?l2.0 = "''LIGHTING.ON({\"Z\":2})''" and ?m1.0 = "''row1''" and ?m2.0 = "''row2''"])
      (use t b demo_row_methods[of "[''LIGHTING.ON({})'']" "[''LIGHTING.ON({\"Z\":2})'']"] in
        \<open>simp_all add: demo_task_def demo_rows_def\<close>, simp_all add: demo_world_def demo_parse_def cs_item_def string_of_def)
qed

text \<open>The job the scheduler queues for an entry gives the executor the script, the event and the override, but neither ramp time
  nor duration: those stay what an earlier job left.\<close>

theorem scheduled_ramp_lost:
  assumes "item_ci W = ci_item" "sched_typed e" "EventId e < 2 ^ 31" "length (Deviceid t) < 32"
  shows "\<exists>t'. read_job W (scheduled_job e tm epoch) t = Go t' \<and> u16ScriptID t' = ScriptID e \<and> EventID t' = EventId e \<and>
    OverrideSportVal t' = OverrideSport e \<and>
    u32RampTimeScene t' = u32RampTimeScene t \<and> u32DwellTimeScene t' = u32DwellTimeScene t"
  using scheduled_job_read[OF assms] by simp

lemma scheduled_ramp_lost_witness:
  "\<exists>t'. read_job (demo_world [] []) (scheduled_job (sched_zero\<lparr>ScriptID := 7, EventId := 5, RampTime := 60\<rparr>) ''t'' 0) demo_task = Go t' \<and>
    u16ScriptID t' = ScriptID (sched_zero\<lparr>ScriptID := 7, EventId := 5, RampTime := 60\<rparr>) \<and>
    EventID t' = EventId (sched_zero\<lparr>ScriptID := 7, EventId := 5, RampTime := 60\<rparr>) \<and>
    OverrideSportVal t' = OverrideSport (sched_zero\<lparr>ScriptID := 7, EventId := 5, RampTime := 60\<rparr>) \<and>
    u32RampTimeScene t' = u32RampTimeScene demo_task \<and> u32DwellTimeScene t' = u32DwellTimeScene demo_task"
  by (rule scheduled_ramp_lost) (simp_all add: demo_world_def sched_typed_def sched_zero_def demo_task_def)

end
