(* ===== verification/Led.thy ===== *)
theory Led
  imports Json_Data
begin

text \<open>
  The indicator of three lamps (main/LED_Actor.c, built for the board B394): the named states and their blink patterns, states that
  last for a time and give way to the one before, and the slow ramp that shows a radio without connection.  The
  task's turn (update_blink_state) reads the clock; a turn is given its readings.  The colour of the changing pattern is computed in
  floating point; its three bytes are an argument of the turn.
\<close>

section \<open>State\<close>

datatype lamp = Red | Green | Blue
datatype led_write = Duty lamp int | Delay int

record led =
  blink_state :: int
  prev_blink_state :: int
  prev_blink_state_2 :: int
  led_until :: int
  category :: string
  BLE_LED_Status :: int
  ble_count :: int
  rampStartTime :: int

text \<open>What one turn finds: the clock before and after its pattern, the clock at the start of the ramp of the hold warning and at each
  of its steps (the reading that is tested and the one that is used), the same for the flashes, and the bytes of red, green and blue
  that the colour pattern has computed.\<close>

record led_env =
  clock :: int
  clock_after :: int
  ramp_start :: int
  ramp_reads :: "(int \<times> int) list"
  flash_start :: int
  flash_reads :: "int list"
  pattern_rgb :: "8 word \<times> 8 word \<times> 8 word"

section \<open>Names of states\<close>

definition led_names :: "(string \<times> int) list" where
  "led_names = [(''OFF'', 0), (''1-blink'', 1), (''2-blink'', 2), (''3-blink'', 3), (''4-blink'', 4), (''5-blink'', 5),
     (''6-blink'', 6), (''7-blink'', 7), (''8-blink'', 8), (''9-blink'', 9), (''10-blink'', 10), (''SOLID'', 11),
     (''CHASE'', 12), (''BLE Mode'', 13), (''Upload'', 14), (''Download'', 15), (''Hold Warning'', 16), (''3 Flash'', 17),
     (''SOLID Message'', 18), (''REBOOT_MODE'', 19), (''NET CONNECTED'', 20)]"

definition LED_FULLON :: int where "LED_FULLON = 11"
definition LED_CHASE :: int where "LED_CHASE = 12"
definition LED_BLE_MODE :: int where "LED_BLE_MODE = 13"
definition LED_UPLOAD :: int where "LED_UPLOAD = 14"
definition LED_DOWNLOAD :: int where "LED_DOWNLOAD = 15"
definition LED_HOLD_WARNING :: int where "LED_HOLD_WARNING = 16"
definition LED_THREE_FLASH :: int where "LED_THREE_FLASH = 17"
definition LED_SOLID_MESSAGE :: int where "LED_SOLID_MESSAGE = 18"
definition LED_REBOOT :: int where "LED_REBOOT = 19"
definition LED_NET_CONNECTED :: int where "LED_NET_CONNECTED = 20"

definition ConvertStateNameToInt :: "string \<Rightarrow> int" where
  "ConvertStateNameToInt s = (case map_of led_names s of Some n \<Rightarrow> n | None \<Rightarrow> - 1)"

section \<open>Patterns\<close>

definition all_lamps :: "int \<Rightarrow> led_write list" where
  "all_lamps d = [Duty Green d, Duty Red d, Duty Blue d]"

text \<open>The percentage is cut to 100 and scaled to ten bits.\<close>

definition chase_mode :: "int \<Rightarrow> int \<Rightarrow> led_write list" where
  "chase_mode duty wait = (let d = 1023 * min duty 100 div 100 in
     [Duty Red d, Duty Green d, Duty Blue d, Delay wait, Duty Red 0, Duty Green 0, Duty Blue 0, Delay wait])"

text \<open>Times are unsigned numbers of 64 bits, the duty is an int.\<close>

definition ramp_duty :: "int \<Rightarrow> int \<Rightarrow> int" where
  "ramp_duty rampDuration elapsed = wrap_s 32 (wrap_u 64 (elapsed * 500) div rampDuration)"

definition handleRampAndFlash :: "int \<Rightarrow> int \<Rightarrow> int \<Rightarrow> led_env \<Rightarrow> led_write list" where
  "handleRampAndFlash rampDuration flashDuration wait E = (let since = (\<lambda>start t. wrap_u 64 (t - start));
       steps = takeWhile (\<lambda>r. since (ramp_start E) (fst r) < rampDuration) (ramp_reads E);
       flashes = takeWhile (\<lambda>t. since (flash_start E) t < flashDuration) (flash_reads E) in
     all_lamps 0 @ [Delay 100] @
     concat (map (\<lambda>r. all_lamps (ramp_duty rampDuration (since (ramp_start E) (snd r))) @ [Delay 10]) steps) @
     concat (map (\<lambda>i. all_lamps (if even i then 1000 else 0) @ [Delay wait]) [0..<length flashes]) @ all_lamps 0)"

text \<open>The pattern of changing colours writes the bytes of the three colours.\<close>

definition pattern_mode :: "8 word \<times> 8 word \<times> 8 word \<Rightarrow> led_write list" where
  "pattern_mode rgb = (case rgb of (red, green, blue) \<Rightarrow> [Duty Red (uint red), Duty Green (uint green), Duty Blue (uint blue)])"

definition handleBlinkStates :: "led_env \<Rightarrow> int \<Rightarrow> int \<Rightarrow> led \<Rightarrow> led \<times> led_write list" where
  "handleBlinkStates E state duty l =
    (if state = LED_CHASE then (l, [Duty Red 0] @ chase_mode 1000 300 @ [Delay 300])
     else if state = LED_BLE_MODE then (l, [])
     else if state = LED_UPLOAD \<or> state = LED_DOWNLOAD then (l, pattern_mode (pattern_rgb E))
     else if state = LED_HOLD_WARNING then (l, handleRampAndFlash 3000 1000 250 E)
     else if state = LED_THREE_FLASH then (l, [])
     else if state = LED_REBOOT then (l, [Duty Green 0, Duty Blue 0, Duty Red 500])
     else if state = LED_NET_CONNECTED then (l, [])
     else if state = LED_SOLID_MESSAGE then (l\<lparr>blink_state := prev_blink_state l\<rparr>,
       [Duty Green 1000, Duty Blue 1000, Duty Red 1000, Delay 200, Duty Green 0, Duty Blue 0, Duty Red 0])
     else if state = 0 then (l, [Duty Blue 0, Duty Green 0, Duty Red 0])
     else if state = 1 then (l, [Duty Blue duty, Duty Green 0, Duty Red 0])
     else if state = 2 \<or> state = 3 then (l, [Duty Blue 0, Duty Red duty, Duty Green 0])
     else if state = 4 then (l, [Duty Blue 0, Duty Green 0, Duty Red duty])
     else if 5 \<le> state \<and> state \<le> 10 then
       (l, [Duty Blue 0, Duty Green duty, Duty Red (if category l = ''iHUB'' then 0 else duty)])
     else if state = LED_FULLON then (l, [Duty Blue 100, Duty Green 100, Duty Red 100])
     else (l, [Duty Blue duty]))"

text \<open>The cycle of six seconds has ten periods of 600 ms; a state blinks in the first of them, half a period each.\<close>

definition num_blinks :: "int \<Rightarrow> int" where
  "num_blinks state = (if 1 \<le> state \<and> state \<le> 12 then state else 0)"

definition blink_duty :: "int \<Rightarrow> int \<Rightarrow> int" where
  "blink_duty state now = (let t = now mod 6000 in
     if state = LED_FULLON \<or> t div 600 < num_blinks state \<and> t mod 600 < 300 then 1000 else 0)"

definition expire :: "int \<Rightarrow> led \<Rightarrow> led \<times> led_write list" where
  "expire now l = (if led_until l < now \<and> 0 < led_until l \<and> prev_blink_state l \<noteq> blink_state l \<and> blink_state l \<noteq> LED_FULLON
     then (l\<lparr>blink_state := prev_blink_state l\<rparr>, [Duty Red 0, Duty Green 0, Duty Blue 0]) else (l, []))"

definition control_led :: "led_env \<Rightarrow> led \<Rightarrow> led \<times> led_write list" where
  "control_led E l = (let (l1, ws1) = handleBlinkStates E (blink_state l) (blink_duty (blink_state l) (clock E)) l;
     (l2, ws2) = expire (clock_after E) l1 in (l2, ws1 @ ws2))"

section \<open>The ramp of the radio\<close>

definition ramp_up :: "int \<Rightarrow> int \<Rightarrow> int" where
  "ramp_up duration elapsed = min elapsed duration * 1000 div duration"

definition ramp_down :: "int \<Rightarrow> int \<Rightarrow> int" where
  "ramp_down duration elapsed = 1000 - min elapsed duration * 1000 div duration"

text \<open>The difference of the times is unsigned.\<close>

definition BLE_LED_RampCycle :: "int \<Rightarrow> int \<Rightarrow> led \<Rightarrow> led \<times> led_write list" where
  "BLE_LED_RampCycle cycle now l = (let cur = now mod cycle;
     start = (if rampStartTime l = 0 then cur else rampStartTime l);
     elapsed = wrap_u 64 (cur - start); half = cycle div 2; l1 = l\<lparr>rampStartTime := start\<rparr> in
     if elapsed < half then (l1, [Duty Blue (ramp_up half elapsed)])
     else if elapsed < cycle then (l1, [Duty Blue (ramp_down half (elapsed - half))])
     else (l1\<lparr>rampStartTime := cur\<rparr>, []))"

text \<open>One turn of the task.\<close>

definition update_blink_state :: "led_env \<Rightarrow> led \<Rightarrow> led \<times> led_write list" where
  "update_blink_state E l = (let (l1, ws1) = control_led E l;
     (l2, ws2) = (if BLE_LED_Status l1 = 1 then
         (if 5 \<le> ble_count l1 then (let (l', w) = BLE_LED_RampCycle 4000 (clock_after E) l1 in (l'\<lparr>ble_count := 0\<rparr>, w))
          else (l1\<lparr>ble_count := ble_count l1 + 1\<rparr>, []))
       else if BLE_LED_Status l1 = 2 then (l1\<lparr>ble_count := 0\<rparr>, [Duty Blue 1000])
       else if BLE_LED_Status l1 = 0 then (l1\<lparr>ble_count := 0\<rparr>, []) else (l1, [])) in
     (l2, ws1 @ ws2 @ [Delay 20]))"

section \<open>Messages\<close>

text \<open>A message may end the task (it is not JSON) or overrun a buffer (a name or a category of 30 characters).\<close>

datatype led_result = Shows led | Ended | Overran

definition transient :: "int \<Rightarrow> bool" where
  "transient s \<longleftrightarrow> s \<in> {LED_UPLOAD, LED_DOWNLOAD, LED_THREE_FLASH, LED_SOLID_MESSAGE, LED_REBOOT, LED_NET_CONNECTED, 1}"

text \<open>The states are kept in eight bits, so the number of an unknown name becomes 255.\<close>

definition set_state :: "int \<Rightarrow> led \<Rightarrow> led" where
  "set_state n l = (if n = LED_BLE_MODE then l\<lparr>BLE_LED_Status := 1\<rparr>
     else (let l1 = (if transient (prev_blink_state l) then l else l\<lparr>prev_blink_state_2 := prev_blink_state l\<rparr>);
       l2 = (if blink_state l1 = LED_SOLID_MESSAGE then l1 else l1\<lparr>prev_blink_state := blink_state l1\<rparr>) in
       l2\<lparr>blink_state := wrap_u 8 n\<rparr>))"

definition set_duration :: "int \<Rightarrow> int \<Rightarrow> led \<Rightarrow> led" where
  "set_duration now d l = l\<lparr>led_until := (if 0 < d then wrap_s 64 (wrap_s 32 (d * 1000) + now) else - 1)\<rparr>"

definition SetLEDState :: "item \<Rightarrow> int \<Rightarrow> json option \<Rightarrow> led \<Rightarrow> led_result" where
  "SetLEDState item now msg l = (case msg of None \<Rightarrow> Ended
   | Some j \<Rightarrow> (let name = string_of (item j ''stateName''); cat = string_of (item j ''category'');
       l1 = (case name of Some s \<Rightarrow> set_state (ConvertStateNameToInt s) l | None \<Rightarrow> l);
       l2 = (case number_in item j ''duration'' of Some d \<Rightarrow> set_duration now d l1 | None \<Rightarrow> l1);
       c = (case cat of Some s \<Rightarrow> s | None \<Rightarrow> ''none'') in
       if (case name of Some s \<Rightarrow> 30 \<le> length s | None \<Rightarrow> False) \<or> 30 \<le> length c then Overran
       else Shows (l2\<lparr>category := c\<rparr>)))"

definition restore_state :: "int \<Rightarrow> led \<Rightarrow> led" where
  "restore_state now l = (let l1 = l\<lparr>led_until := wrap_s 64 now\<rparr> in
     if prev_blink_state_2 l1 \<noteq> 0 then l1\<lparr>prev_blink_state := prev_blink_state_2 l1, prev_blink_state_2 := 0\<rparr> else l1)"

datatype led_event = Turn led_env | Restore int | Stop_ble | Ble_connected | Ble_disconnected | Message int "json option"

text \<open>The events of the indicator in the order the tasks take them.\<close>

definition led_step :: "item \<Rightarrow> led \<Rightarrow> led_event \<Rightarrow> led \<times> led_write list" where
  "led_step item l e = (case e of Turn E \<Rightarrow> update_blink_state E l
   | Restore now \<Rightarrow> (restore_state now l, [])
   | Stop_ble \<Rightarrow> (l\<lparr>BLE_LED_Status := 0\<rparr>, [])
   | Ble_connected \<Rightarrow> (l\<lparr>BLE_LED_Status := 2\<rparr>, [])
   | Ble_disconnected \<Rightarrow> (l\<lparr>BLE_LED_Status := 1\<rparr>, [])
   | Message now msg \<Rightarrow> ((case SetLEDState item now msg l of Shows l' \<Rightarrow> l' | _ \<Rightarrow> l), []))"

section \<open>The patterns seen over time\<close>

lemma period_card: "p < 10 \<Longrightarrow> card {t::int. t div 600 = p \<and> t mod 600 < 300} = 300"
proof -
  have "{t::int. t div 600 = p \<and> t mod 600 < 300} = {600 * p..<600 * p + 300}"
  proof (intro set_eqI iffI)
    fix t :: int assume "t \<in> {t. t div 600 = p \<and> t mod 600 < 300}"
    then show "t \<in> {600 * p..<600 * p + 300}" using div_mult_mod_eq[of t 600] by (auto simp: mult.commute)
  next
    fix t :: int assume "t \<in> {600 * p..<600 * p + 300}"
    then obtain r where r: "t = r + p * 600" "0 \<le> r" "r < 300"
      by (intro that[of "t - 600 * p"]) auto
    have "t div 600 = p" "t mod 600 = r" unfolding r(1) using r(2,3) by simp_all
    then show "t \<in> {t. t div 600 = p \<and> t mod 600 < 300}" using r by simp
  qed
  then show ?thesis by simp
qed

lemma blink_time:
  assumes "1 \<le> n" "n \<le> 10"
  shows "card {t \<in> {0..<6000}. blink_duty n t = 1000} = nat (300 * n)"
proof -
  have "{t \<in> {0..<6000}. blink_duty n t = 1000} = (\<Union>p \<in> {0..<n}. {t::int. t div 600 = p \<and> t mod 600 < 300})"
  proof (intro set_eqI iffI)
    fix t assume "t \<in> {t \<in> {0..<6000}. blink_duty n t = 1000}"
    then have t: "0 \<le> t" "t < 6000" "t div 600 < n" "t mod 600 < 300"
      using assms by (auto simp: blink_duty_def LED_FULLON_def num_blinks_def Let_def split: if_splits)
    then show "t \<in> (\<Union>p \<in> {0..<n}. {t::int. t div 600 = p \<and> t mod 600 < 300})" by (simp add: pos_imp_zdiv_nonneg_iff)
  next
    fix t assume "t \<in> (\<Union>p \<in> {0..<n}. {t::int. t div 600 = p \<and> t mod 600 < 300})"
    then have d: "0 \<le> t div 600" "t div 600 < n" "t mod 600 < 300" by auto
    then have "0 \<le> t" by (simp add: pos_imp_zdiv_nonneg_iff)
    moreover have "t < 6000" using d(2) assms(2) by presburger
    ultimately show "t \<in> {t \<in> {0..<6000}. blink_duty n t = 1000}"
      using d assms by (simp add: blink_duty_def num_blinks_def Let_def)
  qed
  also have "card \<dots> = (\<Sum>p\<in>{0..<n}. card {t::int. t div 600 = p \<and> t mod 600 < 300})"
  proof (rule card_UN_disjoint)
    show "\<forall>p\<in>{0..<n}. finite {t::int. t div 600 = p \<and> t mod 600 < 300}"
      using period_card assms by (auto intro!: card_ge_0_finite)
  qed auto
  also have "\<dots> = (\<Sum>p\<in>{0..<n}. 300)" using assms by (intro sum.cong) (auto simp: period_card)
  also have "\<dots> = nat (300 * n)" using assms by (simp add: nat_mult_distrib)
  finally show ?thesis .
qed

section \<open>States that give way\<close>

lemma names_known: "map_of led_names s = Some n \<Longrightarrow> 0 \<le> n \<and> n \<le> 20"
proof -
  have "list_all (\<lambda>(s, n). 0 \<le> n \<and> n \<le> 20) led_names" by (simp add: led_names_def)
  then show "map_of led_names s = Some n \<Longrightarrow> ?thesis" by (auto simp: list_all_iff dest: map_of_SomeD)
qed

lemma handle_state:
  "state \<noteq> LED_SOLID_MESSAGE \<Longrightarrow> fst (handleBlinkStates E state d l) = l"
  by (simp add: handleBlinkStates_def)

lemma control_state:
  "blink_state l \<noteq> LED_SOLID_MESSAGE \<Longrightarrow> fst (control_led E l) = fst (expire (clock_after E) l)"
  by (simp add: control_led_def Let_def handle_state split: prod.splits) (metis fst_conv handle_state)

text \<open>The part of the state that the radio's lamp does not touch.\<close>

definition shown :: "led \<Rightarrow> int \<times> int \<times> int \<times> int" where
  "shown l = (blink_state l, prev_blink_state l, prev_blink_state_2 l, led_until l)"

lemma turn_shown: "shown (fst (update_blink_state E l)) = shown (fst (control_led E l))"
  by (simp add: update_blink_state_def shown_def BLE_LED_RampCycle_def Let_def split: prod.splits)

lemma turn_keeps:
  assumes "blink_state l \<noteq> LED_SOLID_MESSAGE" "prev_blink_state l = blink_state l \<or> clock_after E \<le> led_until l"
  shows "shown (fst (update_blink_state E l)) = shown l"
  using assms by (auto simp: turn_shown control_state expire_def)

lemma turns_keep:
  "blink_state l \<noteq> LED_SOLID_MESSAGE \<Longrightarrow> list_all (\<lambda>E. prev_blink_state l = blink_state l \<or> clock_after E \<le> led_until l) Es \<Longrightarrow>
   shown (fst (run_events (led_step item) l (map Turn Es))) = shown l"
proof (induction Es arbitrary: l)
  case (Cons E Es)
  let ?l = "fst (update_blink_state E l)"
  have "shown ?l = shown l" using Cons.prems by (intro turn_keeps) auto
  then have "blink_state ?l = blink_state l" "prev_blink_state ?l = prev_blink_state l" "led_until ?l = led_until l"
    by (simp_all add: shown_def)
  then show ?case using Cons.IH[of ?l] Cons.prems \<open>shown ?l = shown l\<close> by (simp add: led_step_def Let_def case_prod_beta)
qed simp


text \<open>A message with the name of a known state that is shown for a time.\<close>

definition timed_message :: "item \<Rightarrow> json \<Rightarrow> int \<Rightarrow> int \<Rightarrow> bool" where
  "timed_message item j n d \<longleftrightarrow> (case string_of (item j ''stateName'') of
       Some s \<Rightarrow> map_of led_names s = Some n \<and> length s < 30 | None \<Rightarrow> False) \<and>
     number_in item j ''duration'' = Some d \<and>
     (case string_of (item j ''category'') of Some c \<Rightarrow> length c < 30 | None \<Rightarrow> True)"

lemma SetLEDState_timed:
  assumes "timed_message item j n d" "n \<noteq> LED_BLE_MODE" "0 < d" "d \<le> 2147483" "0 \<le> now" "now < 2 ^ 62"
  shows "\<exists>l'. SetLEDState item now (Some j) l = Shows l' \<and> blink_state l' = n \<and>
    prev_blink_state l' = (if blink_state l = LED_SOLID_MESSAGE then prev_blink_state l else blink_state l) \<and>
    led_until l' = now + 1000 * d"
proof -
  obtain s where s: "string_of (item j ''stateName'') = Some s" "map_of led_names s = Some n" "length s < 30"
    using assms(1) by (auto simp: timed_message_def split: option.splits)
  have n: "wrap_u 8 n = n" using names_known[OF s(2)] by (simp add: wrap_u_id)
  have d: "wrap_s 32 (d * 1000) = d * 1000" using assms(3,4) by (simp add: wrap_s_def)
  have u: "wrap_s 64 (d * 1000 + now) = now + 1000 * d" using assms(3-6) by (simp add: wrap_s_def)
  have c: "ConvertStateNameToInt s = n" using s(2) by (simp add: ConvertStateNameToInt_def)
  show ?thesis
    using assms(1-3) s n d u c
    by (auto simp: timed_message_def SetLEDState_def set_state_def set_duration_def Let_def split: option.splits)
qed

lemma expire_shown: "expire now l = (if led_until l < now \<and> 0 < led_until l \<and> prev_blink_state l \<noteq> blink_state l \<and>
     blink_state l \<noteq> LED_FULLON then (l\<lparr>blink_state := prev_blink_state l\<rparr>, [Duty Red 0, Duty Green 0, Duty Blue 0]) else (l, []))"
  by (rule expire_def)

lemma message_gives_way_gen:
  assumes "timed_message item j n d" "n \<noteq> LED_BLE_MODE" "n \<noteq> LED_SOLID_MESSAGE" "n \<noteq> LED_FULLON" "0 < d" "d \<le> 2147483"
    "0 \<le> now" "now < 2 ^ 62" "blink_state l \<noteq> LED_SOLID_MESSAGE" "blink_state l \<noteq> n"
    and "list_all (\<lambda>E. clock_after E \<le> now + 1000 * d) Es" "now + 1000 * d < clock_after E"
  shows "blink_state (fst (run_events (led_step item) l (Message now (Some j) # map Turn Es))) = n"
    and "blink_state (fst (run_events (led_step item) l (Message now (Some j) # map Turn Es @ [Turn E]))) = blink_state l"
proof -
  obtain l' where l': "SetLEDState item now (Some j) l = Shows l'" "blink_state l' = n" "prev_blink_state l' = blink_state l"
    "led_until l' = now + 1000 * d"
    using SetLEDState_timed[OF assms(1,2,5-8), of l] assms(9) by auto
  let ?l2 = "fst (run_events (led_step item) l' (map Turn Es))"
  have k: "shown ?l2 = shown l'"
    using assms(3,11) l' by (intro turns_keep) (auto simp: list_all_iff)
  have r: "fst (run_events (led_step item) l (Message now (Some j) # es)) = fst (run_events (led_step item) l' es)" for es
    using l'(1) by (simp add: led_step_def Let_def case_prod_beta)
  show "blink_state (fst (run_events (led_step item) l (Message now (Some j) # map Turn Es))) = n"
    using k l'(2) unfolding r by (simp add: shown_def)
  have q: "blink_state ?l2 = n" "prev_blink_state ?l2 = blink_state l" "led_until ?l2 = now + 1000 * d"
    using k l' by (simp_all add: shown_def)
  have "shown (fst (update_blink_state E ?l2)) = shown (fst (expire (clock_after E) ?l2))"
    using q(1) assms(3) by (simp add: turn_shown control_state)
  then show "blink_state (fst (run_events (led_step item) l (Message now (Some j) # map Turn Es @ [Turn E]))) = blink_state l"
    using q assms(4,5,7,10,12) unfolding r by (auto simp: run_events_split led_step_def shown_def expire_def)
qed

lemma repeated_sticks_gen:
  assumes "timed_message item j n d" "n \<noteq> LED_BLE_MODE" "n \<noteq> LED_SOLID_MESSAGE" "0 < d" "d \<le> 2147483"
    "0 \<le> t1" "t1 < 2 ^ 62" "0 \<le> t2" "t2 < 2 ^ 62" "list_all (\<lambda>E. clock_after E \<le> t1 + 1000 * d) Es"
    "blink_state l \<noteq> LED_SOLID_MESSAGE"
  shows "blink_state (fst (run_events (led_step item) l
    (Message t1 (Some j) # map Turn Es @ Message t2 (Some j) # map Turn Es'))) = n"
proof -
  obtain l1 where l1: "SetLEDState item t1 (Some j) l = Shows l1" "blink_state l1 = n" "led_until l1 = t1 + 1000 * d"
    using SetLEDState_timed[OF assms(1,2,4-7), of l] by auto
  let ?l2 = "fst (run_events (led_step item) l1 (map Turn Es))"
  have "shown ?l2 = shown l1" using assms(3,10) l1 by (intro turns_keep) (auto simp: list_all_iff)
  then have b2: "blink_state ?l2 = n" using l1(2) by (simp add: shown_def)
  obtain l3 where l3: "SetLEDState item t2 (Some j) ?l2 = Shows l3" "blink_state l3 = n" "prev_blink_state l3 = n"
    using SetLEDState_timed[OF assms(1,2,4,5,8,9), of ?l2] b2 assms(3) by auto
  have "shown (fst (run_events (led_step item) l3 (map Turn Es'))) = shown l3"
    using assms(3) l3 by (intro turns_keep) (auto simp: list_all_iff)
  then have "blink_state (fst (run_events (led_step item) l3 (map Turn Es'))) = n" using l3(2) by (simp add: shown_def)
  moreover have "fst (run_events (led_step item) l (Message t1 (Some j) # map Turn Es @ Message t2 (Some j) # map Turn Es')) =
      fst (run_events (led_step item) l3 (map Turn Es'))"
    using l1(1) l3(1) by (simp add: led_step_def[of item l] Let_def case_prod_beta run_events_split led_step_def[of item _ "Message _ _"])
  ultimately show ?thesis by simp
qed


section \<open>Ranges\<close>

definition led_inv :: "led \<Rightarrow> bool" where
  "led_inv l \<longleftrightarrow> 0 \<le> blink_state l \<and> blink_state l < 256 \<and> 0 \<le> prev_blink_state l \<and> prev_blink_state l < 256 \<and>
     0 \<le> prev_blink_state_2 l \<and> prev_blink_state_2 l < 256 \<and> - (2 ^ 63) \<le> led_until l \<and> led_until l < 2 ^ 63 \<and>
     0 \<le> rampStartTime l \<and> rampStartTime l < 4000"

definition write_ok :: "led_write \<Rightarrow> bool" where
  "write_ok w = (case w of Duty c d \<Rightarrow> 0 \<le> d \<and> d \<le> 1023 | Delay t \<Rightarrow> 0 \<le> t)"

text \<open>Between the two readings of a step of the ramp the clock is not set and no more than three seconds pass.\<close>

definition event_ok :: "led_event \<Rightarrow> bool" where
  "event_ok e = (case e of Turn E \<Rightarrow> list_all (\<lambda>r. fst r \<le> snd r \<and> snd r \<le> fst r + 3000) (ramp_reads E) | _ \<Rightarrow> True)"

lemma wrap64: "- (2 ^ 63) \<le> wrap_s 64 x" "wrap_s 64 x < 2 ^ 63"
  using wrap_s_range[of 64 x] by simp_all

lemma expire_inv: "led_inv l \<Longrightarrow> led_inv (fst (expire now l)) \<and> list_all write_ok (snd (expire now l))"
  by (simp add: expire_def led_inv_def write_ok_def)

lemma ramp_writes: "0 \<le> e \<Longrightarrow> e < 6000 \<Longrightarrow> 0 \<le> ramp_duty 3000 e \<and> ramp_duty 3000 e \<le> 1023"
proof -
  assume e: "0 \<le> e" "e < 6000"
  then have "wrap_u 64 (e * 500) = e * 500" by (intro wrap_u_id) auto
  moreover have "0 \<le> e * 500 div 3000" "e * 500 div 3000 \<le> 1000" using e by (simp_all add: pos_imp_zdiv_nonneg_iff)
  ultimately show ?thesis by (simp add: ramp_duty_def wrap_s_def)
qed

lemma later_reading:
  assumes "wrap_u 64 (t - start) < 3000" "t \<le> u" "u \<le> t + 3000"
  shows "0 \<le> wrap_u 64 (u - start) \<and> wrap_u 64 (u - start) < 6000"
proof -
  have "wrap_u 64 (u - start) = wrap_u 64 (wrap_u 64 (t - start) + (u - t))" by (simp add: wrap_u_def mod_simps)
  also have "\<dots> = wrap_u 64 (t - start) + (u - t)" using assms wrap_u_range[of 64 "t - start"] by (intro wrap_u_id) auto
  finally show ?thesis using assms wrap_u_range[of 64 "t - start"] by auto
qed

lemma hold_writes:
  assumes "event_ok (Turn E)" "0 \<le> k"
  shows "list_all write_ok (handleRampAndFlash 3000 1000 k E)"
proof -
  have "0 \<le> ramp_duty 3000 (wrap_u 64 (snd r - ramp_start E)) \<and> ramp_duty 3000 (wrap_u 64 (snd r - ramp_start E)) \<le> 1023"
    if "r \<in> set (takeWhile (\<lambda>r. wrap_u 64 (fst r - ramp_start E) < 3000) (ramp_reads E))" for r
    using assms(1) set_takeWhileD[OF that] later_reading[of "fst r" "ramp_start E" "snd r"]
    by (intro ramp_writes) (auto simp: event_ok_def list_all_iff)
  then show ?thesis using assms(2) by (fastforce simp: handleRampAndFlash_def Let_def all_lamps_def list_all_iff write_ok_def)
qed

lemma pattern_writes: "list_all write_ok (pattern_mode rgb)"
proof -
  have "0 \<le> uint b \<and> uint b \<le> 1023" for b :: "8 word" using uint_range_size[of b] by (simp add: word_size)
  then show ?thesis by (simp add: pattern_mode_def write_ok_def split: prod.split)
qed

lemma blink_duty_range: "0 \<le> blink_duty st t \<and> blink_duty st t \<le> 1000"
  by (simp add: blink_duty_def Let_def)

lemma handle_ok:
  assumes "led_inv l" "event_ok (Turn E)" "0 \<le> d" "d \<le> 1000"
  shows "led_inv (fst (handleBlinkStates E st d l)) \<and> list_all write_ok (snd (handleBlinkStates E st d l))"
  using assms hold_writes[OF assms(2), of 250] pattern_writes
  by (simp add: handleBlinkStates_def chase_mode_def Let_def led_inv_def write_ok_def)

lemma control_ok:
  assumes "led_inv l" "event_ok (Turn E)"
  shows "led_inv (fst (control_led E l)) \<and> list_all write_ok (snd (control_led E l))"
proof -
  obtain l1 w1 where h: "handleBlinkStates E (blink_state l) (blink_duty (blink_state l) (clock E)) l = (l1, w1)" by fastforce
  have "led_inv l1 \<and> list_all write_ok w1"
    using handle_ok[OF assms, of "blink_duty (blink_state l) (clock E)" "blink_state l"] blink_duty_range unfolding h by simp
  then show ?thesis using expire_inv[of l1 "clock_after E"] by (simp add: control_led_def h Let_def case_prod_beta)
qed

lemma ramp_ok:
  assumes "led_inv l"
  shows "led_inv (fst (BLE_LED_RampCycle 4000 now l)) \<and> list_all write_ok (snd (BLE_LED_RampCycle 4000 now l))"
proof -
  have r: "0 \<le> ramp_up 2000 e \<and> ramp_up 2000 e \<le> 1023 \<and> 0 \<le> ramp_down 2000 e \<and> ramp_down 2000 e \<le> 1023" if "0 \<le> e" for e
    using that zdiv_mono1[of "min e 2000" 2000 2] zdiv_mono1[of 0 "min e 2000" 2] by (simp add: ramp_up_def ramp_down_def)
  have "0 \<le> wrap_u 64 x" for x using wrap_u_range by blast
  then show ?thesis using assms r by (auto simp: BLE_LED_RampCycle_def Let_def led_inv_def write_ok_def)
qed

lemma turn_ok:
  assumes "led_inv l" "event_ok (Turn E)"
  shows "led_inv (fst (update_blink_state E l)) \<and> list_all write_ok (snd (update_blink_state E l))"
proof -
  obtain l1 w1 where c: "control_led E l = (l1, w1)" by fastforce
  have 1: "led_inv l1" "list_all write_ok w1" using control_ok[OF assms] unfolding c by simp_all
  obtain l2 w2 where b: "BLE_LED_RampCycle 4000 (clock_after E) l1 = (l2, w2)" by fastforce
  have 2: "led_inv l2" "list_all write_ok w2" using ramp_ok[OF 1(1), of "clock_after E"] unfolding b by simp_all
  have k: "led_inv (l\<lparr>ble_count := n\<rparr>) = led_inv l" for l n by (simp add: led_inv_def)
  show ?thesis using 1 2 by (simp add: update_blink_state_def c b Let_def k write_ok_def)
qed

lemma set_state_inv: "led_inv l \<Longrightarrow> led_inv (set_state n l)"
  using wrap_u_range[of 8 n] by (simp add: set_state_def led_inv_def Let_def)

lemma message_inv: "led_inv l \<Longrightarrow> SetLEDState item now msg l = Shows l' \<Longrightarrow> led_inv l'"
proof -
  have d: "led_inv l \<Longrightarrow> led_inv (set_duration now d l)" for l d
    using wrap64 by (simp add: set_duration_def led_inv_def)
  have c: "led_inv (l\<lparr>category := x\<rparr>) = led_inv l" for l x by (simp add: led_inv_def)
  show "led_inv l \<Longrightarrow> SetLEDState item now msg l = Shows l' \<Longrightarrow> led_inv l'"
    by (auto simp: SetLEDState_def Let_def c intro!: d set_state_inv split: option.splits if_splits)
qed

lemma led_step_ok:
  assumes "led_inv l" "event_ok e"
  shows "led_inv (fst (led_step item l e)) \<and> list_all write_ok (snd (led_step item l e))"
proof (cases e)
  case (Turn E)
  then show ?thesis using turn_ok[of l E] assms by (simp add: led_step_def)
next
  case (Restore now)
  then show ?thesis using assms(1) wrap64[of now] by (simp add: led_step_def restore_state_def led_inv_def Let_def)
next
  case (Message now msg)
  then show ?thesis using message_inv[OF assms(1), of item now msg] assms(1)
    by (cases "SetLEDState item now msg l") (simp_all add: led_step_def)
qed (use assms(1) in \<open>simp_all add: led_step_def led_inv_def\<close>)

interpretation indicator: event_machine "led_step item" led_inv event_ok for item
  by unfold_locales (use led_step_ok in blast)

lemma run_writes:
  "led_inv l \<Longrightarrow> list_all event_ok es \<Longrightarrow> list_all write_ok (snd (run_events (led_step item) l es))"
proof (induction es arbitrary: l)
  case (Cons e es)
  then show ?case using led_step_ok[of l e item] by (simp add: Let_def case_prod_beta)
qed simp

section \<open>Properties\<close>

definition demo_led :: led where
  "demo_led = \<lparr>blink_state = 2, prev_blink_state = 0, prev_blink_state_2 = 0, led_until = - 1, category = ''none'',
     BLE_LED_Status = 0, ble_count = 0, rampStartTime = 0\<rparr>"

definition demo_message :: json where
  "demo_message = JObj [(''stateName'', JStr ''Upload''), (''duration'', JNum 5)]"

definition demo_turn :: "int \<Rightarrow> led_env" where
  "demo_turn t = \<lparr>clock = t, clock_after = t, ramp_start = t, ramp_reads = [(t + 10, t + 20)], flash_start = t, flash_reads = [],
     pattern_rgb = (255, 0, 0)\<rparr>"

lemma demo_timed: "timed_message cs_item demo_message 14 5"
  by (simp add: timed_message_def cs_item_def demo_message_def string_of_def number_in_def number_of_def value_int_def trunc_def led_names_def)

definition lamp_of :: "int \<Rightarrow> lamp" where
  "lamp_of n = (if n = 1 then Blue else if n \<le> 4 then Red else Green)"

lemma control_lights:
  assumes "1 \<le> n" "n \<le> 10" "blink_state l = n"
  shows "Duty (lamp_of n) 1000 \<in> set (snd (control_led E l)) \<longleftrightarrow> blink_duty n (clock E) = 1000"
proof -
  have e: "Duty (lamp_of n) 1000 \<notin> set (snd (expire now l'))" for now l' by (simp add: expire_def)
  have n: "n = 1 \<or> n = 2 \<or> n = 3 \<or> n = 4 \<or> (5 \<le> n \<and> n \<le> 10)" using assms(1,2) by linarith
  have "Duty (lamp_of n) 1000 \<in> set (snd (handleBlinkStates E n d l)) \<longleftrightarrow> d = 1000" for d
    using n by (elim disjE) (auto simp: handleBlinkStates_def lamp_of_def LED_CHASE_def LED_BLE_MODE_def LED_UPLOAD_def
        LED_DOWNLOAD_def LED_HOLD_WARNING_def LED_THREE_FLASH_def LED_REBOOT_def LED_NET_CONNECTED_def LED_SOLID_MESSAGE_def)
  then show ?thesis using e by (simp add: control_led_def assms(3) Let_def case_prod_beta)
qed

text \<open>In each of the states one to ten the lamp of the state is switched on, over a cycle of six seconds, for exactly that many
  times 300 ms.\<close>

theorem n_blinks:
  assumes "1 \<le> n" "n \<le> 10" "blink_state l = n"
  shows "card {t \<in> {0..<6000}. Duty (lamp_of n) 1000 \<in> set (snd (control_led (E\<lparr>clock := t\<rparr>) l))} = nat (300 * n)"
  using blink_time[OF assms(1,2)] by (simp add: control_lights[OF assms])

lemma n_blinks_witness:
  "card {t \<in> {0..<6000}. Duty (lamp_of 2) 1000 \<in> set (snd (control_led ((demo_turn 0)\<lparr>clock := t\<rparr>) demo_led))} = nat (300 * 2)"
  by (rule n_blinks) (simp_all add: demo_led_def)

text \<open>A steady light that is set for a time stays for good.\<close>

lemma steady_light_stays:
  assumes "timed_message item j LED_FULLON d" "0 < d" "d \<le> 2147483" "0 \<le> now" "now < 2 ^ 62"
  shows "blink_state (fst (run_events (led_step item) l (Message now (Some j) # map Turn Es))) = LED_FULLON"
proof -
  obtain l' where l': "SetLEDState item now (Some j) l = Shows l'" "blink_state l' = LED_FULLON"
    using SetLEDState_timed[OF assms(1) _ assms(2-5), of l] by (auto simp: LED_FULLON_def LED_BLE_MODE_def)
  have "blink_state (fst (run_events (led_step item) l' (map Turn Es))) = LED_FULLON"
    using l'(2)
  proof (induction Es arbitrary: l')
    case (Cons E Es)
    have "blink_state (fst (update_blink_state E l')) = LED_FULLON"
      using Cons.prems turn_shown[of E l'] control_state[of l' E]
      by (simp add: shown_def expire_def LED_FULLON_def LED_SOLID_MESSAGE_def)
    then show ?case using Cons.IH by (simp add: led_step_def Let_def case_prod_beta)
  qed simp
  then show ?thesis using l'(1) by (simp add: led_step_def[of item l] Let_def case_prod_beta)
qed

text \<open>C29: A state that is set for d seconds while another one is shown is shown at every turn until then, and the first turn after it
  shows the state before again.  This holds for every named state but three: the state of the radio, which has a lamp of its own, the
  steady light (SOLID), which never gives way, and SOLID Message, which lasts one turn; and it holds when the state shown before is
  neither SOLID Message nor the same state, which would become its own predecessor.\<close>

theorem timed_state_gives_way:
  assumes "timed_message item j n d" "n \<noteq> LED_BLE_MODE" "n \<noteq> LED_SOLID_MESSAGE" "n \<noteq> LED_FULLON" "0 < d" "d \<le> 2147483"
    "0 \<le> now" "now < 2 ^ 62" "blink_state l \<noteq> LED_SOLID_MESSAGE" "blink_state l \<noteq> n"
    and "list_all (\<lambda>E. clock_after E \<le> now + 1000 * d) Es" "now + 1000 * d < clock_after E"
  shows "blink_state (fst (run_events (led_step item) l (Message now (Some j) # map Turn Es))) = n \<and>
    blink_state (fst (run_events (led_step item) l (Message now (Some j) # map Turn Es @ [Turn E]))) = blink_state l"
  using message_gives_way_gen[OF assms] by blast

lemma timed_state_gives_way_witness:
  "blink_state (fst (run_events (led_step cs_item) demo_led (Message 1000 (Some demo_message) # map Turn [demo_turn 2000]))) = 14 \<and>
   blink_state (fst (run_events (led_step cs_item) demo_led (Message 1000 (Some demo_message) # map Turn [demo_turn 2000] @
     [Turn (demo_turn 6001)]))) = blink_state demo_led"
  by (rule timed_state_gives_way[OF demo_timed])
    (simp_all add: LED_BLE_MODE_def LED_SOLID_MESSAGE_def LED_FULLON_def demo_led_def demo_turn_def)

text \<open>When the same timed state is asked for again before its time is over, the state before is forgotten: however long the task
  runs, the indicator stays in the timed state.\<close>

theorem repeated_state_sticks:
  assumes "timed_message item j n d" "n \<noteq> LED_BLE_MODE" "n \<noteq> LED_SOLID_MESSAGE" "0 < d" "d \<le> 2147483"
    "0 \<le> t1" "t1 < 2 ^ 62" "0 \<le> t2" "t2 < 2 ^ 62" "list_all (\<lambda>E. clock_after E \<le> t1 + 1000 * d) Es"
    "blink_state l \<noteq> LED_SOLID_MESSAGE"
  shows "blink_state (fst (run_events (led_step item) l
    (Message t1 (Some j) # map Turn Es @ Message t2 (Some j) # map Turn Es'))) = n"
  by (rule repeated_sticks_gen[OF assms])

lemma repeated_state_sticks_witness:
  "blink_state (fst (run_events (led_step cs_item) demo_led
    (Message 1000 (Some demo_message) # map Turn [demo_turn 1020] @ Message 2000 (Some demo_message) #
      map Turn (map demo_turn [2020, 100000, 10000000])))) = 14"
  by (rule repeated_state_sticks[OF demo_timed])
    (simp_all add: LED_BLE_MODE_def LED_SOLID_MESSAGE_def demo_led_def demo_turn_def)

text \<open>A ramp that is tested in time but reads a clock that was set forward in between writes more than the channel holds.\<close>

lemma clock_step_overdrives: "Duty Green 1166 \<in> set (handleRampAndFlash 3000 1000 250 ((demo_turn 0)\<lparr>ramp_reads := [(10, 7000)]\<rparr>))"
  by (simp add: handleRampAndFlash_def demo_turn_def ramp_duty_def wrap_u_def wrap_s_def all_lamps_def Let_def)

text \<open>C39: Whatever messages and events of the radio arrive and whatever patterns the turns show, every duty written to a lamp fits the ten
  bits of its channel and the state stays well-formed, as long as, within one step of the ramp of the hold warning, between the
  comparison and the second reading, the clock is not set and no more than three seconds pass.\<close>

theorem duties_fit_channel:
  assumes "led_inv l" "list_all event_ok es"
  shows "list_all write_ok (snd (run_events (led_step item) l es)) \<and> led_inv (fst (run_events (led_step item) l es))"
  using run_writes[OF assms] indicator.run_inv[OF assms] by simp

lemma duties_fit_channel_witness:
  "list_all write_ok (snd (run_events (led_step cs_item) demo_led [Message 1000 (Some demo_message), Turn (demo_turn 2000)])) \<and>
   led_inv (fst (run_events (led_step cs_item) demo_led [Message 1000 (Some demo_message), Turn (demo_turn 2000)]))"
  by (rule duties_fit_channel) (simp_all add: led_inv_def demo_led_def event_ok_def demo_turn_def)

end
