(* ===== verification/Digital_Input.thy ===== *)
theory Digital_Input
  imports Json_Data
begin

text \<open>
  The eight digital inputs (main/B394_DigitalInput.c): the polling task that waits until the levels of the inputs have been stable for
  the debounce time and then reports them, the numbers it derives from them, and the routes of a report.
\<close>

section \<open>The code\<close>

record di_par =
  debounce_ms :: u32
  event_route_mode :: u32
  direct_http_timeout_ms :: u32

record di_state =
  raw_stable :: u8
  last_edge_time_ms :: u64
  pending_send :: bool
  save_ext_time :: u64

datatype di_out = Kick bool | Event u8 int int int u64

text \<open>One bit for each input whose level is high.\<close>

definition read_raw_mask :: "(nat \<Rightarrow> bool) \<Rightarrow> u8" where
  "read_raw_mask level = fold (\<lambda>i m. if level i then m OR push_bit i 1 else m) [0..<8] 0"

definition popcount :: "u8 \<Rightarrow> nat" where
  "popcount m = length (filter (bit m) [0..<8])"

definition debounce_of :: "u32 \<Rightarrow> u64" where
  "debounce_of d = (if d = 0 then 1000 else ucast d)"

text \<open>A single input has its own number in bank 0; several inputs give six bits of a slot and two bits of a bank.\<close>

definition resolve :: "u8 \<Rightarrow> int \<times> int" where
  "resolve m = (if popcount m = 1 then (0, int (length (takeWhile (\<lambda>i. m \<noteq> push_bit i 1) [0..<8])))
     else ((if bit m 7 then 2 else 0) + (if bit m 6 then 1 else 0), uint (m AND 0x3F)))"

definition action_code :: "int \<times> int \<Rightarrow> int" where
  "action_code bs = (fst bs * 64 + snd bs) mod 256"

text \<open>The watchdog is kicked once a second.\<close>

definition kick :: "u64 \<Rightarrow> di_state \<Rightarrow> di_state \<times> di_out list" where
  "kick now s = (let saved = (if save_ext_time s = 0 then now else save_ext_time s) in
     if 1000 \<le> now - saved then (s\<lparr>save_ext_time := now\<rparr>, [Kick True]) else (s\<lparr>save_ext_time := saved\<rparr>, [Kick False]))"

definition poll_inputs :: "u32 \<Rightarrow> u64 \<Rightarrow> u8 \<Rightarrow> di_state \<Rightarrow> di_state \<times> di_out list" where
  "poll_inputs debounce now raw s =
    (if raw \<noteq> raw_stable s then (s\<lparr>raw_stable := raw, last_edge_time_ms := now, pending_send := True\<rparr>, [])
     else if \<not> pending_send s then (s, [])
     else if now - last_edge_time_ms s < debounce_of debounce then (s, [])
     else (let s1 = s\<lparr>pending_send := False\<rparr> in
       if raw = 0 then (s1, []) else (s1, [Event raw (fst (resolve raw)) (snd (resolve raw)) (action_code (resolve raw)) now])))"

text \<open>One turn of the task: the time, the levels and the setting it finds.\<close>

definition b394_di_task :: "di_state \<Rightarrow> u32 \<times> u64 \<times> u8 \<Rightarrow> di_state \<times> di_out list" where
  "b394_di_task s e = (case e of (debounce, now, raw) \<Rightarrow>
     (let (s1, o1) = kick now s; (s2, o2) = poll_inputs debounce now raw s1 in (s2, o1 @ o2)))"

definition di_start :: "u8 \<Rightarrow> di_state" where
  "di_start raw = \<lparr>raw_stable = raw, last_edge_time_ms = 0, pending_send = False, save_ext_time = 0\<rparr>"

text \<open>The properties of the actor are set and read by name; atoi reads the value.\<close>

definition b394_di_set :: "string \<Rightarrow> string \<Rightarrow> di_par \<Rightarrow> int \<times> di_par" where
  "b394_di_set name val p = (let v = word_of_int (strtol val) :: u32 in
     if name = ''DEBOUNCE_MS'' then (1, p\<lparr>debounce_ms := v\<rparr>)
     else if name = ''EVENT_ROUTE_MODE'' then (1, p\<lparr>event_route_mode := v\<rparr>)
     else if name = ''DIRECT_HTTP_TIMEOUT_MS'' then (1, p\<lparr>direct_http_timeout_ms := v\<rparr>)
     else (0, p))"

definition b394_di_get :: "string \<Rightarrow> di_par \<Rightarrow> string" where
  "b394_di_get name p =
    (if name = ''DEBOUNCE_MS'' then show_int (uint (debounce_ms p))
     else if name = ''EVENT_ROUTE_MODE'' then show_int (uint (event_route_mode p))
     else if name = ''DIRECT_HTTP_TIMEOUT_MS'' then show_int (uint (direct_http_timeout_ms p))
     else [])"

datatype route = D2C string | Http string

text \<open>Where a report goes; the text for HTTP is an array of one and must fit its buffer.\<close>

definition send_d2c_input_event :: "nat \<Rightarrow> u32 \<Rightarrow> string option \<Rightarrow> route list" where
  "send_d2c_input_event room mode txt = (case txt of None \<Rightarrow> [] | Some t \<Rightarrow>
     (if mode = 0 \<or> mode = 2 then [D2C t] else []) @
     (if (mode = 1 \<or> mode = 2) \<and> length t + 2 < room then [Http (''['' @ t @ '']'')] else []))"

section \<open>The debouncer as an abstract machine\<close>

text \<open>The levels in force and, while they are not reported, the time they were first seen.\<close>

definition debounce :: "u8 \<times> u64 option \<Rightarrow> u32 \<times> u64 \<times> u8 \<Rightarrow> (u8 \<times> u64 option) \<times> (u8 \<times> u64) list" where
  "debounce v e = (case (v, e) of ((m, edge), (d, now, raw)) \<Rightarrow>
     if raw \<noteq> m then ((raw, Some now), [])
     else (case edge of None \<Rightarrow> ((m, None), [])
       | Some t \<Rightarrow> if now - t < debounce_of d then ((m, Some t), []) else ((m, None), if m = 0 then [] else [(m, now)])))"

definition di_view :: "di_state \<Rightarrow> u8 \<times> u64 option" where
  "di_view s = (raw_stable s, if pending_send s then Some (last_edge_time_ms s) else None)"

definition di_events :: "di_out list \<Rightarrow> (u8 \<times> u64) list" where
  "di_events os = concat (map (\<lambda>x. case x of Event m b sl a t \<Rightarrow> [(m, t)] | Kick k \<Rightarrow> []) os)"

lemma kick_view: "di_view (fst (kick now s)) = di_view s" "di_events (snd (kick now s)) = []"
  by (simp_all add: kick_def di_view_def di_events_def Let_def)

lemma poll_debounce:
  "debounce (di_view s) (d, now, raw) = (di_view (fst (poll_inputs d now raw s)), di_events (snd (poll_inputs d now raw s)))"
  by (auto simp: debounce_def di_view_def poll_inputs_def di_events_def Let_def)

interpretation inputs: refined_machine b394_di_task "\<lambda>s. True" "\<lambda>e. True" di_view di_events debounce
proof unfold_locales
  fix s and e :: "u32 \<times> u64 \<times> u8"
  obtain d now raw where e: "e = (d, now, raw)" by (cases e)
  show "debounce (di_view s) e = (di_view (fst (b394_di_task s e)), di_events (snd (b394_di_task s e)))"
    using poll_debounce[of "fst (kick now s)" d now raw]
    by (simp add: e b394_di_task_def kick_view Let_def case_prod_beta) (simp add: di_events_def kick_def Let_def)
qed (simp_all add: di_events_def)

lemma debounce_waits:
  "list_all (\<lambda>(d, now, raw). raw = m \<and> now - t < debounce_of d) es \<Longrightarrow>
   run_events debounce (m, Some t) es = ((m, Some t), [])"
  by (induction es) (auto simp: debounce_def Let_def)

lemma debounce_rests:
  "list_all (\<lambda>(d, now, raw). raw = m) es \<Longrightarrow> run_events debounce (m, None) es = ((m, None), [])"
  by (induction es) (auto simp: debounce_def Let_def)

lemma debounce_reports:
  assumes "m \<noteq> m0" "list_all (\<lambda>(d, now, raw). raw = m \<and> now - t < debounce_of d) es" "debounce_of d \<le> now - t"
    and "list_all (\<lambda>(d, now, raw). raw = m) es'"
  shows "snd (run_events debounce (m0, edge) ((d0, t, m) # es @ (d, now, m) # es')) = (if m = 0 then [] else [(m, now)])"
proof -
  have 1: "debounce (m0, edge) (d0, t, m) = ((m, Some t), [])" using assms(1) by (simp add: debounce_def)
  have 2: "debounce (m, Some t) (d, now, m) = ((m, None), if m = 0 then [] else [(m, now)])"
    using assms(3) by (simp add: debounce_def leD)
  show ?thesis
    using 1 2 debounce_waits[OF assms(2)] debounce_rests[OF assms(4)] by (simp add: Let_def run_events_split)
qed

text \<open>Levels that return before the debounce time is over start it again; while they do, nothing is reported.\<close>

fun restless :: "u8 \<Rightarrow> u64 \<Rightarrow> (u32 \<times> u64 \<times> u8) list \<Rightarrow> bool" where
  "restless m t [] = True"
| "restless m t ((d, now, raw) # es) = (if raw \<noteq> m then restless raw now es else now - t < debounce_of d \<and> restless m t es)"

lemma debounce_restless: "restless m t es \<Longrightarrow> snd (run_events debounce (m, Some t) es) = []"
  by (induction m t es rule: restless.induct) (auto simp: debounce_def Let_def split: if_splits)

section \<open>The numbers of a report\<close>

text \<open>Several inputs: the code is the mask.  A single input: the code is its number, which other inputs together have as well.\<close>

lemma code_of_several:
  assumes "2 \<le> popcount m"
  shows "action_code (resolve m) = uint m"
proof -
  define u where "u = uint m"
  have u: "0 \<le> u" "u < 256" using uint_bounded[of m] by (simp_all add: u_def)
  have b: "bit m k \<longleftrightarrow> odd (u div 2 ^ k)" if "k < 8" for k
    using that by (simp add: u_def bit_uint_iff flip: bit_iff_odd)
  have "(mask 6 :: u8) = 0x3F" by (simp add: mask_eq_exp_minus_1)
  then have "m AND 0x3F = take_bit 6 m" by (metis take_bit_eq_mask)
  then have "uint (m AND 0x3F) = take_bit 6 u" by (simp only: u_def unsigned_take_bit_eq)
  then have s: "uint (m AND 0x3F) = u mod 64" by (simp add: take_bit_eq_mod)
  define q where "q = u div 64"
  have "u div 128 = q div 2" unfolding q_def by (simp add: zdiv_zmult2_eq[symmetric])
  moreover have "q = 0 \<or> q = 1 \<or> q = 2 \<or> q = 3" unfolding q_def using u zdiv_mono1[of u 255 64] zdiv_mono1[of 0 u 64] by auto
  ultimately have "(if odd (u div 128) then 2 else 0) + (if odd (u div 64) then 1 else 0) = u div 64"
    unfolding q_def[symmetric] by auto
  then have "resolve m = (u div 64, u mod 64)"
    using assms b[of 7] b[of 6] s by (simp add: resolve_def)
  then show ?thesis using u by (simp add: action_code_def u_def[symmetric])
qed

lemma single_codes: "list_all (\<lambda>i. resolve (push_bit i 1) = (0, int i)) [0..<8]"
  by code_simp

lemma code_of_one: "i < 8 \<Longrightarrow> action_code (resolve (push_bit i 1)) = int i"
  using single_codes by (simp add: list_all_iff action_code_def del: upt_rec_numeral)

text \<open>The inputs one and two together have the code of the fourth input alone.\<close>

lemma codes_collide: "action_code (resolve 3) = action_code (resolve 8)"
proof -
  have "popcount 3 = 2" by code_simp
  then have "action_code (resolve 3) = 3" using code_of_several[of 3] by simp
  moreover have "push_bit 3 (1::u8) = 8" by simp
  ultimately show ?thesis using code_of_one[of 3] by (simp del: push_bit_of_1)
qed

text \<open>A clock that is set back after an edge makes the difference wrap, and the levels are reported at once.\<close>

lemma clock_back_reports:
  assumes "pending_send s" "raw_stable s = m" "m \<noteq> 0" "uint now < uint (last_edge_time_ms s)"
    "uint (last_edge_time_ms s) - uint now < 2 ^ 63"
  shows "di_events (snd (poll_inputs d now m s)) = [(m, now)]"
proof -
  have "uint (now - last_edge_time_ms s) = (uint now - uint (last_edge_time_ms s)) mod 2 ^ 64"
    by (simp add: uint_word_ariths)
  also have "\<dots> = (uint now - uint (last_edge_time_ms s) + 2 ^ 64) mod 2 ^ 64" by simp
  also have "\<dots> = uint now - uint (last_edge_time_ms s) + 2 ^ 64"
    using assms(4,5) by (intro mod_pos_pos_trivial) auto
  finally have u: "2 ^ 63 < uint (now - last_edge_time_ms s)" using assms(5) by simp
  have "uint (debounce_of d) < 2 ^ 32"
  proof (cases "d = 0")
    case False
    have l: "uint d < 2 ^ 32" using uint_bounded[of d] by simp
    then have "uint (ucast d :: u64) = uint d" by (simp add: unsigned_ucast_eq take_bit_eq_mod)
    then show ?thesis using False l by (simp add: debounce_of_def)
  qed (simp add: debounce_of_def)
  then have "\<not> now - last_edge_time_ms s < debounce_of d" using u by (simp add: word_less_def)
  then show ?thesis using assms(1-3) by (simp add: poll_inputs_def di_events_def Let_def)
qed

section \<open>Properties\<close>

lemma di_settings_roundtrip:
  assumes "name \<in> {''DEBOUNCE_MS'', ''EVENT_ROUTE_MODE'', ''DIRECT_HTTP_TIMEOUT_MS''}" "0 \<le> v" "v < 2 ^ 31"
  shows "\<exists>p'. b394_di_set name (show_int v) p = (1, p') \<and> b394_di_get name p' = show_int v"
proof -
  have v: "strtol (show_int v) = v" using assms(2,3) by (simp add: strtol_show_int)
  have u: "uint (word_of_int v :: u32) = v" using assms(2,3) by (simp add: uint_word_of_int)
  show ?thesis using assms(1) by (auto simp: b394_di_set_def b394_di_get_def v u Let_def)
qed

text \<open>C28: Levels that differ from those before and stay for the debounce time are reported exactly once, at the first poll after that
  time, whether inputs were pressed or released; when all are low nothing is reported.\<close>

theorem stable_levels_reported_once:
  assumes "m \<noteq> raw_stable s" "list_all (\<lambda>(d, now, raw). raw = m \<and> now - t < debounce_of d) es" "debounce_of d \<le> now - t"
    and "list_all (\<lambda>(d, now, raw). raw = m) es'"
  shows "di_events (snd (run_events b394_di_task s ((d0, t, m) # es @ (d, now, m) # es'))) = (if m = 0 then [] else [(m, now)])"
proof -
  have "run_events debounce (di_view s) ((d0, t, m) # es @ (d, now, m) # es') =
      (di_view (fst (run_events b394_di_task s ((d0, t, m) # es @ (d, now, m) # es'))),
       di_events (snd (run_events b394_di_task s ((d0, t, m) # es @ (d, now, m) # es'))))"
    by (rule inputs.run_simulates) (simp_all add: list_all_iff)
  from arg_cong[OF this, of snd] show ?thesis
    unfolding di_view_def debounce_reports[OF assms] snd_conv by (rule sym)
qed

lemma stable_levels_reported_once_witness:
  "di_events (snd (run_events b394_di_task (di_start 3) ((0, 5000, 1) # [(0, 5010, 1)] @ (0, 6000, 1) # [(0, 6010, 1)]))) =
    (if (1 :: u8) = 0 then [] else [(1, 6000)])"
  by (rule stable_levels_reported_once) (simp_all add: di_start_def debounce_of_def)

end
