(* ===== verification/Jfs_Variables.thy ===== *)
theory Jfs_Variables
  imports Json_Data
begin

text \<open>
  The variables other actors keep in files of the flash: the command WRITE_VAR, from File_operation of
  main/File_Manager_Actor.c through JFS_Write_Variable and update_json_object of main/JFS_FLASH_Actor.c.  A file holds one
  object, written here as its members; None is a file that does not exist or cannot be read as an object.  How the file
  system answers is an argument: which attempts to read succeed, and what a file holds after it was written.
\<close>

type_synonym members = "(string \<times> json) list"
type_synonym flash = "(nat \<Rightarrow> bool) \<times> (members \<Rightarrow> members option)"

section \<open>The code\<close>

text \<open>The two number fields of a parsed value.\<close>

definition valuedouble :: "json \<Rightarrow> rat" where "valuedouble j = (case j of JNum x \<Rightarrow> x | _ \<Rightarrow> 0)"

definition valueint :: "json \<Rightarrow> int" where
  "valueint j = (case j of JNum x \<Rightarrow> value_int x | JBool True \<Rightarrow> 1 | _ \<Rightarrow> 0)"

text \<open>One member of the file against the new value: the value afterwards and whether it differed.  The comparison of texts reads
  the text of the old value, which other types do not have: None.\<close>

definition update_value :: "json \<Rightarrow> json \<Rightarrow> (json \<times> bool) option" where
  "update_value old new = (case new of
     JStr t \<Rightarrow> (case old of JStr s \<Rightarrow> Some (JStr t, s \<noteq> t) | _ \<Rightarrow> None)
   | JNum x \<Rightarrow> Some (case old of JNum y \<Rightarrow> JNum x | _ \<Rightarrow> old, valuedouble old \<noteq> x \<or> valueint old \<noteq> value_int x)
   | JBool b \<Rightarrow> Some (JBool b, old \<noteq> JBool b)
   | _ \<Rightarrow> Some (new, True))"

text \<open>A value that replaces the old item brings its own spelling of the name.\<close>

definition replaces :: "json \<Rightarrow> bool" where
  "replaces v = (case v of JNull \<Rightarrow> True | JArr _ \<Rightarrow> True | JObj _ \<Rightarrow> True | _ \<Rightarrow> False)"

fun update_member :: "string \<times> json \<Rightarrow> members \<Rightarrow> (members \<times> bool) option" where
  "update_member (k, v) [] = Some ([(k, v)], True)"
| "update_member (k, v) ((n, w) # ms) = (if lower n = lower k
     then map_option (\<lambda>(w', d). ((if replaces v then k else n, w') # ms, d)) (update_value w v)
     else map_option (\<lambda>(ms', d). ((n, w) # ms', d)) (update_member (k, v) ms))"

fun update_json_object :: "members \<Rightarrow> members \<Rightarrow> (members \<times> nat) option" where
  "update_json_object orig [] = Some (orig, 0)"
| "update_json_object orig (m # ms) = (case update_member m orig of None \<Rightarrow> None
     | Some (orig', d) \<Rightarrow> map_option (\<lambda>(r, n). (r, n + of_bool d)) (update_json_object orig' ms))"

text \<open>Three attempts to read the file; when all fail, the new members become the whole file.  The outer option is None where
  the comparison above reads a text that is not there.\<close>

definition JFS_Write_Variable :: "flash \<Rightarrow> members \<Rightarrow> members option \<Rightarrow> members option option" where
  "JFS_Write_Variable fl new file = (let orig = (if fst fl 0 \<or> fst fl 1 \<or> fst fl 2 then file else None) in
     case update_json_object (case orig of None \<Rightarrow> [] | Some ms \<Rightarrow> ms) new of None \<Rightarrow> None
     | Some (ms, n) \<Rightarrow> Some (if 0 < n then snd fl ms else file))"

text \<open>The drive is cut off the name of the file; a path with no separator or of the other drive leaves the flash alone.  An object without
  members, a path that is no text and a missing name of the file are read through null pointers: None.  Names are taken to fit their
  buffers; objects that begin with TYPE belong to other commands.\<close>

definition write_var :: "flash \<Rightarrow> members \<Rightarrow> (string \<Rightarrow> members option) \<Rightarrow> (string \<Rightarrow> members option) option" where
  "write_var fl payload files = (case payload of [] \<Rightarrow> None
   | (k, v) # rest \<Rightarrow> if k \<in> {''DIR_NAME'', ''FILE_NAME''} then (case v of
       JStr path \<Rightarrow> if CHR ''/'' \<in> set path \<and> take 1 path \<in> {''A'', ''a''} then
         (let new = (k, JStr (tl (dropWhile (\<lambda>c. c \<noteq> CHR ''/'') path))) # rest in
          case string_of (ci_item (JObj new) ''FILE_NAME'') of None \<Rightarrow> None
          | Some name \<Rightarrow> map_option (\<lambda>f. files(name := f)) (JFS_Write_Variable fl new (files name)))
         else Some files
     | _ \<Rightarrow> None)
   else Some files)"

section \<open>Texts\<close>

text \<open>Writing a text: the first member of that name, up to the case of letters, gets it; otherwise it is appended.\<close>

definition flash_works :: "flash \<Rightarrow> bool" where
  "flash_works fl \<longleftrightarrow> (fst fl 0 \<or> fst fl 1 \<or> fst fl 2) \<and> (\<forall>ms. snd fl ms = Some ms)"

definition all_texts :: "members \<Rightarrow> bool" where "all_texts ms \<longleftrightarrow> (\<forall>m\<in>set ms. is_string (snd m))"

definition names :: "members \<Rightarrow> string list" where "names ms = map (lower \<circ> fst) ms"

fun put_text :: "string \<times> json \<Rightarrow> members \<Rightarrow> members" where
  "put_text m [] = [m]"
| "put_text m (n # ms) = (if lower (fst n) = lower (fst m) then (fst n, snd m) # ms else n # put_text m ms)"

lemma update_value_text: "is_string old \<Longrightarrow> update_value old (JStr t) = Some (JStr t, old \<noteq> JStr t)"
  by (auto simp: update_value_def is_string_def split: json.splits)

lemma update_member_text:
  "all_texts ms \<Longrightarrow> \<exists>d. update_member (k, JStr t) ms = Some (put_text (k, JStr t) ms, d) \<and> (\<not> d \<longrightarrow> put_text (k, JStr t) ms = ms)"
  by (induction ms) (auto simp: all_texts_def update_value_text replaces_def)

lemma put_text_all: "all_texts ms \<Longrightarrow> is_string (snd m) \<Longrightarrow> all_texts (put_text m ms)"
  by (induction ms) (auto simp: all_texts_def)

lemma put_text_names: "names (put_text m ms) = (if lower (fst m) \<in> set (names ms) then names ms else names ms @ [lower (fst m)])"
  by (induction ms) (auto simp: names_def)

lemma update_texts:
  "all_texts ms \<Longrightarrow> all_texts new \<Longrightarrow>
   \<exists>n. update_json_object ms new = Some (foldl (\<lambda>ms m. put_text m ms) ms new, n) \<and>
     (n = 0 \<longrightarrow> foldl (\<lambda>ms m. put_text m ms) ms new = ms)"
proof (induction new arbitrary: ms)
  case (Cons m new)
  obtain k t where m: "m = (k, JStr t)" using Cons.prems(2) by (cases m; cases "snd m") (auto simp: all_texts_def is_string_def)
  obtain d where d: "update_member m ms = Some (put_text m ms, d)" "\<not> d \<longrightarrow> put_text m ms = ms"
    using update_member_text[OF Cons.prems(1), of k t] m by auto
  have "all_texts (put_text m ms)" using Cons.prems by (intro put_text_all) (auto simp: all_texts_def)
  moreover have "all_texts new" using Cons.prems(2) by (simp add: all_texts_def)
  ultimately show ?case using Cons.IH[of "put_text m ms"] d by (cases d) auto
qed simp

text \<open>On a flash that works the file is the old one with the new texts put in, whether or not anything had to be written.\<close>

lemma write_texts:
  assumes "flash_works fl" "all_texts new" "new \<noteq> []" "case file of None \<Rightarrow> True | Some ms \<Rightarrow> all_texts ms"
  shows "JFS_Write_Variable fl new file =
    Some (Some (foldl (\<lambda>ms m. put_text m ms) (case file of None \<Rightarrow> [] | Some ms \<Rightarrow> ms) new))"
proof (cases "file")
  case None
  obtain n where n: "update_json_object [] new = Some (foldl (\<lambda>ms m. put_text m ms) [] new, n)"
    "n = 0 \<longrightarrow> foldl (\<lambda>ms m. put_text m ms) [] new = []"
    using update_texts[OF _ assms(2), of "[]"] by (auto simp: all_texts_def)
  have "n \<noteq> 0"
  proof -
    obtain m ns where m: "new = m # ns" using assms(3) by (cases new) auto
    obtain k v where k: "m = (k, v)" by fastforce
    show ?thesis using n(1) by (auto simp: m k split: option.splits)
  qed
  then show ?thesis using n(1) assms(1) None by (auto simp: JFS_Write_Variable_def flash_works_def)
next
  case (Some ms)
  then obtain n where "update_json_object ms new = Some (foldl (\<lambda>ms m. put_text m ms) ms new, n)"
    "n = 0 \<longrightarrow> foldl (\<lambda>ms m. put_text m ms) ms new = ms"
    using update_texts[OF _ assms(2), of ms] assms(4) by auto
  then show ?thesis using assms(1) Some by (auto simp: JFS_Write_Variable_def flash_works_def)
qed

text \<open>When the three attempts to read all fail, the variables that were in the file and are not written now are lost.\<close>

lemma unreadable_file_is_replaced:
  "JFS_Write_Variable (\<lambda>_. False, Some) [(''FILE_NAME'', JStr ''x''), (''b'', JStr ''2'')]
     (Some [(''FILE_NAME'', JStr ''x''), (''a'', JStr ''1'')]) = Some (Some [(''FILE_NAME'', JStr ''x''), (''b'', JStr ''2'')])"
  by code_simp

end
