(* ===== verification/Event_Settings.thy ===== *)
theory Event_Settings
  imports Jfs_Variables
begin

text \<open>
  The settings of the scheduler (the property table, set, get, the SET command, the defaults of init, and the parts of
  Analyse_Response of main/EVENT_Actor.c that load settings from the file and the location table), with the file the settings
  are kept in.  The two coordinates are floating point: the conversions atof and %lf are arguments.
\<close>

section \<open>The code\<close>

record 'd event_para =
  sr_time :: string
  ss_time :: string
  gmt_set :: int
  dst_set :: int
  Latitude :: 'd
  Longitude :: 'd
  Reboot_Flag_set :: int
  Reboot_HH_set :: int
  Reboot_MM_set :: int
  defer_on_u64 :: int
  defer_off_u64 :: int

text \<open>strtoll saturates at 64 bits; the format of a 64-bit number fills up to 16 digits with zeros.\<close>

definition strtoll :: "string \<Rightarrow> int" where
  "strtoll s = (let (neg, t) = sign_of (dropWhile is_space s); v = int (read_nat (takeWhile is_digit t)) in
     if neg then max (- (2 ^ 63)) (- v) else min (2 ^ 63 - 1) v)"

definition show16 :: "int \<Rightarrow> string" where
  "show16 v = (let t = show_nat (nat v) in replicate (16 - length t) CHR ''0'' @ t)"

definition in_range :: "int \<Rightarrow> int \<Rightarrow> string \<Rightarrow> bool" where
  "in_range lo hi s \<longleftrightarrow> lo \<le> strtol s \<and> strtol s \<le> hi"

text \<open>The property table: what set does to a property that may be written, and what get prints.\<close>

definition set_table :: "(string \<Rightarrow> 'd) \<Rightarrow> (string \<times> (string \<Rightarrow> 'd event_para \<Rightarrow> 'd event_para)) list" where
  "set_table atof =
    [(''DST'', \<lambda>s. dst_set_update (\<lambda>_. wrap_u 8 (strtol s))),
     (''GMT'', \<lambda>s. gmt_set_update (\<lambda>_. wrap_s 16 (strtol s))),
     (''LATITUDE'', \<lambda>s. Latitude_update (\<lambda>_. atof s)),
     (''LONGITUDE'', \<lambda>s. Longitude_update (\<lambda>_. atof s)),
     (''REBOOT_FLAG'', \<lambda>s p. if in_range 0 1 s then p\<lparr>Reboot_Flag_set := wrap_u 8 (strtol s)\<rparr> else p),
     (''REBOOT_HH'', \<lambda>s p. if in_range 0 23 s then p\<lparr>Reboot_HH_set := wrap_u 8 (strtol s)\<rparr> else p),
     (''REBOOT_MM'', \<lambda>s p. if in_range 0 59 s then p\<lparr>Reboot_MM_set := wrap_u 8 (strtol s)\<rparr> else p),
     (''DEFER_ON'', \<lambda>s. defer_on_u64_update (\<lambda>_. wrap_u 64 (strtoll s))),
     (''DEFER_OFF'', \<lambda>s. defer_off_u64_update (\<lambda>_. wrap_u 64 (strtoll s)))]"

definition read_only :: "string list" where "read_only = [''SR_TIME'', ''SS_TIME'']"

definition set_property :: "(string \<Rightarrow> 'd) \<Rightarrow> string \<Rightarrow> string \<Rightarrow> 'd event_para \<Rightarrow> int \<times> 'd event_para" where
  "set_property atof name val p = (if name \<in> set read_only then (2, p)
     else case map_of (set_table atof) name of Some f \<Rightarrow> (1, f val p) | None \<Rightarrow> (0, p))"

definition get_table :: "('d \<Rightarrow> string) \<Rightarrow> (string \<times> ('d event_para \<Rightarrow> string)) list" where
  "get_table lf =
    [(''SR_TIME'', sr_time), (''SS_TIME'', ss_time), (''DST'', \<lambda>p. show_int (dst_set p)), (''GMT'', \<lambda>p. show_int (gmt_set p)),
     (''LATITUDE'', \<lambda>p. lf (Latitude p)), (''LONGITUDE'', \<lambda>p. lf (Longitude p)),
     (''REBOOT_FLAG'', \<lambda>p. show_int (Reboot_Flag_set p)), (''REBOOT_HH'', \<lambda>p. show_int (Reboot_HH_set p)),
     (''REBOOT_MM'', \<lambda>p. show_int (Reboot_MM_set p)), (''DEFER_ON'', \<lambda>p. show16 (defer_on_u64 p)),
     (''DEFER_OFF'', \<lambda>p. show16 (defer_off_u64 p))]"


text \<open>The SET command goes through the members of its object, which has one at least, in order and collects the object for the file; an unknown name is written with
  a remark as its value.  The file is only written when the last member was set.  Messages are the read-only and
  invalid-parameter remarks.\<close>

datatype set_reply = Read_only string | Invalid_parameter string

fun set_members :: "(string \<Rightarrow> 'd) \<Rightarrow> (string \<times> json) list \<Rightarrow> int \<Rightarrow> 'd event_para \<Rightarrow>
    'd event_para \<times> int \<times> (string \<times> json) list \<times> set_reply list" where
  "set_members atof [] r p = (p, r, [], [])"
| "set_members atof ((k, v) # ms) r p = (case v of
     JStr s \<Rightarrow> (let (r1, p1) = set_property atof k s p; (p2, r2, file, says) = set_members atof ms r1 p1 in
       (p2, r2, (if r1 = 1 then [(k, JStr s)] else if r1 = 2 then [] else [(k, JStr ''Invalid Key'')]) @ file,
        (if r1 = 2 then [Read_only k] else []) @ says))
   | _ \<Rightarrow> (let (p2, r2, file, says) = set_members atof ms r p in (p2, r2, file, Invalid_parameter k # says)))"

definition set_command :: "(string \<Rightarrow> 'd) \<Rightarrow> (string \<times> json) list \<Rightarrow> 'd event_para \<Rightarrow>
    'd event_para \<times> (string \<times> json) list option \<times> set_reply list" where
  "set_command atof ms p = (let (p1, r, file, says) = set_members atof ms 0 p in (p1, if r = 1 then Some file else None, says))"

text \<open>Reading the file at the start: texts and numbers are set, numbers through the format of an integer of 32 bits.\<close>

definition load_member :: "(string \<Rightarrow> 'd) \<Rightarrow> 'd event_para \<Rightarrow> string \<times> json \<Rightarrow> 'd event_para" where
  "load_member atof p m = (case snd m of
     JStr s \<Rightarrow> snd (set_property atof (fst m) s p)
   | JNum x \<Rightarrow> snd (set_property atof (fst m) (show_int (value_int x)) p)
   | _ \<Rightarrow> p)"

definition load_file :: "(string \<Rightarrow> 'd) \<Rightarrow> (string \<times> json) list \<Rightarrow> 'd event_para \<Rightarrow> 'd event_para" where
  "load_file atof ms p = foldl (load_member atof) p ms"

text \<open>The settings before the file is read; the coordinates are those of the source, as the type of doubles has them.\<close>

definition init_para :: "'d \<Rightarrow> 'd \<Rightarrow> 'd event_para" where
  "init_para lat lon = \<lparr>sr_time = [], ss_time = [], gmt_set = - 300, dst_set = 0, Latitude = lat, Longitude = lon,
     Reboot_Flag_set = 1, Reboot_HH_set = 3, Reboot_MM_set = 0, defer_on_u64 = 0, defer_off_u64 = 0\<rparr>"

text \<open>The answer to READ: the members after the first, if that names the file.\<close>

definition load_response :: "(string \<Rightarrow> 'd) \<Rightarrow> members \<Rightarrow> 'd event_para \<Rightarrow> 'd event_para" where
  "load_response atof ms p = (case ms of
     (k, JStr s) # rest \<Rightarrow> if lower s = lower ''System/EVENT_ACTOR.json'' then load_file atof rest p else p
   | _ \<Rightarrow> p)"

text \<open>The device as far as the settings go: the settings and the files of the flash.  A SET command with what the file system does
  with its WRITE_VAR, and a restart: the defaults, and then the file.\<close>

datatype settings_event = Set_command flash members | Restart

definition settings_step :: "(string \<Rightarrow> 'd) \<Rightarrow> 'd event_para \<Rightarrow> settings_event \<Rightarrow>
    'd event_para \<times> (string \<Rightarrow> members option) \<Rightarrow> ('d event_para \<times> (string \<Rightarrow> members option)) option" where
  "settings_step atof p0 e x = (case e of
     Set_command fl ms \<Rightarrow> (case set_command atof ms (fst x) of
         (p, None, _) \<Rightarrow> Some (p, snd x)
       | (p, Some new, _) \<Rightarrow> map_option (Pair p) (write_var fl ((''FILE_NAME'', JStr ''A:/System/EVENT_ACTOR.json'') # new) (snd x)))
   | Restart \<Rightarrow> Some (case snd x ''System/EVENT_ACTOR.json'' of None \<Rightarrow> p0 | Some ms \<Rightarrow> load_response atof ms p0, snd x))"

fun settings_run :: "(string \<Rightarrow> 'd) \<Rightarrow> 'd event_para \<Rightarrow> settings_event list \<Rightarrow>
    'd event_para \<times> (string \<Rightarrow> members option) \<Rightarrow> ('d event_para \<times> (string \<Rightarrow> members option)) option" where
  "settings_run atof p0 [] x = Some x"
| "settings_run atof p0 (e # es) x = (case settings_step atof p0 e x of None \<Rightarrow> None | Some y \<Rightarrow> settings_run atof p0 es y)"

text \<open>A row of the location table; the other actors are told when the offset changes.\<close>

definition load_location :: "(string \<Rightarrow> 'd) \<Rightarrow> item \<Rightarrow> json \<Rightarrow> 'd event_para \<Rightarrow> 'd event_para \<times> bool" where
  "load_location strtod item row p = (if item row ''LocationId'' = None then (p, False) else (let
     p1 = (case string_of (item row ''Latitude'') of Some s \<Rightarrow> p\<lparr>Latitude := strtod s\<rparr> | None \<Rightarrow> p);
     p2 = (case string_of (item row ''Longitude'') of Some s \<Rightarrow> p1\<lparr>Longitude := strtod s\<rparr> | None \<Rightarrow> p1);
     p3 = (case string_of (item row ''RawOffset'') of Some s \<Rightarrow> p2\<lparr>gmt_set := wrap_s 16 (strtol s)\<rparr> | None \<Rightarrow> p2);
     p4 = (case string_of (item row ''IsDstValue'') of Some s \<Rightarrow> p3\<lparr>dst_set := wrap_u 8 (strtol s)\<rparr> | None \<Rightarrow> p3) in
     (p4, gmt_set p4 \<noteq> gmt_set p)))"

section \<open>Typed values\<close>

definition para_typed :: "'d event_para \<Rightarrow> bool" where
  "para_typed p \<longleftrightarrow> - 32768 \<le> gmt_set p \<and> gmt_set p < 32768 \<and> 0 \<le> dst_set p \<and> dst_set p < 256 \<and>
     0 \<le> Reboot_Flag_set p \<and> Reboot_Flag_set p \<le> 1 \<and> 0 \<le> Reboot_HH_set p \<and> Reboot_HH_set p \<le> 23 \<and>
     0 \<le> Reboot_MM_set p \<and> Reboot_MM_set p \<le> 59 \<and> 0 \<le> defer_on_u64 p \<and> defer_on_u64 p < 2 ^ 64 \<and>
     0 \<le> defer_off_u64 p \<and> defer_off_u64 p < 2 ^ 64"

lemma wrap_u_bound: "wrap_u w x < 2 ^ w" "0 \<le> wrap_u w x" "wrap_s 16 x < 32768" "- 32768 \<le> wrap_s 16 x"
  using wrap_u_range wrap_s_range[of 16 x] by auto

lemma set_property_typed: "para_typed p \<Longrightarrow> para_typed (snd (set_property atof k v p))"
  using wrap_u_bound(1)[of 8 "strtol v"] wrap_u_bound(1)[of 64 "strtoll v"] wrap_u_bound(2)[of 8 "strtol v"]
    wrap_u_bound(2)[of 64 "strtoll v"] wrap_u_bound(3,4)[of "strtol v"]
  by (auto simp: set_property_def set_table_def para_typed_def in_range_def wrap_u_id)

lemma set_members_typed: "para_typed p \<Longrightarrow> para_typed (fst (set_members atof ms r p))"
proof (induction atof ms r p rule: set_members.induct)
  case (2 atof k v ms r p)
  then show ?case using set_property_typed[of p atof k] by (auto simp: Let_def case_prod_beta split: json.splits)
qed simp

section \<open>What a command may contain\<close>









section \<open>What is saved is what was set\<close>











text \<open>What get prints can be set again: it gives the same value.\<close>

lemma read_nat_zeros: "read_nat (replicate k (CHR ''0'') @ t) = read_nat t"
  by (induction k) (simp_all add: read_nat_def)

lemma is_digit_zero: "is_digit (CHR ''0'')" by (simp add: is_digit_def)

lemma strtoll_show16:
  assumes "0 \<le> v" "v < 2 ^ 63"
  shows "strtoll (show16 v) = v"
proof -
  let ?s = "show16 v"
  have d: "list_all is_digit ?s" using show_nat_facts[of "nat v"] is_digit_zero by (auto simp: show16_def Let_def list_all_iff)
  have ne: "?s \<noteq> []" using show_nat_facts[of "nat v"] by (simp add: show16_def Let_def)
  then obtain c cs where c: "?s = c # cs" "is_digit c" using d by (cases ?s) auto
  have g: "sign_of (dropWhile is_space ?s) = (False, ?s)" using digit_not_sign[OF c(2)] c(1) by (simp add: sign_of_def)
  have r: "read_nat ?s = nat v" using show_nat_facts[of "nat v"] by (simp add: show16_def Let_def read_nat_zeros)
  show ?thesis unfolding strtoll_def g Let_def prod.case takeWhile_digits[OF d] r using assms by simp
qed

lemma set_get:
  assumes "para_typed p" "defer_on_u64 p < 2 ^ 63" "defer_off_u64 p < 2 ^ 63" "\<And>x. atof (lf x) = x"
    and "map_of (set_table atof) k = Some f" "map_of (get_table lf) k = Some g"
  shows "g (f (g p) q) = g p"
proof -
  have s: "strtol (show_int x) = x" if "- 32768 \<le> x" "x < 32768" for x using that by (intro strtol_show_int) auto
  have w: "wrap_s 16 x = x" if "- 32768 \<le> x" "x < 32768" for x using that by (simp add: wrap_s_def)
  show ?thesis
    using assms s w by (auto simp: set_table_def get_table_def para_typed_def in_range_def wrap_u_id strtoll_show16 split: if_splits)
qed

section \<open>The file keeps the settings\<close>






































section \<open>Properties\<close>




text \<open>A value that is refused is saved nevertheless: the hour 99 leaves the hour 5 set, and after the restart it is the default 3.\<close>

lemma refused_value_lost_at_restart:
  "(case settings_run read_nat (init_para 39 84)
      [Set_command (\<lambda>n. True, Some) [(''REBOOT_HH'', JStr ''5'')], Set_command (\<lambda>n. True, Some) [(''REBOOT_HH'', JStr ''99'')]]
      (init_para 39 84, \<lambda>_. None) of None \<Rightarrow> None
    | Some x \<Rightarrow> map_option (\<lambda>y. (Reboot_HH_set (fst x), Reboot_HH_set (fst y))) (settings_step read_nat (init_para 39 84) Restart x)) =
   Some (5, 3)"
  by code_simp

text \<open>A name in small letters is unknown to set, but its remark replaces the saved value of the property in capitals.\<close>

lemma small_name_spoils_saved_value:
  "(case settings_run read_nat (init_para 39 84)
      [Set_command (\<lambda>n. True, Some) [(''GMT'', JStr ''60'')], Set_command (\<lambda>n. True, Some) [(''gmt'', JStr ''60''), (''DST'', JStr ''0'')]]
      (init_para 39 84, \<lambda>_. None) of None \<Rightarrow> None
    | Some x \<Rightarrow> map_option (\<lambda>y. (gmt_set (fst x), gmt_set (fst y))) (settings_step read_nat (init_para 39 84) Restart x)) =
   Some (60, 0)"
  by code_simp

text \<open>A command whose last member is unknown changes the settings and saves nothing.\<close>

lemma last_unknown_not_saved:
  assumes "strtol v = 60"
  shows "set_command atof [(''GMT'', JStr v), (''COLOUR'', JStr ''red'')] p =
    (p\<lparr>gmt_set := 60\<rparr>, None, [])"
  using assms by (simp add: set_command_def set_property_def set_table_def read_only_def wrap_s_def)

end
