(* ===== verification/Server_Connect.thy ===== *)
theory Server_Connect
  imports Json_Data
begin

text \<open>
  The task that brings the controller to its server (Server_Connect of main/SYSTEM_Actor.c, for the board B394): credentials, network,
  announcement, cloud connection.  It waits on a queue of JSON texts, the replies of the other actors, with a
  time limit; a turn is one reception.  The timers of the states are global and start with the first turn that
  finds no answer.  Locals that are only written (the retry counters, the blink state) are left out.
\<close>

section \<open>State\<close>

datatype conn_state = STATE_CHECK_CREDENTIALS | STATE_CHECK_BLE_START_RESP | STATE_CHECK_WIFI_ENABLED | STATE_CHECK_WIFI_AVAILABLE
  | STATE_NETWORK_SCAN | STATE_WIFI_CONNECT_SSID | STATE_ETH_CONNECT | STATE_NTP_SYNC_CHECK | STATE_DEVICE_ANNOUNCE | STATE_PING_DNS
  | STATE_PING_GATEWAY | STATE_FAILED_PING_GATEWAY | STATE_WAITING_FOR_IHUB_RESPONSE | STATE_CONNECTED | STATE_FAILED | STATE_FAILED_1
  | STATE_FAILED_2 | STATE_FAILED_3 | STATE_FAILED_4 | STATE_FAILED_5 | STATE_FAILED_6 | STATE_FAILED_10 | STATE_FAILED_11
  | STATE_FAILED_12 | STATE_FAILED_13

text \<open>The task runs, has ended, or has written past one of its buffers.\<close>

datatype conn_end = Running | Ended | Overran

record conn =
  task_end :: conn_end
  state :: conn_state
  Current_State :: string
  que_rx_delay :: int
  timeout_count_credential :: bool
  timeout_count_credential_2 :: bool
  timeout_count_credential_3 :: bool
  SSID :: string
  Pass :: string
  eth_keyVal :: string
  ping_dns_data :: string
  wifi_enabled :: int
  BLE_INIT_Flag :: bool
  ping_dest_id :: string
  wifi_enabled_timeout_start :: int
  timeout_start :: int
  wifi_connect_timeout_start :: int
  eth_timeout_start :: int
  device_announce_timeout_start :: int
  ping_dns_timeout_start :: int
  ping_gateway_timeout_start :: int
  ihub_connect_timeout_start :: int
  Device_Announce_F_delay :: int
  Device_Announce_F_delay_Flag_1 :: bool
  device_ann_delay_count :: int
  remaining_time_device_ann :: int
  deviceAnnounceStatus :: string
  InternetDisconnectCount :: int

text \<open>What a turn finds: what the queue gave within the time (nothing, or a text, which may not be JSON), the clock in seconds, the
  settings of the actor, the flag that lets the task run, and the task of the monitor and the timer of five minutes.\<close>

record conn_env =
  message :: "json option option"
  now :: int
  DeviceAnnounce_URL :: string
  APIkey :: string
  Server_Conn_Flag :: bool
  MonSrvConn_running :: bool
  timer_5_active :: bool

text \<open>Commands to other actors, properties set there, states of the indicator, remarks, reports under a key, waits.\<close>

datatype conn_out = Cmd string string "json option" | Set_prop string string string | Led_state string string | Resp string
  | Report string string | Wait int | Announce_wait int | Start_timer_5 | Restart

definition SER_CONN_BLE_MAX_DELAY :: int where "SER_CONN_BLE_MAX_DELAY = 300000"
definition SER_CONN_NORMAL_DELAY :: int where "SER_CONN_NORMAL_DELAY = 3000"
definition WIFI_ENABLED_TIMEOUT_SECONDS :: int where "WIFI_ENABLED_TIMEOUT_SECONDS = 3"
definition WIFI_CONNECT_TIMEOUT_SECONDS :: int where "WIFI_CONNECT_TIMEOUT_SECONDS = 60"
definition ETHERNET_TIMEOUT_SECONDS :: int where "ETHERNET_TIMEOUT_SECONDS = 3"
definition DEVICE_ANNOUNCE_TIMEOUT_SECONDS :: int where "DEVICE_ANNOUNCE_TIMEOUT_SECONDS = 51"
definition PING_DNS_TIMEOUT_SECONDS :: int where "PING_DNS_TIMEOUT_SECONDS = 40"
definition PING_GATEWAY_TIMEOUT_SECONDS :: int where "PING_GATEWAY_TIMEOUT_SECONDS = 40"
definition IHUB_RESP_TIMEOUT_SECONDS :: int where "IHUB_RESP_TIMEOUT_SECONDS = 60"

text \<open>The members of the message; without a message every lookup fails.\<close>

definition text_ci :: "json option \<Rightarrow> string \<Rightarrow> string option" where
  "text_ci j k = (case j of None \<Rightarrow> None | Some x \<Rightarrow> string_of (ci_item x k))"

definition text_cs :: "json option \<Rightarrow> string \<Rightarrow> string option" where
  "text_cs j k = (case j of None \<Rightarrow> None | Some x \<Rightarrow> string_of (cs_item x k))"

definition number_ci :: "json option \<Rightarrow> string \<Rightarrow> int option" where
  "number_ci j k = (case j of None \<Rightarrow> None | Some x \<Rightarrow> number_in ci_item x k)"

definition or_empty :: "string option \<Rightarrow> string" where
  "or_empty s = (case s of Some t \<Rightarrow> t | None \<Rightarrow> [])"

definition names_json :: "string list \<Rightarrow> json option" where
  "names_json ns = Some (JObj [(''Property_Names'', JArr (map JStr ns))])"

text \<open>A timer is started by the first silent turn; a later one past the limit fires and stops it.\<close>

definition tick :: "int \<Rightarrow> int \<Rightarrow> int \<Rightarrow> bool \<times> int" where
  "tick t start limit = (if start = 0 then (False, t) else if limit < t - start then (True, 0) else (False, start))"

definition ping_json :: "json option" where
  "ping_json = Some (JObj [(''IP_ADDRESS'', JStr ''www.google.com''), (''TIMEOUT'', JNum 1000)])"

definition send_ping :: "conn \<Rightarrow> conn_out" where
  "send_ping c = Cmd (if ping_dest_id c = ''WIFI'' then ''WIFI'' else ''ETH'') ''PING'' ping_json"

section \<open>Handlers\<close>

definition credentials :: "conn_env \<Rightarrow> bool" where
  "credentials E \<longleftrightarrow> DeviceAnnounce_URL E \<noteq> [] \<and> APIkey E \<noteq> []"

definition handle_check_credentials :: "conn_env \<Rightarrow> conn \<Rightarrow> conn \<times> conn_out list" where
  "handle_check_credentials E c =
    (if \<not> credentials E then
       (let (c1, o1) = (if \<not> timeout_count_credential c \<and> \<not> BLE_INIT_Flag c then
             (c\<lparr>BLE_INIT_Flag := True, timeout_count_credential := True, que_rx_delay := SER_CONN_BLE_MAX_DELAY,
                state := STATE_CHECK_BLE_START_RESP\<rparr>,
              [Led_state ''1-blink'' ''none'', Resp ''Set API key & Device announce credential using BLE.'',
               Resp ''Stack will reset in 5 minutes if no credentials received'',
               Set_prop ''BLE'' ''CONN_MODE'' ''1'', Cmd ''BLE'' ''ADVERT_START'' None])
           else (c\<lparr>que_rx_delay := SER_CONN_BLE_MAX_DELAY, state := STATE_CHECK_CREDENTIALS, timeout_count_credential := False\<rparr>, [])) in
        (c1, [Set_prop ''BLE'' ''CRED_STATUS'' ''0'', Set_prop ''BLE'' ''ONLINE_STATUS'' ''0''] @ o1 @
          [Report ''connectionMessage'' ''Credentials Missing'', Report ''connectionSTATE'' ''WAITING FOR CREDENTIALS'']))
     else (c\<lparr>que_rx_delay := SER_CONN_NORMAL_DELAY, state := STATE_CHECK_WIFI_ENABLED\<rparr>,
       [Set_prop ''BLE'' ''CRED_STATUS'' ''1'', Set_prop ''BLE'' ''ONLINE_STATUS'' ''0'', Report ''connectionMessage'' ''Credentials Present'',
        Cmd ''CONSOLE'' ''GET'' (names_json [''ENABLE_WIFI''])]))"

definition handle_ble_start_resp :: "json option \<Rightarrow> conn \<Rightarrow> conn \<times> conn_out list" where
  "handle_ble_start_resp j c =
    ((if timeout_count_credential c then c\<lparr>timeout_count_credential := False, state := STATE_CHECK_CREDENTIALS\<rparr>
      else if timeout_count_credential_2 c then c\<lparr>timeout_count_credential_2 := False, state := STATE_FAILED_1\<rparr>
      else if timeout_count_credential_3 c then c\<lparr>timeout_count_credential_3 := False, state := STATE_FAILED_3\<rparr>
      else c),
     if text_ci j ''RESP'' = Some ''Server is started..'' then [Resp ''BLE Server started. 5 minutes timeout reloaded.''] else [])"

definition handle_wifi_enabled :: "int \<Rightarrow> json option \<Rightarrow> conn \<Rightarrow> conn \<times> conn_out list" where
  "handle_wifi_enabled t j c = (case text_cs j ''ENABLE_WIFI'' of
     Some s \<Rightarrow> (if wrap_u 8 (strtol s) = 1 then
         (c\<lparr>wifi_enabled := 1, state := STATE_NETWORK_SCAN, wifi_enabled_timeout_start := 0\<rparr>,
          [Report ''connectionMessage'' ''Wifi Enabled'', Cmd ''WIFI'' ''NETWORK_SCAN'' None])
       else (c\<lparr>wifi_enabled := 255, state := STATE_ETH_CONNECT, wifi_enabled_timeout_start := 0\<rparr>,
          [Report ''connectionMessage'' ''Wifi Disabled'', Cmd ''CONSOLE'' ''GET'' (names_json [''ETH_STATUS''])]))
   | None \<Rightarrow> (case tick t (wifi_enabled_timeout_start c) WIFI_ENABLED_TIMEOUT_SECONDS of
       (True, w) \<Rightarrow> (c\<lparr>wifi_enabled_timeout_start := w, state := STATE_CHECK_CREDENTIALS\<rparr>,
          [Resp ''Timeout waiting for Wi-Fi enabled status is reached.''])
     | (False, w) \<Rightarrow> (c\<lparr>wifi_enabled_timeout_start := w\<rparr>, [])))"

text \<open>Asking for the credentials of a network over the radio.\<close>

definition ask_network :: "string \<Rightarrow> conn \<Rightarrow> conn \<times> conn_out list" where
  "ask_network t c = (if timeout_count_credential_2 c then (c, [])
     else (c\<lparr>timeout_count_credential_2 := True, que_rx_delay := SER_CONN_BLE_MAX_DELAY, state := STATE_CHECK_BLE_START_RESP\<rparr>,
       [Led_state ''2-blink'' ''none'', Resp t, Resp ''Stack will reset in 5 minutes if no credentials received'',
        Set_prop ''BLE'' ''CONN_MODE'' ''1'', Cmd ''BLE'' ''ADVERT_START'' None]))"

definition try_ethernet :: "json option \<Rightarrow> conn \<Rightarrow> conn \<times> conn_out list" where
  "try_ethernet j c = (let c1 = (case text_cs j ''ETHERNET'' of Some s \<Rightarrow> c\<lparr>eth_keyVal := s\<rparr> | None \<Rightarrow> c) in
     if eth_keyVal c1 = ''AVAILABLE'' then (c1\<lparr>state := STATE_ETH_CONNECT, ping_dest_id := ''ETH''\<rparr>,
       [Cmd ''ETH'' ''CONNECT'' None, Cmd ''CONSOLE'' ''GET'' (names_json [''ETH_STATUS''])])
     else (c1, []))"

definition handle_network_scan :: "int \<Rightarrow> json option \<Rightarrow> conn \<Rightarrow> conn \<times> conn_out list" where
  "handle_network_scan t j c =
    (let ssid = or_empty (text_cs j ''SSID''); pw = or_empty (text_cs j ''PASSWORD'') in
     if ssid \<noteq> [] then
       (c\<lparr>SSID := ssid, Pass := pw, state := STATE_WIFI_CONNECT_SSID, ping_dest_id := ''WIFI''\<rparr>,
        [Cmd ''WIFI'' ''CONNECT_SSID'' (Some (JObj [(''SSID'', JStr ssid), (''PASSWORD'', JStr pw)]))])
     else (let (c1, o1) = try_ethernet j (c\<lparr>SSID := [], Pass := []\<rparr>);
       (c2, o2) = (case text_cs j ''NETWORK'' of
           Some s \<Rightarrow> (if s = ''NOT AVAILABLE'' then ask_network ''Set network credential using BLE.'' c1 else (c1, []))
         | None \<Rightarrow> (case tick t (timeout_start c1) 3 of
             (True, w) \<Rightarrow> (let (c', o') = ask_network ''Set network credential using BLE/ETH/TCP/UDP/WIFIAP/Webserver'' (c1\<lparr>timeout_start := w\<rparr>) in
                 (c', o' @ [Report ''connectionSTATE'' ''WAITING FOR WIFI'']))
           | (False, w) \<Rightarrow> (c1\<lparr>timeout_start := w\<rparr>, []))) in
       (c2, o1 @ o2)))"

definition handle_wifi_connect_ssid :: "int \<Rightarrow> json option \<Rightarrow> conn \<Rightarrow> conn \<times> conn_out list" where
  "handle_wifi_connect_ssid t j c = (case or_empty (text_ci j ''WIFI_CONNECTION_STATUS'') of s \<Rightarrow>
     if s = ''CONNECTED'' then
       (c\<lparr>state := STATE_NTP_SYNC_CHECK, wifi_connect_timeout_start := 0, que_rx_delay := 1000\<rparr>,
        [Report ''connectionMessage'' ''WIFI Connected'', Cmd ''NTP'' ''CONNECT'' None, Led_state ''NET CONNECTED'' ''none''])
     else if s = ''DISCONNECTED'' then
       (let (c1, o1) = (if timeout_count_credential_3 c then (c, [])
          else (c\<lparr>timeout_count_credential_3 := True, que_rx_delay := SER_CONN_BLE_MAX_DELAY, state := STATE_CHECK_BLE_START_RESP\<rparr>,
            [Led_state ''3-blink'' ''none'', Resp ''Change WIFI credential using BLE.'',
             Resp ''Stack will reset in 5 minutes if no credentials received'',
             Set_prop ''BLE'' ''CONN_MODE'' ''1'', Cmd ''BLE'' ''ADVERT_START'' None])) in
        (c1\<lparr>wifi_connect_timeout_start := 0\<rparr>, [Resp ''WIFI connection failed''] @ o1 @ [Report ''connectionSTATE'' ''BAD WIFI PASSWORD'']))
     else (case tick t (wifi_connect_timeout_start c) WIFI_CONNECT_TIMEOUT_SECONDS of
         (True, w) \<Rightarrow> (c\<lparr>wifi_connect_timeout_start := w, state := STATE_FAILED_3\<rparr>, [Resp ''Response from WIFI actor is not received.''])
       | (False, w) \<Rightarrow> (c\<lparr>wifi_connect_timeout_start := w\<rparr>, [])))"

definition handle_eth_connect :: "int \<Rightarrow> json option \<Rightarrow> conn \<Rightarrow> conn \<times> conn_out list" where
  "handle_eth_connect t j c = (case text_ci j ''ETH_STATUS'' of
     Some s \<Rightarrow> (if s = ''1'' then
         (c\<lparr>state := STATE_NTP_SYNC_CHECK, que_rx_delay := 1000, eth_timeout_start := 0\<rparr>,
          [Report ''connectionMessage'' ''ETH Connected'', Cmd ''NTP'' ''CONNECT'' None, Led_state ''NET CONNECTED'' ''none''])
       else (let (fired, w) = tick t (eth_timeout_start c) ETHERNET_TIMEOUT_SECONDS; c1 = c\<lparr>eth_timeout_start := w\<rparr> in
         (if fired then c1\<lparr>state := STATE_FAILED_4\<rparr> else c1,
          [Resp ''Ethernet connection failed'', Report ''connectionSTATE'' ''WAITING FOR ETH''] @
          (if fired \<and> wifi_enabled c = 0 then [Resp ''Wait 10 Minutes for Ethernet connection'', Wait 600000] else []))))
   | None \<Rightarrow> (case tick t (eth_timeout_start c) ETHERNET_TIMEOUT_SECONDS of
         (True, w) \<Rightarrow> (c\<lparr>eth_timeout_start := w, state := STATE_FAILED_5\<rparr>, [Resp ''Response from Ethernet actor is not received.''])
       | (False, w) \<Rightarrow> (c\<lparr>eth_timeout_start := w\<rparr>, [])))"

text \<open>The pause before an announcement doubles from one to the next.  It is given to the scheduler in ticks of ten milliseconds, a number of
  32 bits.\<close>

definition delay_ms :: "int \<Rightarrow> int" where
  "delay_ms d = 10 * wrap_u 32 (d * 1000 div 10)"

definition ntp_sync_check :: "conn_env \<Rightarrow> conn \<Rightarrow> conn \<times> conn_out list" where
  "ntp_sync_check E c = (let d = Device_Announce_F_delay c;
     (c1, o1, d1) = (if Device_Announce_F_delay_Flag_1 c then
         (let n = wrap_s 16 (device_ann_delay_count c + 1); c' = c\<lparr>device_ann_delay_count := n\<rparr>;
            say = Resp (''Device annouce delay in second is '' @ show_int d @ '', disconnect count is '' @ show_int n) in
          if d = 0 then (c', [say], 5)
          else if 300 < d then (c'\<lparr>remaining_time_device_ann := d\<rparr>,
            [say] @ (if timer_5_active E then [] else [Start_timer_5]) @ [Announce_wait (delay_ms d)], d)
          else (c', [say, Announce_wait (delay_ms d)], d))
       else (c\<lparr>Device_Announce_F_delay_Flag_1 := True\<rparr>, [], d)) in
     (c1\<lparr>Device_Announce_F_delay := (if 100000 < 2 * d1 then 10 else 2 * d1), que_rx_delay := 60000, state := STATE_DEVICE_ANNOUNCE\<rparr>,
      o1 @ [Cmd ''SYSTEM'' ''DEVICE_ANN'' None]))"

definition refusal_text :: "int \<Rightarrow> string" where
  "refusal_text n = (if n = 400 then ''Connection Refused (Bad Request)'' else if n = 401 then ''Connection Refused (Wrong API key)''
     else if n = 404 then ''Connection Refused (Server not found)'' else if n = 405 then ''Connection Refused (Invalid URL.)''
     else if n = 408 then ''Server timeout'' else ''Connection Refused (Value: '' @ show_int n @ '')'')"

definition refusal_led :: "int \<Rightarrow> string" where
  "refusal_led n = (if n = 408 then ''5-blink'' else if n = 401 \<or> n = 405 then ''6-blink'' else ''7-blink'')"

text \<open>The methods of the server's answer that set the credentials of the cloud; each counts once, two are asked for.\<close>

definition hostname_key :: string where "hostname_key = ''<IHUB.SET({\"HOSTNAME\":''"
definition primary_key :: string where "primary_key = ''<IHUB.SET({\"PRIMARY_KEY\":''"

definition cloud_methods :: "json list \<Rightarrow> nat" where
  "cloud_methods ms = length (filter (\<lambda>m. case m of
     JStr s \<Rightarrow> (take 22 s = hostname_key \<or> take 25 s = primary_key) \<and> 30 < length s | _ \<Rightarrow> False) ms)"

definition handle_device_announce :: "int \<Rightarrow> json option \<Rightarrow> conn \<Rightarrow> conn \<times> conn_out list" where
  "handle_device_announce t j c = (case number_ci j ''HTTP STATUS'' of
     Some n \<Rightarrow> (if n \<noteq> 200 then
         (c\<lparr>deviceAnnounceStatus := refusal_text n, state := STATE_PING_DNS, device_announce_timeout_start := 0\<rparr>,
          [Led_state (refusal_led n) ''Server'', Resp ''Device Announce FAILED'', Report ''connectionSTATE'' ''WAITING FOR SERVER''] @
          (if n = 401 then [Report ''connectionMessage'' ''deviceAnnounce FAILED: bad API key''] else []) @ [send_ping c])
       else (let c1 = c\<lparr>deviceAnnounceStatus := ''Connected''\<rparr>; o1 = [Report ''connectionMessage'' ''deviceAnnounce OK''] in
         case (case j of None \<Rightarrow> None | Some x \<Rightarrow> ci_item x ''MESSAGE'') of
           None \<Rightarrow> (c1, o1 @ [Resp ''No response received from server''])
         | Some m \<Rightarrow> (case cs_item m ''methods'' of
             Some (JArr ms) \<Rightarrow> (if cloud_methods ms < 2 then
                 (c1\<lparr>state := STATE_FAILED_13, device_announce_timeout_start := 0\<rparr>,
                  o1 @ [Led_state ''5-blink'' ''iHUB'', Report ''connectionMessage'' ''IHUB Credentials Missing/Partial''])
               else (c1\<lparr>state := STATE_WAITING_FOR_IHUB_RESPONSE, device_announce_timeout_start := 0\<rparr>,
                  o1 @ (if cloud_methods ms = 2 then [Report ''connectionMessage'' ''IHUB Credentials Populated''] else [Report [] []]) @
                  [Report ''connectionSTATE'' ''WAITING FOR IHUB'']))
           | _ \<Rightarrow> (c1, o1))))
   | None \<Rightarrow> (case tick t (device_announce_timeout_start c) DEVICE_ANNOUNCE_TIMEOUT_SECONDS of
       (True, w) \<Rightarrow> (c\<lparr>device_announce_timeout_start := w, state := STATE_PING_DNS\<rparr>,
          [Resp ''Device Announce FAILED'', Report ''connectionMessage'' ''deviceAnnounce FAILED:URL No Response'',
           Led_state ''7-blink'' ''Server'', Report ''connectionSTATE'' ''WAITING FOR SERVER'', send_ping c])
     | (False, w) \<Rightarrow> (c\<lparr>device_announce_timeout_start := w\<rparr>, [])))"

definition ping_ok :: string where "ping_ok = ''Ping to the server is successful.''"
definition ping_bad :: string where "ping_bad = ''Ping to the server is failed.''"

definition audit_text :: "int \<Rightarrow> string" where
  "audit_text n = ''INTERNET DISCONNECT COUNT = '' @ show_int n"

definition handle_ping_dns :: "int \<Rightarrow> json option \<Rightarrow> conn \<Rightarrow> conn \<times> conn_out list" where
  "handle_ping_dns t j c = (case text_ci j ''RESP'' of
     Some s \<Rightarrow> (let c1 = c\<lparr>ping_dns_data := s\<rparr> in
       if s = ping_ok then (c1\<lparr>state := STATE_FAILED_6, ping_dns_timeout_start := 0\<rparr>, [Report ''connectionMessage'' ''Ping DNS Successful''])
       else if s = ping_bad then (let n = wrap_u 16 (InternetDisconnectCount c + 1) in
         (c1\<lparr>InternetDisconnectCount := n, state := STATE_PING_GATEWAY, ping_dns_timeout_start := 0\<rparr>,
          [Led_state ''4-blink'' ''none'', Cmd ''FILE_SYSTEM'' ''SAVE_WIFI_AUDIT_LOG'' (Some (JStr (audit_text n))),
           Report ''connectionMessage'' ''Ping DNS Failed'', Report ''connectionSTATE'' ''WAITING FOR INTERNET'', send_ping c]))
       else (c1, []))
   | None \<Rightarrow> (case tick t (ping_dns_timeout_start c) PING_DNS_TIMEOUT_SECONDS of
       (True, w) \<Rightarrow> (c\<lparr>ping_dns_timeout_start := w, state := STATE_PING_GATEWAY\<rparr>,
          [Resp ''PING DNS response is not received.'', Led_state ''4-blink'' ''none'', Report ''connectionMessage'' ''Ping DNS Failed'', send_ping c])
     | (False, w) \<Rightarrow> (c\<lparr>ping_dns_timeout_start := w\<rparr>, [])))"

text \<open>A failed ping is recognised by the answer to the ping before.\<close>

definition handle_ping_gateway :: "int \<Rightarrow> json option \<Rightarrow> conn \<Rightarrow> conn \<times> conn_out list" where
  "handle_ping_gateway t j c = (case text_ci j ''RESP'' of
     Some s \<Rightarrow> (if s = ping_ok then
         (c\<lparr>state := STATE_FAILED_10, ping_gateway_timeout_start := 0\<rparr>, [Report ''connectionMessage'' ''Ping Gateway Successful''])
       else if ping_dns_data c = ping_bad then
         (c\<lparr>state := STATE_FAILED_PING_GATEWAY, ping_gateway_timeout_start := 0\<rparr>,
          [Led_state ''4-blink'' ''none'', Report ''connectionMessage'' ''Ping Gateway Failed'', Resp ''Ping Gateway to the server is failed.''])
       else (c, []))
   | None \<Rightarrow> (case tick t (ping_gateway_timeout_start c) PING_GATEWAY_TIMEOUT_SECONDS of
       (True, w) \<Rightarrow> (c\<lparr>ping_gateway_timeout_start := w, state := STATE_FAILED_PING_GATEWAY\<rparr>,
          [Report ''connectionMessage'' ''Ping Gateway Failed'',
           Resp ''PING gateway response is not received. Ping Gateway to the server is failed.''])
     | (False, w) \<Rightarrow> (c\<lparr>ping_gateway_timeout_start := w\<rparr>, [])))"

definition ihub_led :: "int option \<Rightarrow> string" where
  "ihub_led n = (if n = Some 1 then ''6-blink'' else if n = Some 6 \<or> n = Some 12 then ''5-blink'' else ''7-blink'')"

definition handle_waiting_for_ihub_response :: "conn_env \<Rightarrow> json option \<Rightarrow> conn \<Rightarrow> conn \<times> conn_out list" where
  "handle_waiting_for_ihub_response E j c = (let s = or_empty (text_ci j ''IHUBRESP'');
     (c1, o1) = (if s \<noteq> [] then
         (if s = ''CONNECTED'' then (c\<lparr>state := STATE_CONNECTED\<rparr>, [])
          else if s = ''DISCONNECTED'' then
            (if \<not> MonSrvConn_running E then (c\<lparr>state := STATE_FAILED_11\<rparr>, [Led_state (ihub_led (number_ci j ''ERROR_NUM_IHUB'')) ''iHUB''])
             else (c\<lparr>state := STATE_CONNECTED\<rparr>, []))
          else (c, []))
       else (case tick (now E) (ihub_connect_timeout_start c) IHUB_RESP_TIMEOUT_SECONDS of
           (True, w) \<Rightarrow> (if \<not> MonSrvConn_running E then (c\<lparr>state := STATE_FAILED_12, ihub_connect_timeout_start := w\<rparr>,
                 [Led_state ''7-blink'' ''iHUB'', Resp ''Response from IHUB actor is not received.''])
               else (c\<lparr>state := STATE_CONNECTED, ihub_connect_timeout_start := w\<rparr>, [Resp ''Response from IHUB actor is not received.'']))
         | (False, w) \<Rightarrow> (c\<lparr>ihub_connect_timeout_start := w\<rparr>, []))) in
     (if MonSrvConn_running E then c1\<lparr>state := STATE_CONNECTED, ihub_connect_timeout_start := 0\<rparr> else c1, o1))"

text \<open>The other actors are taken down and up again; a reset with a time in minutes restarts the processor in between.\<close>

definition reset_time :: "json option \<Rightarrow> int" where
  "reset_time j = (case number_ci j ''RESET_TIME'' of
     Some n \<Rightarrow> (let u = wrap_u 32 n in if u \<le> 60 then u * 60000 else 3600000) | None \<Rightarrow> 0)"

definition Reset_Stack :: "json option \<Rightarrow> conn_out list" where
  "Reset_Stack j = [Led_state ''OFF'' ''none'', Cmd ''HTTP'' ''DEINIT'' None, Cmd ''WIFI'' ''DISCONNECT'' None, Wait 1000, Cmd ''WIFI'' ''DEINIT'' None,
     Cmd ''IHUB'' ''DEINIT'' None, Resp ''HTTP, WIFI, AND IHUB actors are de-initialized.''] @
     (if reset_time j = 0 then [Wait 1000] else [Wait (reset_time j), Restart]) @
     [Cmd ''HTTP'' ''INIT'' None, Wait 500, Cmd ''WIFI'' ''INIT'' None, Wait 500, Cmd ''IHUB'' ''INIT'' None,
      Resp ''HTTP, WIFI, AND IHUB actors are re-initialized.'', Wait 2000, Cmd ''SYSTEM'' ''SERVER_CONNECT'' None]"

definition resp_json :: "string \<Rightarrow> json option" where "resp_json s = Some (JObj [(''RESP'', JStr s)])"

definition failed_text :: string where "failed_text = ''Server Connect flow failed. Stack will reset after 30 seconds ''"

definition handle_failed_state :: "conn \<Rightarrow> conn \<times> conn_out list" where
  "handle_failed_state c = (c\<lparr>deviceAnnounceStatus := ''Connection Yet To Start'', state := STATE_CHECK_CREDENTIALS, que_rx_delay := 60000\<rparr>,
     [Resp failed_text, Wait 30000] @ Reset_Stack (resp_json failed_text))"

section \<open>One turn\<close>

definition state_text :: "conn_state \<Rightarrow> string \<Rightarrow> string" where
  "state_text s old = (case s of
     STATE_CHECK_CREDENTIALS \<Rightarrow> ''CHECK CREDENTIALS'' | STATE_CHECK_BLE_START_RESP \<Rightarrow> ''CHECK BLE START RESPONSE''
   | STATE_CHECK_WIFI_ENABLED \<Rightarrow> ''CHECK WIFI ENABLED'' | STATE_CHECK_WIFI_AVAILABLE \<Rightarrow> ''CHECK WIFI AVAILABLE''
   | STATE_NETWORK_SCAN \<Rightarrow> ''NETWORK SCAN'' | STATE_WIFI_CONNECT_SSID \<Rightarrow> ''WIFI CONNECT SSID'' | STATE_ETH_CONNECT \<Rightarrow> ''ETH CONNECT''
   | STATE_NTP_SYNC_CHECK \<Rightarrow> ''NTP CONNECT'' | STATE_DEVICE_ANNOUNCE \<Rightarrow> ''DEVICE ANNOUNCE'' | STATE_PING_DNS \<Rightarrow> ''PING DNS''
   | STATE_PING_GATEWAY \<Rightarrow> ''PING GATEWAY'' | STATE_WAITING_FOR_IHUB_RESPONSE \<Rightarrow> ''STATE_WAITING_FOR_IHUB_RESPONSE''
   | STATE_CONNECTED \<Rightarrow> ''CONNECTED'' | STATE_FAILED \<Rightarrow> old | STATE_FAILED_1 \<Rightarrow> ''FAILED 1: Network not Available''
   | STATE_FAILED_2 \<Rightarrow> ''FAILED 2: Invalid Json input'' | STATE_FAILED_3 \<Rightarrow> ''FAILED 3: WIFI connection failed''
   | STATE_FAILED_4 \<Rightarrow> ''FAILED 4: Ethernet connection failed''
   | STATE_FAILED_5 \<Rightarrow> ''FAILED 5: Response from Ethernet actor is not received.''
   | STATE_FAILED_6 \<Rightarrow> ''FAILED 6: DNS ping successful, but device announce failed.''
   | STATE_FAILED_10 \<Rightarrow> ''FAILED 10: Ping DNS and gateway successful, but device announce failed.''
   | STATE_FAILED_11 \<Rightarrow> ''FAILED 11: IHUB Connection FAILED'' | STATE_FAILED_12 \<Rightarrow> ''FAILED 12: No IHUB Response'' | _ \<Rightarrow> ''DEFAULT'')"

text \<open>Texts of the message are copied into buffers of fixed size.\<close>

definition too_long :: "string option \<Rightarrow> nat \<Rightarrow> bool" where
  "too_long s n \<longleftrightarrow> (case s of Some t \<Rightarrow> n \<le> length t | None \<Rightarrow> False)"

definition overruns :: "conn_state \<Rightarrow> json option \<Rightarrow> bool" where
  "overruns s j \<longleftrightarrow> (case s of
     STATE_CHECK_BLE_START_RESP \<Rightarrow> too_long (text_ci j ''RESP'') 50
   | STATE_NETWORK_SCAN \<Rightarrow> too_long (text_cs j ''SSID'') 50 \<or> too_long (text_cs j ''PASSWORD'') 50 \<or>
       or_empty (text_cs j ''SSID'') = [] \<and> too_long (text_cs j ''ETHERNET'') 50
   | STATE_WIFI_CONNECT_SSID \<Rightarrow> too_long (text_ci j ''WIFI_CONNECTION_STATUS'') 50
   | STATE_PING_DNS \<Rightarrow> too_long (text_ci j ''RESP'') 50
   | STATE_PING_GATEWAY \<Rightarrow> too_long (text_ci j ''RESP'') 50
   | STATE_WAITING_FOR_IHUB_RESPONSE \<Rightarrow> too_long (text_ci j ''IHUBRESP'') 30
   | _ \<Rightarrow> False)"

definition handle_state :: "conn_env \<Rightarrow> json option \<Rightarrow> conn \<Rightarrow> conn \<times> conn_out list" where
  "handle_state E j c = (case state c of
     STATE_CHECK_CREDENTIALS \<Rightarrow> handle_check_credentials E c
   | STATE_CHECK_BLE_START_RESP \<Rightarrow> (let (c1, o1) = handle_ble_start_resp j c; (c2, o2) = handle_wifi_enabled (now E) j c1 in (c2, o1 @ o2))
   | STATE_CHECK_WIFI_ENABLED \<Rightarrow> handle_wifi_enabled (now E) j c
   | STATE_NETWORK_SCAN \<Rightarrow> handle_network_scan (now E) j (c\<lparr>que_rx_delay := 30000\<rparr>)
   | STATE_WIFI_CONNECT_SSID \<Rightarrow> handle_wifi_connect_ssid (now E) j (c\<lparr>que_rx_delay := 30000\<rparr>)
   | STATE_ETH_CONNECT \<Rightarrow> handle_eth_connect (now E) j c
   | STATE_NTP_SYNC_CHECK \<Rightarrow> ntp_sync_check E c
   | STATE_DEVICE_ANNOUNCE \<Rightarrow> (let (c1, o1) = handle_device_announce (now E) j c in (c1\<lparr>que_rx_delay := 10000\<rparr>, o1))
   | STATE_PING_DNS \<Rightarrow> handle_ping_dns (now E) j c
   | STATE_PING_GATEWAY \<Rightarrow> handle_ping_gateway (now E) j c
   | STATE_WAITING_FOR_IHUB_RESPONSE \<Rightarrow>
       (let (c1, o1) = handle_waiting_for_ihub_response E j c in (c1\<lparr>que_rx_delay := 10000\<rparr>, o1))
   | STATE_CONNECTED \<Rightarrow> (c\<lparr>que_rx_delay := 60000\<rparr>, [Resp ''Device is already connected''])
   | STATE_CHECK_WIFI_AVAILABLE \<Rightarrow> (c, [])
   | _ \<Rightarrow> handle_failed_state c)"

text \<open>The request to start anew; while the credentials are looked for, any other object is dropped.\<close>

definition reinit :: "json option \<Rightarrow> conn \<Rightarrow> conn option" where
  "reinit j c = (case j of
     Some (JObj ms) \<Rightarrow> (case text_ci j ''REINIT'' of
         Some s \<Rightarrow> Some (if s = ''1'' then c\<lparr>state := STATE_CHECK_CREDENTIALS\<rparr> else c)
       | None \<Rightarrow> if state c = STATE_CHECK_CREDENTIALS then None else Some c)
   | _ \<Rightarrow> Some c)"

definition leave :: "conn \<Rightarrow> conn_out list \<Rightarrow> conn \<times> conn_out list" where
  "leave c os = (c\<lparr>task_end := Ended\<rparr>, os @ [Resp ''Exit server connect task''])"

definition Server_Connect_turn :: "conn \<Rightarrow> conn_env \<Rightarrow> conn \<times> conn_out list" where
  "Server_Connect_turn c E = (if task_end c \<noteq> Running then (c, [])
     else if \<not> Server_Conn_Flag E then leave c []
     else (let txt = state_text (state c) (Current_State c); c0 = c\<lparr>Current_State := txt\<rparr>; o0 = [Report ''SERVER CONNECT STATE'' txt];
       j = (case message E of Some m \<Rightarrow> m | None \<Rightarrow> None) in
       if message E = Some None then (c0\<lparr>state := STATE_FAILED_2\<rparr>, o0 @ [Resp ''Invalid Json input''])
       else case reinit j c0 of None \<Rightarrow> (c0, o0)
       | Some c1 \<Rightarrow> (if overruns (state c1) j then (c1\<lparr>task_end := Overran\<rparr>, o0)
           else (let (c2, o2) = handle_state E j c1 in
             if state c2 = STATE_CONNECTED then leave c2 (o0 @ o2) else (c2, o0 @ o2)))))"

text \<open>Creating the task, or asking the task, or the monitor, to start anew.\<close>

datatype start_action = Create_task | Reinit_connect | Delete_monitor | Nothing_to_do

definition initiate_ServerConnect :: "bool \<Rightarrow> bool \<Rightarrow> bool list \<Rightarrow> bool \<Rightarrow> start_action" where
  "initiate_ServerConnect connect_running monitor_running monitor_polls monitor_queue =
    (if \<not> connect_running \<and> \<not> monitor_running then Create_task
     else if monitor_running then
       (if monitor_queue \<and> list_all (\<lambda>b. b) monitor_polls then Delete_monitor
        else if \<not> connect_running then Create_task else Nothing_to_do)
     else Reinit_connect)"

definition periodic_timer_callback :: "conn \<Rightarrow> conn" where
  "periodic_timer_callback c = c\<lparr>Device_Announce_F_delay := 0, device_ann_delay_count := 0, remaining_time_device_ann := 0\<rparr>"

text \<open>The delay is also a property of the actor, which a client can set.\<close>

definition set_F_delay :: "int \<Rightarrow> conn \<Rightarrow> conn" where
  "set_F_delay n c = c\<lparr>Device_Announce_F_delay := wrap_u 32 n\<rparr>"

definition conn_start :: "conn \<Rightarrow> conn" where
  "conn_start c = c\<lparr>task_end := Running, state := STATE_CHECK_CREDENTIALS, Current_State := [], que_rx_delay := 3000,
     timeout_count_credential := False, timeout_count_credential_2 := False, timeout_count_credential_3 := False, SSID := [], Pass := [],
     eth_keyVal := [], ping_dns_data := [], wifi_enabled := 255\<rparr>"

definition conn_boot :: conn where
  "conn_boot = \<lparr>task_end = Running, state = STATE_CHECK_CREDENTIALS, Current_State = [], que_rx_delay = 3000, timeout_count_credential = False,
     timeout_count_credential_2 = False, timeout_count_credential_3 = False, SSID = [], Pass = [], eth_keyVal = [], ping_dns_data = [],
     wifi_enabled = 255, BLE_INIT_Flag = False, ping_dest_id = [], wifi_enabled_timeout_start = 0, timeout_start = 0,
     wifi_connect_timeout_start = 0, eth_timeout_start = 0, device_announce_timeout_start = 0, ping_dns_timeout_start = 0,
     ping_gateway_timeout_start = 0, ihub_connect_timeout_start = 0, Device_Announce_F_delay = 0, Device_Announce_F_delay_Flag_1 = False,
     device_ann_delay_count = 0, remaining_time_device_ann = 0, deviceAnnounceStatus = ''Connection Yet To Start'', InternetDisconnectCount = 0\<rparr>"

text \<open>What happens to the task in the course of time: its own turns, its creation, the timer that clears the delay, and a client that sets it.
  A pause is part of its turn; a change of the delay that falls into a pause is overwritten when the pause ends.\<close>

datatype conn_event = Turn conn_env | Start_task | Timer_fires | Set_delay int

primrec conn_step :: "conn \<Rightarrow> conn_event \<Rightarrow> conn \<times> conn_out list" where
  "conn_step c (Turn E) = Server_Connect_turn c E"
| "conn_step c Start_task = (conn_start c, [])"
| "conn_step c Timer_fires = (periodic_timer_callback c, [])"
| "conn_step c (Set_delay n) = (set_F_delay n c, [])"

section \<open>What the handlers leave alone\<close>

definition announced :: "conn_out list \<Rightarrow> nat" where
  "announced os = length (filter (\<lambda>x. x = Cmd ''SYSTEM'' ''DEVICE_ANN'' None) os)"

definition pauses :: "conn_out list \<Rightarrow> int list" where
  "pauses os = concat (map (\<lambda>x. case x of Announce_wait n \<Rightarrow> [n] | _ \<Rightarrow> []) os)"

lemma announced_simps [simp]:
  "announced [] = 0" "announced (xs @ ys) = announced xs + announced ys"
  "announced (x # xs) = (if x = Cmd ''SYSTEM'' ''DEVICE_ANN'' None then 1 else 0) + announced xs"
  by (simp_all add: announced_def)

lemma pauses_simps [simp]:
  "pauses [] = []" "pauses (xs @ ys) = pauses xs @ pauses ys"
  "pauses (x # xs) = (case x of Announce_wait n \<Rightarrow> [n] | _ \<Rightarrow> []) @ pauses xs"
  by (simp_all add: pauses_def)

text \<open>Every handler but the one of the announcement: no announcement, no pause, the delay and its flag as they were.\<close>

definition quiet :: "conn \<Rightarrow> conn \<times> conn_out list \<Rightarrow> bool" where
  "quiet c r \<longleftrightarrow> announced (snd r) = 0 \<and> pauses (snd r) = [] \<and> Device_Announce_F_delay (fst r) = Device_Announce_F_delay c \<and>
     Device_Announce_F_delay_Flag_1 (fst r) = Device_Announce_F_delay_Flag_1 c"

text \<open>The wait of ten minutes asks for a flag of 0; the flag is 1, or 255 from the start and after every other answer.\<close>

definition keeps :: "conn \<Rightarrow> conn \<times> conn_out list \<Rightarrow> bool" where
  "keeps c r \<longleftrightarrow> wifi_enabled (fst r) \<in> {wifi_enabled c, 1, 255} \<and> (wifi_enabled c \<noteq> 0 \<longrightarrow> Wait 600000 \<notin> set (snd r))"

definition network_up :: "conn_env \<Rightarrow> bool" where
  "network_up E \<longleftrightarrow> (case message E of Some j \<Rightarrow> text_ci j ''WIFI_CONNECTION_STATUS'' = Some ''CONNECTED'' \<or> text_ci j ''ETH_STATUS'' = Some ''1''
     | None \<Rightarrow> False)"

lemmas handler_defs = handle_check_credentials_def handle_ble_start_resp_def handle_wifi_enabled_def ask_network_def try_ethernet_def
  handle_network_scan_def handle_wifi_connect_ssid_def handle_eth_connect_def handle_device_announce_def handle_ping_dns_def
  handle_ping_gateway_def handle_waiting_for_ihub_response_def handle_failed_state_def Reset_Stack_def send_ping_def

lemma quiet_handlers [simp]:
  "quiet c (handle_check_credentials E c)"
  "quiet c (handle_ble_start_resp j c)"
  "quiet c (handle_wifi_enabled t j c)"
  "quiet c (handle_wifi_connect_ssid t j c)"
  "quiet c (handle_eth_connect t j c)"
  "quiet c (handle_device_announce t j c)"
  "quiet c (handle_ping_dns t j c)"
  "quiet c (handle_ping_gateway t j c)"
  "quiet c (handle_waiting_for_ihub_response E j c)"
  "quiet c (handle_failed_state c)"
  by (simp_all add: handler_defs quiet_def Let_def split: option.split prod.split bool.split json.split)

lemma quiet_network: "quiet c (ask_network t c)" "quiet c (try_ethernet j c)"
  by (simp_all add: handler_defs quiet_def Let_def split: option.split)

lemma quiet_scan [simp]: "quiet c (handle_network_scan t j c)"
proof -
  have a: "quiet c' (ask_network s c')" "quiet c' (try_ethernet j c')" for s c' by (rule quiet_network)+
  show ?thesis
    using a(2)[of "c\<lparr>SSID := [], Pass := []\<rparr>"] a(1)
    by (auto simp: handle_network_scan_def quiet_def Let_def case_prod_beta split: option.split bool.split)
qed

lemma or_empty_eq: "or_empty x = s \<Longrightarrow> s \<noteq> [] \<Longrightarrow> x = Some s"
  by (cases x) (simp_all add: or_empty_def)

text \<open>The announcement is only prepared by the two handlers that hear of a connection.\<close>

lemma to_ntp:
  "state c \<noteq> STATE_NTP_SYNC_CHECK \<Longrightarrow> state (fst (handle_check_credentials E c)) \<noteq> STATE_NTP_SYNC_CHECK"
  "state c \<noteq> STATE_NTP_SYNC_CHECK \<Longrightarrow> state (fst (handle_ble_start_resp j c)) \<noteq> STATE_NTP_SYNC_CHECK"
  "state c \<noteq> STATE_NTP_SYNC_CHECK \<Longrightarrow> state (fst (handle_wifi_enabled t j c)) \<noteq> STATE_NTP_SYNC_CHECK"
  "state c \<noteq> STATE_NTP_SYNC_CHECK \<Longrightarrow> state (fst (handle_network_scan t j c)) \<noteq> STATE_NTP_SYNC_CHECK"
  "state c \<noteq> STATE_NTP_SYNC_CHECK \<Longrightarrow> state (fst (handle_device_announce t j c)) \<noteq> STATE_NTP_SYNC_CHECK"
  "state c \<noteq> STATE_NTP_SYNC_CHECK \<Longrightarrow> state (fst (handle_ping_dns t j c)) \<noteq> STATE_NTP_SYNC_CHECK"
  "state c \<noteq> STATE_NTP_SYNC_CHECK \<Longrightarrow> state (fst (handle_ping_gateway t j c)) \<noteq> STATE_NTP_SYNC_CHECK"
  "state c \<noteq> STATE_NTP_SYNC_CHECK \<Longrightarrow> state (fst (handle_waiting_for_ihub_response E j c)) \<noteq> STATE_NTP_SYNC_CHECK"
  "state (fst (handle_failed_state c)) \<noteq> STATE_NTP_SYNC_CHECK"
  "state c \<noteq> STATE_NTP_SYNC_CHECK \<Longrightarrow> state (fst (handle_wifi_connect_ssid t j c)) = STATE_NTP_SYNC_CHECK \<Longrightarrow>
     text_ci j ''WIFI_CONNECTION_STATUS'' = Some ''CONNECTED''"
  "state c \<noteq> STATE_NTP_SYNC_CHECK \<Longrightarrow> state (fst (handle_eth_connect t j c)) = STATE_NTP_SYNC_CHECK \<Longrightarrow>
     text_ci j ''ETH_STATUS'' = Some ''1''"
  by (auto simp: handler_defs Let_def split: option.splits prod.splits bool.splits json.splits if_splits dest: or_empty_eq)

lemma quiet_state: "state c \<noteq> STATE_NTP_SYNC_CHECK \<Longrightarrow> quiet c (handle_state E j c)"
proof -
  have ble: "quiet c (let (c1, o1) = handle_ble_start_resp j c; (c2, o2) = handle_wifi_enabled (now E) j c1 in (c2, o1 @ o2))"
    using quiet_handlers(2)[of c j] quiet_handlers(3)[of "fst (handle_ble_start_resp j c)" "now E" j]
    by (simp add: quiet_def Let_def case_prod_beta)
  have da: "quiet c (let (c1, o1) = handle_device_announce (now E) j c in (c1\<lparr>que_rx_delay := 10000\<rparr>, o1))"
    using quiet_handlers(6)[of c "now E" j] by (simp add: quiet_def Let_def case_prod_beta)
  have ih: "quiet c (let (c1, o1) = handle_waiting_for_ihub_response E j c in (c1\<lparr>que_rx_delay := 10000\<rparr>, o1))"
    using quiet_handlers(9)[of c E j] by (simp add: quiet_def Let_def case_prod_beta)
  have d: "quiet c (handle_network_scan t j (c\<lparr>que_rx_delay := 30000\<rparr>))" "quiet c (handle_wifi_connect_ssid t j (c\<lparr>que_rx_delay := 30000\<rparr>))" for t
    using quiet_scan[of "c\<lparr>que_rx_delay := 30000\<rparr>" t j] quiet_handlers(4)[of "c\<lparr>que_rx_delay := 30000\<rparr>" t j] by (simp_all add: quiet_def)
  assume "state c \<noteq> STATE_NTP_SYNC_CHECK"
  then show ?thesis
    using ble da ih d by (cases "state c") (simp_all add: handle_state_def, simp_all add: quiet_def)
qed

lemma ntp_needs_network:
  assumes "state c \<noteq> STATE_NTP_SYNC_CHECK" "state (fst (handle_state E j c)) = STATE_NTP_SYNC_CHECK"
  shows "text_ci j ''WIFI_CONNECTION_STATUS'' = Some ''CONNECTED'' \<or> text_ci j ''ETH_STATUS'' = Some ''1''"
  using assms to_ntp(1)[of c E] to_ntp(2)[of c j] to_ntp(3)[of c "now E" j] to_ntp(3)[of "fst (handle_ble_start_resp j c)" "now E" j]
    to_ntp(4)[of "c\<lparr>que_rx_delay := 30000\<rparr>" "now E" j] to_ntp(5)[of c "now E" j] to_ntp(6)[of c "now E" j] to_ntp(7)[of c "now E" j]
    to_ntp(8)[of c E j] to_ntp(9)[of c] to_ntp(10)[of "c\<lparr>que_rx_delay := 30000\<rparr>" "now E" j] to_ntp(11)[of c "now E" j]
  by (cases "state c") (simp_all add: handle_state_def Let_def case_prod_beta)

definition twice :: "int \<Rightarrow> int" where "twice d = (if 100000 < 2 * d then 10 else 2 * d)"
definition grow :: "int \<Rightarrow> int" where "grow d = (if d = 0 then 10 else twice d)"

lemma ntp_check:
  "announced (snd (ntp_sync_check E c)) = 1"
  "state (fst (ntp_sync_check E c)) = STATE_DEVICE_ANNOUNCE"
  "Device_Announce_F_delay_Flag_1 (fst (ntp_sync_check E c))"
  "\<not> Device_Announce_F_delay_Flag_1 c \<Longrightarrow>
     Device_Announce_F_delay (fst (ntp_sync_check E c)) = twice (Device_Announce_F_delay c) \<and> pauses (snd (ntp_sync_check E c)) = []"
  "Device_Announce_F_delay_Flag_1 c \<Longrightarrow>
     Device_Announce_F_delay (fst (ntp_sync_check E c)) = grow (Device_Announce_F_delay c) \<and>
     pauses (snd (ntp_sync_check E c)) = (if Device_Announce_F_delay c = 0 then [] else [delay_ms (Device_Announce_F_delay c)])"
  by (auto simp: ntp_sync_check_def Let_def twice_def grow_def)

text \<open>The shape of a turn of a running task.\<close>

definition goes_on :: "conn \<Rightarrow> conn_env \<Rightarrow> json option \<Rightarrow> conn \<Rightarrow> bool" where
  "goes_on c E j c1 \<longleftrightarrow> task_end c = Running \<and> Server_Conn_Flag E \<and> message E \<noteq> Some None \<and> j = (case message E of Some m \<Rightarrow> m | None \<Rightarrow> None) \<and>
     reinit j (c\<lparr>Current_State := state_text (state c) (Current_State c)\<rparr>) = Some c1 \<and> \<not> overruns (state c1) j"

lemma turn_cases:
  obtains (same) "state (fst (Server_Connect_turn c E)) = state c" "quiet c (Server_Connect_turn c E)" "keeps c (Server_Connect_turn c E)"
  | (failed) "state (fst (Server_Connect_turn c E)) = STATE_FAILED_2" "quiet c (Server_Connect_turn c E)" "keeps c (Server_Connect_turn c E)"
  | (reinit) "state (fst (Server_Connect_turn c E)) = STATE_CHECK_CREDENTIALS" "quiet c (Server_Connect_turn c E)" "keeps c (Server_Connect_turn c E)"
  | (go) j c1 where "goes_on c E j c1"
proof -
  let ?c0 = "c\<lparr>Current_State := state_text (state c) (Current_State c)\<rparr>"
  let ?j = "case message E of Some m \<Rightarrow> m | None \<Rightarrow> None"
  consider "task_end c \<noteq> Running \<or> \<not> Server_Conn_Flag E" | "task_end c = Running" "Server_Conn_Flag E" "message E = Some None"
    | "task_end c = Running" "Server_Conn_Flag E" "message E \<noteq> Some None" "reinit ?j ?c0 = None"
    | c1 where "task_end c = Running" "Server_Conn_Flag E" "message E \<noteq> Some None" "reinit ?j ?c0 = Some c1" "overruns (state c1) ?j"
    | c1 where "goes_on c E ?j c1"
    by (cases "reinit ?j ?c0") (auto simp: goes_on_def)
  then show ?thesis
  proof cases
    case 1 then show ?thesis by (intro same) (auto simp: Server_Connect_turn_def leave_def quiet_def keeps_def)
  next
    case 2 then show ?thesis by (intro failed) (simp_all add: Server_Connect_turn_def Let_def quiet_def keeps_def)
  next
    case 3 then show ?thesis by (intro same) (simp_all add: Server_Connect_turn_def Let_def quiet_def keeps_def)
  next
    case 4
    have t: "Server_Connect_turn c E = (c1\<lparr>task_end := Overran\<rparr>, [Report ''SERVER CONNECT STATE'' (state_text (state c) (Current_State c))])"
      using 4 by (simp add: Server_Connect_turn_def Let_def)
    have "c1 = ?c0 \<or> c1 = ?c0\<lparr>state := STATE_CHECK_CREDENTIALS\<rparr>"
      using 4(4) by (auto simp: reinit_def split: option.splits json.splits if_splits)
    then show ?thesis by (elim disjE) (rule same reinit; simp add: t quiet_def keeps_def)+
  next
    case 5 then show ?thesis by (rule go)
  qed
qed

lemma turn_eq:
  assumes "goes_on c E j c1"
  shows "Server_Connect_turn c E = (let (c2, o2) = handle_state E j c1; o0 = [Report ''SERVER CONNECT STATE'' (state_text (state c) (Current_State c))] in
    if state c2 = STATE_CONNECTED then leave c2 (o0 @ o2) else (c2, o0 @ o2))"
proof -
  note a = assms[unfolded goes_on_def]
  have j: "(case message E of Some m \<Rightarrow> m | None \<Rightarrow> None) = j" using a by simp
  have r: "reinit j (c\<lparr>Current_State := state_text (state c) (Current_State c)\<rparr>) = Some c1" "\<not> overruns (state c1) j"
    "task_end c = Running" "Server_Conn_Flag E" "message E \<noteq> Some None" using a by blast+
  show ?thesis unfolding Server_Connect_turn_def Let_def j by (simp add: r)
qed

lemma turn_go:
  assumes "goes_on c E j c1"
  shows "state (fst (Server_Connect_turn c E)) = state (fst (handle_state E j c1))"
    "announced (snd (Server_Connect_turn c E)) = announced (snd (handle_state E j c1))"
    "pauses (snd (Server_Connect_turn c E)) = pauses (snd (handle_state E j c1))"
    "Device_Announce_F_delay (fst (Server_Connect_turn c E)) = Device_Announce_F_delay (fst (handle_state E j c1))"
    "Device_Announce_F_delay_Flag_1 (fst (Server_Connect_turn c E)) = Device_Announce_F_delay_Flag_1 (fst (handle_state E j c1))"
  by (simp_all add: turn_eq[OF assms] Let_def leave_def case_prod_beta)

lemma go_start:
  assumes "goes_on c E j c1"
  shows "(state c1 = state c \<or> state c1 = STATE_CHECK_CREDENTIALS) \<and> Device_Announce_F_delay c1 = Device_Announce_F_delay c \<and>
    Device_Announce_F_delay_Flag_1 c1 = Device_Announce_F_delay_Flag_1 c"
  using assms by (auto simp: goes_on_def reinit_def split: option.splits json.splits if_splits)

section \<open>Announcements\<close>

definition about_to :: "conn \<Rightarrow> nat" where "about_to c = (if state c = STATE_NTP_SYNC_CHECK then 1 else 0)"
definition ups :: "conn_env \<Rightarrow> nat" where "ups E = (if network_up E then 1 else 0)"

lemma announce_step:
  "announced (snd (Server_Connect_turn c E)) + about_to (fst (Server_Connect_turn c E)) \<le> about_to c + ups E"
proof (cases rule: turn_cases[of c E])
  case same then show ?thesis by (simp add: quiet_def about_to_def)
next
  case failed then show ?thesis by (simp add: quiet_def about_to_def)
next
  case reinit then show ?thesis by (simp add: quiet_def about_to_def)
next
  case (go j c1)
  note g = go_start[OF go] and t = turn_go[OF go]
  show ?thesis
  proof (cases "state c1 = STATE_NTP_SYNC_CHECK")
    case True
    then have "state c = STATE_NTP_SYNC_CHECK" using g by auto
    then show ?thesis using True t ntp_check(1,2)[of E c1] by (simp add: about_to_def handle_state_def)
  next
    case False
    have "network_up E" if "state (fst (handle_state E j c1)) = STATE_NTP_SYNC_CHECK"
    proof -
      have "text_ci j ''WIFI_CONNECTION_STATUS'' = Some ''CONNECTED'' \<or> text_ci j ''ETH_STATUS'' = Some ''1''"
        using ntp_needs_network[OF False that] .
      moreover have "j = (case message E of Some m \<Rightarrow> m | None \<Rightarrow> None)" using go by (simp add: goes_on_def)
      ultimately show ?thesis by (cases "message E") (simp_all add: network_up_def text_ci_def)
    qed
    then show ?thesis using t quiet_state[OF False, of E j] by (simp add: about_to_def ups_def quiet_def)
  qed
qed

lemma announce_run:
  "announced (snd (run_events Server_Connect_turn c Es)) \<le> about_to c + sum_list (map ups Es)"
proof (induction Es arbitrary: c)
  case (Cons E Es)
  show ?case using announce_step[of c E] Cons[of "fst (Server_Connect_turn c E)"] by (simp add: Let_def case_prod_beta)
qed simp

text \<open>The pauses of a number of announcements, from a delay on, when nobody changes the delay.\<close>

primrec pause_row :: "int \<Rightarrow> nat \<Rightarrow> int list" where
  "pause_row d 0 = []"
| "pause_row d (Suc k) = (if d = 0 then [] else [1000 * d]) @ pause_row (grow d) k"

definition undisturbed :: "conn_event \<Rightarrow> bool" where
  "undisturbed e \<longleftrightarrow> (case e of Turn E \<Rightarrow> True | Start_task \<Rightarrow> True | Timer_fires \<Rightarrow> False | Set_delay n \<Rightarrow> False)"

definition row_from :: "conn \<Rightarrow> nat \<Rightarrow> int list" where
  "row_from c k = (if Device_Announce_F_delay_Flag_1 c then pause_row (Device_Announce_F_delay c) k
     else pause_row (twice (Device_Announce_F_delay c)) (k - 1))"

definition sane_delay :: "conn \<Rightarrow> bool" where
  "sane_delay c \<longleftrightarrow> Device_Announce_F_delay c \<in> {0..42949672}"

text \<open>One event that does not change the delay: it announces nothing and all stays, or it announces once, after the pause due.\<close>

lemma undisturbed_step:
  assumes "undisturbed e" "sane_delay c" "conn_step c e = (c', os)"
  shows "announced os = 0 \<and> pauses os = [] \<and> Device_Announce_F_delay c' = Device_Announce_F_delay c \<and>
       Device_Announce_F_delay_Flag_1 c' = Device_Announce_F_delay_Flag_1 c \<or>
     announced os = 1 \<and> sane_delay c' \<and> Device_Announce_F_delay_Flag_1 c' \<and> (\<forall>k. pauses os @ row_from c' k = row_from c (Suc k))"
proof (cases e)
  case (Turn E)
  then have s: "c' = fst (Server_Connect_turn c E)" "os = snd (Server_Connect_turn c E)" using assms(3) by simp_all
  show ?thesis
  proof (cases rule: turn_cases[of c E])
    case (go j c1)
    note g = go_start[OF go] and t = turn_go[OF go]
    show ?thesis
    proof (cases "state c1 = STATE_NTP_SYNC_CHECK")
      case True
      then show ?thesis
        using s g t assms(2) ntp_check(1,3)[of E c1] ntp_check(4,5)[of c1 E]
        by (auto simp: handle_state_def row_from_def sane_delay_def twice_def grow_def delay_ms_def wrap_u_def)
    next
      case False
      then show ?thesis using s g t quiet_state[OF False, of E j] by (simp add: quiet_def)
    qed
  qed (simp_all add: s quiet_def)
qed (use assms in \<open>auto simp: undisturbed_def conn_start_def\<close>)

lemma undisturbed_run:
  assumes "list_all undisturbed es" "sane_delay c"
  shows "pauses (snd (run_events conn_step c es)) = row_from c (announced (snd (run_events conn_step c es)))"
  using assms
proof (induction es arbitrary: c)
  case Nil show ?case by (simp add: row_from_def)
next
  case (Cons e es)
  obtain c' os where s: "conn_step c e = (c', os)" by fastforce
  have u: "undisturbed e" "list_all undisturbed es" using Cons.prems by simp_all
  from undisturbed_step[OF u(1) Cons.prems(2) s] show ?case
  proof
    assume q: "announced os = 0 \<and> pauses os = [] \<and> Device_Announce_F_delay c' = Device_Announce_F_delay c \<and>
       Device_Announce_F_delay_Flag_1 c' = Device_Announce_F_delay_Flag_1 c"
    then have "sane_delay c'" "row_from c' = row_from c" using Cons.prems(2) by (simp_all add: sane_delay_def row_from_def fun_eq_iff)
    then show ?thesis using q Cons.IH[OF u(2), of c'] by (simp add: s case_prod_beta)
  next
    assume q: "announced os = 1 \<and> sane_delay c' \<and> Device_Announce_F_delay_Flag_1 c' \<and> (\<forall>k. pauses os @ row_from c' k = row_from c (Suc k))"
    then show ?thesis using Cons.IH[OF u(2), of c'] by (simp add: s case_prod_beta)
  qed
qed

text \<open>The flag says that there has been an announcement.\<close>

lemma flag_step:
  "Device_Announce_F_delay_Flag_1 (fst (conn_step c e)) \<longleftrightarrow> Device_Announce_F_delay_Flag_1 c \<or> announced (snd (conn_step c e)) \<noteq> 0"
proof (cases e)
  case (Turn E)
  show ?thesis
  proof (cases rule: turn_cases[of c E])
    case (go j c1)
    note g = go_start[OF go] and t = turn_go[OF go]
    show ?thesis
    proof (cases "state c1 = STATE_NTP_SYNC_CHECK")
      case True then show ?thesis using Turn g t ntp_check(1,3)[of E c1] by (simp add: handle_state_def)
    next
      case False then show ?thesis using Turn g t quiet_state[OF False, of E j] by (simp add: quiet_def)
    qed
  qed (simp_all add: Turn quiet_def)
qed (simp_all add: conn_start_def periodic_timer_callback_def set_F_delay_def)

lemma flag_run:
  "Device_Announce_F_delay_Flag_1 (fst (run_events conn_step c es)) \<longleftrightarrow>
     Device_Announce_F_delay_Flag_1 c \<or> announced (snd (run_events conn_step c es)) \<noteq> 0"
proof (induction es arbitrary: c)
  case (Cons e es) then show ?case using flag_step[of c e] by (auto simp: case_prod_beta Let_def)
qed simp

text \<open>From ten seconds the pauses run through fourteen values.\<close>

lemma grow_power:
  "grow (10 * 2 ^ (j mod 14)) = 10 * 2 ^ (Suc j mod 14)"
proof (cases "j mod 14 = 13")
  case True
  then have "Suc j mod 14 = 0" by (simp add: mod_Suc)
  then show ?thesis using True by (simp add: grow_def twice_def)
next
  case False
  then have s: "Suc j mod 14 = Suc (j mod 14)" and "j mod 14 < 13" using mod_less_divisor[of 14 j] by (auto simp: mod_Suc)
  then have "(2::int) ^ (j mod 14) \<le> 2 ^ 12" by (intro power_increasing) auto
  then show ?thesis using s by (simp add: grow_def twice_def)
qed

lemma pause_row_power:
  "pause_row (10 * 2 ^ (j mod 14)) k = map (\<lambda>i. 10000 * 2 ^ (i mod 14)) [j..<j + k]"
proof (induction k arbitrary: j)
  case (Suc k)
  show ?case using Suc[of "Suc j"] grow_power[of j] by (simp add: upt_rec[of j])
qed simp

lemma pause_row_0: "pause_row 0 k = map (\<lambda>i. 10000 * 2 ^ (i mod 14)) [0..<k - 1]"
  using pause_row_power[of 0] by (cases k) (simp_all add: grow_def)

section \<open>Silence\<close>

definition silent :: "conn_env \<Rightarrow> bool" where
  "silent E \<longleftrightarrow> message E = None \<and> Server_Conn_Flag E \<and> \<not> MonSrvConn_running E"

text \<open>The timer of a state, its limit and what follows when it fires.\<close>

definition deadline :: "conn \<Rightarrow> (int \<times> int \<times> conn_state) option" where
  "deadline c = (case state c of
     STATE_CHECK_WIFI_ENABLED \<Rightarrow> Some (wifi_enabled_timeout_start c, 3, STATE_CHECK_CREDENTIALS)
   | STATE_NETWORK_SCAN \<Rightarrow> if timeout_count_credential_2 c \<or> eth_keyVal c = ''AVAILABLE'' then None
       else Some (timeout_start c, 3, STATE_CHECK_BLE_START_RESP)
   | STATE_WIFI_CONNECT_SSID \<Rightarrow> Some (wifi_connect_timeout_start c, 60, STATE_FAILED_3)
   | STATE_ETH_CONNECT \<Rightarrow> Some (eth_timeout_start c, 3, STATE_FAILED_5)
   | STATE_DEVICE_ANNOUNCE \<Rightarrow> Some (device_announce_timeout_start c, 51, STATE_PING_DNS)
   | STATE_PING_DNS \<Rightarrow> Some (ping_dns_timeout_start c, 40, STATE_PING_GATEWAY)
   | STATE_PING_GATEWAY \<Rightarrow> Some (ping_gateway_timeout_start c, 40, STATE_FAILED_PING_GATEWAY)
   | STATE_WAITING_FOR_IHUB_RESPONSE \<Rightarrow> Some (ihub_connect_timeout_start c, 60, STATE_FAILED_12)
   | _ \<Rightarrow> None)"

lemmas limits = WIFI_ENABLED_TIMEOUT_SECONDS_def WIFI_CONNECT_TIMEOUT_SECONDS_def ETHERNET_TIMEOUT_SECONDS_def DEVICE_ANNOUNCE_TIMEOUT_SECONDS_def
  PING_DNS_TIMEOUT_SECONDS_def PING_GATEWAY_TIMEOUT_SECONDS_def IHUB_RESP_TIMEOUT_SECONDS_def

lemma no_text [simp]: "text_ci None k = None" "text_cs None k = None" "number_ci None k = None" "or_empty None = []" "\<not> too_long None n"
  by (simp_all add: text_ci_def text_cs_def number_ci_def or_empty_def too_long_def)

lemma silent_go: "silent E \<Longrightarrow> task_end c = Running \<Longrightarrow> goes_on c E None (c\<lparr>Current_State := state_text (state c) (Current_State c)\<rparr>)"
  by (simp add: silent_def goes_on_def reinit_def overruns_def split: conn_state.split)

text \<open>What a silent turn leaves: the timer started, running, or fired.\<close>

definition ticked :: "int \<Rightarrow> int \<times> int \<times> conn_state \<Rightarrow> conn_state \<Rightarrow> conn \<Rightarrow> bool" where
  "ticked t d old c' \<longleftrightarrow> (case d of (w, L, s) \<Rightarrow> task_end c' = Running \<and> state c' \<noteq> STATE_CONNECTED \<and>
     (if w \<noteq> 0 \<and> L < t - w then state c' = s else state c' = old \<and> deadline c' = Some (if w = 0 then t else w, L, s)))"

lemma silent_handle:
  assumes "task_end c = Running" "deadline c = Some d" "\<not> MonSrvConn_running E"
  shows "ticked (now E) d (state c) (fst (handle_state E None c))"
proof (cases "state c")
  case STATE_CHECK_WIFI_ENABLED
  then show ?thesis using assms by (auto simp: handle_state_def deadline_def ticked_def handle_wifi_enabled_def limits tick_def)
next
  case STATE_NETWORK_SCAN
  then show ?thesis using assms
    by (auto simp: handle_state_def deadline_def ticked_def handle_network_scan_def try_ethernet_def ask_network_def tick_def Let_def split: if_splits)
next
  case STATE_WIFI_CONNECT_SSID
  then show ?thesis using assms by (auto simp: handle_state_def deadline_def ticked_def handle_wifi_connect_ssid_def limits tick_def)
next
  case STATE_ETH_CONNECT
  then show ?thesis using assms by (auto simp: handle_state_def deadline_def ticked_def handle_eth_connect_def limits tick_def)
next
  case STATE_DEVICE_ANNOUNCE
  then show ?thesis using assms by (auto simp: handle_state_def deadline_def ticked_def handle_device_announce_def limits tick_def)
next
  case STATE_PING_DNS
  then show ?thesis using assms by (auto simp: handle_state_def deadline_def ticked_def handle_ping_dns_def limits tick_def)
next
  case STATE_PING_GATEWAY
  then show ?thesis using assms by (auto simp: handle_state_def deadline_def ticked_def handle_ping_gateway_def limits tick_def)
next
  case STATE_WAITING_FOR_IHUB_RESPONSE
  then show ?thesis using assms
    by (auto simp: handle_state_def deadline_def ticked_def handle_waiting_for_ihub_response_def limits tick_def Let_def)
qed (use assms in \<open>simp_all add: deadline_def\<close>)

lemma silent_turn:
  assumes "silent E" "task_end c = Running" "deadline c = Some (w, L, s)"
  shows "task_end (fst (Server_Connect_turn c E)) = Running \<and>
    (if w \<noteq> 0 \<and> L < now E - w then state (fst (Server_Connect_turn c E)) = s
     else state (fst (Server_Connect_turn c E)) = state c \<and> deadline (fst (Server_Connect_turn c E)) = Some (if w = 0 then now E else w, L, s))"
proof -
  let ?c = "c\<lparr>Current_State := state_text (state c) (Current_State c)\<rparr>"
  have "deadline ?c = deadline c" by (cases "state c") (simp_all add: deadline_def)
  then have "deadline ?c = Some (w, L, s)" using assms(3) by simp
  moreover obtain c2 o2 where h: "handle_state E None ?c = (c2, o2)" by fastforce
  ultimately have t: "ticked (now E) (w, L, s) (state c) c2"
    using silent_handle[of ?c "(w, L, s)" E] assms(1,2) by (simp add: silent_def)
  then have "state c2 \<noteq> STATE_CONNECTED" by (simp add: ticked_def)
  then have "fst (Server_Connect_turn c E) = c2" using turn_eq[OF silent_go[OF assms(1,2)]] h by simp
  then show ?thesis using t by (simp add: ticked_def)
qed

lemma silent_run:
  assumes "task_end c = Running" "deadline c = Some (w, L, s)" "w \<noteq> 0" "list_all (\<lambda>E. silent E \<and> now E - w \<le> L) Es"
  shows "task_end (fst (run_events Server_Connect_turn c Es)) = Running \<and> state (fst (run_events Server_Connect_turn c Es)) = state c \<and>
    deadline (fst (run_events Server_Connect_turn c Es)) = Some (w, L, s)"
  using assms
proof (induction Es arbitrary: c)
  case (Cons E Es)
  then have "task_end (fst (Server_Connect_turn c E)) = Running" "state (fst (Server_Connect_turn c E)) = state c"
    "deadline (fst (Server_Connect_turn c E)) = Some (w, L, s)"
    using silent_turn[of E c w L s] by auto
  then show ?case using Cons.IH[of "fst (Server_Connect_turn c E)"] Cons.prems by (simp add: Let_def case_prod_beta)
qed simp

lemma gives_up:
  assumes "task_end c = Running" "deadline c = Some (0, L, s)" "silent E0" "now E0 \<noteq> 0"
    and "list_all (\<lambda>E. silent E \<and> now E - now E0 \<le> L) Es" "silent E" "L < now E - now E0"
  shows "state (fst (run_events Server_Connect_turn c (E0 # Es))) = state c \<and> state (fst (run_events Server_Connect_turn c (E0 # Es @ [E]))) = s"
proof -
  let ?c0 = "fst (Server_Connect_turn c E0)"
  let ?c1 = "fst (run_events Server_Connect_turn ?c0 Es)"
  have 0: "task_end ?c0 = Running" "state ?c0 = state c" "deadline ?c0 = Some (now E0, L, s)"
    using silent_turn[OF assms(3,1,2)] by simp_all
  note 1 = silent_run[OF 0(1,3) assms(4,5)]
  have "state (fst (Server_Connect_turn ?c1 E)) = s" using silent_turn[OF assms(6), of ?c1 "now E0" L s] 1 assms(4,7) by simp
  then show ?thesis using 0 1 by (simp add: run_events_split[of _ _ Es] Let_def case_prod_beta)
qed

section \<open>Replies\<close>

text \<open>A turn that receives an object which does not ask for a new start.\<close>

definition reply :: "conn_env \<Rightarrow> json \<Rightarrow> bool" where
  "reply E j \<longleftrightarrow> message E = Some (Some j) \<and> is_object j \<and> text_ci (Some j) ''REINIT'' = None \<and> Server_Conn_Flag E"

lemma reply_go:
  assumes "reply E j" "task_end c = Running" "state c \<noteq> STATE_CHECK_CREDENTIALS" "\<not> overruns (state c) (Some j)"
  shows "goes_on c E (Some j) (c\<lparr>Current_State := state_text (state c) (Current_State c)\<rparr>)"
  using assms by (auto simp: reply_def goes_on_def reinit_def is_object_def split: json.splits)

lemma turn_state:
  assumes "goes_on c E j c1" "handle_state E j c1 = (c2, o2)" "state c2 \<noteq> STATE_CONNECTED"
  shows "Server_Connect_turn c E = (c2, Report ''SERVER CONNECT STATE'' (state_text (state c) (Current_State c)) # o2)"
  using turn_eq[OF assms(1)] assms(2,3) by simp

definition waits :: "conn_out list \<Rightarrow> int list" where
  "waits os = concat (map (\<lambda>x. case x of Wait n \<Rightarrow> [n] | _ \<Rightarrow> []) os)"

definition commands_sent :: "conn_out list \<Rightarrow> (string \<times> string \<times> json option) list" where
  "commands_sent os = concat (map (\<lambda>x. case x of Cmd a f p \<Rightarrow> [(a, f, p)] | _ \<Rightarrow> []) os)"

lemma commands_sent_simps [simp]:
  "commands_sent [] = []" "commands_sent (xs @ ys) = commands_sent xs @ commands_sent ys"
  "commands_sent (x # xs) = (case x of Cmd a f p \<Rightarrow> [(a, f, p)] | _ \<Rightarrow> []) @ commands_sent xs"
  by (simp_all add: commands_sent_def)

lemma waits_simps [simp]:
  "waits [] = []" "waits (xs @ ys) = waits xs @ waits ys"
  "waits (x # xs) = (case x of Wait n \<Rightarrow> [n] | _ \<Rightarrow> []) @ waits xs"
  by (simp_all add: waits_def)

lemma reset_answer: "reset_time (resp_json t) = 0"
proof -
  have "lower ''RESP'' \<noteq> lower ''RESET_TIME''" by code_simp
  then show ?thesis by (simp add: reset_time_def resp_json_def number_ci_def number_in_def ci_item_def number_of_def)
qed

lemma failed_turn:
  assumes "silent E" "task_end c = Running" "state c \<in> {STATE_FAILED_1, STATE_FAILED_3, STATE_FAILED_PING_GATEWAY}"
  shows "task_end (fst (Server_Connect_turn c E)) = Running \<and> state (fst (Server_Connect_turn c E)) = STATE_CHECK_CREDENTIALS \<and>
    waits (snd (Server_Connect_turn c E)) = [30000, 1000, 1000, 500, 500, 2000] \<and>
    commands_sent (snd (Server_Connect_turn c E)) = [(''HTTP'', ''DEINIT'', None), (''WIFI'', ''DISCONNECT'', None), (''WIFI'', ''DEINIT'', None),
      (''IHUB'', ''DEINIT'', None), (''HTTP'', ''INIT'', None), (''WIFI'', ''INIT'', None), (''IHUB'', ''INIT'', None), (''SYSTEM'', ''SERVER_CONNECT'', None)]"
  using assms(2,3) by (auto simp: turn_eq[OF silent_go[OF assms(1,2)]] handle_state_def handle_failed_state_def Reset_Stack_def reset_answer Let_def)

lemma ble_answer_turn:
  assumes "reply E j" "text_ci (Some j) ''RESP'' = Some ''Server is started..''" "text_cs (Some j) ''ENABLE_WIFI'' = None"
    and "task_end c = Running" "state c = STATE_CHECK_BLE_START_RESP" "\<not> timeout_count_credential c" "timeout_count_credential_2 c"
    and "wifi_enabled_timeout_start c = 0"
  shows "task_end (fst (Server_Connect_turn c E)) = Running" "state (fst (Server_Connect_turn c E)) = STATE_FAILED_1"
    "snd (Server_Connect_turn c E) = [Report ''SERVER CONNECT STATE'' ''CHECK BLE START RESPONSE'', Resp ''BLE Server started. 5 minutes timeout reloaded.'']"
proof -
  have g: "goes_on c E (Some j) (c\<lparr>Current_State := state_text (state c) (Current_State c)\<rparr>)"
    using assms by (intro reply_go) (simp_all add: overruns_def too_long_def)
  show "task_end (fst (Server_Connect_turn c E)) = Running" "state (fst (Server_Connect_turn c E)) = STATE_FAILED_1"
    "snd (Server_Connect_turn c E) = [Report ''SERVER CONNECT STATE'' ''CHECK BLE START RESPONSE'', Resp ''BLE Server started. 5 minutes timeout reloaded.'']"
    unfolding turn_eq[OF g] using assms
    by (simp_all add: handle_state_def handle_ble_start_resp_def handle_wifi_enabled_def tick_def Let_def state_text_def)
qed

lemma no_network_turn:
  assumes "reply E j" "text_cs (Some j) ''NETWORK'' = Some ''NOT AVAILABLE''" "text_cs (Some j) ''SSID'' = None" "text_cs (Some j) ''PASSWORD'' = None"
    "text_cs (Some j) ''ETHERNET'' = None"
    and "task_end c = Running" "state c = STATE_NETWORK_SCAN" "\<not> timeout_count_credential_2 c" "eth_keyVal c \<noteq> ''AVAILABLE''"
  shows "task_end (fst (Server_Connect_turn c E)) = Running" "state (fst (Server_Connect_turn c E)) = STATE_CHECK_BLE_START_RESP"
    "timeout_count_credential_2 (fst (Server_Connect_turn c E))"
    "timeout_count_credential (fst (Server_Connect_turn c E)) = timeout_count_credential c"
    "wifi_enabled_timeout_start (fst (Server_Connect_turn c E)) = wifi_enabled_timeout_start c"
    "snd (Server_Connect_turn c E) = [Report ''SERVER CONNECT STATE'' ''NETWORK SCAN'', Led_state ''2-blink'' ''none'',
       Resp ''Set network credential using BLE.'', Resp ''Stack will reset in 5 minutes if no credentials received'',
       Set_prop ''BLE'' ''CONN_MODE'' ''1'', Cmd ''BLE'' ''ADVERT_START'' None]"
proof -
  have g: "goes_on c E (Some j) (c\<lparr>Current_State := state_text (state c) (Current_State c)\<rparr>)"
    using assms by (intro reply_go) (simp_all add: overruns_def too_long_def)
  show "task_end (fst (Server_Connect_turn c E)) = Running" "state (fst (Server_Connect_turn c E)) = STATE_CHECK_BLE_START_RESP"
    "timeout_count_credential_2 (fst (Server_Connect_turn c E))"
    "timeout_count_credential (fst (Server_Connect_turn c E)) = timeout_count_credential c"
    "wifi_enabled_timeout_start (fst (Server_Connect_turn c E)) = wifi_enabled_timeout_start c"
    "snd (Server_Connect_turn c E) = [Report ''SERVER CONNECT STATE'' ''NETWORK SCAN'', Led_state ''2-blink'' ''none'',
       Resp ''Set network credential using BLE.'', Resp ''Stack will reset in 5 minutes if no credentials received'',
       Set_prop ''BLE'' ''CONN_MODE'' ''1'', Cmd ''BLE'' ''ADVERT_START'' None]"
    unfolding turn_eq[OF g] using assms
    by (simp_all add: handle_state_def handle_network_scan_def try_ethernet_def ask_network_def Let_def state_text_def)
qed

section \<open>The way to the server\<close>

definition moves :: "conn \<Rightarrow> conn_env \<Rightarrow> conn_state \<Rightarrow> (string \<times> string \<times> json option) list \<Rightarrow> bool" where
  "moves c E s cs \<longleftrightarrow> task_end (fst (Server_Connect_turn c E)) = Running \<and> state (fst (Server_Connect_turn c E)) = s \<and>
     commands_sent (snd (Server_Connect_turn c E)) = cs"

lemma moves_by:
  assumes "goes_on c E j c1" "state (fst (handle_state E j c1)) = s" "s \<noteq> STATE_CONNECTED" "task_end (fst (handle_state E j c1)) = Running"
    and "commands_sent (snd (handle_state E j c1)) = cs"
  shows "moves c E s cs"
  using turn_eq[OF assms(1)] assms(2-5) by (simp add: moves_def Let_def case_prod_beta)

lemma quiet_go: "message E = None \<Longrightarrow> Server_Conn_Flag E \<Longrightarrow> task_end c = Running \<Longrightarrow>
    goes_on c E None (c\<lparr>Current_State := state_text (state c) (Current_State c)\<rparr>)"
  by (simp add: goes_on_def reinit_def overruns_def split: conn_state.split)

lemma move_credentials:
  assumes "message E = None" "Server_Conn_Flag E" "credentials E" "task_end c = Running" "state c = STATE_CHECK_CREDENTIALS"
  shows "moves c E STATE_CHECK_WIFI_ENABLED [(''CONSOLE'', ''GET'', names_json [''ENABLE_WIFI''])]"
  by (rule moves_by[OF quiet_go[OF assms(1,2,4)]]) (use assms in \<open>simp_all add: handle_state_def handle_check_credentials_def\<close>)

lemma move_wifi_enabled:
  assumes "reply E j" "text_cs (Some j) ''ENABLE_WIFI'' = Some ''1''" "task_end c = Running" "state c = STATE_CHECK_WIFI_ENABLED"
  shows "moves c E STATE_NETWORK_SCAN [(''WIFI'', ''NETWORK_SCAN'', None)]"
proof -
  have "wrap_u 8 (strtol ''1'') = 1" by code_simp
  then show ?thesis
    by (intro moves_by[OF reply_go[OF assms(1,3)]]) (use assms in \<open>simp_all add: overruns_def handle_state_def handle_wifi_enabled_def\<close>)
qed

lemma move_network:
  assumes "reply E j" "text_cs (Some j) ''SSID'' = Some ssid" "text_cs (Some j) ''PASSWORD'' = Some pw" "ssid \<noteq> []" "length ssid < 50" "length pw < 50"
    and "task_end c = Running" "state c = STATE_NETWORK_SCAN"
  shows "moves c E STATE_WIFI_CONNECT_SSID [(''WIFI'', ''CONNECT_SSID'', Some (JObj [(''SSID'', JStr ssid), (''PASSWORD'', JStr pw)]))]"
  by (rule moves_by[OF reply_go[OF assms(1,7)]])
    (use assms in \<open>simp_all add: overruns_def too_long_def or_empty_def handle_state_def handle_network_scan_def\<close>)

lemma move_connected:
  assumes "reply E j" "text_ci (Some j) ''WIFI_CONNECTION_STATUS'' = Some ''CONNECTED''" "task_end c = Running" "state c = STATE_WIFI_CONNECT_SSID"
  shows "moves c E STATE_NTP_SYNC_CHECK [(''NTP'', ''CONNECT'', None)]"
  by (rule moves_by[OF reply_go[OF assms(1,3)]])
    (use assms in \<open>simp_all add: overruns_def too_long_def or_empty_def handle_state_def handle_wifi_connect_ssid_def\<close>)

lemma move_announce:
  assumes "message E = None" "Server_Conn_Flag E" "task_end c = Running" "state c = STATE_NTP_SYNC_CHECK"
  shows "moves c E STATE_DEVICE_ANNOUNCE [(''SYSTEM'', ''DEVICE_ANN'', None)]"
proof -
  let ?h = "handle_state E None (c\<lparr>Current_State := state_text (state c) (Current_State c)\<rparr>)"
  have "state (fst ?h) = STATE_DEVICE_ANNOUNCE \<and> task_end (fst ?h) = Running \<and> commands_sent (snd ?h) = [(''SYSTEM'', ''DEVICE_ANN'', None)]"
    using assms(3,4) by (auto simp: handle_state_def ntp_sync_check_def Let_def)
  then show ?thesis by (intro moves_by[OF quiet_go[OF assms(1-3)]]) auto
qed

lemma move_announced:
  assumes "reply E j" "number_ci (Some j) ''HTTP STATUS'' = Some 200" "ci_item j ''MESSAGE'' = Some m" "cs_item m ''methods'' = Some (JArr ms)"
    and "cloud_methods ms = 2" "task_end c = Running" "state c = STATE_DEVICE_ANNOUNCE"
  shows "moves c E STATE_WAITING_FOR_IHUB_RESPONSE []"
  by (rule moves_by[OF reply_go[OF assms(1,6)]]) (use assms in \<open>simp_all add: overruns_def handle_state_def handle_device_announce_def Let_def\<close>)

lemma arrive:
  assumes "reply E j" "text_ci (Some j) ''IHUBRESP'' = Some ''CONNECTED''" "task_end c = Running" "state c = STATE_WAITING_FOR_IHUB_RESPONSE"
  shows "task_end (fst (Server_Connect_turn c E)) = Ended \<and> state (fst (Server_Connect_turn c E)) = STATE_CONNECTED \<and>
    commands_sent (snd (Server_Connect_turn c E)) = []"
  using turn_eq[OF reply_go[OF assms(1,3)]] assms
  by (simp add: overruns_def too_long_def handle_state_def handle_waiting_for_ihub_response_def or_empty_def leave_def Let_def)

lemma moves_run:
  "moves c E s cs \<Longrightarrow> task_end (fst (Server_Connect_turn c E)) = Running \<and> state (fst (Server_Connect_turn c E)) = s \<and>
    commands_sent (snd (run_events Server_Connect_turn c (E # Es))) = cs @ commands_sent (snd (run_events Server_Connect_turn (fst (Server_Connect_turn c E)) Es)) \<and>
    fst (run_events Server_Connect_turn c (E # Es)) = fst (run_events Server_Connect_turn (fst (Server_Connect_turn c E)) Es)"
  by (simp add: moves_def Let_def case_prod_beta)

text \<open>The answers of an installation where everything works.\<close>

definition good_day :: "string \<Rightarrow> string \<Rightarrow> conn_env list \<Rightarrow> bool" where
  "good_day ssid pw Es \<longleftrightarrow> (case Es of [E1, E2, E3, E4, E5, E6, E7] \<Rightarrow>
     message E1 = None \<and> Server_Conn_Flag E1 \<and> credentials E1 \<and>
     (\<exists>j. reply E2 j \<and> text_cs (Some j) ''ENABLE_WIFI'' = Some ''1'') \<and>
     (\<exists>j. reply E3 j \<and> text_cs (Some j) ''SSID'' = Some ssid \<and> text_cs (Some j) ''PASSWORD'' = Some pw) \<and>
     (\<exists>j. reply E4 j \<and> text_ci (Some j) ''WIFI_CONNECTION_STATUS'' = Some ''CONNECTED'') \<and>
     message E5 = None \<and> Server_Conn_Flag E5 \<and>
     (\<exists>j m ms. reply E6 j \<and> number_ci (Some j) ''HTTP STATUS'' = Some 200 \<and> ci_item j ''MESSAGE'' = Some m \<and>
        cs_item m ''methods'' = Some (JArr ms) \<and> cloud_methods ms = 2) \<and>
     (\<exists>j. reply E7 j \<and> text_ci (Some j) ''IHUBRESP'' = Some ''CONNECTED'')
   | _ \<Rightarrow> False)"

lemma good_day_cases:
  assumes "good_day ssid pw Es"
  obtains E1 E2 E3 E4 E5 E6 E7 where "Es = [E1, E2, E3, E4, E5, E6, E7]"
  using assms by (auto simp: good_day_def split: list.splits)

lemma good_day_connects:
  assumes "good_day ssid pw Es" "ssid \<noteq> []" "length ssid < 50" "length pw < 50"
  shows "task_end (fst (run_events Server_Connect_turn (conn_start c) Es)) = Ended \<and> state (fst (run_events Server_Connect_turn (conn_start c) Es)) = STATE_CONNECTED \<and>
    commands_sent (snd (run_events Server_Connect_turn (conn_start c) Es)) =
      [(''CONSOLE'', ''GET'', names_json [''ENABLE_WIFI'']), (''WIFI'', ''NETWORK_SCAN'', None),
       (''WIFI'', ''CONNECT_SSID'', Some (JObj [(''SSID'', JStr ssid), (''PASSWORD'', JStr pw)])), (''NTP'', ''CONNECT'', None),
       (''SYSTEM'', ''DEVICE_ANN'', None)]"
proof -
  obtain E1 E2 E3 E4 E5 E6 E7 where Es: "Es = [E1, E2, E3, E4, E5, E6, E7]" using good_day_cases[OF assms(1)] .
  note g = assms(1)[unfolded Es good_day_def list.case]
  let ?T = Server_Connect_turn
  have "moves (conn_start c) E1 STATE_CHECK_WIFI_ENABLED [(''CONSOLE'', ''GET'', names_json [''ENABLE_WIFI''])]"
    using g by (intro move_credentials) (simp_all add: conn_start_def)
  note 1 = moves_run[OF this, of "[E2, E3, E4, E5, E6, E7]"] define c1 where "c1 = fst (?T (conn_start c) E1)"
  have "moves c1 E2 STATE_NETWORK_SCAN [(''WIFI'', ''NETWORK_SCAN'', None)]" using g 1 move_wifi_enabled[of E2 _ c1] by (auto simp: c1_def)
  note 2 = moves_run[OF this, of "[E3, E4, E5, E6, E7]"] define c2 where "c2 = fst (?T c1 E2)"
  have "moves c2 E3 STATE_WIFI_CONNECT_SSID [(''WIFI'', ''CONNECT_SSID'', Some (JObj [(''SSID'', JStr ssid), (''PASSWORD'', JStr pw)]))]"
    using g 2 assms(2-4) move_network[of E3 _ ssid pw c2] by (auto simp: c2_def)
  note 3 = moves_run[OF this, of "[E4, E5, E6, E7]"] define c3 where "c3 = fst (?T c2 E3)"
  have "moves c3 E4 STATE_NTP_SYNC_CHECK [(''NTP'', ''CONNECT'', None)]" using g 3 move_connected[of E4 _ c3] by (auto simp: c3_def)
  note 4 = moves_run[OF this, of "[E5, E6, E7]"] define c4 where "c4 = fst (?T c3 E4)"
  have "moves c4 E5 STATE_DEVICE_ANNOUNCE [(''SYSTEM'', ''DEVICE_ANN'', None)]" using g 4 move_announce[of E5 c4] by (auto simp: c4_def)
  note 5 = moves_run[OF this, of "[E6, E7]"] define c5 where "c5 = fst (?T c4 E5)"
  have "moves c5 E6 STATE_WAITING_FOR_IHUB_RESPONSE []" using g 5 move_announced[of E6 _ _ _ c5] by (auto simp: c5_def)
  note 6 = moves_run[OF this, of "[E7]"] define c6 where "c6 = fst (?T c5 E6)"
  have 7: "task_end (fst (?T c6 E7)) = Ended \<and> state (fst (?T c6 E7)) = STATE_CONNECTED \<and> commands_sent (snd (?T c6 E7)) = []"
    using g 6 arrive[of E7 _ c6] by (auto simp: c6_def)
  have "fst (run_events ?T c6 [E7]) = fst (?T c6 E7)" "snd (run_events ?T c6 [E7]) = snd (?T c6 E7)" by (simp_all add: Let_def case_prod_beta)
  then show ?thesis
    using 1 2 3 4 5 6 7 by (simp only: Es c1_def[symmetric] c2_def[symmetric] c3_def[symmetric] c4_def[symmetric] c5_def[symmetric] c6_def[symmetric]) simp
qed

section \<open>What never happens\<close>

lemma keeps_handlers [simp]:
  "keeps c (handle_check_credentials E c)"
  "keeps c (handle_ble_start_resp j c)"
  "keeps c (handle_wifi_enabled t j c)"
  "keeps c (handle_wifi_connect_ssid t j c)"
  "keeps c (handle_eth_connect t j c)"
  "keeps c (ntp_sync_check E c)"
  "keeps c (handle_device_announce t j c)"
  "keeps c (handle_ping_dns t j c)"
  "keeps c (handle_ping_gateway t j c)"
  "keeps c (handle_waiting_for_ihub_response E j c)"
  by (simp_all add: handler_defs ntp_sync_check_def keeps_def Let_def split: option.split prod.split bool.split json.split)

lemma keeps_failed [simp]: "keeps c (handle_failed_state c)"
  by (simp add: handle_failed_state_def Reset_Stack_def keeps_def reset_answer)

lemma network_wifi: "wifi_enabled (fst (ask_network u c)) = wifi_enabled c" "wifi_enabled (fst (try_ethernet j c)) = wifi_enabled c"
  "Wait n \<notin> set (snd (ask_network u c))" "Wait n \<notin> set (snd (try_ethernet j c))"
  by (simp_all add: ask_network_def try_ethernet_def Let_def split: option.split)

lemma keeps_scan [simp]: "keeps c (handle_network_scan t j c)"
  by (simp add: handle_network_scan_def keeps_def Let_def case_prod_beta network_wifi split: option.split bool.split)

lemma keeps_state: "keeps c (handle_state E j c)"
proof -
  have ble: "keeps c (let (c1, o1) = handle_ble_start_resp j c; (c2, o2) = handle_wifi_enabled (now E) j c1 in (c2, o1 @ o2))"
    using keeps_handlers(2)[of c j] keeps_handlers(3)[of "fst (handle_ble_start_resp j c)" "now E" j]
    by (auto simp: keeps_def Let_def case_prod_beta)
  have w: "keeps c (let (c1, o1) = handle_device_announce (now E) j c in (c1\<lparr>que_rx_delay := 10000\<rparr>, o1))"
    "keeps c (let (c1, o1) = handle_waiting_for_ihub_response E j c in (c1\<lparr>que_rx_delay := 10000\<rparr>, o1))"
    "keeps c (handle_network_scan t j (c\<lparr>que_rx_delay := 30000\<rparr>))" "keeps c (handle_wifi_connect_ssid t j (c\<lparr>que_rx_delay := 30000\<rparr>))" for t
    using keeps_handlers(7)[of c "now E" j] keeps_handlers(10)[of c E j] keeps_scan[of "c\<lparr>que_rx_delay := 30000\<rparr>" t j]
      keeps_handlers(4)[of "c\<lparr>que_rx_delay := 30000\<rparr>" t j] by (simp_all add: keeps_def Let_def case_prod_beta)
  have n: "keeps c (c, os) = (wifi_enabled c \<noteq> 0 \<longrightarrow> Wait 600000 \<notin> set os)" "keeps c (c\<lparr>que_rx_delay := x\<rparr>, os) = (wifi_enabled c \<noteq> 0 \<longrightarrow> Wait 600000 \<notin> set os)"
    for os x by (simp_all add: keeps_def)
  show ?thesis using ble w by (cases "state c") (simp_all add: handle_state_def n)
qed

definition conn_inv :: "conn \<Rightarrow> bool" where
  "conn_inv c \<longleftrightarrow> wifi_enabled c \<in> {1, 255}"

lemma turn_keeps_flag: "keeps c (Server_Connect_turn c E)"
proof (cases rule: turn_cases[of c E])
  case (go j c1)
  have "wifi_enabled c1 = wifi_enabled c" using go by (auto simp: goes_on_def reinit_def split: option.splits json.splits if_splits)
  then show ?thesis using keeps_state[of c1 E j] by (auto simp: turn_eq[OF go] keeps_def leave_def Let_def case_prod_beta)
qed

lemma turn_inv: "conn_inv c \<Longrightarrow> conn_inv (fst (Server_Connect_turn c E))"
  using turn_keeps_flag[of c E] by (auto simp: conn_inv_def keeps_def)

interpretation connecting: event_machine Server_Connect_turn conn_inv "\<lambda>E. True"
  by unfold_locales (rule turn_inv)

lemma never_ten_minutes:
  "conn_inv c \<Longrightarrow> Wait 600000 \<notin> set (snd (run_events Server_Connect_turn c Es))"
proof (induction Es arbitrary: c)
  case (Cons E Es)
  have "conn_inv (fst (Server_Connect_turn c E))" using connecting.step_inv[OF Cons.prems] by simp
  then show ?case using Cons turn_keeps_flag[of c E] by (auto simp: keeps_def conn_inv_def Let_def case_prod_beta)
qed simp

text \<open>The connection is tried again without the wait, however often the cable is found to be disconnected.\<close>

lemma ten_minutes_never: "Wait 600000 \<notin> set (snd (run_events Server_Connect_turn (conn_start c) Es))"
  by (rule never_ten_minutes) (simp add: conn_inv_def conn_start_def)

text \<open>A timer that an earlier attempt has left running fires at the first silent turn.\<close>

lemma stale_timer:
  assumes "silent E" "task_end c = Running" "deadline c = Some (w, L, s)" "w \<noteq> 0" "w + L < now E"
  shows "state (fst (Server_Connect_turn c E)) = s"
  using silent_turn[OF assms(1-3)] assms(4,5) by simp

text \<open>A network found stops no timer: the one of the scan goes on, and counts for the next scan.\<close>

lemma scan_timer_kept:
  assumes "or_empty (text_cs j ''SSID'') \<noteq> []"
  shows "timeout_start (fst (handle_network_scan t j c)) = timeout_start c"
  using assms by (simp add: handle_network_scan_def Let_def)

text \<open>A failed ping of the gateway is overlooked when the ping before it was not answered.\<close>

lemma gateway_failure_overlooked:
  assumes "text_ci j ''RESP'' = Some ping_bad" "ping_dns_data c \<noteq> ping_bad"
  shows "handle_ping_gateway t j c = (c, [])"
  using assms by (simp add: handle_ping_gateway_def ping_ok_def ping_bad_def)

text \<open>While the radio waits for credentials, a late answer about the wireless network starts the scan without them.\<close>

lemma scan_without_credentials:
  assumes "text_cs j ''ENABLE_WIFI'' = Some ''1''" "state c = STATE_CHECK_BLE_START_RESP"
  shows "state (fst (handle_state E j c)) = STATE_NETWORK_SCAN"
proof -
  have "wrap_u 8 (strtol ''1'') = 1" by code_simp
  then show ?thesis using assms by (simp add: handle_state_def handle_wifi_enabled_def Let_def case_prod_beta)
qed

section \<open>Concrete messages\<close>

definition demo_env :: "json option option \<Rightarrow> int \<Rightarrow> conn_env" where
  "demo_env m t = \<lparr>message = m, now = t, DeviceAnnounce_URL = ''u'', APIkey = ''k'', Server_Conn_Flag = True, MonSrvConn_running = False,
     timer_5_active = False\<rparr>"

definition demo_text :: "string \<Rightarrow> string \<Rightarrow> json" where "demo_text k v = JObj [(k, JStr v)]"

definition demo_methods :: "json list" where
  "demo_methods = [JStr (hostname_key @ ''\"hub.example.net\"})''), JStr (primary_key @ ''\"0123456789\"})'')]"

definition demo_announced :: json where
  "demo_announced = JObj [(''HTTP STATUS'', JNum 200), (''MESSAGE'', JObj [(''methods'', JArr demo_methods)])]"

definition demo_day :: "conn_env list" where
  "demo_day = [demo_env None 10, demo_env (Some (Some (demo_text ''ENABLE_WIFI'' ''1''))) 12,
     demo_env (Some (Some (JObj [(''SSID'', JStr ''home''), (''PASSWORD'', JStr ''pw'')]))) 15,
     demo_env (Some (Some (demo_text ''WIFI_CONNECTION_STATUS'' ''CONNECTED''))) 20, demo_env None 21,
     demo_env (Some (Some demo_announced)) 25, demo_env (Some (Some (demo_text ''IHUBRESP'' ''CONNECTED''))) 30]"

lemma demo_day_good: "good_day ''home'' ''pw'' demo_day"
proof -
  have r: "reply (demo_env (Some (Some j)) t) j" if "is_object j" "text_ci (Some j) ''REINIT'' = None" for j t
    using that by (simp add: reply_def demo_env_def)
  have o: "is_object (demo_text k v)" for k v by (simp add: demo_text_def is_object_def)
  have 2: "text_ci (Some (demo_text ''ENABLE_WIFI'' ''1'')) ''REINIT'' = None" "text_cs (Some (demo_text ''ENABLE_WIFI'' ''1'')) ''ENABLE_WIFI'' = Some ''1''"
    by code_simp+
  let ?n = "JObj [(''SSID'', JStr ''home''), (''PASSWORD'', JStr ''pw'')]"
  have 3: "is_object ?n" "text_ci (Some ?n) ''REINIT'' = None" "text_cs (Some ?n) ''SSID'' = Some ''home''" "text_cs (Some ?n) ''PASSWORD'' = Some ''pw''"
    by code_simp+
  have 4: "text_ci (Some (demo_text ''WIFI_CONNECTION_STATUS'' ''CONNECTED'')) ''REINIT'' = None"
    "text_ci (Some (demo_text ''WIFI_CONNECTION_STATUS'' ''CONNECTED'')) ''WIFI_CONNECTION_STATUS'' = Some ''CONNECTED''" by code_simp+
  have 6: "is_object demo_announced" "text_ci (Some demo_announced) ''REINIT'' = None"
    "ci_item demo_announced ''MESSAGE'' = Some (JObj [(''methods'', JArr demo_methods)])"
    "cs_item (JObj [(''methods'', JArr demo_methods)]) ''methods'' = Some (JArr demo_methods)" "cloud_methods demo_methods = 2"
    by code_simp+
  have n: "number_ci (Some demo_announced) ''HTTP STATUS'' = Some 200" by code_simp
  have 7: "text_ci (Some (demo_text ''IHUBRESP'' ''CONNECTED'')) ''REINIT'' = None"
    "text_ci (Some (demo_text ''IHUBRESP'' ''CONNECTED'')) ''IHUBRESP'' = Some ''CONNECTED''" by code_simp+
  show ?thesis
    using r[OF o 2(1)] 2(2) r[OF 3(1,2)] 3(3,4) r[OF o 4(1)] 4(2) r[OF 6(1,2)] 6(3-5) n r[OF o 7(1)] 7(2)
    by (fastforce simp: good_day_def demo_day_def demo_env_def credentials_def)
qed

lemma run_turns: "run_events conn_step c (map Turn Es) = run_events Server_Connect_turn c Es"
  by (induction Es arbitrary: c) simp_all

lemma announced_sent: "announced os = length (filter (\<lambda>x. x = (''SYSTEM'', ''DEVICE_ANN'', None)) (commands_sent os))"
  by (induction os) (auto simp: commands_sent_def split: conn_out.splits)

lemma demo_day_announced: "announced (snd (run_events conn_step c (Start_task # map Turn demo_day))) = 1"
  using good_day_connects[OF demo_day_good, of c] by (simp add: announced_sent run_turns case_prod_beta Let_def)

section \<open>Properties\<close>

text \<open>C8: When every party answers well, the task goes from the check of its credentials to the connected state and ends there; on the way it
  asks, in this order, for the wireless setting, the networks, the connection, the time and the announcement, each once.\<close>

theorem good_day_reaches_server:
  assumes "good_day ssid pw Es" "ssid \<noteq> []" "length ssid < 50" "length pw < 50"
  shows "task_end (fst (run_events Server_Connect_turn (conn_start c) Es)) = Ended \<and>
    state (fst (run_events Server_Connect_turn (conn_start c) Es)) = STATE_CONNECTED \<and>
    commands_sent (snd (run_events Server_Connect_turn (conn_start c) Es)) =
      [(''CONSOLE'', ''GET'', names_json [''ENABLE_WIFI'']), (''WIFI'', ''NETWORK_SCAN'', None),
       (''WIFI'', ''CONNECT_SSID'', Some (JObj [(''SSID'', JStr ssid), (''PASSWORD'', JStr pw)])), (''NTP'', ''CONNECT'', None),
       (''SYSTEM'', ''DEVICE_ANN'', None)]"
  by (rule good_day_connects[OF assms])

theorem good_day_reaches_server_witness:
  "state (fst (run_events Server_Connect_turn (conn_start conn_boot) demo_day)) = STATE_CONNECTED"
  using good_day_reaches_server[OF demo_day_good, of conn_boot] by simp

text \<open>The controller announces itself at most once for each time a network has come up, whatever the other actors answer and however
  often the task starts anew.\<close>

theorem announcement_needs_network:
  "announced (snd (run_events Server_Connect_turn (conn_start c) Es)) \<le> length (filter network_up Es)"
proof -
  have "sum_list (map ups Es) = length (filter network_up Es)" by (induction Es) (simp_all add: ups_def)
  then show ?thesis using announce_run[of "conn_start c" Es] by (simp add: about_to_def conn_start_def)
qed

text \<open>C18: The pauses before announcements, over any run of turns and of starts of the task.  From the start of the controller the first two
  announcements go out without a pause; before the later ones the task pauses for ten seconds, then twice as long each time, up to 81920
  seconds, and begins again with ten.  When, after any history, the timer fires that clears the delay, the next announcement has no pause
  and the row begins anew with ten seconds.  When a client sets the delay (up to 42949672 seconds, above which the number of ticks no
  longer fits) the next announcement pauses that long and the row goes on from there; the very first announcement never pauses.\<close>

theorem announcement_backoff:
  assumes "list_all undisturbed fs" "0 \<le> n" "n \<le> 42949672"
  shows "let boot = snd (run_events conn_step conn_boot fs);
      before = snd (run_events conn_step conn_boot es);
      cleared = snd (run_events conn_step (fst (run_events conn_step conn_boot (es @ [Timer_fires]))) fs);
      given = snd (run_events conn_step (fst (run_events conn_step conn_boot (es @ [Set_delay n]))) fs)
    in pauses boot = map (\<lambda>k. 10000 * 2 ^ (k mod 14)) [0..<announced boot - 2] \<and>
      pauses cleared = map (\<lambda>k. 10000 * 2 ^ (k mod 14)) [0..<announced cleared - (if announced before = 0 then 2 else 1)] \<and>
      pauses given = (if announced before = 0 then pause_row (twice n) (announced given - 1) else pause_row n (announced given))"
proof -
  have n: "wrap_u 32 n = n" using assms(2,3) by (simp add: wrap_u_def)
  define c where "c = fst (run_events conn_step conn_boot es)"
  have f: "Device_Announce_F_delay_Flag_1 c \<longleftrightarrow> announced (snd (run_events conn_step conn_boot es)) \<noteq> 0"
    using flag_run[of conn_boot es] by (simp add: c_def conn_boot_def)
  have e: "fst (run_events conn_step conn_boot (es @ [Timer_fires])) = periodic_timer_callback c"
    "fst (run_events conn_step conn_boot (es @ [Set_delay n])) = set_F_delay n c"
    by (simp_all add: run_events_split c_def)
  have s: "sane_delay conn_boot" "sane_delay (periodic_timer_callback c)" "sane_delay (set_F_delay n c)"
    using assms(2,3) n by (simp_all add: sane_delay_def conn_boot_def periodic_timer_callback_def set_F_delay_def)
  have d: "row_from conn_boot k = pause_row 0 (k - 1)"
    "row_from (periodic_timer_callback c) k = (if announced (snd (run_events conn_step conn_boot es)) = 0 then pause_row 0 (k - 1) else pause_row 0 k)"
    "row_from (set_F_delay n c) k = (if announced (snd (run_events conn_step conn_boot es)) = 0 then pause_row (twice n) (k - 1) else pause_row n k)" for k
    using f n by (simp_all add: row_from_def conn_boot_def periodic_timer_callback_def set_F_delay_def twice_def)
  show ?thesis
    unfolding Let_def e by (simp add: undisturbed_run[OF assms(1) s(1)] undisturbed_run[OF assms(1) s(2)] undisturbed_run[OF assms(1) s(3)] d pause_row_0 numeral_2_eq_2)
qed

theorem announcement_backoff_witness:
  "let day = Start_task # map Turn demo_day in
    pauses (snd (run_events conn_step (fst (run_events conn_step conn_boot (day @ [Set_delay 400]))) day)) = [400000]"
proof -
  have "list_all undisturbed (Start_task # map Turn demo_day)" by (simp add: undisturbed_def list_all_iff)
  then show ?thesis
    using announcement_backoff[of "Start_task # map Turn demo_day" 400 "Start_task # map Turn demo_day"] demo_day_announced
    by (simp only: Let_def) simp
qed

text \<open>C17: A state that waits for an answer with a timer is left for its next state when nothing comes: it stays as long as its limit
  has not passed since the first silent turn, and goes at the first silent turn after that.\<close>

theorem waiting_state_gives_up:
  assumes "task_end c = Running" "deadline c = Some (0, L, s)" "silent E0" "now E0 \<noteq> 0"
    and "list_all (\<lambda>E. silent E \<and> now E - now E0 \<le> L) Es" "silent E" "L < now E - now E0"
  shows "state (fst (run_events Server_Connect_turn c (E0 # Es))) = state c \<and>
    state (fst (run_events Server_Connect_turn c (E0 # Es @ [E]))) = s"
  by (rule gives_up[OF assms])

theorem waiting_state_gives_up_witness:
  "state (fst (run_events Server_Connect_turn (conn_boot\<lparr>state := STATE_WIFI_CONNECT_SSID\<rparr>)
     (demo_env None 100 # [demo_env None 130, demo_env None 160] @ [demo_env None 190]))) = STATE_FAILED_3"
  using waiting_state_gives_up[of "conn_boot\<lparr>state := STATE_WIFI_CONNECT_SSID\<rparr>" 60 STATE_FAILED_3 "demo_env None 100"
      "[demo_env None 130, demo_env None 160]" "demo_env None 190"]
  by (simp add: conn_boot_def deadline_def silent_def demo_env_def)

text \<open>When no network is found the user is promised five minutes to give credentials, but the answer that the radio has started
  ends the wait: the next silent turn waits 30 seconds and resets the stack.\<close>

theorem ble_answer_cuts_wait:
  assumes "task_end c = Running" "state c = STATE_NETWORK_SCAN" "\<not> timeout_count_credential c" "\<not> timeout_count_credential_2 c"
    and "eth_keyVal c \<noteq> ''AVAILABLE''" "wifi_enabled_timeout_start c = 0"
    and "reply E1 j" "text_cs (Some j) ''NETWORK'' = Some ''NOT AVAILABLE''" "text_cs (Some j) ''SSID'' = None"
      "text_cs (Some j) ''PASSWORD'' = None" "text_cs (Some j) ''ETHERNET'' = None"
    and "reply E2 k" "text_ci (Some k) ''RESP'' = Some ''Server is started..''" "text_cs (Some k) ''ENABLE_WIFI'' = None"
    and "silent E3"
  shows "Resp ''Stack will reset in 5 minutes if no credentials received'' \<in> set (snd (run_events Server_Connect_turn c [E1, E2, E3])) \<and>
    waits (snd (run_events Server_Connect_turn c [E1, E2, E3])) = [30000, 1000, 1000, 500, 500, 2000] \<and>
    last (commands_sent (snd (run_events Server_Connect_turn c [E1, E2, E3]))) = (''SYSTEM'', ''SERVER_CONNECT'', None) \<and>
    state (fst (run_events Server_Connect_turn c [E1, E2, E3])) = STATE_CHECK_CREDENTIALS"
proof -
  define c1 where "c1 = fst (Server_Connect_turn c E1)"
  define c2 where "c2 = fst (Server_Connect_turn c1 E2)"
  note 1 = no_network_turn[OF assms(7-11) assms(1,2,4,5), folded c1_def]
  note 2 = ble_answer_turn[OF assms(12-14) 1(1,2) _ 1(3), folded c2_def, unfolded 1(4,5), OF assms(3,6)]
  have 3: "state c2 \<in> {STATE_FAILED_1, STATE_FAILED_3, STATE_FAILED_PING_GATEWAY}" using 2 by simp
  show ?thesis
    using 1(6) 2(3) failed_turn[OF assms(15) 2(1) 3] by (simp add: Let_def case_prod_beta flip: c1_def c2_def)
qed

theorem ble_answer_cuts_wait_witness:
  "waits (snd (run_events Server_Connect_turn (conn_boot\<lparr>state := STATE_NETWORK_SCAN\<rparr>)
     [demo_env (Some (Some (demo_text ''NETWORK'' ''NOT AVAILABLE''))) 20, demo_env (Some (Some (demo_text ''RESP'' ''Server is started..''))) 22,
      demo_env None 30])) = [30000, 1000, 1000, 500, 500, 2000]"
proof -
  let ?j = "demo_text ''NETWORK'' ''NOT AVAILABLE''" and ?k = "demo_text ''RESP'' ''Server is started..''"
  have j: "is_object ?j" "text_ci (Some ?j) ''REINIT'' = None" "text_cs (Some ?j) ''NETWORK'' = Some ''NOT AVAILABLE''"
    "text_cs (Some ?j) ''SSID'' = None" "text_cs (Some ?j) ''PASSWORD'' = None" "text_cs (Some ?j) ''ETHERNET'' = None" by code_simp+
  have k: "is_object ?k" "text_ci (Some ?k) ''REINIT'' = None" "text_ci (Some ?k) ''RESP'' = Some ''Server is started..''"
    "text_cs (Some ?k) ''ENABLE_WIFI'' = None" by code_simp+
  have r: "reply (demo_env (Some (Some ?j)) 20) ?j" "reply (demo_env (Some (Some ?k)) 22) ?k" "silent (demo_env None 30)"
    using j(1,2) k(1,2) by (simp_all add: reply_def silent_def demo_env_def)
  show ?thesis
    using ble_answer_cuts_wait[OF _ _ _ _ _ _ r(1) j(3-6) r(2) k(3,4) r(3), of "conn_boot\<lparr>state := STATE_NETWORK_SCAN\<rparr>"]
    by (simp add: conn_boot_def del: run_events.simps)
qed

end
