(* ===== verification/Server_Monitor.thy ===== *)
theory Server_Monitor
  imports Server_Connect
begin

text \<open>
  The task that watches a connection (MonSrvConn of main/SYSTEM_Actor.c): it asks in turn for the state of the cloud connection, of the
  networks, and for the rescue network, and resets the stack when a connection is lost or a better one is there.  A turn
  is one reception of at most a minute.  The flag wifi_enabled, which is only written, is left out.
\<close>

section \<open>State\<close>

datatype mon_state = MONSRV_STATE_IDLE | MONSRV_STATE_CHECK_IHUB_STATUS | MONSRV_STATE_CHECK_WIFI_ETH_ENABLED
  | MONSRV_STATE_CHECK_WIFI_ETH_ENABLED_STATUS | MONSRV_STATE_CHECK_WIFI_APINFO | MONSRV_STATE_CHECK_RESCUE_SSID
  | MONSRV_STATE_DISCONNECT_WIFI | MONSRV_STATE_NETWORK_SCAN

record mon =
  mon_end :: conn_end
  CurrentMonSrvState :: mon_state
  mon_SSID :: string
  Rescue_SSID :: string
  l_wifi_status :: int
  l_eth_status :: int
  blink_state_val :: nat
  wifi_eth_enabled_timeout_start :: int
  wifi_apinfo_timeout_start :: int
  rescue_ssid_timeout_start :: int
  network_scan_timeout_start :: int

text \<open>What a turn finds: the text of the queue, if one came and is JSON, the clock, the flag that lets the task run, the timer that ends
  the delays of the announcement.\<close>

record mon_env =
  mon_message :: "json option"
  mon_now :: int
  mon_flag :: bool
  periodic_active :: bool

datatype mon_out = Sent conn_out | Timer_start | Timer_stop | Queue_reset

definition E_ETH_CONNECTED :: int where "E_ETH_CONNECTED = 1"
definition E_wifi_CONNECTED_LOW :: int where "E_wifi_CONNECTED_LOW = 2"
definition LED_BLINK_STATE3 :: nat where "LED_BLINK_STATE3 = 3"
definition LED_BLINK_STATE5 :: nat where "LED_BLINK_STATE5 = 5"
definition LED_BLINK_STATE8 :: nat where "LED_BLINK_STATE8 = 8"
definition LED_BLINK_STATE_FULLON :: nat where "LED_BLINK_STATE_FULLON = 11"
definition WIFI_ETH_ENABLED_TIMEOUT_SECONDS :: int where "WIFI_ETH_ENABLED_TIMEOUT_SECONDS = 3"
definition WIFI_APINFO_TIMEOUT_SECONDS :: int where "WIFI_APINFO_TIMEOUT_SECONDS = 3"
definition RESCUE_SSID_TIMEOUT_SECONDS :: int where "RESCUE_SSID_TIMEOUT_SECONDS = 3"
definition NETWORK_SCAN_TIMEOUT_SECONDS :: int where "NETWORK_SCAN_TIMEOUT_SECONDS = 3"
definition SSID_SIZE :: nat where "SSID_SIZE = 50"

definition has_key :: "json option \<Rightarrow> string \<Rightarrow> bool" where
  "has_key j k \<longleftrightarrow> (case j of None \<Rightarrow> False | Some x \<Rightarrow> cs_item x k \<noteq> None)"

section \<open>Events of any state\<close>

text \<open>The stack is reset, which ends with the command to connect again, and the task ends.\<close>

definition Mon_reset_stack :: "string \<Rightarrow> mon \<Rightarrow> mon \<times> mon_out list" where
  "Mon_reset_stack t m = (m\<lparr>mon_end := Ended\<rparr>,
     map Sent (Resp t # Reset_Stack (resp_json t) @ [Resp ''Exit monitoring task'']) @ [Queue_reset])"

definition and_then :: "mon \<times> mon_out list \<Rightarrow> (mon \<Rightarrow> mon \<times> mon_out list) \<Rightarrow> mon \<times> mon_out list" where
  "and_then r f = (case r of (m, os) \<Rightarrow> if mon_end m = Running then (case f m of (m', os') \<Rightarrow> (m', os @ os')) else (m, os))"

definition stop_timer :: "mon_env \<Rightarrow> mon_out list" where
  "stop_timer E = (if periodic_active E then [Timer_stop] else [])"

text \<open>A delay of 50 ticks is half a second.\<close>

definition show_solid :: "mon \<Rightarrow> mon \<times> mon_out list" where
  "show_solid m = (if blink_state_val m \<noteq> LED_BLINK_STATE_FULLON then
     (m\<lparr>blink_state_val := LED_BLINK_STATE_FULLON\<rparr>,
      map Sent [Wait 500, Led_state ''SOLID'' ''none'', Cmd ''BLE'' ''ADVERT_STOP'' None]) else (m, []))"

definition wifi_event :: "mon_env \<Rightarrow> json option \<Rightarrow> mon \<Rightarrow> mon \<times> mon_out list" where
  "wifi_event E j m = (if text_cs j ''WIFI_CONNECTION_STATUS'' = Some ''DISCONNECTED'' then
     and_then (m\<lparr>blink_state_val := LED_BLINK_STATE3\<rparr>, stop_timer E @ [Sent (Led_state ''3-blink'' ''none'')])
       (Mon_reset_stack ''WIFI is disconnected. Resetting the stack...'') else (m, []))"

definition ihub_event :: "mon_env \<Rightarrow> json option \<Rightarrow> mon \<Rightarrow> mon \<times> mon_out list" where
  "ihub_event E j m = (case text_cs j ''IHUB_CONNECTION_STATUS'' of
     None \<Rightarrow> (m, [])
   | Some s \<Rightarrow> (if s = ''DISCONNECTED'' then
         and_then (m\<lparr>blink_state_val := LED_BLINK_STATE8\<rparr>, stop_timer E @ [Sent (Led_state (ihub_led (number_ci j ''ERROR_NUM'')) ''iHUB'')])
           (Mon_reset_stack ''IHUB status disconnected. Resetting the stack...'')
       else if s = ''CONNECTED'' then and_then (m, if periodic_active E then [] else [Timer_start]) show_solid
       else (m, [])))"

definition eth_event :: "json option \<Rightarrow> mon \<Rightarrow> mon \<times> mon_out list" where
  "eth_event j m = (if text_cs j ''ETH_CONNECTION_STATUS'' = Some ''DISCONNECTED'' \<and> l_wifi_status m \<noteq> E_wifi_CONNECTED_LOW then
     Mon_reset_stack ''ETH is disconnected. Resetting the stack...'' (m\<lparr>blink_state_val := LED_BLINK_STATE5\<rparr>) else (m, []))"

definition twin_event :: "json option \<Rightarrow> mon \<Rightarrow> mon \<times> mon_out list" where
  "twin_event j m = (if has_key j ''TWIN_MESSAGE'' then
     and_then (m, map Sent [Report ''connectionMessage'' ''IHUB Twin Received'', Report ''connectionSTATE'' ''CONNECTED'']) show_solid else (m, []))"

definition delete_event :: "json option \<Rightarrow> mon \<Rightarrow> mon \<times> mon_out list" where
  "delete_event j m = (if text_cs j ''DELETE_MON'' = Some ''1'' then Mon_reset_stack ''Delete Server monitor task'' m else (m, []))"

section \<open>States\<close>

definition idle_again :: "mon \<Rightarrow> mon" where
  "idle_again m = m\<lparr>CurrentMonSrvState := MONSRV_STATE_IDLE, mon_SSID := [], Rescue_SSID := []\<rparr>"

definition ask_rescue :: "mon \<Rightarrow> mon \<times> mon_out list" where
  "ask_rescue m = (m\<lparr>CurrentMonSrvState := MONSRV_STATE_CHECK_RESCUE_SSID\<rparr>, [Sent (Cmd ''WIFI'' ''GET'' (names_json [''RESCUE_SSID'']))])"

definition handle_idle_state :: "mon \<Rightarrow> mon \<times> mon_out list" where
  "handle_idle_state m = (m\<lparr>CurrentMonSrvState := MONSRV_STATE_CHECK_IHUB_STATUS\<rparr>, [Sent (Cmd ''IHUB'' ''GET'' (names_json [''STATUS'']))])"

definition handle_ihub_status :: "json option \<Rightarrow> mon \<Rightarrow> mon \<times> mon_out list" where
  "handle_ihub_status j m = (case text_cs j ''STATUS'' of
     None \<Rightarrow> (m, [])
   | Some s \<Rightarrow> (if s \<noteq> ''IHUB CONNECTED'' then
         and_then (m\<lparr>blink_state_val := LED_BLINK_STATE8\<rparr>, [Sent (Led_state ''7-blink'' ''iHUB'')])
           (Mon_reset_stack ''IHUB status disconnected. Resetting the stack.'')
       else (m\<lparr>CurrentMonSrvState := MONSRV_STATE_CHECK_WIFI_ETH_ENABLED\<rparr>, [])))"

definition check_wifi_eth_enabled :: "mon \<Rightarrow> mon \<times> mon_out list" where
  "check_wifi_eth_enabled m = (m\<lparr>l_wifi_status := 0, CurrentMonSrvState := MONSRV_STATE_CHECK_WIFI_ETH_ENABLED_STATUS\<rparr>,
     [Sent (Cmd ''CONSOLE'' ''GET'' (names_json [''ENABLE_WIFI'', ''WIFI_STATUS'', ''ETH_STATUS'']))])"

definition number_text :: "json option \<Rightarrow> string \<Rightarrow> int \<Rightarrow> int" where
  "number_text j k old = (case text_cs j k of Some s \<Rightarrow> wrap_u 8 (strtol s) | None \<Rightarrow> old)"

text \<open>The two flags of earlier states are locals that every call sets to 0.\<close>

definition handle_wifi_eth_enabled_status :: "int \<Rightarrow> json option \<Rightarrow> mon \<Rightarrow> mon \<times> mon_out list" where
  "handle_wifi_eth_enabled_status t j m0 = (let
     m = m0\<lparr>l_wifi_status := number_text j ''WIFI_STATUS'' (l_wifi_status m0), l_eth_status := number_text j ''ETH_STATUS'' (l_eth_status m0)\<rparr>;
     eth = (l_eth_status m = E_ETH_CONNECTED); wifi = (l_wifi_status m = E_wifi_CONNECTED_LOW);
     u8prevethstatus = (0::nat); u8prevwifistatus = (0::nat) in
     if has_key j ''ENABLE_WIFI'' \<and> has_key j ''WIFI_STATUS'' \<and> has_key j ''ETH_STATUS'' then
       (let m1 = m\<lparr>wifi_eth_enabled_timeout_start := 0\<rparr> in
        if eth \<and> \<not> wifi then ask_rescue m1
        else if wifi then (m1\<lparr>CurrentMonSrvState := MONSRV_STATE_CHECK_WIFI_APINFO\<rparr>, [Sent (Cmd ''WIFI'' ''AP_INFO'' None)])
        else if u8prevwifistatus = 1 then
          (m1\<lparr>blink_state_val := LED_BLINK_STATE3\<rparr>, map Sent [Led_state ''3-blink'' ''none'', Report ''connectionSTATE'' ''BAD WIFI PASSWORD''])
        else if u8prevethstatus = 1 then
          (m1\<lparr>blink_state_val := LED_BLINK_STATE5\<rparr>, [Sent (Report ''connectionSTATE'' ''WAITING FOR ETH'')])
        else (m1, []))
     else (case tick t (wifi_eth_enabled_timeout_start m) WIFI_ETH_ENABLED_TIMEOUT_SECONDS of
         (True, w) \<Rightarrow> (m\<lparr>wifi_eth_enabled_timeout_start := w, CurrentMonSrvState := MONSRV_STATE_IDLE\<rparr>, [Sent (Resp ''Timeout waiting for WiFi/ETH status'')])
       | (False, w) \<Rightarrow> (m\<lparr>wifi_eth_enabled_timeout_start := w\<rparr>, [])))"

definition handle_wifi_apinfo :: "int \<Rightarrow> json option \<Rightarrow> mon \<Rightarrow> mon \<times> mon_out list" where
  "handle_wifi_apinfo t j m0 = (let m = (case text_cs j ''SSID'' of Some s \<Rightarrow> m0\<lparr>mon_SSID := s\<rparr> | None \<Rightarrow> m0) in
     if too_long (text_cs j ''SSID'') SSID_SIZE then (m\<lparr>mon_end := Overran\<rparr>, [])
     else if has_key j ''SSID'' then
       (let m1 = m\<lparr>wifi_apinfo_timeout_start := 0\<rparr> in if mon_SSID m1 \<noteq> [] then ask_rescue m1 else (idle_again m1, []))
     else (case tick t (wifi_apinfo_timeout_start m) WIFI_APINFO_TIMEOUT_SECONDS of
         (True, w) \<Rightarrow> (idle_again m\<lparr>wifi_apinfo_timeout_start := w\<rparr>,
            map Sent [Resp ''Timeout waiting for SSID'', Report ''connectionSTATE'' ''TIMEOUT WAITING FOR SSID''])
       | (False, w) \<Rightarrow> (m\<lparr>wifi_apinfo_timeout_start := w\<rparr>, [])))"

definition handle_rescue_ssid :: "int \<Rightarrow> json option \<Rightarrow> mon \<Rightarrow> mon \<times> mon_out list" where
  "handle_rescue_ssid t j m0 = (let m = (case text_cs j ''RESCUE_SSID'' of Some s \<Rightarrow> m0\<lparr>Rescue_SSID := s\<rparr> | None \<Rightarrow> m0) in
     if too_long (text_cs j ''RESCUE_SSID'') SSID_SIZE then (m\<lparr>mon_end := Overran\<rparr>, [])
     else if has_key j ''RESCUE_SSID'' then
       (let m1 = m\<lparr>rescue_ssid_timeout_start := 0\<rparr> in
        if Rescue_SSID m1 \<noteq> [] then
          (if Rescue_SSID m1 = mon_SSID m1 then (idle_again m1, [])
           else (m1\<lparr>CurrentMonSrvState := MONSRV_STATE_NETWORK_SCAN\<rparr>, [Sent (Cmd ''WIFI'' ''NETWORK_SCAN'' None)]))
        else if mon_SSID m1 \<noteq> [] \<and> l_eth_status m1 = 1 then
          (m1, map Sent [Resp ''Disconnect WIFI and re-connect to server using Ethernet'', Cmd ''WIFI'' ''DISCONNECT'' None])
        else (idle_again m1, []))
     else (case tick t (rescue_ssid_timeout_start m) RESCUE_SSID_TIMEOUT_SECONDS of
         (True, w) \<Rightarrow> (idle_again m\<lparr>rescue_ssid_timeout_start := w\<rparr>, [Sent (Resp ''Timeout waiting for RESCUE_SSID'')])
       | (False, w) \<Rightarrow> (m\<lparr>rescue_ssid_timeout_start := w\<rparr>, [])))"

definition mon_handle_network_scan :: "int \<Rightarrow> json option \<Rightarrow> mon \<Rightarrow> mon \<times> mon_out list" where
  "mon_handle_network_scan t j m = (let ssid = or_empty (text_cs j ''SSID''); eth = (text_cs j ''ETHERNET'' = Some ''AVAILABLE'');
     wifi = (l_wifi_status m = E_wifi_CONNECTED_LOW) in
     if too_long (text_cs j ''SSID'') SSID_SIZE \<or> too_long (text_cs j ''PASSWORD'') SSID_SIZE then (m\<lparr>mon_end := Overran\<rparr>, [])
     else if has_key j ''SSID'' \<and> has_key j ''PASSWORD'' \<or> has_key j ''ETHERNET'' then
       (let m1 = m\<lparr>network_scan_timeout_start := 0\<rparr> in
        if ssid \<noteq> [] then
          (if Rescue_SSID m1 = ssid then
             (if wifi then (m1, [Sent (Cmd ''WIFI'' ''DISCONNECT'' None)])
              else if l_eth_status m1 = E_ETH_CONNECTED then Mon_reset_stack ''Reconnect to server with Rescue SSID'' m1
              else (m1, []))
           else (idle_again m1, []))
        else if eth \<and> wifi then
          (m1, map Sent [Resp ''Disconnect WIFI and re-connect to server using Ethernet'', Cmd ''WIFI'' ''DISCONNECT'' None])
        else if eth then (idle_again m1, [])
        else (m1, []))
     else (case tick t (network_scan_timeout_start m) NETWORK_SCAN_TIMEOUT_SECONDS of
         (True, w) \<Rightarrow> (idle_again m\<lparr>network_scan_timeout_start := w\<rparr>, [Sent (Resp ''Timeout waiting for SSID, PASSWORD, or ETHERNET'')])
       | (False, w) \<Rightarrow> (m\<lparr>network_scan_timeout_start := w\<rparr>, [])))"

definition mon_state_text :: "mon_state \<Rightarrow> string" where
  "mon_state_text s = (case s of
     MONSRV_STATE_IDLE \<Rightarrow> ''IDLE''
   | MONSRV_STATE_CHECK_IHUB_STATUS \<Rightarrow> ''CHECK IHUB STATUS''
   | MONSRV_STATE_CHECK_WIFI_ETH_ENABLED \<Rightarrow> ''GET WIFI ETH STATUS''
   | MONSRV_STATE_CHECK_WIFI_ETH_ENABLED_STATUS \<Rightarrow> ''CHECK WIFI ETH STATUS''
   | MONSRV_STATE_CHECK_WIFI_APINFO \<Rightarrow> ''CHECK WIFI APINFO''
   | MONSRV_STATE_CHECK_RESCUE_SSID \<Rightarrow> ''CHECK RESCUE SSID''
   | MONSRV_STATE_DISCONNECT_WIFI \<Rightarrow> ''DISCONNECT WIFI''
   | MONSRV_STATE_NETWORK_SCAN \<Rightarrow> ''NETWORK SCAN'')"

definition mon_handle_state :: "int \<Rightarrow> json option \<Rightarrow> mon \<Rightarrow> mon \<times> mon_out list" where
  "mon_handle_state t j m = (case CurrentMonSrvState m of
     MONSRV_STATE_IDLE \<Rightarrow> handle_idle_state m
   | MONSRV_STATE_CHECK_WIFI_ETH_ENABLED_STATUS \<Rightarrow> handle_wifi_eth_enabled_status t j m
   | MONSRV_STATE_CHECK_IHUB_STATUS \<Rightarrow> and_then (handle_ihub_status j m) check_wifi_eth_enabled
   | MONSRV_STATE_CHECK_WIFI_ETH_ENABLED \<Rightarrow> check_wifi_eth_enabled m
   | MONSRV_STATE_CHECK_WIFI_APINFO \<Rightarrow> handle_wifi_apinfo t j m
   | MONSRV_STATE_CHECK_RESCUE_SSID \<Rightarrow> handle_rescue_ssid t j m
   | MONSRV_STATE_NETWORK_SCAN \<Rightarrow> mon_handle_network_scan t j m
   | MONSRV_STATE_DISCONNECT_WIFI \<Rightarrow> (m, []))"

definition mon_events :: "mon_env \<Rightarrow> json option \<Rightarrow> mon \<Rightarrow> mon \<times> mon_out list" where
  "mon_events E j m = and_then (and_then (and_then (and_then (wifi_event E j m) (ihub_event E j)) (eth_event j)) (twin_event j)) (delete_event j)"

definition MonSrvConn_turn :: "mon \<Rightarrow> mon_env \<Rightarrow> mon \<times> mon_out list" where
  "MonSrvConn_turn m E = (if mon_end m \<noteq> Running then (m, [])
     else if \<not> mon_flag E then (m\<lparr>mon_end := Ended\<rparr>, [])
     else (let o0 = [Sent (Report ''MONITOR STATE'' (mon_state_text (CurrentMonSrvState m)))]; j = mon_message E in
       if j = None \<and> CurrentMonSrvState m \<noteq> MONSRV_STATE_IDLE then (m, o0 @ [Sent (Resp ''Invalid Json input'')])
       else and_then (and_then (m, o0) (mon_events E j)) (mon_handle_state (mon_now E) j)))"

text \<open>A new task; the timers are global and keep their values.\<close>

definition mon_start :: "mon \<Rightarrow> mon" where
  "mon_start m = m\<lparr>mon_end := Running, CurrentMonSrvState := MONSRV_STATE_IDLE, mon_SSID := [], Rescue_SSID := [], l_wifi_status := 0,
     l_eth_status := 0, blink_state_val := 0\<rparr>"

definition mon_boot :: mon where
  "mon_boot = \<lparr>mon_end = Running, CurrentMonSrvState = MONSRV_STATE_IDLE, mon_SSID = [], Rescue_SSID = [], l_wifi_status = 0, l_eth_status = 0,
     blink_state_val = 0, wifi_eth_enabled_timeout_start = 0, wifi_apinfo_timeout_start = 0, rescue_ssid_timeout_start = 0,
     network_scan_timeout_start = 0\<rparr>"

section \<open>How the task ends\<close>

definition restarts :: "mon_out list \<Rightarrow> nat" where
  "restarts os = length (filter (\<lambda>x. x = Sent (Cmd ''SYSTEM'' ''SERVER_CONNECT'' None)) os)"

definition mon_commands :: "mon_out list \<Rightarrow> (string \<times> string \<times> json option) list" where
  "mon_commands os = concat (map (\<lambda>x. case x of Sent (Cmd a f p) \<Rightarrow> [(a, f, p)] | _ \<Rightarrow> []) os)"

lemma restarts_simps [simp]:
  "restarts [] = 0" "restarts (xs @ ys) = restarts xs + restarts ys"
  "restarts (x # xs) = (if x = Sent (Cmd ''SYSTEM'' ''SERVER_CONNECT'' None) then 1 else 0) + restarts xs"
  by (simp_all add: restarts_def)

lemma mon_commands_simps [simp]:
  "mon_commands [] = []" "mon_commands (xs @ ys) = mon_commands xs @ mon_commands ys"
  "mon_commands (x # xs) = (case x of Sent (Cmd a f p) \<Rightarrow> [(a, f, p)] | _ \<Rightarrow> []) @ mon_commands xs"
  by (simp_all add: mon_commands_def)

definition reset_commands :: "(string \<times> string \<times> json option) list" where
  "reset_commands = [(''HTTP'', ''DEINIT'', None), (''WIFI'', ''DISCONNECT'', None), (''WIFI'', ''DEINIT'', None), (''IHUB'', ''DEINIT'', None),
     (''HTTP'', ''INIT'', None), (''WIFI'', ''INIT'', None), (''IHUB'', ''INIT'', None), (''SYSTEM'', ''SERVER_CONNECT'', None)]"

lemma reset_ends [simp]:
  "mon_end (fst (Mon_reset_stack t m)) = Ended" "restarts (snd (Mon_reset_stack t m)) = 1"
  "mon_commands (snd (Mon_reset_stack t m)) = reset_commands"
  by (simp_all add: Mon_reset_stack_def Reset_Stack_def reset_answer reset_commands_def)

text \<open>A step that goes on asks for no new connection; one that ends the task asks for one.\<close>

definition proper :: "mon \<times> mon_out list \<Rightarrow> bool" where
  "proper r \<longleftrightarrow> restarts (snd r) = (if mon_end (fst r) = Ended then 1 else 0)"

lemma and_then_ended [simp]: "mon_end m \<noteq> Running \<Longrightarrow> and_then (m, os) f = (m, os)"
  by (simp add: and_then_def)

lemma and_then_goes [simp]: "mon_end m = Running \<Longrightarrow> and_then (m, os) f = (fst (f m), os @ snd (f m))"
  by (simp add: and_then_def case_prod_beta)

lemma and_then_running: "mon_end (fst r) = Running \<Longrightarrow> and_then r f = (fst (f (fst r)), snd r @ snd (f (fst r)))"
  by (simp add: and_then_def case_prod_beta)

lemma and_then_stopped: "mon_end (fst r) \<noteq> Running \<Longrightarrow> and_then r f = r"
  by (simp add: and_then_def case_prod_beta)

lemma proper_then:
  assumes "proper r" "\<And>m. mon_end m = Running \<Longrightarrow> proper (f m)"
  shows "proper (and_then r f)"
proof (cases "mon_end (fst r) = Running")
  case True then show ?thesis using assms(1) assms(2)[OF True] by (simp add: and_then_running proper_def)
qed (use assms(1) in \<open>simp add: and_then_stopped\<close>)

lemma proper_reset [simp]: "proper (Mon_reset_stack t m)" by (simp add: proper_def)

lemma proper_plain: "mon_end m = Running \<Longrightarrow> proper (m, []) \<and> proper (show_solid m) \<and> proper (ask_rescue m) \<and> proper (idle_again m, []) \<and>
    proper (handle_idle_state m) \<and> proper (check_wifi_eth_enabled m)"
  by (simp add: proper_def show_solid_def ask_rescue_def idle_again_def handle_idle_state_def check_wifi_eth_enabled_def)

lemma stop_timer_restarts [simp]: "restarts (stop_timer E) = 0" "mon_commands (stop_timer E) = []"
  by (simp_all add: stop_timer_def)

lemma proper_events:
  assumes "mon_end m = Running"
  shows "proper (mon_events E j m)"
proof -
  have 1: "proper (wifi_event E j m')" if "mon_end m' = Running" for m'
    using that by (simp add: wifi_event_def proper_def)
  have 2: "proper (ihub_event E j m')" if "mon_end m' = Running" for m'
    using that by (simp add: ihub_event_def show_solid_def proper_def split: option.split)
  have 3: "proper (eth_event j m')" if "mon_end m' = Running" for m'
    using that by (simp add: eth_event_def proper_def)
  have 4: "proper (twin_event j m')" if "mon_end m' = Running" for m'
    using that by (simp add: twin_event_def show_solid_def proper_def)
  have 5: "proper (delete_event j m')" if "mon_end m' = Running" for m'
    using that by (simp add: delete_event_def proper_def)
  show ?thesis unfolding mon_events_def by (intro proper_then 1 2 3 4 5 assms)
qed

lemma proper_state:
  assumes "mon_end m = Running"
  shows "proper (mon_handle_state t j m)"
proof (cases "CurrentMonSrvState m")
  case MONSRV_STATE_CHECK_IHUB_STATUS
  have "proper (handle_ihub_status j m)"
    using assms by (simp add: handle_ihub_status_def proper_def split: option.split)
  then show ?thesis using MONSRV_STATE_CHECK_IHUB_STATUS by (auto simp: mon_handle_state_def proper_plain intro: proper_then)
next
  case MONSRV_STATE_CHECK_WIFI_ETH_ENABLED_STATUS
  then show ?thesis using assms
    by (simp add: mon_handle_state_def handle_wifi_eth_enabled_status_def ask_rescue_def tick_def proper_def Let_def)
next
  case MONSRV_STATE_CHECK_WIFI_APINFO
  then show ?thesis using assms
    by (simp add: mon_handle_state_def handle_wifi_apinfo_def ask_rescue_def idle_again_def tick_def proper_def Let_def split: option.split)
next
  case MONSRV_STATE_CHECK_RESCUE_SSID
  then show ?thesis using assms
    by (simp add: mon_handle_state_def handle_rescue_ssid_def idle_again_def tick_def proper_def Let_def split: option.split)
next
  case MONSRV_STATE_NETWORK_SCAN
  have "proper (m', []) \<and> proper (idle_again m', [])" if "mon_end m' = Running" for m' using that proper_plain by blast
  then show ?thesis using assms MONSRV_STATE_NETWORK_SCAN
    by (simp add: mon_handle_state_def mon_handle_network_scan_def tick_def proper_def idle_again_def Let_def)
qed (use assms proper_plain in \<open>simp_all add: mon_handle_state_def\<close>)

lemma proper_turn:
  assumes "mon_end m = Running" "mon_flag E"
  shows "proper (MonSrvConn_turn m E)"
proof -
  have "proper (m, [Sent (Report t u)])" for t u using assms(1) by (simp add: proper_def)
  then have "proper (and_then (and_then (m, [Sent (Report t u)]) (mon_events E j)) (mon_handle_state n j))" for t u j n
    by (intro proper_then proper_events proper_state)
  then show ?thesis using assms by (simp add: MonSrvConn_turn_def Let_def) (simp add: proper_def)
qed

lemma watch_run:
  assumes "mon_end m = Running" "list_all mon_flag Es"
  shows "restarts (snd (run_events MonSrvConn_turn m Es)) = (if mon_end (fst (run_events MonSrvConn_turn m Es)) = Ended then 1 else 0)"
  using assms
proof (induction Es arbitrary: m)
  case (Cons E Es)
  note t = proper_turn[of m E]
  show ?case
  proof (cases "mon_end (fst (MonSrvConn_turn m E)) = Running")
    case True then show ?thesis using Cons t by (simp add: proper_def Let_def case_prod_beta)
  next
    case False
    have "run_events MonSrvConn_turn m' Es = (m', [])" if "mon_end m' \<noteq> Running" for m'
      using that by (induction Es) (simp_all add: MonSrvConn_turn_def)
    then show ?thesis using False Cons.prems t by (simp add: proper_def Let_def case_prod_beta)
  qed
qed simp

section \<open>Turns\<close>

text \<open>An answer that tells of no event.\<close>

definition plain :: "mon_env \<Rightarrow> json \<Rightarrow> bool" where
  "plain E j \<longleftrightarrow> mon_message E = Some j \<and> mon_flag E \<and> text_cs (Some j) ''WIFI_CONNECTION_STATUS'' = None \<and>
     text_cs (Some j) ''IHUB_CONNECTION_STATUS'' = None \<and> text_cs (Some j) ''ETH_CONNECTION_STATUS'' = None \<and>
     \<not> has_key (Some j) ''TWIN_MESSAGE'' \<and> text_cs (Some j) ''DELETE_MON'' = None"

lemma plain_turn:
  assumes "plain E j" "mon_end m = Running"
  shows "MonSrvConn_turn m E = (fst (mon_handle_state (mon_now E) (Some j) m),
    Sent (Report ''MONITOR STATE'' (mon_state_text (CurrentMonSrvState m))) # snd (mon_handle_state (mon_now E) (Some j) m))"
  using assms by (simp add: plain_def MonSrvConn_turn_def mon_events_def wifi_event_def ihub_event_def eth_event_def twin_event_def
      delete_event_def Let_def)

lemma no_events [simp]: "mon_end m = Running \<Longrightarrow> mon_events E None m = (m, [])"
  by (simp add: mon_events_def wifi_event_def ihub_event_def eth_event_def twin_event_def delete_event_def has_key_def)

lemma idle_turn:
  assumes "mon_message E = None" "mon_flag E" "mon_end m = Running" "CurrentMonSrvState m = MONSRV_STATE_IDLE"
  shows "MonSrvConn_turn m E = (m\<lparr>CurrentMonSrvState := MONSRV_STATE_CHECK_IHUB_STATUS\<rparr>,
    [Sent (Report ''MONITOR STATE'' ''IDLE''), Sent (Cmd ''IHUB'' ''GET'' (names_json [''STATUS'']))])"
  using assms by (simp add: MonSrvConn_turn_def mon_handle_state_def handle_idle_state_def mon_state_text_def Let_def)

lemma silent_watch:
  assumes "mon_message E = None" "mon_flag E" "mon_end m = Running" "CurrentMonSrvState m \<noteq> MONSRV_STATE_IDLE"
  shows "fst (MonSrvConn_turn m E) = m" "mon_commands (snd (MonSrvConn_turn m E)) = []"
  using assms by (simp_all add: MonSrvConn_turn_def Let_def)

lemma silent_watch_run:
  assumes "mon_end m = Running" "CurrentMonSrvState m \<noteq> MONSRV_STATE_IDLE" "list_all (\<lambda>E. mon_message E = None \<and> mon_flag E) Es"
  shows "fst (run_events MonSrvConn_turn m Es) = m \<and> mon_commands (snd (run_events MonSrvConn_turn m Es)) = []"
  using assms(3) by (induction Es) (simp_all add: silent_watch[OF _ _ assms(1,2)] Let_def case_prod_beta)

lemma lost_turn:
  assumes "mon_end m = Running" "mon_flag E" "mon_message E = Some j"
    and "text_cs (Some j) ''WIFI_CONNECTION_STATUS'' = Some ''DISCONNECTED'' \<or> text_cs (Some j) ''IHUB_CONNECTION_STATUS'' = Some ''DISCONNECTED''"
  shows "mon_end (fst (MonSrvConn_turn m E)) = Ended \<and> mon_commands (snd (MonSrvConn_turn m E)) = reset_commands \<and>
    restarts (snd (MonSrvConn_turn m E)) = 1"
proof (cases "text_cs (Some j) ''WIFI_CONNECTION_STATUS'' = Some ''DISCONNECTED''")
  case True
  then show ?thesis using assms(1-3) by (simp add: MonSrvConn_turn_def mon_events_def wifi_event_def and_then_stopped Let_def)
next
  case False
  then show ?thesis using assms by (simp add: MonSrvConn_turn_def mon_events_def wifi_event_def ihub_event_def and_then_stopped Let_def)
qed

section \<open>The states and buffers\<close>

definition mon_inv :: "mon \<Rightarrow> bool" where
  "mon_inv m \<longleftrightarrow> CurrentMonSrvState m \<notin> {MONSRV_STATE_CHECK_WIFI_ETH_ENABLED, MONSRV_STATE_DISCONNECT_WIFI} \<and>
     (mon_end m \<noteq> Overran \<longrightarrow> length (mon_SSID m) < SSID_SIZE \<and> length (Rescue_SSID m) < SSID_SIZE)"

lemma inv_then:
  assumes "mon_inv (fst r)" "\<And>m. mon_inv m \<Longrightarrow> mon_end m = Running \<Longrightarrow> mon_inv (fst (f m))"
  shows "mon_inv (fst (and_then r f))"
  using assms by (cases "mon_end (fst r) = Running") (simp_all add: and_then_running and_then_stopped)

lemma inv_reset: "mon_inv m \<Longrightarrow> mon_end m = Running \<Longrightarrow> mon_inv (fst (Mon_reset_stack t m))"
  by (simp add: Mon_reset_stack_def mon_inv_def)

lemma inv_events:
  assumes "mon_inv m" "mon_end m = Running"
  shows "mon_inv (fst (mon_events E j m))"
proof -
  have 1: "mon_inv (fst (wifi_event E j m'))" if "mon_inv m'" "mon_end m' = Running" for m'
    using that by (simp add: wifi_event_def Mon_reset_stack_def mon_inv_def)
  have 2: "mon_inv (fst (ihub_event E j m'))" if "mon_inv m'" "mon_end m' = Running" for m'
    using that by (simp add: ihub_event_def show_solid_def Mon_reset_stack_def mon_inv_def split: option.split)
  have 3: "mon_inv (fst (eth_event j m'))" if "mon_inv m'" "mon_end m' = Running" for m'
    using that by (simp add: eth_event_def Mon_reset_stack_def mon_inv_def)
  have 4: "mon_inv (fst (twin_event j m'))" if "mon_inv m'" "mon_end m' = Running" for m'
    using that by (simp add: twin_event_def show_solid_def mon_inv_def)
  have 5: "mon_inv (fst (delete_event j m'))" if "mon_inv m'" "mon_end m' = Running" for m'
    using that by (simp add: delete_event_def Mon_reset_stack_def mon_inv_def)
  show ?thesis unfolding mon_events_def by (intro inv_then 1 2 3 4 5 assms)
qed

lemma inv_idle: "mon_inv (idle_again m)"
  by (simp add: mon_inv_def idle_again_def SSID_SIZE_def)

lemma inv_state:
  assumes "mon_inv m" "mon_end m = Running"
  shows "mon_inv (fst (mon_handle_state t j m))"
proof (cases "CurrentMonSrvState m")
  case MONSRV_STATE_CHECK_IHUB_STATUS
  then show ?thesis using assms
    by (simp add: mon_handle_state_def handle_ihub_status_def check_wifi_eth_enabled_def Mon_reset_stack_def mon_inv_def split: option.split)
next
  case MONSRV_STATE_CHECK_WIFI_ETH_ENABLED_STATUS
  then show ?thesis using assms
    by (simp add: mon_handle_state_def handle_wifi_eth_enabled_status_def ask_rescue_def tick_def mon_inv_def Let_def)
next
  case MONSRV_STATE_CHECK_WIFI_APINFO
  then show ?thesis using assms
    by (simp add: mon_handle_state_def handle_wifi_apinfo_def ask_rescue_def tick_def mon_inv_def too_long_def idle_again_def SSID_SIZE_def Let_def
        split: option.split)
next
  case MONSRV_STATE_CHECK_RESCUE_SSID
  then show ?thesis using assms
    by (simp add: mon_handle_state_def handle_rescue_ssid_def tick_def mon_inv_def too_long_def idle_again_def SSID_SIZE_def Let_def
        split: option.split)
next
  case MONSRV_STATE_NETWORK_SCAN
  have "mon_inv (m\<lparr>network_scan_timeout_start := w\<rparr>)" "mon_inv (m\<lparr>mon_end := Overran\<rparr>)"
    "mon_inv (fst (Mon_reset_stack u (m\<lparr>network_scan_timeout_start := w\<rparr>)))" "mon_inv ((idle_again m)\<lparr>network_scan_timeout_start := w\<rparr>)" for w u
    using assms by (simp_all add: mon_inv_def Mon_reset_stack_def idle_again_def SSID_SIZE_def)
  then show ?thesis using MONSRV_STATE_NETWORK_SCAN assms(1)
    by (simp add: mon_handle_state_def mon_handle_network_scan_def tick_def inv_idle Let_def)
qed (use assms in \<open>simp_all add: mon_handle_state_def handle_idle_state_def mon_inv_def\<close>)

lemma watch_inv:
  assumes "mon_inv m"
  shows "mon_inv (fst (MonSrvConn_turn m E))"
proof -
  have "mon_inv (fst (and_then (and_then (m, os) (mon_events E j)) (mon_handle_state n j)))" for os j n
    using assms by (intro inv_then inv_events inv_state) simp_all
  moreover have "mon_inv (m\<lparr>mon_end := Ended\<rparr>)" if "mon_end m = Running" using assms that by (simp add: mon_inv_def)
  ultimately show ?thesis using assms by (auto simp: MonSrvConn_turn_def Let_def simp del: and_then_goes)
qed

interpretation watching: event_machine MonSrvConn_turn mon_inv "\<lambda>E. True"
  by unfold_locales (rule watch_inv)

section \<open>Back to the rescue network\<close>

text \<open>The answers when the rescue network is there again.\<close>

definition rescue_day :: "string \<Rightarrow> string \<Rightarrow> mon_env list \<Rightarrow> bool" where
  "rescue_day ssid rescue Es \<longleftrightarrow> (case Es of [E1, E2, E3, E4, E5, E6, E7] \<Rightarrow>
     mon_message E1 = None \<and> mon_flag E1 \<and>
     (\<exists>j. plain E2 j \<and> text_cs (Some j) ''STATUS'' = Some ''IHUB CONNECTED'') \<and>
     (\<exists>j. plain E3 j \<and> has_key (Some j) ''ENABLE_WIFI'' \<and> text_cs (Some j) ''WIFI_STATUS'' = Some ''2'' \<and> has_key (Some j) ''ETH_STATUS'') \<and>
     (\<exists>j. plain E4 j \<and> text_cs (Some j) ''SSID'' = Some ssid) \<and>
     (\<exists>j. plain E5 j \<and> text_cs (Some j) ''RESCUE_SSID'' = Some rescue) \<and>
     (\<exists>j. plain E6 j \<and> text_cs (Some j) ''SSID'' = Some rescue \<and> has_key (Some j) ''PASSWORD'' \<and> \<not> too_long (text_cs (Some j) ''PASSWORD'') SSID_SIZE) \<and>
     (\<exists>j. mon_message E7 = Some j \<and> mon_flag E7 \<and> text_cs (Some j) ''WIFI_CONNECTION_STATUS'' = Some ''DISCONNECTED'')
   | _ \<Rightarrow> False)"

lemma has_text: "text_cs j k = Some s \<Longrightarrow> has_key j k"
  by (auto simp: text_cs_def has_key_def string_of_def split: option.splits)

definition leads :: "mon \<Rightarrow> mon_env \<Rightarrow> mon_state \<Rightarrow> (string \<times> string \<times> json option) list \<Rightarrow> bool" where
  "leads m E s cs \<longleftrightarrow> mon_end (fst (MonSrvConn_turn m E)) = Running \<and> CurrentMonSrvState (fst (MonSrvConn_turn m E)) = s \<and>
     mon_commands (snd (MonSrvConn_turn m E)) = cs"

lemma leads_run:
  "leads m E s cs \<Longrightarrow> mon_end (fst (MonSrvConn_turn m E)) = Running \<and> CurrentMonSrvState (fst (MonSrvConn_turn m E)) = s \<and>
    mon_commands (snd (run_events MonSrvConn_turn m (E # Es))) = cs @ mon_commands (snd (run_events MonSrvConn_turn (fst (MonSrvConn_turn m E)) Es)) \<and>
    fst (run_events MonSrvConn_turn m (E # Es)) = fst (run_events MonSrvConn_turn (fst (MonSrvConn_turn m E)) Es)"
  by (simp add: leads_def Let_def case_prod_beta)

lemma two: "wrap_u 8 (strtol ''2'') = 2" by code_simp

lemma rescue_day_reconnects:
  assumes "rescue_day ssid rescue Es" "ssid \<noteq> []" "rescue \<noteq> []" "rescue \<noteq> ssid" "length ssid < SSID_SIZE" "length rescue < SSID_SIZE"
    and "mon_end m = Running" "CurrentMonSrvState m = MONSRV_STATE_IDLE"
  shows "mon_end (fst (run_events MonSrvConn_turn m Es)) = Ended \<and>
    mon_commands (snd (run_events MonSrvConn_turn m Es)) =
      [(''IHUB'', ''GET'', names_json [''STATUS'']), (''CONSOLE'', ''GET'', names_json [''ENABLE_WIFI'', ''WIFI_STATUS'', ''ETH_STATUS'']),
       (''WIFI'', ''AP_INFO'', None), (''WIFI'', ''GET'', names_json [''RESCUE_SSID'']), (''WIFI'', ''NETWORK_SCAN'', None),
       (''WIFI'', ''DISCONNECT'', None)] @ reset_commands"
proof -
  obtain E1 E2 E3 E4 E5 E6 E7 where Es: "Es = [E1, E2, E3, E4, E5, E6, E7]" using assms(1) by (auto simp: rescue_day_def split: list.splits)
  note g = assms(1)[unfolded Es rescue_day_def list.case]
  let ?T = MonSrvConn_turn
  have "leads m E1 MONSRV_STATE_CHECK_IHUB_STATUS [(''IHUB'', ''GET'', names_json [''STATUS''])]"
    using g assms(7,8) by (simp add: leads_def idle_turn)
  note 1 = leads_run[OF this, of "[E2, E3, E4, E5, E6, E7]"] define m1 where "m1 = fst (?T m E1)"
  have "leads m1 E2 MONSRV_STATE_CHECK_WIFI_ETH_ENABLED_STATUS [(''CONSOLE'', ''GET'', names_json [''ENABLE_WIFI'', ''WIFI_STATUS'', ''ETH_STATUS''])]"
    using g 1 by (auto simp: m1_def leads_def plain_turn mon_handle_state_def handle_ihub_status_def check_wifi_eth_enabled_def)
  note 2 = leads_run[OF this, of "[E3, E4, E5, E6, E7]"] define m2 where "m2 = fst (?T m1 E2)"
  have "leads m2 E3 MONSRV_STATE_CHECK_WIFI_APINFO [(''WIFI'', ''AP_INFO'', None)] \<and> l_wifi_status (fst (?T m2 E3)) = 2"
    using g 2 by (auto simp: m2_def leads_def plain_turn mon_handle_state_def handle_wifi_eth_enabled_status_def number_text_def two has_text
        E_wifi_CONNECTED_LOW_def Let_def)
  then have w3: "l_wifi_status (fst (?T m2 E3)) = 2" and "leads m2 E3 MONSRV_STATE_CHECK_WIFI_APINFO [(''WIFI'', ''AP_INFO'', None)]" by blast+
  note 3 = leads_run[OF this(2), of "[E4, E5, E6, E7]"] define m3 where "m3 = fst (?T m2 E3)"
  have "leads m3 E4 MONSRV_STATE_CHECK_RESCUE_SSID [(''WIFI'', ''GET'', names_json [''RESCUE_SSID''])] \<and>
      l_wifi_status (fst (?T m3 E4)) = 2 \<and> mon_SSID (fst (?T m3 E4)) = ssid"
    using g 3 w3 assms(2,5) by (auto simp: m3_def leads_def plain_turn mon_handle_state_def handle_wifi_apinfo_def ask_rescue_def too_long_def has_text Let_def)
  then have w4: "l_wifi_status (fst (?T m3 E4)) = 2" "mon_SSID (fst (?T m3 E4)) = ssid"
    and "leads m3 E4 MONSRV_STATE_CHECK_RESCUE_SSID [(''WIFI'', ''GET'', names_json [''RESCUE_SSID''])]" by blast+
  note 4 = leads_run[OF this(3), of "[E5, E6, E7]"] define m4 where "m4 = fst (?T m3 E4)"
  have "leads m4 E5 MONSRV_STATE_NETWORK_SCAN [(''WIFI'', ''NETWORK_SCAN'', None)] \<and>
      l_wifi_status (fst (?T m4 E5)) = 2 \<and> Rescue_SSID (fst (?T m4 E5)) = rescue"
    using g 4 w4 assms(3,4,6) by (auto simp: m4_def leads_def plain_turn mon_handle_state_def handle_rescue_ssid_def too_long_def has_text Let_def)
  then have w5: "l_wifi_status (fst (?T m4 E5)) = 2" "Rescue_SSID (fst (?T m4 E5)) = rescue"
    and "leads m4 E5 MONSRV_STATE_NETWORK_SCAN [(''WIFI'', ''NETWORK_SCAN'', None)]" by blast+
  note 5 = leads_run[OF this(3), of "[E6, E7]"] define m5 where "m5 = fst (?T m4 E5)"
  have "leads m5 E6 MONSRV_STATE_NETWORK_SCAN [(''WIFI'', ''DISCONNECT'', None)]"
    using g 5 w5 assms(3,6) by (auto simp: m5_def leads_def plain_turn mon_handle_state_def mon_handle_network_scan_def too_long_def has_text
        or_empty_def E_wifi_CONNECTED_LOW_def Let_def)
  note 6 = leads_run[OF this, of "[E7]"] define m6 where "m6 = fst (?T m5 E6)"
  have 7: "mon_end (fst (?T m6 E7)) = Ended \<and> mon_commands (snd (?T m6 E7)) = reset_commands"
    using g 6 lost_turn[of m6 E7] by (auto simp: m6_def)
  have "fst (run_events ?T m6 [E7]) = fst (?T m6 E7)" "snd (run_events ?T m6 [E7]) = snd (?T m6 E7)" by (simp_all add: Let_def case_prod_beta)
  then show ?thesis
    using 1 2 3 4 5 6 7 by (simp only: Es m1_def[symmetric] m2_def[symmetric] m3_def[symmetric] m4_def[symmetric] m5_def[symmetric] m6_def[symmetric]) simp
qed

text \<open>A scan that finds no network is the last step of the monitor: it starts a timer, which only another message would read.\<close>

lemma absent_network_stops_polling:
  assumes "mon_end m = Running" "CurrentMonSrvState m = MONSRV_STATE_NETWORK_SCAN" "network_scan_timeout_start m = 0"
    and "plain E j" "\<not> has_key (Some j) ''SSID''" "\<not> has_key (Some j) ''ETHERNET''" "\<not> too_long (text_cs (Some j) ''PASSWORD'') SSID_SIZE"
    and "list_all (\<lambda>E. mon_message E = None \<and> mon_flag E) Es"
  shows "CurrentMonSrvState (fst (run_events MonSrvConn_turn m (E # Es))) = MONSRV_STATE_NETWORK_SCAN \<and>
    mon_commands (snd (run_events MonSrvConn_turn m (E # Es))) = []"
proof -
  have n: "text_cs (Some j) ''SSID'' = None" using assms(5) has_text by (cases "text_cs (Some j) ''SSID''") auto
  let ?m = "m\<lparr>network_scan_timeout_start := mon_now E\<rparr>"
  have "MonSrvConn_turn m E = (?m, [Sent (Report ''MONITOR STATE'' (mon_state_text (CurrentMonSrvState m)))])"
    using assms(2,3,5-7) n by (simp add: plain_turn[OF assms(4,1)] mon_handle_state_def mon_handle_network_scan_def too_long_def tick_def Let_def)
  then show ?thesis using silent_watch_run[OF _ _ assms(8), of ?m] assms(1,2) by (simp add: Let_def case_prod_beta)
qed

section \<open>Properties\<close>

text \<open>C9: As long as the flag of the connection is set the monitor ends only by asking for a new connection, and asks only then: once when
  it has ended, never while it runs.\<close>

theorem watch_ends_with_restart:
  assumes "mon_end m = Running" "list_all mon_flag Es"
  shows "restarts (snd (run_events MonSrvConn_turn m Es)) = (if mon_end (fst (run_events MonSrvConn_turn m Es)) = Ended then 1 else 0)"
  by (rule watch_run[OF assms])

text \<open>C16: When the rescue network, which is not the one in use, is in reach again, the monitor finds it with five questions, leaves the
  network in use and, told that it is left, has the stack reset and asks for a new connection.\<close>

theorem rescue_network_regained:
  assumes "rescue_day ssid rescue Es" "ssid \<noteq> []" "rescue \<noteq> []" "rescue \<noteq> ssid" "length ssid < SSID_SIZE" "length rescue < SSID_SIZE"
    and "mon_end m = Running" "CurrentMonSrvState m = MONSRV_STATE_IDLE"
  shows "mon_end (fst (run_events MonSrvConn_turn m Es)) = Ended \<and>
    mon_commands (snd (run_events MonSrvConn_turn m Es)) =
      [(''IHUB'', ''GET'', names_json [''STATUS'']), (''CONSOLE'', ''GET'', names_json [''ENABLE_WIFI'', ''WIFI_STATUS'', ''ETH_STATUS'']),
       (''WIFI'', ''AP_INFO'', None), (''WIFI'', ''GET'', names_json [''RESCUE_SSID'']), (''WIFI'', ''NETWORK_SCAN'', None),
       (''WIFI'', ''DISCONNECT'', None)] @ reset_commands"
  by (rule rescue_day_reconnects[OF assms])

section \<open>Concrete messages\<close>

definition watch_env :: "json option \<Rightarrow> int \<Rightarrow> mon_env" where
  "watch_env j t = \<lparr>mon_message = j, mon_now = t, mon_flag = True, periodic_active = True\<rparr>"

definition rescue_status :: json where
  "rescue_status = JObj [(''ENABLE_WIFI'', JStr ''1''), (''WIFI_STATUS'', JStr ''2''), (''ETH_STATUS'', JStr ''0'')]"

definition rescue_scan :: json where "rescue_scan = JObj [(''SSID'', JStr ''home''), (''PASSWORD'', JStr ''pw'')]"

definition demo_rescue :: "mon_env list" where
  "demo_rescue = [watch_env None 60, watch_env (Some (demo_text ''STATUS'' ''IHUB CONNECTED'')) 61, watch_env (Some rescue_status) 62,
     watch_env (Some (demo_text ''SSID'' ''shop'')) 63, watch_env (Some (demo_text ''RESCUE_SSID'' ''home'')) 64,
     watch_env (Some rescue_scan) 70, watch_env (Some (demo_text ''WIFI_CONNECTION_STATUS'' ''DISCONNECTED'')) 71]"

lemma demo_rescue_day: "rescue_day ''shop'' ''home'' demo_rescue"
proof -
  have p: "plain (watch_env (Some j) t) j" if "text_cs (Some j) ''WIFI_CONNECTION_STATUS'' = None" "text_cs (Some j) ''IHUB_CONNECTION_STATUS'' = None"
    "text_cs (Some j) ''ETH_CONNECTION_STATUS'' = None" "\<not> has_key (Some j) ''TWIN_MESSAGE''" "text_cs (Some j) ''DELETE_MON'' = None" for j t
    using that by (simp add: plain_def watch_env_def)
  have 2: "plain (watch_env (Some (demo_text ''STATUS'' ''IHUB CONNECTED'')) 61) (demo_text ''STATUS'' ''IHUB CONNECTED'')" by (rule p) code_simp+
  have 3: "plain (watch_env (Some rescue_status) 62) rescue_status" by (rule p) code_simp+
  have 4: "plain (watch_env (Some (demo_text ''SSID'' ''shop'')) 63) (demo_text ''SSID'' ''shop'')" by (rule p) code_simp+
  have 5: "plain (watch_env (Some (demo_text ''RESCUE_SSID'' ''home'')) 64) (demo_text ''RESCUE_SSID'' ''home'')" by (rule p) code_simp+
  have 6: "plain (watch_env (Some rescue_scan) 70) rescue_scan" by (rule p) code_simp+
  have t2: "text_cs (Some (demo_text ''STATUS'' ''IHUB CONNECTED'')) ''STATUS'' = Some ''IHUB CONNECTED''" by code_simp
  have t3: "has_key (Some rescue_status) ''ENABLE_WIFI''" "text_cs (Some rescue_status) ''WIFI_STATUS'' = Some ''2''"
    "has_key (Some rescue_status) ''ETH_STATUS''" by code_simp+
  have t4: "text_cs (Some (demo_text ''SSID'' ''shop'')) ''SSID'' = Some ''shop''" by code_simp
  have t5: "text_cs (Some (demo_text ''RESCUE_SSID'' ''home'')) ''RESCUE_SSID'' = Some ''home''" by code_simp
  have t6: "text_cs (Some rescue_scan) ''SSID'' = Some ''home''" "has_key (Some rescue_scan) ''PASSWORD''"
    "\<not> too_long (text_cs (Some rescue_scan) ''PASSWORD'') SSID_SIZE" by code_simp+
  have t7: "text_cs (Some (demo_text ''WIFI_CONNECTION_STATUS'' ''DISCONNECTED'')) ''WIFI_CONNECTION_STATUS'' = Some ''DISCONNECTED''" by code_simp
  have e: "mon_message (watch_env j t) = j" "mon_flag (watch_env j t)" for j t by (simp_all add: watch_env_def)
  show ?thesis unfolding rescue_day_def demo_rescue_def list.case using 2 3 4 5 6 t2 t3 t4 t5 t6 t7 by (auto simp: e)
qed

theorem watch_ends_with_restart_witness:
  "restarts (snd (run_events MonSrvConn_turn mon_boot [watch_env None 60, watch_env (Some (demo_text ''STATUS'' ''IHUB CONNECTED'')) 61])) =
    (if mon_end (fst (run_events MonSrvConn_turn mon_boot [watch_env None 60, watch_env (Some (demo_text ''STATUS'' ''IHUB CONNECTED'')) 61])) = Ended
     then 1 else 0)"
  by (rule watch_ends_with_restart) (simp_all add: mon_boot_def watch_env_def)

theorem rescue_network_regained_witness: "mon_end (fst (run_events MonSrvConn_turn mon_boot demo_rescue)) = Ended"
  using rescue_network_regained[OF demo_rescue_day, of mon_boot] by (simp add: mon_boot_def SSID_SIZE_def)

end
