(* ===== verification/System_Router.thy ===== *)
theory System_Router
  imports Server_Monitor
begin

text \<open>
  How the answers of the other actors reach the tasks that wait for them (Analyse_Response of main/SYSTEM_Actor.c): by the actor that
  answers, the command it answers and the members of the response, to the queues of the connection task, the monitor, the timer task, the
  state task and the synchronisation of the records.  A queue takes a text; one that is too long for its items is cut and then is
  no JSON for the receiver.  Lines for the serial port are left out.
\<close>

section \<open>Queues and results\<close>

datatype queue = ServerConnect_Que | MonSrvConn_Que | TIMER_Que | STATE_Que | Sync_Status_Que | Record_Sync_new_Que | SPIFFS_Que | Debug_Que

text \<open>Which queues exist and which of their tasks run, the flag of the connection, the timer of the announcements, the interface for pings.\<close>

record route_env =
  queues :: "queue \<Rightarrow> bool"
  tasks :: "queue \<Rightarrow> bool"
  conn_flag :: bool
  timer_runs :: bool
  ping_by_wifi :: bool

text \<open>Writing past a buffer, or reading through a null pointer, ends the actor.\<close>

datatype route_end = Routing | Buffer_overrun | Null_pointer

record router =
  route_end :: route_end
  NET_status :: int
  localtime_str :: string

datatype route_out = Queued queue json | Debug_text string | Own_set string string | Ack_server string | Start_server | Start_monitor
  | Announce_timer bool | Out conn_out

type_synonym routed = "router \<times> route_out list"

definition to_task :: "route_env \<Rightarrow> queue \<Rightarrow> json \<Rightarrow> route_out list" where
  "to_task E q j = (if queues E q \<and> tasks E q then [Queued q j] else [])"

definition to_queue :: "route_env \<Rightarrow> queue \<Rightarrow> json \<Rightarrow> route_out list" where
  "to_queue E q j = (if queues E q then [Queued q j] else [])"

definition child :: "json \<Rightarrow> json option" where
  "child j = (case j of JObj (m # ms) \<Rightarrow> Some (snd m) | JArr (x # xs) \<Rightarrow> Some x | _ \<Rightarrow> None)"

definition text_child :: "json \<Rightarrow> bool" where
  "text_child j \<longleftrightarrow> string_of (child j) \<noteq> None"

definition has_text_ci :: "json \<Rightarrow> string \<Rightarrow> bool" where
  "has_text_ci r k \<longleftrightarrow> text_ci (Some r) k \<noteq> None"

definition has_ci :: "json \<Rightarrow> string \<Rightarrow> bool" where
  "has_ci r k \<longleftrightarrow> ci_item r k \<noteq> None"

text \<open>The response whose first member is a text.\<close>

definition text_response :: "json \<Rightarrow> json option" where
  "text_response j = (case ci_item j ''RESPONSE'' of Some r \<Rightarrow> if text_child r then Some r else None | None \<Rightarrow> None)"

definition on_command :: "json \<Rightarrow> string \<Rightarrow> (json \<Rightarrow> route_out list) \<Rightarrow> route_out list" where
  "on_command j c f = (if text_ci (Some j) ''COMMAND'' = Some c then (case text_response j of Some r \<Rightarrow> f r | None \<Rightarrow> []) else [])"

section \<open>The actors\<close>

definition from_HTTP :: "route_env \<Rightarrow> json \<Rightarrow> router \<Rightarrow> routed" where
  "from_HTTP E j s = (let c = text_ci (Some j) ''COMMAND'' in
     case ci_item j ''RESPONSE'' of None \<Rightarrow> (s, []) | Some r \<Rightarrow>
     (if c = Some ''POST'' then
        (if text_child r then (case text_ci (Some r) ''SESSIONID'' of
             Some i \<Rightarrow> (if 200 \<le> length i then (s\<lparr>route_end := Buffer_overrun\<rparr>, []) else (s, [Ack_server i]))
           | None \<Rightarrow> (s, []))
         else if number_of (child r) \<noteq> None then (s,
           (case ci_item r ''MESSAGE'' of Some (JObj ms) \<Rightarrow> to_task E ServerConnect_Que r | _ \<Rightarrow> []) @
           (case number_ci (Some r) ''HTTP STATUS'' of
              Some n \<Rightarrow> (if has_ci r ''ERROR'' \<and> n \<noteq> 200 then to_task E ServerConnect_Que r else []) | None \<Rightarrow> []))
         else (s, []))
      else (s, on_command j ''GET'' (\<lambda>r. if has_text_ci r ''HTTP_DL_TIME'' then to_task E TIMER_Que r else []))))"

definition own_properties :: "(string \<times> json) list \<Rightarrow> route_out list" where
  "own_properties ms = concat (map (\<lambda>(n, v). case v of JStr t \<Rightarrow> [Own_set n t] | JNum x \<Rightarrow> [Own_set n (show_int (value_int x))] | _ \<Rightarrow> []) ms)"

definition system_file :: "json \<Rightarrow> bool" where
  "system_file v \<longleftrightarrow> (case v of JStr t \<Rightarrow> lower t = lower ''System/SYSTEM.json'' | _ \<Rightarrow> False)"

definition file_read :: "route_env \<Rightarrow> json option \<Rightarrow> router \<Rightarrow> routed" where
  "file_read E r s = (let start = (if tasks E ServerConnect_Que then [] else [Start_server]) in case r of
     Some (JObj ms) \<Rightarrow> (case ms of
         [] \<Rightarrow> (s\<lparr>route_end := Null_pointer\<rparr>, [])
       | m # ms' \<Rightarrow> (s, (if system_file (snd m) then own_properties ms' else []) @ start))
   | _ \<Rightarrow> (s, start))"

definition mail_read :: "route_env \<Rightarrow> json option \<Rightarrow> router \<Rightarrow> routed" where
  "mail_read E r s = (case r of
     Some (JObj ms) \<Rightarrow> (case text_cs r ''RESP'' of
         Some t \<Rightarrow> (if queues E Debug_Que then (s, [Debug_text t]) else (s\<lparr>route_end := Null_pointer\<rparr>, []))
       | None \<Rightarrow> (s, []))
   | _ \<Rightarrow> (s, []))"

definition array_of :: "json option \<Rightarrow> json list option" where
  "array_of j = (case j of Some (JArr xs) \<Rightarrow> Some xs | _ \<Rightarrow> None)"

definition file_list :: "route_env \<Rightarrow> json option \<Rightarrow> router \<Rightarrow> routed" where
  "file_list E r s = (case r of
     Some x \<Rightarrow> (s, if array_of (child x) \<noteq> None \<and> array_of (ci_item x ''files'') \<noteq> None then to_queue E Sync_Status_Que x else [])
   | None \<Rightarrow> (s, []))"

definition from_FILE_SYSTEM :: "route_env \<Rightarrow> json \<Rightarrow> router \<Rightarrow> routed" where
  "from_FILE_SYSTEM E j s = (let c = text_ci (Some j) ''COMMAND''; r = ci_item j ''RESPONSE'' in
     if c = Some ''READ'' then file_read E r s
     else if c = Some ''SMTP_READ'' then mail_read E r s
     else if c = Some ''GET_FILE_LIST'' then file_list E r s
     else (s, []))"

definition from_SQL :: "route_env \<Rightarrow> json \<Rightarrow> router \<Rightarrow> routed" where
  "from_SQL E j s = (let c = text_ci (Some j) ''COMMAND'' in (s,
     (case ci_item j ''RESPONSE'' of Some r \<Rightarrow>
        (if c = Some ''READ_DB_RECORDS'' \<and> has_ci r ''DB_NAME'' then to_queue E Record_Sync_new_Que r else []) @
        (if c = Some ''GET_SYNC_STATUS'' \<and> has_ci r ''SYNC_STATUS'' then to_queue E Sync_Status_Que r else [])
      | None \<Rightarrow> []) @
     on_command j ''SAVE_SRV_CONN'' (\<lambda>r. if has_text_ci r ''RESP'' then to_task E ServerConnect_Que r else [])))"

definition from_CONSOLE :: "route_env \<Rightarrow> json \<Rightarrow> router \<Rightarrow> routed" where
  "from_CONSOLE E j s = (let
     o1 = on_command j ''GET'' (\<lambda>r.
        (if has_text_ci r ''ETH_STATUS'' \<and> \<not> has_ci r ''ETH_UPDATE_TIME'' then to_task E ServerConnect_Que r @ to_task E MonSrvConn_Que r else []) @
        (if has_text_ci r ''ETH_UPDATE_TIME'' then to_queue E STATE_Que r else [])) in
     case text_response j of None \<Rightarrow> (s, o1) | Some r \<Rightarrow>
     (let o2 = (if has_text_ci r ''ENABLE_WIFI'' \<and> \<not> has_ci r ''ETH_UPDATE_TIME'' then to_task E ServerConnect_Que r @ to_task E TIMER_Que r else []) in
      case text_ci (Some r) ''NET_STATUS'' of
        Some t \<Rightarrow> (if 10 \<le> length t then (s\<lparr>route_end := Buffer_overrun\<rparr>, o1)
          else (s\<lparr>NET_status := wrap_u 8 ((case t of [] \<Rightarrow> 0 | x # _ \<Rightarrow> of_char x) - 48)\<rparr>, o1 @ to_task E ServerConnect_Que r @ o2))
      | None \<Rightarrow> (s, o1 @ o2)))"

definition from_WIFI :: "route_env \<Rightarrow> json \<Rightarrow> router \<Rightarrow> routed" where
  "from_WIFI E j s = (s,
     on_command j ''NETWORK_SCAN'' (\<lambda>r. if has_text_ci r ''SSID'' \<or> has_text_ci r ''NETWORK'' \<or> has_text_ci r ''ETHERNET'' then
        to_task E ServerConnect_Que r @ to_task E MonSrvConn_Que r else []) @
     on_command j ''EVENT'' (\<lambda>r. if has_text_ci r ''WIFI_CONNECTION_STATUS'' then to_task E ServerConnect_Que r @ to_task E MonSrvConn_Que r else []) @
     on_command j ''PING'' (\<lambda>r. if has_text_ci r ''RESP'' then to_task E ServerConnect_Que r else []) @
     on_command j ''AP_INFO'' (\<lambda>r. (if has_text_ci r ''SSID'' then to_task E MonSrvConn_Que r else []) @
        (if has_text_ci r ''ERROR'' then to_task E MonSrvConn_Que r else [])) @
     on_command j ''GET'' (\<lambda>r. (if has_text_ci r ''RESCUE_SSID'' then to_task E MonSrvConn_Que r else []) @
        (if has_text_ci r ''WIFI_DISCON_REASON'' then to_queue E STATE_Que r else [])) @
     on_command j ''SCAN'' (\<lambda>r. if has_text_ci r ''RESP'' then to_task E MonSrvConn_Que r else []) @
     on_command j ''RESCUE_SSID'' (\<lambda>r. if has_text_ci r ''RESP'' then to_task E MonSrvConn_Que r else []))"

definition from_ETH :: "route_env \<Rightarrow> json \<Rightarrow> router \<Rightarrow> routed" where
  "from_ETH E j s = (s,
     on_command j ''GET'' (\<lambda>r. if has_text_ci r ''STATUS'' then to_task E ServerConnect_Que r @ to_task E MonSrvConn_Que r else []) @
     on_command j ''PING'' (\<lambda>r. if has_text_ci r ''RESP'' then to_task E ServerConnect_Que r else []) @
     on_command j ''EVENT'' (\<lambda>r. if has_text_ci r ''ETH_CONNECTION_STATUS'' then to_task E ServerConnect_Que r @ to_task E MonSrvConn_Que r else []))"

text \<open>The cloud connection: when no monitor runs, a connection starts it and tells the connection task; a lost one is told to the connection
  task, or resets the stack when there is none.\<close>

definition connected_json :: json where "connected_json = JObj [(''IHUBRESP'', JStr ''CONNECTED'')]"

definition lost_json :: "int \<Rightarrow> json" where
  "lost_json n = JObj [(''IHUBRESP'', JStr ''DISCONNECTED''), (''ERROR_NUM_IHUB'', JNum (of_int n))]"

definition cloud_connected :: "route_env \<Rightarrow> route_out list" where
  "cloud_connected E = (if timer_runs E then [] else [Announce_timer True]) @ to_task E ServerConnect_Que connected_json @ [Start_monitor]"

definition cloud_lost :: "route_env \<Rightarrow> json \<Rightarrow> json \<Rightarrow> route_out list" where
  "cloud_lost E j r = (if timer_runs E then [Announce_timer False] else []) @
     (if tasks E ServerConnect_Que then
        to_task E ServerConnect_Que (lost_json (case number_ci (Some r) ''ERROR_NUM'' of Some n \<Rightarrow> wrap_u 16 n | None \<Rightarrow> 0))
      else if conn_flag E then map Out (Reset_Stack (Some j)) else [])"

definition cloud_status :: "route_env \<Rightarrow> json \<Rightarrow> json \<Rightarrow> string \<Rightarrow> route_out list" where
  "cloud_status E j r t = (if t = ''DISCONNECTED'' then [Out (Cmd (if ping_by_wifi E then ''WIFI'' else ''ETH'') ''PING'' ping_json)] else []) @
     (if \<not> tasks E MonSrvConn_Que then
        (if t = ''CONNECTED'' then cloud_connected E else if t = ''DISCONNECTED'' then cloud_lost E j r else [])
      else to_task E MonSrvConn_Que r)"

definition from_IHUB :: "route_env \<Rightarrow> json \<Rightarrow> router \<Rightarrow> routed" where
  "from_IHUB E j s = (s,
     on_command j ''GET'' (\<lambda>r.
        (if has_text_ci r ''STATUS'' \<and> \<not> has_ci r ''IHUB_UPDATE_TIME'' then to_task E MonSrvConn_Que r @ to_task E TIMER_Que r else []) @
        (if has_text_ci r ''IHUB_UPDATE_TIME'' then
           (if has_ci r ''IHUB_DISCON_REASON'' then to_task E STATE_Que r else to_task E TIMER_Que r) else [])) @
     (if text_ci (Some j) ''COMMAND'' = Some ''EVENT'' then (case ci_item j ''RESPONSE'' of None \<Rightarrow> [] | Some r \<Rightarrow>
        (let o1 = (case text_ci (Some r) ''IHUB_CONNECTION_STATUS'' of Some t \<Rightarrow> cloud_status E j r t | None \<Rightarrow> []) in
         o1 @ (case ci_item r ''TWIN_MESSAGE'' of
           Some (JObj ms) \<Rightarrow> (if queues E MonSrvConn_Que \<and> tasks E MonSrvConn_Que \<or> Start_monitor \<in> set o1 then
               [Queued MonSrvConn_Que (JObj [(''TWIN_MESSAGE'', JStr ''RECEIVED'')])] else [])
         | _ \<Rightarrow> []))) else []))"

definition from_BLE :: "route_env \<Rightarrow> json \<Rightarrow> router \<Rightarrow> routed" where
  "from_BLE E j s = (s,
     on_command j ''EVENT'' (\<lambda>r. if has_text_ci r ''CONNECTION_STATUS'' then to_task E ServerConnect_Que r else []) @
     on_command j ''ADVERT_START'' (\<lambda>r. if has_text_ci r ''RESP'' then to_task E ServerConnect_Que r else []) @
     on_command j ''GET'' (\<lambda>r. if has_text_ci r ''ADVERT_MODE'' then to_queue E STATE_Que r else []))"

definition from_SPIFFS :: "route_env \<Rightarrow> json \<Rightarrow> router \<Rightarrow> routed" where
  "from_SPIFFS E j s = (s,
     on_command j ''READ_PARA'' (\<lambda>r. if has_text_ci r ''FIRMWARE_VERSION'' then to_queue E SPIFFS_Que r else []) @
     on_command j ''GET'' (\<lambda>r. if has_text_ci r ''SPIFFS_STATUS'' then to_queue E STATE_Que r else []))"

text \<open>The local time and the times of sunrise and sunset, put together in one buffer of 50 characters.\<close>

definition time_text :: "json \<Rightarrow> router \<Rightarrow> routed" where
  "time_text r s = (let t1 = or_empty (text_ci (Some r) ''Local TIME''); t2 = or_empty (text_ci (Some r) ''SUNRISE Time'');
     t3 = or_empty (text_ci (Some r) ''SUNSET Time''); t = drop 8 t1 @ ''|'' @ t2 @ ''|'' @ t3 in
     if 30 \<le> length t1 \<or> 30 \<le> length t2 \<or> 30 \<le> length t3 then (s\<lparr>route_end := Buffer_overrun\<rparr>, [])
     else if has_ci r ''Local TIME'' \<and> has_ci r ''SUNRISE Time'' \<and> has_ci r ''SUNSET Time'' then
       (if 50 \<le> length t then (s\<lparr>route_end := Buffer_overrun\<rparr>, []) else (s\<lparr>localtime_str := t\<rparr>, []))
     else (s, []))"

definition from_EVENT_ACTOR :: "json \<Rightarrow> router \<Rightarrow> routed" where
  "from_EVENT_ACTOR j s = (if text_ci (Some j) ''COMMAND'' \<in> {Some ''EVENT'', Some ''GET_RTC_TIME''} then
     (case ci_item j ''RESPONSE'' of Some r \<Rightarrow> time_text r s | None \<Rightarrow> (s, [])) else (s, []))"

text \<open>A message without a payload is ignored, one that is not JSON is reported.\<close>

definition Analyse_Response :: "route_env \<Rightarrow> string \<Rightarrow> json option option \<Rightarrow> router \<Rightarrow> routed" where
  "Analyse_Response E src payload s = (if route_end s \<noteq> Routing then (s, []) else case payload of
     None \<Rightarrow> (s, [])
   | Some None \<Rightarrow> (s, [Out (Resp ''Invalid Json input'')])
   | Some (Some j) \<Rightarrow>
      (if src = ''HTTP'' then from_HTTP E j s
       else if src = ''FILE_SYSTEM'' then from_FILE_SYSTEM E j s
       else if src = ''SQL'' then from_SQL E j s
       else if src = ''CONSOLE'' then from_CONSOLE E j s
       else if src = ''WIFI'' then from_WIFI E j s
       else if src = ''ETH'' then from_ETH E j s
       else if src = ''IHUB'' then from_IHUB E j s
       else if src = ''BLE'' then from_BLE E j s
       else if src = ''SPIFFS'' then from_SPIFFS E j s
       else if src = ''EVENT_ACTOR'' then from_EVENT_ACTOR j s
       else (s, [])))"

definition route_boot :: router where
  "route_boot = \<lparr>route_end = Routing, NET_status = - 1, localtime_str = []\<rparr>"

section \<open>Only tasks that run are written to\<close>

definition served :: "route_env \<Rightarrow> route_out list \<Rightarrow> bool" where
  "served E os \<longleftrightarrow> (\<forall>q j. Queued q j \<in> set os \<longrightarrow> q \<in> {ServerConnect_Que, TIMER_Que} \<longrightarrow> queues E q \<and> tasks E q) \<and>
     (\<forall>j. Queued MonSrvConn_Que j \<in> set os \<longrightarrow> queues E MonSrvConn_Que \<and> tasks E MonSrvConn_Que \<or> Start_monitor \<in> set os)"

lemma served_parts [simp]:
  "served E []" "served E (to_task E q r)" "served E [Start_server]" "served E [Debug_text t]" "served E [Ack_server t]" "served E (map Out xs)"
  "served E [Out x]" "served E [Announce_timer b]" "served E [Start_monitor]" "served E (own_properties ms)"
  by (auto simp: served_def to_task_def own_properties_def split: json.split_asm)

lemma served_queue [simp]: "q \<noteq> ServerConnect_Que \<Longrightarrow> q \<noteq> TIMER_Que \<Longrightarrow> q \<noteq> MonSrvConn_Que \<Longrightarrow> served E (to_queue E q r)"
  by (auto simp: served_def to_queue_def)

lemma served_append: "served E xs \<Longrightarrow> served E ys \<Longrightarrow> served E (xs @ ys)"
  by (auto simp: served_def)

lemma served_command: "(\<And>r. served E (f r)) \<Longrightarrow> served E (on_command j c f)"
  by (simp add: on_command_def split: option.split)

lemma served_connected: "served E (cloud_connected E)"
  by (simp add: cloud_connected_def served_append)

lemma served_lost: "served E (cloud_lost E j r)"
  by (simp add: cloud_lost_def served_append)

lemma served_status: "served E (cloud_status E j r t)"
  by (simp add: cloud_status_def served_append served_connected served_lost)

lemma served_ihub: "served E (snd (from_IHUB E j s))"
proof -
  have 1: "served E (on_command j ''GET'' (\<lambda>r.
        (if has_text_ci r ''STATUS'' \<and> \<not> has_ci r ''IHUB_UPDATE_TIME'' then to_task E MonSrvConn_Que r @ to_task E TIMER_Que r else []) @
        (if has_text_ci r ''IHUB_UPDATE_TIME'' then
           (if has_ci r ''IHUB_DISCON_REASON'' then to_task E STATE_Que r else to_task E TIMER_Que r) else [])))"
    by (rule served_command) (simp add: served_append)
  have 2: "served E (o1 @ (case x of Some (JObj ms) \<Rightarrow> (if queues E MonSrvConn_Que \<and> tasks E MonSrvConn_Que \<or> Start_monitor \<in> set o1 then
      [Queued MonSrvConn_Que y] else []) | _ \<Rightarrow> []))" if "served E o1" for o1 x y
    using that by (auto simp: served_def split: option.splits json.splits)
  have 3: "served E (case u of Some t \<Rightarrow> cloud_status E j r t | None \<Rightarrow> [])" for u r by (simp add: served_status split: option.split)
  show ?thesis unfolding from_IHUB_def snd_conv
    using 2[OF 3] by (intro served_append 1) (simp add: Let_def split: option.split)
qed

lemma served_answer: "served E (snd (Analyse_Response E src payload s))"
proof -
  have 1: "served E (snd (from_HTTP E j s))" for j
    by (simp add: from_HTTP_def served_append served_command Let_def split: option.split json.split)
  have 2: "served E (snd (from_FILE_SYSTEM E j s))" for j
    by (simp add: from_FILE_SYSTEM_def file_read_def mail_read_def file_list_def served_append Let_def split: option.split json.split list.split)
  have 3: "served E (snd (from_SQL E j s))" for j
    by (simp add: from_SQL_def served_append served_command Let_def split: option.split)
  have 4: "served E (snd (from_CONSOLE E j s))" for j
    by (simp add: from_CONSOLE_def served_append served_command Let_def split: option.split)
  have 5: "served E (snd (from_WIFI E j s))" "served E (snd (from_ETH E j s))" "served E (snd (from_BLE E j s))" "served E (snd (from_SPIFFS E j s))" for j
    by (simp_all add: from_WIFI_def from_ETH_def from_BLE_def from_SPIFFS_def served_append served_command)
  have 6: "snd (from_EVENT_ACTOR j s) = []" for j by (simp add: from_EVENT_ACTOR_def time_text_def Let_def split: option.split)
  show ?thesis by (simp add: Analyse_Response_def 1 2 3 4 5 6 served_ihub split: option.split)
qed

section \<open>The cloud connection\<close>

definition cloud_event :: "json \<Rightarrow> json \<Rightarrow> string \<Rightarrow> bool" where
  "cloud_event j r t \<longleftrightarrow> text_ci (Some j) ''COMMAND'' = Some ''EVENT'' \<and> ci_item j ''RESPONSE'' = Some r \<and>
     text_ci (Some r) ''IHUB_CONNECTION_STATUS'' = Some t \<and> text_cs (Some r) ''IHUB_CONNECTION_STATUS'' = Some t \<and> ci_item r ''TWIN_MESSAGE'' = None"

lemma cloud_answer:
  assumes "cloud_event j r t" "route_end s = Routing"
  shows "Analyse_Response E ''IHUB'' (Some (Some j)) s = (s, cloud_status E j r t)"
  using assms by (simp add: Analyse_Response_def from_IHUB_def cloud_event_def on_command_def Let_def)

definition route_commands :: "route_out list \<Rightarrow> (string \<times> string \<times> json option) list" where
  "route_commands os = concat (map (\<lambda>x. case x of Out (Cmd a f p) \<Rightarrow> [(a, f, p)] | _ \<Rightarrow> []) os)"

lemma route_commands_simps [simp]:
  "route_commands [] = []" "route_commands (xs @ ys) = route_commands xs @ route_commands ys"
  "route_commands (x # xs) = (case x of Out (Cmd a f p) \<Rightarrow> [(a, f, p)] | _ \<Rightarrow> []) @ route_commands xs"
  by (simp_all add: route_commands_def)

lemma task_commands [simp]: "route_commands (to_task E q r) = []"
  by (simp add: to_task_def)

lemma reset_route_commands: "reset_time j = 0 \<Longrightarrow> route_commands (map Out (Reset_Stack j)) = reset_commands"
  by (simp add: Reset_Stack_def reset_commands_def)

text \<open>A message of another actor, routed and then handled by the tasks it reaches; the connection task has a silent turn after it.  The result
  are the monitor, the connection task, and all commands that were sent.\<close>

definition queued :: "queue \<Rightarrow> route_out list \<Rightarrow> json list" where
  "queued q os = concat (map (\<lambda>x. case x of Queued q' j \<Rightarrow> if q' = q then [j] else [] | _ \<Rightarrow> []) os)"

definition watch_turn_env :: "route_env \<Rightarrow> int \<Rightarrow> json \<Rightarrow> mon_env" where
  "watch_turn_env E t x = \<lparr>mon_message = Some x, mon_now = t, mon_flag = conn_flag E, periodic_active = timer_runs E\<rparr>"

definition conn_turn_env :: "route_env \<Rightarrow> int \<Rightarrow> json option option \<Rightarrow> conn_env" where
  "conn_turn_env E t x = \<lparr>message = x, now = t, DeviceAnnounce_URL = [], APIkey = [], Server_Conn_Flag = conn_flag E,
     MonSrvConn_running = tasks E MonSrvConn_Que, timer_5_active = False\<rparr>"

definition handled :: "route_env \<Rightarrow> int \<Rightarrow> string \<Rightarrow> json \<Rightarrow> router \<Rightarrow> mon \<Rightarrow> conn \<Rightarrow> mon \<times> conn \<times> (string \<times> string \<times> json option) list" where
  "handled E t src j s m c = (let os = snd (Analyse_Response E src (Some (Some j)) s);
     (m', om) = run_events MonSrvConn_turn m (map (watch_turn_env E t) (queued MonSrvConn_Que os));
     (c', oc) = run_events Server_Connect_turn c (map (\<lambda>x. conn_turn_env E t (Some (Some x))) (queued ServerConnect_Que os) @ [conn_turn_env E t None]) in
     (m', c', route_commands os @ mon_commands om @ commands_sent oc))"

lemma queued_simps [simp]:
  "queued q [] = []" "queued q (xs @ ys) = queued q xs @ queued q ys"
  "queued q (x # xs) = (case x of Queued q' j \<Rightarrow> if q' = q then [j] else [] | _ \<Rightarrow> []) @ queued q xs"
  by (simp_all add: queued_def)

lemma queued_task [simp]: "queued q (to_task E q' r) = (if q' = q \<and> queues E q \<and> tasks E q then [r] else [])"
  by (simp add: to_task_def)

lemma queued_outs [simp]: "queued q (map Out xs) = []"
  by (induction xs) simp_all

lemma no_reinit: "text_ci (Some connected_json) ''REINIT'' = None" "text_ci (Some (lost_json n)) ''REINIT'' = None"
proof -
  have l: "lower ''IHUBRESP'' \<noteq> lower ''REINIT''" "lower ''ERROR_NUM_IHUB'' \<noteq> lower ''REINIT''" by code_simp+
  show "text_ci (Some connected_json) ''REINIT'' = None" "text_ci (Some (lost_json n)) ''REINIT'' = None"
    using l by (simp_all add: connected_json_def lost_json_def text_ci_def ci_item_def string_of_def)
qed

lemma told: "text_ci (Some connected_json) ''IHUBRESP'' = Some ''CONNECTED''" "text_ci (Some (lost_json n)) ''IHUBRESP'' = Some ''DISCONNECTED''"
  by (simp_all add: connected_json_def lost_json_def text_ci_def ci_item_def string_of_def)

lemma told_reply: "reply (conn_turn_env E t (Some (Some connected_json))) connected_json = conn_flag E"
  "reply (conn_turn_env E t (Some (Some (lost_json n)))) (lost_json n) = conn_flag E"
  by (simp_all add: reply_def conn_turn_env_def no_reinit) (simp_all add: connected_json_def lost_json_def is_object_def)

text \<open>A waiting connection task that is told of the loss fails, and resets the stack in its next turn.\<close>

lemma told_lost:
  assumes "conn_flag E" "\<not> tasks E MonSrvConn_Que" "task_end c = Running" "state c = STATE_WAITING_FOR_IHUB_RESPONSE"
  shows "commands_sent (snd (run_events Server_Connect_turn c [conn_turn_env E t (Some (Some (lost_json n))), conn_turn_env E t None])) = reset_commands \<and>
    state (fst (run_events Server_Connect_turn c [conn_turn_env E t (Some (Some (lost_json n))), conn_turn_env E t None])) = STATE_CHECK_CREDENTIALS"
proof -
  let ?E1 = "conn_turn_env E t (Some (Some (lost_json n)))" and ?E2 = "conn_turn_env E t None"
  have g: "goes_on c ?E1 (Some (lost_json n)) (c\<lparr>Current_State := state_text (state c) (Current_State c)\<rparr>)"
    using assms by (intro reply_go) (simp_all add: told_reply overruns_def too_long_def told)
  have 1: "task_end (fst (Server_Connect_turn c ?E1)) = Running" "state (fst (Server_Connect_turn c ?E1)) = STATE_FAILED_11"
    "commands_sent (snd (Server_Connect_turn c ?E1)) = []"
    unfolding turn_eq[OF g] using assms
    by (simp_all add: handle_state_def handle_waiting_for_ihub_response_def told or_empty_def conn_turn_env_def Let_def)
  have s: "silent ?E2" using assms by (simp add: silent_def conn_turn_env_def)
  have "state (fst (Server_Connect_turn c' ?E2)) = STATE_CHECK_CREDENTIALS \<and> commands_sent (snd (Server_Connect_turn c' ?E2)) = reset_commands"
    if "task_end c' = Running" "state c' = STATE_FAILED_11" for c'
    using that by (simp add: turn_eq[OF silent_go[OF s that(1)]] handle_state_def handle_failed_state_def Reset_Stack_def reset_answer
        reset_commands_def Let_def)
  then show ?thesis using 1 by (simp add: Let_def case_prod_beta)
qed

lemma reset_last: "(''SYSTEM'', ''SERVER_CONNECT'', None) \<in> set reset_commands"
  by (simp add: reset_commands_def)

section \<open>Properties\<close>

text \<open>C7: While the flag for server connections is enabled, a lost connection to the cloud is always followed by the command to connect again: by the monitor when it runs, else by the connection
  task, which fails its wait, and by the router itself when neither runs.\<close>

theorem lost_cloud_reconnects:
  assumes "cloud_event j r ''DISCONNECTED''" "reset_time (Some j) = 0" "route_end s = Routing" "conn_flag E"
    and "queues E ServerConnect_Que" "queues E MonSrvConn_Que"
    and "mon_end m = Running" "task_end c = Running" "state c = STATE_WAITING_FOR_IHUB_RESPONSE"
  shows "(''SYSTEM'', ''SERVER_CONNECT'', None) \<in> set (snd (snd (handled E t ''IHUB'' j s m c)))"
proof -
  note a = cloud_answer[OF assms(1,3), of E]
  consider (watched) "tasks E MonSrvConn_Que" | (waiting) "\<not> tasks E MonSrvConn_Que" "tasks E ServerConnect_Que"
    | (alone) "\<not> tasks E MonSrvConn_Que" "\<not> tasks E ServerConnect_Que" by blast
  then show ?thesis
  proof cases
    case watched
    have "mon_commands (snd (MonSrvConn_turn m (watch_turn_env E t r))) = reset_commands"
      using assms(1,4,7) lost_turn[of m "watch_turn_env E t r" r] by (simp add: watch_turn_env_def cloud_event_def)
    then show ?thesis using watched assms(6) reset_last by (simp add: handled_def a cloud_status_def Let_def case_prod_beta)
  next
    case waiting
    define n where "n = (case number_ci (Some r) ''ERROR_NUM'' of Some n \<Rightarrow> wrap_u 16 n | None \<Rightarrow> 0)"
    have "queued ServerConnect_Que (cloud_status E j r ''DISCONNECTED'') = [lost_json n]"
      using waiting assms(5) by (simp add: cloud_status_def cloud_lost_def n_def)
    then show ?thesis using told_lost[OF assms(4) waiting(1) assms(8,9), of t n] reset_last
      by (simp add: handled_def a Let_def case_prod_beta del: run_events.simps)
  next
    case alone
    have "set reset_commands \<subseteq> set (route_commands (cloud_status E j r ''DISCONNECTED''))"
      using alone assms(2,4) by (auto simp: cloud_status_def cloud_lost_def reset_route_commands)
    then show ?thesis using reset_last by (auto simp: handled_def a Let_def case_prod_beta)
  qed
qed

text \<open>C19: When the cloud connection comes up, the waiting connection task ends connected, without a further command, and the monitor is
  started; the monitor's first turn asks for the state of the connection.\<close>

theorem cloud_connection_handed_over:
  assumes "cloud_event j r ''CONNECTED''" "route_end s = Routing" "conn_flag E" "queues E ServerConnect_Que" "tasks E ServerConnect_Que"
    and "\<not> tasks E MonSrvConn_Que" "task_end c = Running" "state c = STATE_WAITING_FOR_IHUB_RESPONSE"
  shows "Start_monitor \<in> set (snd (Analyse_Response E ''IHUB'' (Some (Some j)) s)) \<and>
    (case handled E t ''IHUB'' j s m c of (m', c', cs) \<Rightarrow> task_end c' = Ended \<and> state c' = STATE_CONNECTED \<and> cs = []) \<and>
    mon_commands (snd (MonSrvConn_turn (mon_start m) \<lparr>mon_message = None, mon_now = t, mon_flag = True, periodic_active = True\<rparr>)) =
      [(''IHUB'', ''GET'', names_json [''STATUS''])]"
proof -
  note a = cloud_answer[OF assms(1,2), of E]
  let ?E1 = "conn_turn_env E t (Some (Some connected_json))" and ?E2 = "conn_turn_env E t None"
  have st: "cloud_status E j r ''CONNECTED'' = cloud_connected E" using assms(6) by (simp add: cloud_status_def)
  have q: "queued ServerConnect_Que (cloud_connected E) = [connected_json]" "queued MonSrvConn_Que (cloud_connected E) = []"
    "route_commands (cloud_connected E) = []" "Start_monitor \<in> set (cloud_connected E)"
    using assms(4,5) by (simp_all add: cloud_connected_def)
  have 1: "task_end (fst (Server_Connect_turn c ?E1)) = Ended \<and> state (fst (Server_Connect_turn c ?E1)) = STATE_CONNECTED \<and>
      commands_sent (snd (Server_Connect_turn c ?E1)) = []"
    using assms(3) by (intro arrive[OF _ told(1) assms(7,8)]) (simp add: told_reply)
  have "Server_Connect_turn c' ?E2 = (c', [])" if "task_end c' = Ended" for c' using that by (simp add: Server_Connect_turn_def)
  then have "case handled E t ''IHUB'' j s m c of (m', c', cs) \<Rightarrow> task_end c' = Ended \<and> state c' = STATE_CONNECTED \<and> cs = []"
    using 1 by (simp add: handled_def a st q Let_def case_prod_beta)
  moreover have "mon_commands (snd (MonSrvConn_turn (mon_start m) \<lparr>mon_message = None, mon_now = t, mon_flag = True, periodic_active = True\<rparr>)) =
      [(''IHUB'', ''GET'', names_json [''STATUS''])]"
    by (subst idle_turn) (simp_all add: mon_start_def)
  ultimately show ?thesis using q(4) by (simp add: a st)
qed

section \<open>Concrete messages\<close>

definition demo_cloud :: "string \<Rightarrow> json" where
  "demo_cloud t = JObj [(''COMMAND'', JStr ''EVENT''), (''RESPONSE'', JObj [(''IHUB_CONNECTION_STATUS'', JStr t)])]"

definition demo_route :: "bool \<Rightarrow> route_env" where
  "demo_route watched = \<lparr>queues = (\<lambda>q. True), tasks = (\<lambda>q. q \<noteq> MonSrvConn_Que \<or> watched), conn_flag = True, timer_runs = False, ping_by_wifi = True\<rparr>"

lemma demo_cloud_event: "cloud_event (demo_cloud t) (JObj [(''IHUB_CONNECTION_STATUS'', JStr t)]) t" "reset_time (Some (demo_cloud t)) = 0"
proof -
  have l: "lower ''COMMAND'' \<noteq> lower ''RESPONSE''" "lower ''IHUB_CONNECTION_STATUS'' \<noteq> lower ''TWIN_MESSAGE''"
    "lower ''COMMAND'' \<noteq> lower ''RESET_TIME''" "lower ''RESPONSE'' \<noteq> lower ''RESET_TIME''" by code_simp+
  show "cloud_event (demo_cloud t) (JObj [(''IHUB_CONNECTION_STATUS'', JStr t)]) t"
    using l by (simp add: cloud_event_def demo_cloud_def text_ci_def text_cs_def ci_item_def cs_item_def string_of_def)
  show "reset_time (Some (demo_cloud t)) = 0"
    using l by (simp add: reset_time_def demo_cloud_def number_ci_def number_in_def ci_item_def number_of_def)
qed

theorem lost_cloud_reconnects_witness:
  "(''SYSTEM'', ''SERVER_CONNECT'', None) \<in> set (snd (snd (handled (demo_route True) 100 ''IHUB'' (demo_cloud ''DISCONNECTED'') route_boot mon_boot
     (conn_boot\<lparr>state := STATE_WAITING_FOR_IHUB_RESPONSE\<rparr>))))"
  by (rule lost_cloud_reconnects[OF demo_cloud_event]) (simp_all add: demo_route_def route_boot_def mon_boot_def conn_boot_def)

theorem cloud_connection_handed_over_witness:
  "Start_monitor \<in> set (snd (Analyse_Response (demo_route False) ''IHUB'' (Some (Some (demo_cloud ''CONNECTED''))) route_boot))"
  using cloud_connection_handed_over[OF demo_cloud_event(1), of route_boot "demo_route False" "conn_boot\<lparr>state := STATE_WAITING_FOR_IHUB_RESPONSE\<rparr>"]
  by (simp add: demo_route_def route_boot_def conn_boot_def)

end
