(* ===== verification/Spec2Isabelle.thy ===== *)
theory Spec2Isabelle
  imports BSP_Send BSP_File Console_Route Sched_Runs Ntp Pushbutton Ble_Json Script_Exec Led Digital_Input Event_Settings System_Router
begin

text \<open>
  A verification library for the firmware of the Blackbird controller (ESP32-S3).  The firmware is a set of actors: tasks
  with a queue each, static variables, and a console that routes named messages between them.  A telephone
  application talks to it over Bluetooth through a reliable byte link of its own; a serial port and files of
  commands feed the console; a scheduler runs stored scripts by the clock, which a battery clock chip and
  network time keep right.

  Theories and the code they model (file and function names are those under main/):

  \<^item> Prelude: word widths, little-endian codecs, and the interfaces of the library.  stream_consumer is what every
    reader of a byte stream promises (how the stream is cut does not matter); event_machine and
    refined_machine are what a task that steps from event to event promises (an invariant; an abstract machine it implements).
    Each is interpreted on the code's own functions in the theory of the component.
  \<^item> BSP_Crc, BSP_Record, BSP_Link, BSP_Send, BSP_File (ble/bsp.c, ble/gatt_service.c, ble/bsp_file.c): the two
    checksums; the reassembly of records from frames; acceptance, acknowledgement and batching of frames; cutting
    records into frames; upload and download of files.  The lemmas show that the channel handlers get exactly the
    records that were sent, in order and once, whatever the radio loses or repeats, that corruption is
    detected, that buffers stay in bounds, and that uploads stay below their root.
  \<^item> Uart_Frame, Console_Route (UART_Actor.c, split_argv.c, console_actor.c): the scanner that finds commands in
    the serial stream, and the way from a command line to a message for an actor.
  \<^item> Calendar, Holidays, Schedule_Range, Scheduler, Sched_Runs (EVENT_Actor.c): date conversion and the tables of
    daylight saving and holidays against the Gregorian calendar; the window of a schedule entry; one turn of the
    scheduler; runs of turns with the real clock and in a time warp.
  \<^item> Rtc, Ntp (rtc/pcf8563.c, console_actor.c, NTP_Actor.c): the clock chip's registers, the millisecond clock,
    and the synchronisation cycle with its filters, drift and history.
  \<^item> Pushbutton (Pushbutton_Actor.c): debouncing, tap and hold sequences and their actions, as a task that
    implements an abstract recogniser.
  \<^item> Decimal, M225_Tables, Model225 (195_Actor.c, 195_Actor.h, ble/m225_methods.c, ble/nxp_bridge.c): the
    configuration store of the Model 225 indicator.  The struct is a map from field names to typed values and the
    chains of name comparisons are association lists in the order of the source; checks over these tables give that every
    settable property is read from the field it is written to, with the type of the struct.
  \<^item> Json_Data, Menu_Tables, Menu, Ble_Ota, Ble_Json (BLE_Actor.c, ble/menu_builder.c): the commands of the application.  JSON values are
    a datatype with rational numbers, which the C code prints with %g; parsing and printing are parameters.  Menu_Tables has
    every menu function and the dispatch, Menu what they show and offer against the configuration store; Ble_Ota the firmware update by
    chunks as an abstract session; Ble_Json the handler of a record with its phases, and that each numbered command
    is answered once.
  \<^item> Schedule_Load, Script_Exec, Event_Settings (EVENT_Actor.c): loading the schedule table from the database in batches, the
    commands that queue scenes, events and actions, the task that executes scripts, and the settings with their file.  The database is a
    function from queries to the texts it answers with.  The lemmas show that the table holds the rows of the database, what a script
    runs and when it returns, and that settings survive restarts.
  \<^item> Jfs_Variables (JFS_FLASH_Actor.c, File_Manager_Actor.c): the command WRITE_VAR, which merges variables into the object of a file.  The
    file system is a parameter; the settings of the scheduler are kept through it.
  \<^item> Led, Digital_Input (LED_Actor.c, B394_DigitalInput.c): the lamps, as a task whose turns are given the clock's readings, and the debounced
    inputs with the codes of their combinations.
  \<^item> Server_Connect, Server_Monitor, System_Router (SYSTEM_Actor.c): the task that connects to the server, the task that watches the
    connection, and the distribution of the answers of the other actors to the queues of both.  A turn is one reception with what it
    finds (the parsed text, the clock, the flags); its other events are its creation, the timer that clears the pause before
    announcements, and a client that sets it; the composition hands the routed answers to the turns of the tasks they reach.  The lemmas show the way to the
    server and its commands, the pauses before announcements, how long each state waits, that the monitor ends only with a new
    connection, the way back to the rescue network, and that a lost cloud connection is always followed by a new one.
  How state corresponds: the static variables of a file are one record, with the source's names; a task's loop body is a
  function from that record and an event to the next record and the list of messages it sends; errors are options
  or result values; machine integers are words where their width matters and integers where the code's values
  are known to stay in range.  Code that is not in the repository (the heap, the file system, the flash,
  the radio, the I2C bus, timers, the JSON library, the update library, sunrise tables) is a parameter, and what is assumed of it
  is written in the statement.  Floating point is abstract: only atof and the general format of printf are used of it.

  Bounds and fuel: no model uses fuel.  Loops over buffers and tables are structural; the waiting loops of the clock chip
  are given the readings they make.  The loops of the script executor wait for as long as their count is
  positive; they are partial functions whose value is None when they never return, and that they return, or do not, is proved from the
  database's rows and the verdicts on their commands.  The scheduler's runs are lists of the times of its turns, and the liveness results state
  how close those must be; the timing results of the indicator and of the inputs are likewise about any list of turns.

  Interfaces: stream_consumer is interpreted for the two checksums, the reassembler and the command scanner; event_machine for the
  configuration store, the indicator, the connection task and the monitor (an invariant kept by every event, and everything written kept in bounds); refined_machine for the
  push buttons, the firmware update and the digital inputs (the task implements an abstract recogniser, session or debouncer).

  Not modelled: the vendor file system, SQLite, the cloud SDKs and the network stack (third-party code); the network
  and storage actors, which are glue between those and the console (sockets, drivers, names mapped to calls of the platform, texts); of
  the system actor, its property tables and the tasks that copy records and logs to the server;
  the lighting engine, which this build does not compile; of the indicator, the floating point behind the three colour bytes of transfers (the bytes are inputs) and
  the drivers; of the digital inputs, the HTTP post; of the scheduler, the trigonometry of sunrise and sunset and its help texts;
  the format of JSON texts, whose library is a parameter.
\<close>

end
